(* ===== verification/Prelude.thy ===== *)
theory Prelude
  imports Main "HOL-Library.Word" "HOL-Library.Char_ord" "HOL-Library.List_Lexorder"
    "HOL-Library.Product_Lexorder" "HOL-Library.Multiset"
begin

text \<open>
  Shared vocabulary of the development: byte strings, Go errors as format templates with their
  arguments, the error-or-value result with its sequencing combinators, and the list facts about
  sorting, de-duplication and canonical orders that the components share.

  A Go \<open>string\<close> and a Go \<open>[]byte\<close> are both sequences of bytes; both are modelled by HOL's
  \<open>string\<close>, whose characters are the 256 byte values.  The order on strings is the bytewise
  lexicographic order, which is Go's \<open><\<close> and \<open>strings.Compare\<close>.
\<close>

section \<open>Vocabulary\<close>

named_theorems codec_simps \<open>length and inverse laws of the encoders\<close>
named_theorems result_elims \<open>inversion of successful error-or-value computations\<close>
named_theorems canon_simps \<open>facts about canonical (sorted, duplicate-free) lists\<close>

type_synonym bytes = string
type_synonym digest = "256 word"
type_synonym u64 = "64 word"
type_synonym u32 = "32 word"

subsection \<open>Errors\<close>

text \<open>
  An error value is the format string passed to \<open>fmt.Errorf\<close> or \<open>errors.New\<close> with its arguments.
  \<open>AWrap\<close> is an argument of \<open>%w\<close> (visible to \<open>errors.Is\<close>), \<open>AErr\<close> an error printed with \<open>%v\<close>.
\<close>

datatype gerror = Err string "garg list"
  and garg = AStr string | AInt int | AErr gerror | AWrap gerror

abbreviation err :: "string \<Rightarrow> gerror" where
  "err m \<equiv> Err m []"

text \<open>\<open>errors.Is\<close>: the error itself or anything it wraps with \<open>%w\<close>.\<close>

primrec errors_is :: "gerror \<Rightarrow> gerror \<Rightarrow> bool"
  and arg_is :: "garg \<Rightarrow> gerror \<Rightarrow> bool" where
  "errors_is (Err m args) t \<longleftrightarrow> Err m args = t \<or> list_ex (\<lambda>f. f t) (map arg_is args)"
| "arg_is (AStr s) t \<longleftrightarrow> False"
| "arg_is (AInt i) t \<longleftrightarrow> False"
| "arg_is (AErr e) t \<longleftrightarrow> False"
| "arg_is (AWrap e) t \<longleftrightarrow> errors_is e t"

lemma errors_is_refl [simp]: "errors_is e e"
  by (cases e) simp

subsection \<open>Error-or-value results\<close>

type_synonym 'a result = "gerror + 'a"

definition bindE :: "'err + 'v \<Rightarrow> ('v \<Rightarrow> 'err + 'w) \<Rightarrow> 'err + 'w" where
  "bindE outcome continue = (case outcome of Inr v \<Rightarrow> continue v | Inl failure \<Rightarrow> Inl failure)"

text \<open>\<open>if err := a; err != nil { return err }; b\<close>\<close>

abbreviation seqE :: "'e + unit \<Rightarrow> 'e + 'b \<Rightarrow> 'e + 'b" where
  "seqE a b \<equiv> bindE a (\<lambda>_. b)"

text \<open>\<open>if bad { return e }\<close>\<close>

definition failIf :: "bool \<Rightarrow> 'e \<Rightarrow> 'e + unit" where
  "failIf bad e = (if bad then Inl e else Inr ())"

text \<open>A loop whose body may return an error.\<close>

fun foldE :: "('s \<Rightarrow> 'a \<Rightarrow> 'e + 's) \<Rightarrow> 's \<Rightarrow> 'a list \<Rightarrow> 'e + 's" where
  "foldE f s [] = Inr s"
| "foldE f s (x # xs) = bindE (f s x) (\<lambda>s'. foldE f s' xs)"

text \<open>A loop that only checks.\<close>

fun allE :: "('a \<Rightarrow> 'e + unit) \<Rightarrow> 'a list \<Rightarrow> 'e + unit" where
  "allE f [] = Inr ()"
| "allE f (x # xs) = seqE (f x) (allE f xs)"

text \<open>A loop that collects results in order.\<close>

fun mapE :: "('a \<Rightarrow> 'e + 'b) \<Rightarrow> 'a list \<Rightarrow> 'e + 'b list" where
  "mapE f [] = Inr []"
| "mapE f (x # xs) = bindE (f x) (\<lambda>y. bindE (mapE f xs) (\<lambda>ys. Inr (y # ys)))"

lemma bindE_simps [simp]: "bindE (Inl e) f = Inl e" "bindE (Inr a) f = f a"
  by (simp_all add: bindE_def)

lemma bindE_eq_Inr [simp]: "bindE m f = Inr b \<longleftrightarrow> (\<exists>a. m = Inr a \<and> f a = Inr b)"
  by (cases m) simp_all

lemma bindE_eq_Inl: "bindE m f = Inl e \<longleftrightarrow> m = Inl e \<or> (\<exists>a. m = Inr a \<and> f a = Inl e)"
  by (cases m) simp_all

lemma failIf_eq_Inr [simp]: "failIf bad e = Inr u \<longleftrightarrow> \<not> bad"
  by (simp add: failIf_def)

lemma failIf_eq_Inl [simp]: "failIf bad e = Inl e' \<longleftrightarrow> bad \<and> e' = e"
  by (auto simp: failIf_def)

lemma failIf_simps [simp]: "failIf True e = Inl e" "failIf False e = Inr ()"
  by (simp_all add: failIf_def)

lemma allE_eq_Inr [simp]: "allE f xs = Inr u \<longleftrightarrow> (\<forall>x\<in>set xs. f x = Inr ())"
  by (induction xs) auto

lemma allE_eq_Inl: "allE f xs = Inl e \<Longrightarrow> \<exists>x\<in>set xs. f x = Inl e"
  by (induction xs) (auto simp: bindE_eq_Inl)

lemma allE_cong [fundef_cong]:
  "xs = ys \<Longrightarrow> (\<And>x. x \<in> set ys \<Longrightarrow> f x = g x) \<Longrightarrow> allE f xs = allE g ys"
  by (induction xs arbitrary: ys) auto

lemma mapE_eq_Inr: "mapE f xs = Inr ys \<longleftrightarrow> list_all2 (\<lambda>x y. f x = Inr y) xs ys"
  by (induction xs arbitrary: ys) (auto simp: list_all2_Cons1)

lemma foldE_append: "foldE f s (xs @ ys) = bindE (foldE f s xs) (\<lambda>s'. foldE f s' ys)"
proof (induction xs arbitrary: s)
  case (Cons x xs)
  then show ?case by (cases "f s x") simp_all
qed simp

text \<open>An invariant kept by every successful iteration holds after the loop.\<close>

lemma foldE_invariant:
  assumes "foldE f s xs = Inr s'" and "P s"
    and "\<And>s x t. x \<in> set xs \<Longrightarrow> P s \<Longrightarrow> f s x = Inr t \<Longrightarrow> P t"
  shows "P s'"
  using assms
proof (induction xs arbitrary: s)
  case (Cons x xs)
  then obtain t where "f s x = Inr t" "foldE f t xs = Inr s'" by auto
  with Cons show ?case by (metis list.set_intros(1) list.set_intros(2))
qed simp

text \<open>Two loops over the same list whose bodies agree: both fail, or both end in related states.\<close>

abbreviation sim :: "('a \<Rightarrow> 'b \<Rightarrow> bool) \<Rightarrow> 'a result \<Rightarrow> 'b result \<Rightarrow> bool" where
  "sim R \<equiv> rel_sum (\<lambda>_ _. True) R"

lemma sim_bindE:
  assumes "sim R m n" and "\<And>a b. R a b \<Longrightarrow> sim S (f a) (g b)"
  shows "sim S (bindE m f) (bindE n g)"
  using assms by (cases m; cases n) auto

lemma foldE_sim:
  assumes "R s t" and "\<And>s t x. x \<in> set xs \<Longrightarrow> R s t \<Longrightarrow> sim R (f s x) (g t x)"
  shows "sim R (foldE f s xs) (foldE g t xs)"
  using assms
proof (induction xs arbitrary: s t)
  case (Cons x xs)
  show ?case unfolding foldE.simps
  proof (rule sim_bindE)
    show "sim R (f s x) (g t x)" using Cons.prems by simp
  next
    fix a b assume "R a b"
    then show "sim R (foldE f a xs) (foldE g b xs)" using Cons by simp
  qed
qed simp

end
