(* ===== verification/Codec.thy ===== *)
theory Codec
  imports Prelude
begin

text \<open>
  The byte-level encoders of Go's standard library that the review package uses: big-endian
  integers (\<open>encoding/binary\<close>), hexadecimal (\<open>encoding/hex\<close>) and padded base64
  (\<open>encoding/base64.StdEncoding\<close>), each with its width and its inverse law; and the locale of
  uniquely decodable encodings, from which the injectivity of every framed identity schema follows.
\<close>

section \<open>Big-endian integers\<close>

text \<open>
  \<open>be_bytes k n\<close> is \<open>n\<close> modulo \<open>256^k\<close> in \<open>k\<close> bytes, most significant byte first.  The numbers are
  \<open>int\<close>, so that evaluation works on binary numerals.
\<close>

fun be_bytes :: "nat \<Rightarrow> int \<Rightarrow> bytes" where
  "be_bytes 0 n = []"
| "be_bytes (Suc k) n = be_bytes k (n div 256) @ [char_of (n mod 256)]"

definition be_val :: "bytes \<Rightarrow> int" where
  "be_val bs = foldl (\<lambda>acc c. 256 * acc + of_char c) 0 bs"

lemma of_char_lt: "(of_char c :: nat) < 256"
  by simp

lemma of_char_int_range: "0 \<le> (of_char c :: int)" "(of_char c :: int) < 256"
proof -
  have "(of_char c :: int) = int (of_char c)" by (simp only: of_nat_of_char)
  with of_char_lt [of c] show "0 \<le> (of_char c :: int)" "(of_char c :: int) < 256" by linarith+
qed

lemma of_char_div_256 [simp]: "(of_char c :: int) div 256 = 0"
  using of_char_int_range [of c] by (rule div_pos_pos_trivial)

lemma length_be_bytes [simp, codec_simps]: "length (be_bytes k n) = k"
  by (induction k arbitrary: n) simp_all

lemma be_val_Nil [simp]: "be_val [] = 0"
  by (simp add: be_val_def)

lemma be_val_snoc [simp]: "be_val (bs @ [c]) = 256 * be_val bs + of_char c"
  by (simp add: be_val_def)

lemma be_val_be_bytes [codec_simps]: "be_val (be_bytes k n) = n mod 256 ^ k"
proof (induction k arbitrary: n)
  case (Suc k)
  have "n mod (256 * 256 ^ k) = 256 * (n div 256 mod 256 ^ k) + n mod 256"
    by (rule zmod_zmult2_eq) simp
  with Suc show ?case by simp
qed simp

lemma be_bytes_inject:
  "0 \<le> n \<Longrightarrow> n < 256 ^ k \<Longrightarrow> 0 \<le> m \<Longrightarrow> m < 256 ^ k \<Longrightarrow> be_bytes k n = be_bytes k m \<longleftrightarrow> n = m"
  by (metis be_val_be_bytes mod_pos_pos_trivial)

lemma be_val_nonneg [simp]: "0 \<le> be_val bs"
  by (induction bs rule: rev_induct) (simp_all add: of_char_int_range)

lemma digit_less: "(m::int) < 256 \<Longrightarrow> v < p \<Longrightarrow> 256 * v + m < 256 * p"
  by linarith

lemma be_val_less: "be_val bs < 256 ^ length bs"
proof (induction bs rule: rev_induct)
  case (snoc c bs)
  then show ?case using digit_less [OF of_char_int_range(2)] by simp
qed simp

lemma be_bytes_be_val: "be_bytes (length bs) (be_val bs) = bs"
proof (induction bs rule: rev_induct)
  case (snoc c bs)
  then show ?case by simp
qed simp

text \<open>The widths in use: two- and eight-byte lengths, 64-bit integers, 256-bit digests.\<close>

definition len_bytes :: "nat \<Rightarrow> 'a list \<Rightarrow> bytes" where
  "len_bytes k xs = be_bytes k (int (length xs))"

definition u64_bytes :: "u64 \<Rightarrow> bytes" where
  "u64_bytes v = be_bytes 8 (uint v)"

definition digest_bytes :: "digest \<Rightarrow> bytes" where
  "digest_bytes d = be_bytes 32 (uint d)"

lemma length_len_bytes [simp]: "length (len_bytes k xs) = k"
  by (simp add: len_bytes_def)

lemma length_u64_bytes [simp]: "length (u64_bytes v) = 8"
  by (simp add: u64_bytes_def)

lemma length_digest_bytes [simp]: "length (digest_bytes d) = 32"
  by (simp add: digest_bytes_def)

lemma int_less_power: "n < 256 ^ k \<Longrightarrow> int n < 256 ^ k"
  by (metis of_nat_less_iff of_nat_numeral of_nat_power)

lemma be_val_len_bytes: "length xs < 256 ^ k \<Longrightarrow> be_val (len_bytes k xs) = int (length xs)"
  unfolding len_bytes_def be_val_be_bytes
  by (intro mod_pos_pos_trivial int_less_power) simp_all

lemma len_bytes_inject:
  "length xs < 256 ^ k \<Longrightarrow> length ys < 256 ^ k \<Longrightarrow> len_bytes k xs = len_bytes k ys \<longleftrightarrow> length xs = length ys"
  by (metis be_val_len_bytes len_bytes_def of_nat_eq_iff)

lemma uint_less: "uint (v :: u64) < 256 ^ 8" "uint (d :: digest) < 256 ^ 32"
  using uint_lt2p [of v] uint_lt2p [of d] by simp_all

lemma u64_bytes_inject [simp]: "u64_bytes v = u64_bytes w \<longleftrightarrow> v = w"
  unfolding u64_bytes_def word_uint_eq_iff by (intro be_bytes_inject uint_less) simp_all

lemma digest_bytes_inject [simp]: "digest_bytes d = digest_bytes e \<longleftrightarrow> d = e"
  unfolding digest_bytes_def word_uint_eq_iff by (intro be_bytes_inject uint_less) simp_all

lemma be_val_u64_bytes [simp]: "be_val (u64_bytes v) = uint v"
  unfolding u64_bytes_def be_val_be_bytes by (intro mod_pos_pos_trivial uint_less) simp_all

section \<open>Hexadecimal\<close>

definition hex_alphabet :: string where
  "hex_alphabet = ''0123456789abcdef''"

definition hex_digit :: "nat \<Rightarrow> char" where
  "hex_digit n = hex_alphabet ! n"

fun hex_encode :: "bytes \<Rightarrow> string" where
  "hex_encode [] = []"
| "hex_encode (c # cs) =
     hex_digit (of_char c div 16) # hex_digit (of_char c mod 16) # hex_encode cs"

definition hex_value :: "char \<Rightarrow> nat option" where
  "hex_value c =
     map_of (zip hex_alphabet [0..<16] @ zip ''ABCDEF'' [10..<16]) c"

definition HexInvalidByte :: "char \<Rightarrow> gerror" where
  "HexInvalidByte c = Err ''encoding/hex: invalid byte: %c'' [AStr [c]]"

definition HexErrLength :: gerror where
  "HexErrLength = err ''encoding/hex: odd length hex string''"

fun hex_decode :: "string \<Rightarrow> bytes result" where
  "hex_decode [] = Inr []"
| "hex_decode [a] = (case hex_value a of None \<Rightarrow> Inl (HexInvalidByte a) | Some _ \<Rightarrow> Inl HexErrLength)"
| "hex_decode (a # b # cs) =
     (case hex_value a of None \<Rightarrow> Inl (HexInvalidByte a)
      | Some h \<Rightarrow> (case hex_value b of None \<Rightarrow> Inl (HexInvalidByte b)
         | Some l \<Rightarrow> bindE (hex_decode cs) (\<lambda>bs. Inr (char_of (16 * h + l) # bs))))"

lemma hex_alphabet_facts: "distinct hex_alphabet" "length hex_alphabet = 16"
  by (simp_all add: hex_alphabet_def)

lemma hex_value_digit [simp]: "n < 16 \<Longrightarrow> hex_value (hex_digit n) = Some n"
proof -
  assume n: "n < 16"
  then have "map_of (zip hex_alphabet [0..<16]) (hex_alphabet ! n) = Some ([0..<16] ! n)"
    by (intro map_of_zip_nth) (simp_all add: hex_alphabet_facts)
  with n show ?thesis by (simp add: hex_value_def hex_digit_def map_add_def)
qed

lemma hex_digit_in [simp]: "n < 16 \<Longrightarrow> hex_digit n \<in> set hex_alphabet"
  by (simp add: hex_digit_def hex_alphabet_facts)

lemma of_char_div_16 [simp]: "(of_char c :: nat) div 16 < 16"
proof -
  have "of_char c < (16 * 16 ::nat)" using of_char_lt [of c] by simp
  then show ?thesis by (rule less_mult_imp_div_less)
qed

lemma length_hex_encode [simp, codec_simps]: "length (hex_encode bs) = 2 * length bs"
  by (induction bs) simp_all

lemma hex_encode_alphabet: "c \<in> set (hex_encode bs) \<Longrightarrow> c \<in> set hex_alphabet"
  by (induction bs) auto

lemma hex_decode_encode [simp, codec_simps]: "hex_decode (hex_encode bs) = Inr bs"
proof (induction bs)
  case (Cons c bs)
  have "16 * (of_char c div 16) + of_char c mod 16 = (of_char c :: nat)" by simp
  with Cons show ?case by (simp del: mult_div_mod_eq)
qed simp

lemma hex_encode_inject [simp]: "hex_encode xs = hex_encode ys \<longleftrightarrow> xs = ys"
  by (metis hex_decode_encode sum.inject(2))

section \<open>Padded base64\<close>

definition b64_table :: string where
  "b64_table = ''ABCDEFGHIJKLMNOPQRSTUVWXYZabcdefghijklmnopqrstuvwxyz0123456789+/''"

definition b64_char :: "nat \<Rightarrow> char" where
  "b64_char n = b64_table ! n"

definition b64_value :: "char \<Rightarrow> nat option" where
  "b64_value c = map_of (zip b64_table [0..<64]) c"

fun b64_encode :: "bytes \<Rightarrow> string" where
  "b64_encode [] = []"
| "b64_encode [a] =
     (let v = of_char a * 16
      in [b64_char (v div 64), b64_char (v mod 64), CHR ''='', CHR ''=''])"
| "b64_encode [a, b] =
     (let v = (of_char a * 256 + of_char b) * 4
      in [b64_char (v div 4096), b64_char (v div 64 mod 64), b64_char (v mod 64), CHR ''=''])"
| "b64_encode (a # b # c # cs) =
     (let v = (of_char a * 256 + of_char b) * 256 + of_char c
      in b64_char (v div 262144) # b64_char (v div 4096 mod 64) # b64_char (v div 64 mod 64)
         # b64_char (v mod 64) # b64_encode cs)"

definition B64Corrupt :: gerror where
  "B64Corrupt = err ''illegal base64 data at input byte''"

text \<open>One quantum of four characters; \<open>last\<close> tells whether it ends the input.\<close>

fun b64_quanta :: "string \<Rightarrow> bytes result" where
  "b64_quanta [] = Inr []"
| "b64_quanta (p # q # r # s # cs) =
     (case (b64_value p, b64_value q, b64_value r, b64_value s) of
        (Some a, Some b, Some c, Some d) \<Rightarrow>
          (let v = ((a * 64 + b) * 64 + c) * 64 + d
           in bindE (b64_quanta cs) (\<lambda>bs.
                Inr (char_of (v div 65536) # char_of (v div 256 mod 256) # char_of (v mod 256) # bs)))
      | (Some a, Some b, Some c, None) \<Rightarrow>
          (if s = CHR ''='' \<and> cs = []
           then (let v = (a * 64 + b) * 64 + c
                 in Inr [char_of (v div 1024), char_of (v div 4 mod 256)])
           else Inl B64Corrupt)
      | (Some a, Some b, None, _) \<Rightarrow>
          (if r = CHR ''='' \<and> s = CHR ''='' \<and> cs = []
           then Inr [char_of ((a * 64 + b) div 16)]
           else Inl B64Corrupt)
      | _ \<Rightarrow> Inl B64Corrupt)"
| "b64_quanta _ = Inl B64Corrupt"

text \<open>The decoder ignores carriage returns and line feeds.\<close>

definition b64_decode :: "string \<Rightarrow> bytes result" where
  "b64_decode s = b64_quanta (filter (\<lambda>c. c \<noteq> CHR 0x0A \<and> c \<noteq> CHR 0x0D) s)"

lemma b64_table_facts: "distinct b64_table" "length b64_table = 64"
  by (simp_all add: b64_table_def)

lemma b64_value_char [simp]: "n < 64 \<Longrightarrow> b64_value (b64_char n) = Some n"
proof -
  assume n: "n < 64"
  then have "map_of (zip b64_table [0..<64]) (b64_table ! n) = Some ([0..<64] ! n)"
    by (intro map_of_zip_nth) (simp_all add: b64_table_facts)
  with n show ?thesis by (simp add: b64_value_def b64_char_def)
qed

lemma b64_char_in [simp]: "n < 64 \<Longrightarrow> b64_char n \<in> set b64_table"
  by (simp add: b64_char_def b64_table_facts)

lemma b64_value_None: "c \<notin> set b64_table \<Longrightarrow> b64_value c = None"
  by (auto simp: b64_value_def map_of_zip_is_None b64_table_facts)

lemma b64_value_pad [simp]: "b64_value (CHR ''='') = None"
  by (rule b64_value_None) (simp add: b64_table_def)

text \<open>The arithmetic of one quantum, on plain numbers.\<close>

lemma b64_arith1:
  fixes a :: nat
  assumes "a < 256"
  shows "a * 16 div 64 < 64" "(a * 16 div 64 * 64 + a * 16 mod 64) div 16 = a"
  using assms by (simp, subst div_mult_mod_eq, simp)

lemma b64_arith2:
  fixes a b :: nat
  assumes "a < 256" "b < 256"
  defines "v \<equiv> (a * 256 + b) * 4"
  shows "v div 4096 < 64" "(v div 4096 * 64 + v div 64 mod 64) * 64 + v mod 64 = v"
    "v div 1024 = a" "v div 4 mod 256 = b"
proof -
  have "v < 64 * 4096" unfolding v_def using assms(1,2) by simp
  then show "v div 4096 < 64" by (rule less_mult_imp_div_less)
  have "v div 4096 = v div 64 div 64" by (simp flip: div_mult2_eq)
  then show "(v div 4096 * 64 + v div 64 mod 64) * 64 + v mod 64 = v" by simp
  have *: "v div 4 = a * 256 + b" unfolding v_def by simp
  then show "v div 4 mod 256 = b" using assms by simp
  have "v div 1024 = v div 4 div 256" by (simp flip: div_mult2_eq)
  then show "v div 1024 = a" using assms * by simp
qed

lemma b64_arith3:
  fixes a b c :: nat
  assumes "a < 256" "b < 256" "c < 256"
  defines "v \<equiv> (a * 256 + b) * 256 + c"
  shows "v div 262144 < 64"
    "((v div 262144 * 64 + v div 4096 mod 64) * 64 + v div 64 mod 64) * 64 + v mod 64 = v"
    "v div 65536 = a" "v div 256 mod 256 = b" "v mod 256 = c"
proof -
  have "v < 64 * 262144" unfolding v_def using assms(1-3) by simp
  then show "v div 262144 < 64" by (rule less_mult_imp_div_less)
  have "v div 262144 = v div 4096 div 64" "v div 4096 = v div 64 div 64"
    by (simp_all flip: div_mult2_eq)
  then show "((v div 262144 * 64 + v div 4096 mod 64) * 64 + v div 64 mod 64) * 64 + v mod 64 = v"
    by simp
  have *: "v div 256 = a * 256 + b" using assms unfolding v_def by simp
  then show "v div 256 mod 256 = b" using assms by simp
  have "v div 65536 = v div 256 div 256" by (simp flip: div_mult2_eq)
  then show "v div 65536 = a" using assms * by simp
  have "v mod 256 = c mod 256" unfolding v_def by (rule mod_mult_self3)
  then show "v mod 256 = c" using assms by simp
qed

lemmas b64_arith =
  b64_arith1 [OF of_char_lt] b64_arith2 [OF of_char_lt of_char_lt]
  b64_arith3 [OF of_char_lt of_char_lt of_char_lt]

lemma b64_encode_chars: "set (b64_encode bs) \<subseteq> insert (CHR ''='') (set b64_table)"
  by (induction bs rule: b64_encode.induct) (simp_all only: b64_encode.simps Let_def b64_arith b64_char_in mod_less_divisor zero_less_numeral
       list.set insert_subset insert_iff simp_thms empty_subsetI)

lemma b64_quanta_encode: "b64_quanta (b64_encode bs) = Inr bs"
  by (induction bs rule: b64_encode.induct)
     (simp_all only: b64_encode.simps b64_quanta.simps Let_def b64_value_char b64_arith
        pos_mod_bound mod_less_divisor b64_value_pad zero_less_numeral
        option.case prod.case if_True bindE_simps simp_thms char_of_char refl)

lemma b64_no_newline: "CHR 0x0A \<notin> set (b64_encode bs)" "CHR 0x0D \<notin> set (b64_encode bs)"
proof -
  have "CHR 0x0A \<notin> insert (CHR ''='') (set b64_table)" "CHR 0x0D \<notin> insert (CHR ''='') (set b64_table)"
    by (simp_all add: b64_table_def)
  then show "CHR 0x0A \<notin> set (b64_encode bs)" "CHR 0x0D \<notin> set (b64_encode bs)"
    using b64_encode_chars by blast+
qed

lemma b64_decode_encode [simp, codec_simps]: "b64_decode (b64_encode bs) = Inr bs"
proof -
  have "filter (\<lambda>c. c \<noteq> CHR 0x0A \<and> c \<noteq> CHR 0x0D) (b64_encode bs) = b64_encode bs"
    using b64_no_newline by (intro filter_True) auto
  then show ?thesis by (simp add: b64_decode_def b64_quanta_encode)
qed

lemma b64_encode_inject [simp]: "b64_encode xs = b64_encode ys \<longleftrightarrow> xs = ys"
  by (metis b64_decode_encode sum.inject(2))

lemma length_b64_encode: "length (b64_encode bs) = 4 * ((length bs + 2) div 3)"
proof (induction bs rule: b64_encode.induct)
  case (4 a b c cs)
  have "(length (a # b # c # cs) + 2) div 3 = Suc ((length cs + 2) div 3)" by simp
  with 4 show ?case by (simp add: Let_def)
qed (simp_all add: Let_def)

section \<open>Uniquely decodable encodings\<close>

text \<open>
  The interface the framed schemas rely on: an encoding whose code words are never empty and where
  equal concatenations have equal first items.  A list of items is then determined by its
  concatenated encoding.
\<close>

locale prefix_code =
  fixes enc :: "'a \<Rightarrow> bytes" and ok :: "'a \<Rightarrow> bool"
  assumes enc_nonempty: "ok x \<Longrightarrow> enc x \<noteq> []"
    and enc_cancel: "ok x \<Longrightarrow> ok y \<Longrightarrow> enc x @ r = enc y @ s \<Longrightarrow> x = y \<and> r = s"
begin

lemma enc_inject: "ok x \<Longrightarrow> ok y \<Longrightarrow> enc x = enc y \<Longrightarrow> x = y"
  using enc_cancel [of x y "[]" "[]"] by simp

lemma concat_inject:
  "list_all ok xs \<Longrightarrow> list_all ok ys \<Longrightarrow> concat (map enc xs) = concat (map enc ys) \<Longrightarrow> xs = ys"
proof (induction xs arbitrary: ys)
  case Nil
  then show ?case using enc_nonempty by (cases ys) auto
next
  case (Cons x xs)
  then obtain y ys' where ys: "ys = y # ys'"
    using enc_nonempty by (cases ys) auto
  with Cons.prems have "x = y \<and> concat (map enc xs) = concat (map enc ys')"
    by (intro enc_cancel) auto
  with Cons ys show ?case by simp
qed

end

end
