(* ===== verification/Sha256.thy ===== *)
theory Sha256
  imports Codec
begin

text \<open>
  \<open>sha256.Sum256\<close> of Go's \<open>crypto/sha256\<close>, from a byte string to a 32-byte array (FIPS 180-4).
  The identity schemas take the hash function as an argument \<open>H\<close>; the code's instance is
  \<open>H = sha256\<close>, the function of this theory.  Nothing proved about the schemas depends on which
  function it is, so a theorem about every \<open>H\<close> holds for the code's.
\<close>

unbundle bit_operations_syntax

definition sha_K :: "u32 list" where
  "sha_K = [
     1116352408, 1899447441, 3049323471, 3921009573, 961987163, 1508970993, 2453635748, 2870763221,
     3624381080, 310598401, 607225278, 1426881987, 1925078388, 2162078206, 2614888103, 3248222580,
     3835390401, 4022224774, 264347078, 604807628, 770255983, 1249150122, 1555081692, 1996064986,
     2554220882, 2821834349, 2952996808, 3210313671, 3336571891, 3584528711, 113926993, 338241895,
     666307205, 773529912, 1294757372, 1396182291, 1695183700, 1986661051, 2177026350, 2456956037,
     2730485921, 2820302411, 3259730800, 3345764771, 3516065817, 3600352804, 4094571909, 275423344,
     430227734, 506948616, 659060556, 883997877, 958139571, 1322822218, 1537002063, 1747873779,
     1955562222, 2024104815, 2227730452, 2361852424, 2428436474, 2756734187, 3204031479, 3329325298]"

definition sha_H0 :: "u32 list" where
  "sha_H0 = [
     1779033703, 3144134277, 1013904242, 2773480762, 1359893119, 2600822924, 528734635, 1541459225]"

definition rotr32 :: "nat \<Rightarrow> u32 \<Rightarrow> u32" where
  "rotr32 n x = drop_bit n x OR push_bit (32 - n) x"

text \<open>The message schedule, kept in reverse: the head is the newest word.\<close>

fun sha_expand :: "nat \<Rightarrow> u32 list \<Rightarrow> u32 list" where
  "sha_expand 0 ws = rev ws"
| "sha_expand (Suc n) ws =
     (let w15 = ws ! 14; w2 = ws ! 1;
          s0 = rotr32 7 w15 XOR rotr32 18 w15 XOR drop_bit 3 w15;
          s1 = rotr32 17 w2 XOR rotr32 19 w2 XOR drop_bit 10 w2
      in sha_expand n ((ws ! 15 + s0 + ws ! 6 + s1) # ws))"

type_synonym sha_state = "u32 \<times> u32 \<times> u32 \<times> u32 \<times> u32 \<times> u32 \<times> u32 \<times> u32"

definition sha_round :: "sha_state \<Rightarrow> u32 \<times> u32 \<Rightarrow> sha_state" where
  "sha_round = (\<lambda>(a, b, c, d, e, f, g, h) (k, w).
     (let S1 = rotr32 6 e XOR rotr32 11 e XOR rotr32 25 e;
          ch = (e AND f) XOR (NOT e AND g);
          t1 = h + S1 + ch + k + w;
          S0 = rotr32 2 a XOR rotr32 13 a XOR rotr32 22 a;
          maj = (a AND b) XOR (a AND c) XOR (b AND c);
          t2 = S0 + maj
      in (t1 + t2, a, b, c, d + t1, e, f, g)))"

fun sha_words :: "bytes \<Rightarrow> u32 list" where
  "sha_words (a # b # c # d # r) = word_of_int (be_val [a, b, c, d]) # sha_words r"
| "sha_words _ = []"

definition sha_block :: "u32 list \<Rightarrow> bytes \<Rightarrow> u32 list" where
  "sha_block hs blk =
     (case foldl sha_round (hs ! 0, hs ! 1, hs ! 2, hs ! 3, hs ! 4, hs ! 5, hs ! 6, hs ! 7)
             (zip sha_K (sha_expand 48 (rev (sha_words blk)))) of
        (a, b, c, d, e, f, g, h) \<Rightarrow> map2 (+) hs [a, b, c, d, e, f, g, h])"

text \<open>Padding: the byte 0x80, zeros to 56 modulo 64, the bit length in eight bytes.\<close>

definition sha_pad :: "bytes \<Rightarrow> bytes" where
  "sha_pad m = m @ [CHR 0x80] @ replicate ((119 - length m mod 64) mod 64) (CHR 0x00)
     @ be_bytes 8 (8 * int (length m))"

fun sha_blocks :: "nat \<Rightarrow> u32 list \<Rightarrow> bytes \<Rightarrow> u32 list" where
  "sha_blocks 0 hs m = hs"
| "sha_blocks (Suc n) hs m = sha_blocks n (sha_block hs (take 64 m)) (drop 64 m)"

definition sha256 :: "bytes \<Rightarrow> digest" where
  "sha256 m =
     (let p = sha_pad m
      in foldl (\<lambda>acc w. push_bit 32 acc OR ucast w) 0 (sha_blocks (length p div 64) sha_H0 p))"

text \<open>The padded message is a whole number of blocks, so no byte of it is left unhashed.\<close>

lemma length_sha_pad: "length (sha_pad m) mod 64 = 0"
proof -
  define r where "r = length m mod 64"
  have "r < 64" by (simp add: r_def)
  then consider "r < 56" | "56 \<le> r" by linarith
  then have "(r + 9 + (119 - r) mod 64) mod 64 = 0"
  proof cases
    case 1
    then have "119 - r = (55 - r) + 64" "55 - r < 64" by linarith+
    then have "(119 - r) mod 64 = 55 - r" by (metis mod_add_self2 mod_less)
    with 1 show ?thesis by simp
  next
    case 2
    with \<open>r < 64\<close> have "(119 - r) mod 64 = 119 - r" by (intro mod_less) linarith
    with 2 \<open>r < 64\<close> show ?thesis by simp
  qed
  moreover have "length (sha_pad m) mod 64 = (r + 9 + (119 - r) mod 64) mod 64"
    unfolding sha_pad_def r_def by (simp add: add.assoc) (metis add.commute mod_add_right_eq)
  ultimately show ?thesis by simp
qed

end
