(* ===== verification/Identity.thy ===== *)
theory Identity
  imports Sha256
begin

text \<open>
  \<open>internal/review/identity.go\<close>: the FramedFieldsV1 encoding, the content-derived identifiers and
  every identity schema built from them, and the decoder of \<open>internal/review/persist.go\<close> that reads
  framed records back.  A schema \<open>f\<close> is given by its field list \<open>f_fields\<close> and its encoding
  \<open>f\<close>; \<open>f_fields_ok\<close> shows that \<open>Frame\<close> never panics on it.
\<close>

section \<open>Constants and framing\<close>

definition PathIDPrefixV1 :: string where [simp]: "PathIDPrefixV1 = ''p_''"
definition HunkIDPrefixV1 :: string where [simp]: "HunkIDPrefixV1 = ''h_''"
definition UnitIDPrefixV1 :: string where [simp]: "UnitIDPrefixV1 = ''u_''"
definition CohortIDPrefixV1 :: string where [simp]: "CohortIDPrefixV1 = ''c_''"
definition LayerIDPrefixV1 :: string where [simp]: "LayerIDPrefixV1 = ''l_''"
definition TargetIDPrefixV1 :: string where [simp]: "TargetIDPrefixV1 = ''t_''"
definition ReviewIDPrefixV1 :: string where [simp]: "ReviewIDPrefixV1 = ''rvw_''"
definition PublicIDContentBytesV1 :: nat where [simp]: "PublicIDContentBytesV1 = 16"
definition PublicIDReviewBytesV1 :: nat where [simp]: "PublicIDReviewBytesV1 = 20"

text \<open>\<open>Field{Name, Value}\<close> and \<open>StableID{Public, Full}\<close>.\<close>

type_synonym field = "string \<times> bytes"

record stable_id =
  Public :: string
  Full :: digest

definition field_bytes :: "field \<Rightarrow> bytes" where
  "field_bytes f = len_bytes 2 (fst f) @ fst f @ len_bytes 8 (snd f) @ snd f"

definition frame :: "field list \<Rightarrow> bytes" where
  "frame fs = concat (map field_bytes fs)"

text \<open>The panic conditions of \<open>Frame\<close>: a name that is empty, too long or not ASCII.\<close>

definition name_ok :: "string \<Rightarrow> bool" where
  "name_ok n \<longleftrightarrow> n \<noteq> [] \<and> length n \<le> 65535 \<and> list_all (\<lambda>b. (of_char b :: int) < 128) n"

definition Frame :: "field list \<Rightarrow> bytes option" where
  "Frame fs = (if list_all (\<lambda>f. name_ok (fst f)) fs then Some (frame fs) else None)"

definition item_bytes :: "bytes \<Rightarrow> bytes" where
  "item_bytes it = len_bytes 8 it @ it"

definition FrameList :: "bytes list \<Rightarrow> bytes" where
  "FrameList items = len_bytes 8 items @ concat (map item_bytes items)"

text \<open>\<open>PublicID\<close>; its panic on a width outside 0 to 32 is the value \<open>None\<close>.\<close>

definition public_id :: "string \<Rightarrow> digest \<Rightarrow> nat \<Rightarrow> stable_id" where
  "public_id prefix full n = \<lparr>Public = prefix @ hex_encode (take n (digest_bytes full)), Full = full\<rparr>"

definition PublicID :: "string \<Rightarrow> digest \<Rightarrow> nat \<Rightarrow> stable_id option" where
  "PublicID prefix full n = (if n > 32 then None else Some (public_id prefix full n))"

definition boolByte :: "bool \<Rightarrow> bytes" where
  "boolByte v = (if v then [CHR 0x01] else [CHR 0x00])"

definition optDigest :: "digest option \<Rightarrow> bytes" where
  "optDigest d = (case d of None \<Rightarrow> [] | Some d \<Rightarrow> digest_bytes d)"

lemma PublicID_content [simp]: "PublicID p d PublicIDContentBytesV1 = Some (public_id p d 16)"
  and PublicID_review [simp]: "PublicID p d PublicIDReviewBytesV1 = Some (public_id p d 20)"
  by (simp_all add: PublicID_def)

lemma public_id_sel [simp]:
  "Full (public_id p d n) = d" "Public (public_id p d n) = p @ hex_encode (take n (digest_bytes d))"
  by (simp_all add: public_id_def)

lemma boolByte_inject [simp]: "boolByte v = boolByte w \<longleftrightarrow> v = w"
  by (simp add: boolByte_def)

lemma optDigest_inject [simp]: "optDigest d = optDigest e \<longleftrightarrow> d = e"
proof -
  have "digest_bytes x \<noteq> []" for x
    using length_digest_bytes [of x] by force
  then show ?thesis by (auto simp: optDigest_def split: option.splits) (metis)+
qed

subsection \<open>Framing is uniquely decodable\<close>

text \<open>A field whose lengths fit their length prefixes.\<close>

definition field_ok :: "field \<Rightarrow> bool" where
  "field_ok f \<longleftrightarrow> name_ok (fst f) \<and> length (snd f) < 2 ^ 64"

definition item_ok :: "bytes \<Rightarrow> bool" where
  "item_ok it \<longleftrightarrow> length it < 2 ^ 64"

lemma len_prefix_cancel:
  assumes "length x < 256 ^ k" "length y < 256 ^ k"
    and "len_bytes k x @ x @ r = len_bytes k y @ y @ s"
  shows "x = y \<and> r = s"
proof -
  from assms(3) have "len_bytes k x = len_bytes k y" and xy: "x @ r = y @ s" by simp_all
  with len_bytes_inject [OF assms(1,2)] have "length x = length y" by simp
  with xy show ?thesis by simp
qed

lemma field_bytes_cancel:
  assumes "field_ok f" "field_ok g" and "field_bytes f @ r = field_bytes g @ s"
  shows "f = g \<and> r = s"
proof -
  have small: "length (fst f) < 256 ^ 2" "length (fst g) < 256 ^ 2"
    "length (snd f) < 256 ^ 8" "length (snd g) < 256 ^ 8"
    using assms(1,2) by (auto simp: field_ok_def name_ok_def)
  from assms(3) have "len_bytes 2 (fst f) @ fst f @ (len_bytes 8 (snd f) @ snd f @ r) =
      len_bytes 2 (fst g) @ fst g @ (len_bytes 8 (snd g) @ snd g @ s)"
    by (simp add: field_bytes_def)
  note names = len_prefix_cancel [OF small(1,2) this]
  from len_prefix_cancel [OF small(3,4) names [THEN conjunct2]] names
  show ?thesis by (simp only: prod_eq_iff)
qed

lemma item_bytes_cancel:
  "item_ok x \<Longrightarrow> item_ok y \<Longrightarrow> item_bytes x @ r = item_bytes y @ s \<Longrightarrow> x = y \<and> r = s"
  using len_prefix_cancel [of x 8 y r s] by (simp add: item_bytes_def item_ok_def)

interpretation fld: prefix_code field_bytes field_ok
proof
  fix x assume "field_ok x"
  then show "field_bytes x \<noteq> []" by (simp add: field_bytes_def field_ok_def name_ok_def)
qed (rule field_bytes_cancel)

interpretation itm: prefix_code item_bytes item_ok
proof
  fix x
  have "length (item_bytes x) \<ge> 8" by (simp add: item_bytes_def)
  then show "item_bytes x \<noteq> []" by force
qed (rule item_bytes_cancel)

lemma frame_inject:
  "list_all field_ok fs \<Longrightarrow> list_all field_ok gs \<Longrightarrow> frame fs = frame gs \<Longrightarrow> fs = gs"
  unfolding frame_def by (rule fld.concat_inject)

lemma FrameList_inject:
  assumes "list_all item_ok xs" "list_all item_ok ys" "FrameList xs = FrameList ys"
  shows "xs = ys"
proof -
  from assms(3) have "concat (map item_bytes xs) = concat (map item_bytes ys)"
    by (simp add: FrameList_def)
  with assms(1,2) show ?thesis by (rule itm.concat_inject)
qed

text \<open>Every part of a framed record is at most as long as the record.\<close>

lemma length_frame_ge: "f \<in> set fs \<Longrightarrow> length (snd f) \<le> length (frame fs)"
  by (induction fs) (auto simp: frame_def field_bytes_def)

lemma frame_value_small:
  "length (frame fs) < 2 ^ 64 \<Longrightarrow> v \<in> set (map snd fs) \<Longrightarrow> length v < 2 ^ 64"
  using length_frame_ge by fastforce

lemma length_FrameList_ge: "it \<in> set items \<Longrightarrow> length it \<le> length (FrameList items)"
  by (induction items) (auto simp: FrameList_def item_bytes_def)

lemma frame_small_ok:
  "list_all (\<lambda>f. name_ok (fst f)) fs \<Longrightarrow> length (frame fs) < 2 ^ 64 \<Longrightarrow> list_all field_ok fs"
  using length_frame_ge by (fastforce simp: list_all_iff field_ok_def)

lemma FrameList_small_ok: "length (FrameList items) < 2 ^ 64 \<Longrightarrow> list_all item_ok items"
  using length_FrameList_ge by (fastforce simp: list_all_iff item_ok_def)

text \<open>
  The form used for each schema: two records of the same names with equal encodings that fit in
  64-bit lengths have equal values, field by field.
\<close>

lemma frame_values_inject:
  assumes "list_all (\<lambda>f. name_ok (fst f)) fs" "list_all (\<lambda>f. name_ok (fst f)) gs"
    and "length (frame fs) < 2 ^ 64" "frame fs = frame gs"
  shows "fs = gs"
  using assms by (intro frame_inject) (auto intro: frame_small_ok)

lemma FrameList_map_inject:
  assumes "length (FrameList (map f xs)) < 2 ^ 64" "FrameList (map f xs) = FrameList (map f ys)"
    and "\<And>x y. x \<in> set xs \<Longrightarrow> y \<in> set ys \<Longrightarrow> length (f x) < 2 ^ 64 \<Longrightarrow> f x = f y \<Longrightarrow> x = y"
  shows "xs = ys"
proof -
  have ok: "list_all item_ok (map f xs)" "list_all item_ok (map f ys)"
    using assms(1,2) by (auto intro: FrameList_small_ok)
  with assms(2) have eq: "map f xs = map f ys" by (intro FrameList_inject) simp_all
  have "\<forall>x\<in>set xs. length (f x) < 2 ^ 64" using ok(1) by (simp add: list_all_iff item_ok_def)
  with eq assms(3) show ?thesis
    by (induction xs arbitrary: ys) (auto simp: Cons_eq_map_conv)
qed

subsection \<open>Reading framed records back\<close>

text \<open>\<open>decodeFramedFields\<close>: a Go map from names to values; a repeated name keeps its last value.\<close>

function decode_fields :: "bytes \<Rightarrow> (string \<rightharpoonup> bytes) \<Rightarrow> (string \<rightharpoonup> bytes) result" where
  "decode_fields b out =
     (if b = [] then Inr out
      else if length b < 2 then Inl (err ''truncated field name length'')
      else let nl = nat (be_val (take 2 b)); b1 = drop 2 b in
        if nl = 0 \<or> length b1 < nl then Inl (err ''truncated field name'')
        else let name = take nl b1; b2 = drop nl b1 in
          if length b2 < 8 then Inl (err ''truncated value length'')
          else let vl = be_val (take 8 b2); b3 = drop 8 b2 in
            if vl > int (length b3) then Inl (err ''truncated value'')
            else decode_fields (drop (nat vl) b3) (out(name \<mapsto> take (nat vl) b3)))"
  by pat_completeness auto
termination
  by (relation "measure (\<lambda>(b, out). length b)") auto

declare decode_fields.simps [simp del]

definition decodeFramedFields :: "bytes \<Rightarrow> (string \<rightharpoonup> bytes) result" where
  "decodeFramedFields b = decode_fields b Map.empty"

text \<open>Reading a missing key of a Go map of byte slices gives the empty slice.\<close>

definition fieldOf :: "(string \<rightharpoonup> bytes) \<Rightarrow> string \<Rightarrow> bytes" where
  "fieldOf m k = (case m k of None \<Rightarrow> [] | Some v \<Rightarrow> v)"

lemma decode_fields_field:
  assumes "field_ok f"
  shows "decode_fields (field_bytes f @ r) out = decode_fields r (out(fst f \<mapsto> snd f))"
proof -
  obtain n v where f: "f = (n, v)" by (cases f)
  have n: "n \<noteq> []" "length n < 256 ^ 2" and v: "length v < 256 ^ 8"
    using assms by (auto simp: f field_ok_def name_ok_def)
  define b where "b = field_bytes f @ r"
  have b: "b = len_bytes 2 n @ n @ len_bytes 8 v @ v @ r" by (simp add: b_def f field_bytes_def)
  have "b \<noteq> []" "\<not> length b < 2" "take 2 b = len_bytes 2 n" "drop 2 b = n @ len_bytes 8 v @ v @ r"
    using n by (simp_all add: b)
  moreover have "nat (be_val (len_bytes 2 n)) = length n" "be_val (len_bytes 8 v) = int (length v)"
    using n v by (simp_all add: be_val_len_bytes)
  ultimately have "decode_fields b out = decode_fields r (out(n \<mapsto> v))"
    using n by (subst decode_fields.simps) (simp add: Let_def)
  then show ?thesis by (simp add: f b_def)
qed

lemma decode_fields_frame:
  "list_all field_ok fs \<Longrightarrow> decode_fields (frame fs) out = Inr (out ++ map_of (rev fs))"
proof (induction fs arbitrary: out)
  case Nil
  then show ?case by (simp add: frame_def decode_fields.simps)
next
  case (Cons f fs)
  then have "decode_fields (frame (f # fs)) out = Inr (out(fst f \<mapsto> snd f) ++ map_of (rev fs))"
    by (simp add: frame_def decode_fields_field)
  also have "out(fst f \<mapsto> snd f) ++ map_of (rev fs) = out ++ map_of (rev (f # fs))"
    by (simp add: map_add_assoc [symmetric] fun_upd_def map_add_def fun_eq_iff split: option.splits)
  finally show ?case .
qed

text \<open>Decoding what \<open>Frame\<close> encoded gives each name its value.\<close>

lemma decodeFramedFields_frame [codec_simps]:
  "list_all field_ok fs \<Longrightarrow> decodeFramedFields (frame fs) = Inr (map_of (rev fs))"
  by (simp add: decodeFramedFields_def decode_fields_frame)

section \<open>Change records\<close>

record side_identity =
  side_Kind :: string
  side_Value :: bytes

definition SideGitOID :: string where [simp]: "SideGitOID = ''git_oid''"
definition SideWorkspaceSHA256 :: string where [simp]: "SideWorkspaceSHA256 = ''workspace_sha256''"
definition SideAbsent :: string where [simp]: "SideAbsent = ''absent''"

definition AbsentSide :: side_identity where
  "AbsentSide = \<lparr>side_Kind = SideAbsent, side_Value = []\<rparr>"

definition side_frame_fields :: "side_identity \<Rightarrow> field list" where
  "side_frame_fields s = [(''kind'', side_Kind s), (''value'', side_Value s)]"

definition side_frame :: "side_identity \<Rightarrow> bytes" where
  "side_frame s = frame (side_frame_fields s)"

text \<open>\<open>SideIdentity.Validate\<close>\<close>

definition side_validate :: "side_identity \<Rightarrow> unit result" where
  "side_validate s =
     (if side_Kind s = SideGitOID then
        failIf (length (side_Value s) \<noteq> 20 \<and> length (side_Value s) \<noteq> 32)
          (Err ''review: git_oid identity must be 20 or 32 bytes, got %d'' [AInt (int (length (side_Value s)))])
      else if side_Kind s = SideWorkspaceSHA256 then
        failIf (length (side_Value s) \<noteq> 32)
          (Err ''review: workspace_sha256 identity must be 32 bytes, got %d'' [AInt (int (length (side_Value s)))])
      else if side_Kind s = SideAbsent then
        failIf (length (side_Value s) \<noteq> 0)
          (Err ''review: absent identity must carry no value, got %d bytes'' [AInt (int (length (side_Value s)))])
      else Inl (Err ''review: side identity has invalid kind %q'' [AStr (side_Kind s)]))"

record raw_hunk =
  rh_Ordinal :: u64
  rh_OldStart :: u64
  rh_OldLines :: u64
  rh_NewStart :: u64
  rh_NewLines :: u64
  rh_NoFinalNewlineOld :: bool
  rh_NoFinalNewlineNew :: bool
  rh_Payload :: bytes

definition hunk_fields :: "(bytes \<Rightarrow> digest) \<Rightarrow> raw_hunk \<Rightarrow> field list" where
  "hunk_fields H h = [
     (''ordinal'', u64_bytes (rh_Ordinal h)),
     (''old_start'', u64_bytes (rh_OldStart h)),
     (''old_lines'', u64_bytes (rh_OldLines h)),
     (''new_start'', u64_bytes (rh_NewStart h)),
     (''new_lines'', u64_bytes (rh_NewLines h)),
     (''no_final_newline_old'', boolByte (rh_NoFinalNewlineOld h)),
     (''no_final_newline_new'', boolByte (rh_NoFinalNewlineNew h)),
     (''payload'', rh_Payload h),
     (''payload_sha256'', digest_bytes (H (rh_Payload h)))]"

definition hunk_frame :: "(bytes \<Rightarrow> digest) \<Rightarrow> raw_hunk \<Rightarrow> bytes" where
  "hunk_frame H h = frame (hunk_fields H h)"

record raw_path_record =
  rp_Kind :: string
  rp_Status :: string
  rp_OldPath :: string
  rp_NewPath :: string
  rp_OldMode :: u32
  rp_NewMode :: u32
  rp_OldSide :: side_identity
  rp_NewSide :: side_identity
  rp_TextClass :: string
  rp_Additions :: u64
  rp_Deletions :: u64
  rp_OldContentDigest :: "digest option"
  rp_NewContentDigest :: "digest option"
  rp_Hunks :: "raw_hunk list"

text \<open>\<open>u64(uint64(mode))\<close> for a 32-bit mode.\<close>

definition u32_bytes :: "u32 \<Rightarrow> bytes" where
  "u32_bytes m = be_bytes 8 (uint m)"

definition record_fields :: "(bytes \<Rightarrow> digest) \<Rightarrow> raw_path_record \<Rightarrow> field list" where
  "record_fields H r = [
     (''kind'', rp_Kind r),
     (''status'', rp_Status r),
     (''old_path'', rp_OldPath r),
     (''new_path'', rp_NewPath r),
     (''old_mode'', u32_bytes (rp_OldMode r)),
     (''new_mode'', u32_bytes (rp_NewMode r)),
     (''old_side'', side_frame (rp_OldSide r)),
     (''new_side'', side_frame (rp_NewSide r)),
     (''text_class'', rp_TextClass r),
     (''additions'', u64_bytes (rp_Additions r)),
     (''deletions'', u64_bytes (rp_Deletions r)),
     (''old_content'', optDigest (rp_OldContentDigest r)),
     (''new_content'', optDigest (rp_NewContentDigest r)),
     (''hunks'', FrameList (map (hunk_frame H) (rp_Hunks r)))]"

definition record_frame :: "(bytes \<Rightarrow> digest) \<Rightarrow> raw_path_record \<Rightarrow> bytes" where
  "record_frame H r = frame (record_fields H r)"

text \<open>\<open>sort.SliceStable\<close> by new path, then old path, then status.\<close>

definition record_key :: "raw_path_record \<Rightarrow> string \<times> string \<times> string" where
  "record_key r = (rp_NewPath r, rp_OldPath r, rp_Status r)"

definition sortedPathRecords :: "raw_path_record list \<Rightarrow> raw_path_record list" where
  "sortedPathRecords rs = sort_key record_key rs"

definition CanonicalPatchV1 :: "(bytes \<Rightarrow> digest) \<Rightarrow> raw_path_record list \<Rightarrow> bytes" where
  "CanonicalPatchV1 H rs = FrameList (map (record_frame H) (sortedPathRecords rs))"

definition CanonicalPatchDigest :: "(bytes \<Rightarrow> digest) \<Rightarrow> raw_path_record list \<Rightarrow> digest" where
  "CanonicalPatchDigest H rs = H (CanonicalPatchV1 H rs)"

subsection \<open>The record schemas never panic and are injective\<close>

lemma u32_bytes_inject [simp]: "u32_bytes m = u32_bytes n \<longleftrightarrow> m = n"
proof -
  have "uint m < 256 ^ 8" "uint n < 256 ^ 8"
    using uint_lt2p [of m] uint_lt2p [of n] by simp_all
  then show ?thesis unfolding u32_bytes_def word_uint_eq_iff by (intro be_bytes_inject) simp_all
qed

text \<open>Schema names are literals, so the panic condition is decided by evaluation.\<close>

lemma name_ok_simp: "name_ok (c # cs) \<longleftrightarrow>
    length cs \<le> 65534 \<and> (of_char c :: int) < 128 \<and> list_all (\<lambda>b. (of_char b :: int) < 128) cs"
  by (auto simp: name_ok_def)

lemma side_frame_fields_ok: "list_all (\<lambda>f. name_ok (fst f)) (side_frame_fields s)"
  and hunk_fields_ok: "list_all (\<lambda>f. name_ok (fst f)) (hunk_fields H h)"
  and record_fields_ok: "list_all (\<lambda>f. name_ok (fst f)) (record_fields H r)"
  by (simp_all add: side_frame_fields_def hunk_fields_def record_fields_def name_ok_simp)

lemma side_frame_inject:
  assumes "length (side_frame s) < 2 ^ 64" "side_frame s = side_frame t"
  shows "s = t"
proof -
  have "side_frame_fields s = side_frame_fields t"
    using assms unfolding side_frame_def
    by (intro frame_values_inject side_frame_fields_ok)
  then show ?thesis by (cases s, cases t) (simp add: side_frame_fields_def)
qed

lemma hunk_frame_inject:
  assumes "length (hunk_frame H h) < 2 ^ 64" "hunk_frame H h = hunk_frame H k"
  shows "h = k"
proof -
  have "hunk_fields H h = hunk_fields H k"
    using assms unfolding hunk_frame_def by (intro frame_values_inject hunk_fields_ok)
  then show ?thesis by (cases h, cases k) (simp add: hunk_fields_def)
qed

lemma record_frame_inject:
  assumes small: "length (record_frame H r) < 2 ^ 64" and eq: "record_frame H r = record_frame H q"
  shows "r = q"
proof -
  have fields: "record_fields H r = record_fields H q"
    using assms unfolding record_frame_def by (intro frame_values_inject record_fields_ok)
  have "length (side_frame (rp_OldSide r)) < 2 ^ 64" "length (side_frame (rp_NewSide r)) < 2 ^ 64"
    and hs: "length (FrameList (map (hunk_frame H) (rp_Hunks r))) < 2 ^ 64"
    by (rule frame_value_small [OF small [unfolded record_frame_def]]; simp add: record_fields_def)+
  moreover from fields have "side_frame (rp_OldSide r) = side_frame (rp_OldSide q)"
    "side_frame (rp_NewSide r) = side_frame (rp_NewSide q)"
    and hq: "FrameList (map (hunk_frame H) (rp_Hunks r)) = FrameList (map (hunk_frame H) (rp_Hunks q))"
    by (simp_all add: record_fields_def)
  ultimately have "rp_OldSide r = rp_OldSide q" "rp_NewSide r = rp_NewSide q"
    using side_frame_inject by blast+
  moreover have "rp_Hunks r = rp_Hunks q"
    using hs hq hunk_frame_inject by (rule FrameList_map_inject)
  ultimately show ?thesis using fields
    by (cases r, cases q) (simp add: record_fields_def)
qed

lemma mset_sortedPathRecords [simp]: "mset (sortedPathRecords rs) = mset rs"
  by (simp add: sortedPathRecords_def)

lemma sorted_sortedPathRecords: "sorted (map record_key (sortedPathRecords rs))"
  by (simp add: sortedPathRecords_def)

text \<open>The canonical order forgets the order of capture and nothing else.\<close>

lemma sortedPathRecords_mset:
  "mset rs = mset qs \<Longrightarrow> inj_on record_key (set rs) \<Longrightarrow> sortedPathRecords rs = sortedPathRecords qs"
  unfolding sortedPathRecords_def by (intro sort_key_inj_key_eq) simp_all

lemma CanonicalPatchV1_inject:
  assumes "length (CanonicalPatchV1 H rs) < 2 ^ 64" "CanonicalPatchV1 H rs = CanonicalPatchV1 H qs"
  shows "mset rs = mset qs"
proof -
  have "sortedPathRecords rs = sortedPathRecords qs"
    using assms record_frame_inject unfolding CanonicalPatchV1_def by (rule FrameList_map_inject)
  then show ?thesis by (metis mset_sortedPathRecords)
qed

section \<open>Content-derived identifiers\<close>

text \<open>Lists inside a schema: full digests of identifiers, strings, raw digests.\<close>

definition fullDigestList :: "stable_id list \<Rightarrow> bytes" where
  "fullDigestList ids = FrameList (map (\<lambda>i. digest_bytes (Full i)) ids)"

definition stringList :: "string list \<Rightarrow> bytes" where
  "stringList ss = FrameList ss"

definition digestList :: "digest list \<Rightarrow> bytes" where
  "digestList ds = FrameList (map digest_bytes ds)"

definition PathID_fields :: "(bytes \<Rightarrow> digest) \<Rightarrow> digest \<Rightarrow> raw_path_record \<Rightarrow> field list" where
  "PathID_fields H scope r =
     [(''scope'', digest_bytes scope), (''record'', record_frame H r)]"

definition PathID :: "(bytes \<Rightarrow> digest) \<Rightarrow> digest \<Rightarrow> raw_path_record \<Rightarrow> stable_id" where
  "PathID H scope r = public_id PathIDPrefixV1 (H (frame (PathID_fields H scope r))) PublicIDContentBytesV1"

definition HunkID_fields :: "(bytes \<Rightarrow> digest) \<Rightarrow> digest \<Rightarrow> digest \<Rightarrow> raw_hunk \<Rightarrow> field list" where
  "HunkID_fields H scope path h =
     [(''scope'', digest_bytes scope), (''path'', digest_bytes path),
      (''ordinal'', u64_bytes (rh_Ordinal h)), (''hunk'', hunk_frame H h)]"

definition HunkID :: "(bytes \<Rightarrow> digest) \<Rightarrow> digest \<Rightarrow> digest \<Rightarrow> raw_hunk \<Rightarrow> stable_id" where
  "HunkID H scope path h =
     public_id HunkIDPrefixV1 (H (frame (HunkID_fields H scope path h))) PublicIDContentBytesV1"

definition UnitID_fields :: "string \<Rightarrow> stable_id list \<Rightarrow> field list" where
  "UnitID_fields kind hunks = [(''kind'', kind), (''hunks'', fullDigestList hunks)]"

definition UnitID :: "(bytes \<Rightarrow> digest) \<Rightarrow> string \<Rightarrow> stable_id list \<Rightarrow> stable_id" where
  "UnitID H kind hunks =
     public_id UnitIDPrefixV1 (H (frame (UnitID_fields kind hunks))) PublicIDContentBytesV1"

definition CohortID_fields :: "digest \<Rightarrow> string \<Rightarrow> stable_id list \<Rightarrow> field list" where
  "CohortID_fields scope label units =
     [(''scope'', digest_bytes scope), (''label'', label), (''units'', fullDigestList units)]"

definition CohortID :: "(bytes \<Rightarrow> digest) \<Rightarrow> digest \<Rightarrow> string \<Rightarrow> stable_id list \<Rightarrow> stable_id" where
  "CohortID H scope label units =
     public_id CohortIDPrefixV1 (H (frame (CohortID_fields scope label units))) PublicIDContentBytesV1"

definition LayerID_fields :: "stable_id \<Rightarrow> u64 \<Rightarrow> stable_id list \<Rightarrow> field list" where
  "LayerID_fields cohort ordinal units =
     [(''cohort'', digest_bytes (Full cohort)), (''ordinal'', u64_bytes ordinal),
      (''units'', fullDigestList units)]"

definition LayerID :: "(bytes \<Rightarrow> digest) \<Rightarrow> stable_id \<Rightarrow> u64 \<Rightarrow> stable_id list \<Rightarrow> stable_id" where
  "LayerID H cohort ordinal units =
     public_id LayerIDPrefixV1 (H (frame (LayerID_fields cohort ordinal units))) PublicIDContentBytesV1"

record raw_target =
  rt_Kind :: string
  rt_PathID :: digest
  rt_Side :: string
  rt_SymbolKind :: string
  rt_SymbolName :: string
  rt_Start :: u64
  rt_End :: u64
  rt_SignatureDigest :: "digest option"

definition TargetID_fields :: "raw_target \<Rightarrow> field list" where
  "TargetID_fields t = [
     (''kind'', rt_Kind t),
     (''path'', digest_bytes (rt_PathID t)),
     (''side'', rt_Side t),
     (''symbol_kind'', rt_SymbolKind t),
     (''symbol_name'', rt_SymbolName t),
     (''start'', u64_bytes (rt_Start t)),
     (''end'', u64_bytes (rt_End t)),
     (''signature'', optDigest (rt_SignatureDigest t))]"

definition TargetID :: "(bytes \<Rightarrow> digest) \<Rightarrow> raw_target \<Rightarrow> stable_id" where
  "TargetID H t = public_id TargetIDPrefixV1 (H (frame (TargetID_fields t))) PublicIDContentBytesV1"

record workspace_tree_record =
  wt_Path :: string
  wt_Mode :: u32
  wt_Kind :: string
  wt_Content :: "digest option"

definition tree_fields :: "workspace_tree_record \<Rightarrow> field list" where
  "tree_fields r = [
     (''path'', wt_Path r), (''mode'', u32_bytes (wt_Mode r)),
     (''kind'', wt_Kind r), (''content'', optDigest (wt_Content r))]"

definition WorkspaceTreeV1 :: "workspace_tree_record list \<Rightarrow> bytes" where
  "WorkspaceTreeV1 rs = FrameList (map (\<lambda>r. frame (tree_fields r)) (sort_key wt_Path rs))"

definition WorkspaceHeadIdentity :: "(bytes \<Rightarrow> digest) \<Rightarrow> workspace_tree_record list \<Rightarrow> side_identity" where
  "WorkspaceHeadIdentity H rs =
     \<lparr>side_Kind = SideWorkspaceSHA256, side_Value = digest_bytes (H (WorkspaceTreeV1 rs))\<rparr>"

definition ScopeSchemaV1 :: string where [simp]: "ScopeSchemaV1 = ''review.scope.v1''"

definition ScopeIdentity_fields ::
    "string \<Rightarrow> side_identity \<Rightarrow> side_identity \<Rightarrow> string \<Rightarrow> digest \<Rightarrow> field list" where
  "ScopeIdentity_fields objectFormat base head mode canonicalPatch = [
     (''schema'', ScopeSchemaV1),
     (''object_format'', objectFormat),
     (''base'', side_frame base),
     (''head'', side_frame head),
     (''mode'', mode),
     (''canonical_patch'', digest_bytes canonicalPatch)]"

definition ScopeIdentityV1 ::
    "string \<Rightarrow> side_identity \<Rightarrow> side_identity \<Rightarrow> string \<Rightarrow> digest \<Rightarrow> bytes" where
  "ScopeIdentityV1 objectFormat base head mode canonicalPatch =
     frame (ScopeIdentity_fields objectFormat base head mode canonicalPatch)"

definition ScopeDigest ::
    "(bytes \<Rightarrow> digest) \<Rightarrow> string \<Rightarrow> side_identity \<Rightarrow> side_identity \<Rightarrow> string \<Rightarrow> digest \<Rightarrow> digest" where
  "ScopeDigest H objectFormat base head mode canonicalPatch =
     H (ScopeIdentityV1 objectFormat base head mode canonicalPatch)"

text \<open>None of these schemas can panic.\<close>

lemma id_fields_ok:
  "list_all (\<lambda>f. name_ok (fst f)) (PathID_fields H scope r)"
  "list_all (\<lambda>f. name_ok (fst f)) (HunkID_fields H scope path h)"
  "list_all (\<lambda>f. name_ok (fst f)) (UnitID_fields kind ids)"
  "list_all (\<lambda>f. name_ok (fst f)) (CohortID_fields scope label ids)"
  "list_all (\<lambda>f. name_ok (fst f)) (LayerID_fields cohort ordinal ids)"
  "list_all (\<lambda>f. name_ok (fst f)) (TargetID_fields t)"
  "list_all (\<lambda>f. name_ok (fst f)) (tree_fields w)"
  "list_all (\<lambda>f. name_ok (fst f)) (ScopeIdentity_fields fmt bs hs m cp)"
  by (simp_all add: PathID_fields_def HunkID_fields_def UnitID_fields_def CohortID_fields_def
      LayerID_fields_def TargetID_fields_def tree_fields_def ScopeIdentity_fields_def name_ok_simp)

lemma PathID_fields_inject:
  assumes small: "length (frame (PathID_fields H s r)) < 2 ^ 64"
    and eq: "frame (PathID_fields H s r) = frame (PathID_fields H t q)"
  shows "s = t \<and> r = q"
proof -
  have fields: "PathID_fields H s r = PathID_fields H t q"
    using assms by (intro frame_values_inject id_fields_ok)
  moreover have "length (record_frame H r) < 2 ^ 64"
    by (rule frame_value_small [OF small]) (simp add: PathID_fields_def)
  ultimately show ?thesis
    using record_frame_inject by (simp add: PathID_fields_def)
qed

lemma HunkID_fields_inject:
  assumes small: "length (frame (HunkID_fields H s p h)) < 2 ^ 64"
    and eq: "frame (HunkID_fields H s p h) = frame (HunkID_fields H t q k)"
  shows "s = t \<and> p = q \<and> h = k"
proof -
  have fields: "HunkID_fields H s p h = HunkID_fields H t q k"
    using assms by (intro frame_values_inject id_fields_ok)
  moreover have "length (hunk_frame H h) < 2 ^ 64"
    by (rule frame_value_small [OF small]) (simp add: HunkID_fields_def)
  ultimately show ?thesis
    using hunk_frame_inject by (simp add: HunkID_fields_def)
qed

lemma fullDigestList_inject:
  assumes "length (fullDigestList xs) < 2 ^ 64" "fullDigestList xs = fullDigestList ys"
  shows "map Full xs = map Full ys"
proof -
  have "list_all item_ok (map (\<lambda>i. digest_bytes (Full i)) zs)" for zs
    by (simp add: list_all_iff item_ok_def)
  then have "map (\<lambda>i. digest_bytes (Full i)) xs = map (\<lambda>i. digest_bytes (Full i)) ys"
    using assms(2) unfolding fullDigestList_def by (intro FrameList_inject)
  then have "map digest_bytes (map Full xs) = map digest_bytes (map Full ys)"
    by (simp add: comp_def)
  then show ?thesis by (rule map_injective) (simp add: inj_def)
qed

lemma ScopeIdentityV1_inject:
  assumes small: "length (ScopeIdentityV1 f b h m c) < 2 ^ 64"
    and eq: "ScopeIdentityV1 f b h m c = ScopeIdentityV1 f' b' h' m' c'"
  shows "f = f' \<and> b = b' \<and> h = h' \<and> m = m' \<and> c = c'"
proof -
  have fields: "ScopeIdentity_fields f b h m c = ScopeIdentity_fields f' b' h' m' c'"
    using assms unfolding ScopeIdentityV1_def by (intro frame_values_inject id_fields_ok)
  moreover have "length (side_frame b) < 2 ^ 64" "length (side_frame h) < 2 ^ 64"
    by (rule frame_value_small [OF small [unfolded ScopeIdentityV1_def]];
        simp add: ScopeIdentity_fields_def)+
  ultimately show ?thesis
    using side_frame_inject by (simp add: ScopeIdentity_fields_def)
qed

section \<open>The plan identity\<close>

record plan_path_entry =
  ppe_PathID :: stable_id
  ppe_ReviewClass :: string
  ppe_Coverage :: string
  ppe_Reason :: string
  ppe_RoleIDs :: "string list"

record plan_hunk_entry =
  phe_HunkID :: stable_id
  phe_Reviewability :: string
  phe_Reason :: string

record plan_unit_entry =
  pue_UnitID :: stable_id
  pue_Kind :: string
  pue_HunkIDs :: "stable_id list"
  pue_AttentionSignalIDs :: "string list"

record plan_cohort_entry =
  pce_CohortID :: stable_id
  pce_LayerID :: stable_id
  pce_UnitIDs :: "stable_id list"

record plan_audit_entry =
  pae_AuditID :: string
  pae_TargetIDs :: "stable_id list"

record plan_constants =
  pc_StructuredThreshold :: u64
  pc_UnitLineCap :: u64
  pc_MandatoryJSONCap :: u64
  pc_TextClassifierVersion :: string
  pc_ContextRankerVersion :: string

record plan_identity =
  pi_PlannerVersion :: string
  pi_ScopeDigest :: digest
  pi_IndexSchema :: string
  pi_IndexVersion :: string
  pi_HeadIndexSignature :: bytes
  pi_Paths :: "plan_path_entry list"
  pi_Hunks :: "plan_hunk_entry list"
  pi_Units :: "plan_unit_entry list"
  pi_Cohorts :: "plan_cohort_entry list"
  pi_Audits :: "plan_audit_entry list"
  pi_TrustedEvidence :: "digest list"
  pi_UntrustedEvidence :: "digest list"
  pi_Constants :: plan_constants

definition PlanSchemaV1 :: string where [simp]: "PlanSchemaV1 = ''review.plan.v1''"

definition path_item_fields :: "plan_path_entry \<Rightarrow> field list" where
  "path_item_fields e = [
     (''path_id'', digest_bytes (Full (ppe_PathID e))),
     (''review_class'', ppe_ReviewClass e),
     (''coverage'', ppe_Coverage e),
     (''reason'', ppe_Reason e),
     (''role_ids'', stringList (ppe_RoleIDs e))]"

definition hunk_item_fields :: "plan_hunk_entry \<Rightarrow> field list" where
  "hunk_item_fields e = [
     (''hunk_id'', digest_bytes (Full (phe_HunkID e))),
     (''reviewability'', phe_Reviewability e),
     (''reason'', phe_Reason e)]"

definition unit_item_fields :: "plan_unit_entry \<Rightarrow> field list" where
  "unit_item_fields e = [
     (''unit_id'', digest_bytes (Full (pue_UnitID e))),
     (''kind'', pue_Kind e),
     (''hunk_ids'', fullDigestList (pue_HunkIDs e)),
     (''attention_signal_ids'', stringList (pue_AttentionSignalIDs e))]"

definition cohort_item_fields :: "plan_cohort_entry \<Rightarrow> field list" where
  "cohort_item_fields e = [
     (''cohort_id'', digest_bytes (Full (pce_CohortID e))),
     (''layer_id'', digest_bytes (Full (pce_LayerID e))),
     (''unit_ids'', fullDigestList (pce_UnitIDs e))]"

definition audit_item_fields :: "plan_audit_entry \<Rightarrow> field list" where
  "audit_item_fields e = [
     (''audit_id'', pae_AuditID e),
     (''target_ids'', fullDigestList (pae_TargetIDs e))]"

definition constants_fields :: "plan_constants \<Rightarrow> field list" where
  "constants_fields c = [
     (''structured_threshold'', u64_bytes (pc_StructuredThreshold c)),
     (''unit_line_cap'', u64_bytes (pc_UnitLineCap c)),
     (''mandatory_json_cap'', u64_bytes (pc_MandatoryJSONCap c)),
     (''text_classifier_version'', pc_TextClassifierVersion c),
     (''context_ranker_version'', pc_ContextRankerVersion c)]"

definition ReviewPlanIdentity_fields :: "plan_identity \<Rightarrow> field list" where
  "ReviewPlanIdentity_fields p = [
     (''schema'', PlanSchemaV1),
     (''planner_version'', pi_PlannerVersion p),
     (''scope'', digest_bytes (pi_ScopeDigest p)),
     (''index_schema'', pi_IndexSchema p),
     (''index_version'', pi_IndexVersion p),
     (''head_index_signature'', pi_HeadIndexSignature p),
     (''paths'', FrameList (map (\<lambda>e. frame (path_item_fields e)) (pi_Paths p))),
     (''hunks'', FrameList (map (\<lambda>e. frame (hunk_item_fields e)) (pi_Hunks p))),
     (''units'', FrameList (map (\<lambda>e. frame (unit_item_fields e)) (pi_Units p))),
     (''cohorts'', FrameList (map (\<lambda>e. frame (cohort_item_fields e)) (pi_Cohorts p))),
     (''audits'', FrameList (map (\<lambda>e. frame (audit_item_fields e)) (pi_Audits p))),
     (''trusted_evidence'', digestList (pi_TrustedEvidence p)),
     (''untrusted_evidence'', digestList (pi_UntrustedEvidence p)),
     (''constants'', frame (constants_fields (pi_Constants p)))]"

definition ReviewPlanIdentityV1 :: "plan_identity \<Rightarrow> bytes" where
  "ReviewPlanIdentityV1 p = frame (ReviewPlanIdentity_fields p)"

definition ReviewPlanDigest :: "(bytes \<Rightarrow> digest) \<Rightarrow> plan_identity \<Rightarrow> digest" where
  "ReviewPlanDigest H p = H (ReviewPlanIdentityV1 p)"

definition ReviewID :: "(bytes \<Rightarrow> digest) \<Rightarrow> plan_identity \<Rightarrow> stable_id" where
  "ReviewID H p = public_id ReviewIDPrefixV1 (ReviewPlanDigest H p) PublicIDReviewBytesV1"

subsection \<open>What the plan identity binds\<close>

text \<open>
  The encoding keeps the full digest of every identifier and drops its public form, which is a
  function of the kind and the digest.  \<open>identity_view\<close> is what is left: entries as tuples with
  identifiers replaced by their full digests.
\<close>

definition path_view where
  "path_view e = (Full (ppe_PathID e), ppe_ReviewClass e, ppe_Coverage e, ppe_Reason e, ppe_RoleIDs e)"
definition hunk_view where
  "hunk_view e = (Full (phe_HunkID e), phe_Reviewability e, phe_Reason e)"
definition unit_view where
  "unit_view e = (Full (pue_UnitID e), pue_Kind e, map Full (pue_HunkIDs e), pue_AttentionSignalIDs e)"
definition cohort_view where
  "cohort_view e = (Full (pce_CohortID e), Full (pce_LayerID e), map Full (pce_UnitIDs e))"
definition audit_view where
  "audit_view e = (pae_AuditID e, map Full (pae_TargetIDs e))"

definition identity_view where
  "identity_view p =
     (pi_PlannerVersion p, pi_ScopeDigest p, pi_IndexSchema p, pi_IndexVersion p,
      pi_HeadIndexSignature p, map path_view (pi_Paths p), map hunk_view (pi_Hunks p),
      map unit_view (pi_Units p), map cohort_view (pi_Cohorts p), map audit_view (pi_Audits p),
      pi_TrustedEvidence p, pi_UntrustedEvidence p, pi_Constants p)"

lemmas item_fields_defs = path_item_fields_def hunk_item_fields_def unit_item_fields_def
  cohort_item_fields_def audit_item_fields_def constants_fields_def

lemmas view_defs = path_view_def hunk_view_def unit_view_def cohort_view_def audit_view_def

lemma plan_fields_ok:
  "list_all (\<lambda>f. name_ok (fst f)) (path_item_fields a)"
  "list_all (\<lambda>f. name_ok (fst f)) (hunk_item_fields b)"
  "list_all (\<lambda>f. name_ok (fst f)) (unit_item_fields c)"
  "list_all (\<lambda>f. name_ok (fst f)) (cohort_item_fields d)"
  "list_all (\<lambda>f. name_ok (fst f)) (audit_item_fields e)"
  "list_all (\<lambda>f. name_ok (fst f)) (constants_fields k)"
  "list_all (\<lambda>f. name_ok (fst f)) (ReviewPlanIdentity_fields p)"
  by (simp_all add: item_fields_defs ReviewPlanIdentity_fields_def name_ok_simp)

lemma stringList_inject:
  "length (stringList xs) < 2 ^ 64 \<Longrightarrow> stringList xs = stringList ys \<Longrightarrow> xs = ys"
  unfolding stringList_def by (intro FrameList_inject) (auto intro: FrameList_small_ok)

lemma digestList_inject:
  "length (digestList xs) < 2 ^ 64 \<Longrightarrow> digestList xs = digestList ys \<Longrightarrow> xs = ys"
  unfolding digestList_def
  by (rule FrameList_map_inject [where f = digest_bytes]) (assumption | rule digest_bytes_inject [THEN iffD1])+

text \<open>One item of each list determines its view; the lists follow from \<open>FrameList\<close>.\<close>

lemma path_item_view:
  assumes small: "length (frame (path_item_fields x)) < 2 ^ 64"
    and eq: "frame (path_item_fields x) = frame (path_item_fields y)"
  shows "path_view x = path_view y"
proof -
  have "path_item_fields x = path_item_fields y"
    using assms by (intro frame_values_inject plan_fields_ok)
  moreover have "length (stringList (ppe_RoleIDs x)) < 2 ^ 64"
    by (rule frame_value_small [OF small]) (simp add: item_fields_defs)
  ultimately show ?thesis using stringList_inject [of "ppe_RoleIDs x" "ppe_RoleIDs y"]
    by (simp add: item_fields_defs view_defs)
qed

lemma hunk_item_view:
  assumes "length (frame (hunk_item_fields x)) < 2 ^ 64"
    and "frame (hunk_item_fields x) = frame (hunk_item_fields y)"
  shows "hunk_view x = hunk_view y"
proof -
  have "hunk_item_fields x = hunk_item_fields y"
    using assms by (intro frame_values_inject plan_fields_ok)
  then show ?thesis by (simp add: item_fields_defs view_defs)
qed

lemma unit_item_view:
  assumes small: "length (frame (unit_item_fields x)) < 2 ^ 64"
    and eq: "frame (unit_item_fields x) = frame (unit_item_fields y)"
  shows "unit_view x = unit_view y"
proof -
  have "unit_item_fields x = unit_item_fields y"
    using assms by (intro frame_values_inject plan_fields_ok)
  moreover have "length (stringList (pue_AttentionSignalIDs x)) < 2 ^ 64"
    "length (fullDigestList (pue_HunkIDs x)) < 2 ^ 64"
    by (rule frame_value_small [OF small]; simp add: item_fields_defs)+
  ultimately show ?thesis
    using stringList_inject [of "pue_AttentionSignalIDs x" "pue_AttentionSignalIDs y"]
      fullDigestList_inject [of "pue_HunkIDs x" "pue_HunkIDs y"]
    by (simp add: item_fields_defs view_defs)
qed

lemma cohort_item_view:
  assumes small: "length (frame (cohort_item_fields x)) < 2 ^ 64"
    and eq: "frame (cohort_item_fields x) = frame (cohort_item_fields y)"
  shows "cohort_view x = cohort_view y"
proof -
  have "cohort_item_fields x = cohort_item_fields y"
    using assms by (intro frame_values_inject plan_fields_ok)
  moreover have "length (fullDigestList (pce_UnitIDs x)) < 2 ^ 64"
    by (rule frame_value_small [OF small]) (simp add: item_fields_defs)
  ultimately show ?thesis using fullDigestList_inject [of "pce_UnitIDs x" "pce_UnitIDs y"]
    by (simp add: item_fields_defs view_defs)
qed

lemma audit_item_view:
  assumes small: "length (frame (audit_item_fields x)) < 2 ^ 64"
    and eq: "frame (audit_item_fields x) = frame (audit_item_fields y)"
  shows "audit_view x = audit_view y"
proof -
  have "audit_item_fields x = audit_item_fields y"
    using assms by (intro frame_values_inject plan_fields_ok)
  moreover have "length (fullDigestList (pae_TargetIDs x)) < 2 ^ 64"
    by (rule frame_value_small [OF small]) (simp add: item_fields_defs)
  ultimately show ?thesis using fullDigestList_inject [of "pae_TargetIDs x" "pae_TargetIDs y"]
    by (simp add: item_fields_defs view_defs)
qed

lemma constants_inject:
  assumes "length (frame (constants_fields x)) < 2 ^ 64"
    and "frame (constants_fields x) = frame (constants_fields y)"
  shows "x = y"
proof -
  have "constants_fields x = constants_fields y"
    using assms by (intro frame_values_inject plan_fields_ok)
  then show ?thesis by (cases x, cases y) (simp add: item_fields_defs)
qed

lemma FrameList_view:
  assumes "length (FrameList (map (\<lambda>e. frame (f e)) xs)) < 2 ^ 64"
    and "FrameList (map (\<lambda>e. frame (f e)) xs) = FrameList (map (\<lambda>e. frame (f e)) ys)"
    and "\<And>x y. length (frame (f x)) < 2 ^ 64 \<Longrightarrow> frame (f x) = frame (f y) \<Longrightarrow> v x = v y"
  shows "map v xs = map v ys"
proof -
  have ok: "list_all item_ok (map (\<lambda>e. frame (f e)) xs)" "list_all item_ok (map (\<lambda>e. frame (f e)) ys)"
    using assms(1,2) by (auto intro: FrameList_small_ok)
  with assms(2) have "map (\<lambda>e. frame (f e)) xs = map (\<lambda>e. frame (f e)) ys"
    by (intro FrameList_inject) simp_all
  moreover have "\<forall>x\<in>set xs. length (frame (f x)) < 2 ^ 64"
    using ok(1) by (simp add: list_all_iff item_ok_def)
  ultimately show ?thesis
  proof (induction xs arbitrary: ys)
    case (Cons x xs)
    then obtain y ys' where ys: "ys = y # ys'" "frame (f x) = frame (f y)"
      "map (\<lambda>e. frame (f e)) xs = map (\<lambda>e. frame (f e)) ys'" by (auto simp: Cons_eq_map_conv)
    have "v x = v y" using Cons.prems(2) ys(2) by (intro assms(3)) auto
    moreover have "map v xs = map v ys'" using Cons ys(3) by auto
    ultimately show ?case using ys(1) by simp
  qed simp
qed

lemma ReviewPlanIdentityV1_view:
  assumes small: "length (ReviewPlanIdentityV1 p) < 2 ^ 64"
    and eq: "ReviewPlanIdentityV1 p = ReviewPlanIdentityV1 q"
  shows "identity_view p = identity_view q"
proof -
  have fields: "ReviewPlanIdentity_fields p = ReviewPlanIdentity_fields q"
    using assms unfolding ReviewPlanIdentityV1_def by (intro frame_values_inject plan_fields_ok)
  note part = frame_value_small [OF small [unfolded ReviewPlanIdentityV1_def]]
  have "map path_view (pi_Paths p) = map path_view (pi_Paths q)"
    by (rule FrameList_view [OF part _ path_item_view])
       (use fields in \<open>simp_all add: ReviewPlanIdentity_fields_def\<close>)
  moreover have "map hunk_view (pi_Hunks p) = map hunk_view (pi_Hunks q)"
    by (rule FrameList_view [OF part _ hunk_item_view])
       (use fields in \<open>simp_all add: ReviewPlanIdentity_fields_def\<close>)
  moreover have "map unit_view (pi_Units p) = map unit_view (pi_Units q)"
    by (rule FrameList_view [OF part _ unit_item_view])
       (use fields in \<open>simp_all add: ReviewPlanIdentity_fields_def\<close>)
  moreover have "map cohort_view (pi_Cohorts p) = map cohort_view (pi_Cohorts q)"
    by (rule FrameList_view [OF part _ cohort_item_view])
       (use fields in \<open>simp_all add: ReviewPlanIdentity_fields_def\<close>)
  moreover have "map audit_view (pi_Audits p) = map audit_view (pi_Audits q)"
    by (rule FrameList_view [OF part _ audit_item_view])
       (use fields in \<open>simp_all add: ReviewPlanIdentity_fields_def\<close>)
  moreover have "pi_Constants p = pi_Constants q"
    by (rule constants_inject [OF part]) (use fields in \<open>simp_all add: ReviewPlanIdentity_fields_def\<close>)
  moreover have "pi_TrustedEvidence p = pi_TrustedEvidence q"
    "pi_UntrustedEvidence p = pi_UntrustedEvidence q"
    by (rule digestList_inject [OF part];
        use fields in \<open>simp add: ReviewPlanIdentity_fields_def\<close>)+
  ultimately show ?thesis using fields
    by (simp add: identity_view_def ReviewPlanIdentity_fields_def)
qed

text \<open>The view determines the encoding, so the encoding binds exactly the view.\<close>

lemma view_fields:
  "path_view x = path_view y \<Longrightarrow> path_item_fields x = path_item_fields y"
  "hunk_view a = hunk_view b \<Longrightarrow> hunk_item_fields a = hunk_item_fields b"
  "audit_view e = audit_view f \<Longrightarrow> audit_item_fields e = audit_item_fields f"
  by (simp_all add: item_fields_defs view_defs fullDigestList_def flip: map_map [of digest_bytes Full, unfolded comp_def])

lemma view_fields_ids:
  "unit_view u = unit_view v \<Longrightarrow> unit_item_fields u = unit_item_fields v"
  "cohort_view c = cohort_view d \<Longrightarrow> cohort_item_fields c = cohort_item_fields d"
  by (simp_all add: item_fields_defs view_defs fullDigestList_def flip: map_map [of digest_bytes Full, unfolded comp_def])

lemma map_view_fields:
  assumes "map v xs = map v ys" "\<And>x y. v x = v y \<Longrightarrow> f x = f y"
  shows "map (\<lambda>e. frame (f e)) xs = map (\<lambda>e. frame (f e)) ys"
  using assms(1)
proof (induction xs arbitrary: ys)
  case (Cons x xs)
  then obtain y zs where ys: "ys = y # zs" "v x = v y" "map v xs = map v zs" by (auto simp: Cons_eq_map_conv)
  with Cons.IH [of zs] assms(2) [of x y] show ?case by simp
qed simp

lemma identity_view_fields:
  assumes "identity_view p = identity_view q"
  shows "ReviewPlanIdentity_fields p = ReviewPlanIdentity_fields q"
proof -
  have v: "map path_view (pi_Paths p) = map path_view (pi_Paths q)"
    "map hunk_view (pi_Hunks p) = map hunk_view (pi_Hunks q)"
    "map unit_view (pi_Units p) = map unit_view (pi_Units q)"
    "map cohort_view (pi_Cohorts p) = map cohort_view (pi_Cohorts q)"
    "map audit_view (pi_Audits p) = map audit_view (pi_Audits q)"
    using assms by (simp_all add: identity_view_def)
  show ?thesis using assms
    map_view_fields [OF v(1) view_fields(1)] map_view_fields [OF v(2) view_fields(2)]
    map_view_fields [OF v(3) view_fields_ids(1)] map_view_fields [OF v(4) view_fields_ids(2)]
    map_view_fields [OF v(5) view_fields(3)]
    by (simp add: identity_view_def ReviewPlanIdentity_fields_def)
qed

section \<open>Properties\<close>

text \<open>
  C26: \<open>Frame\<close> never panics on fields with valid names, and the decoder reads every field of a
  frame back: names, values and their separation survive, whatever bytes the values hold.
\<close>

theorem Frame_decode_roundtrip:
  assumes "list_all field_ok fs" "distinct (map fst fs)"
  shows "Frame fs = Some (frame fs) \<and> decodeFramedFields (frame fs) = Inr (map_of fs)"
proof -
  have "Frame fs = Some (frame fs)" using assms(1) by (auto simp: Frame_def list_all_iff field_ok_def)
  moreover have "map_of (rev fs) = map_of fs"
    by (rule map_of_eqI) (auto simp: assms(2) rev_map [symmetric] dest: map_of_SomeD intro!: map_of_is_SomeI)
  ultimately show ?thesis using decodeFramedFields_frame [OF assms(1)] by simp
qed

lemma Frame_decode_roundtrip_witness:
  "decodeFramedFields (frame [(''a'', [CHR 0x00, CHR 0x02]), (''b'', ''xyz'')]) =
     Inr (map_of [(''a'', [CHR 0x00, CHR 0x02]), (''b'', ''xyz'')])"
  using Frame_decode_roundtrip [of "[(''a'', [CHR 0x00, CHR 0x02]), (''b'', ''xyz'')]"]
  by (simp add: field_ok_def name_ok_def)

text \<open>
  C28: a path identifier binds the scope and the whole change record, a hunk identifier the scope,
  the path and the whole hunk: equal full digests mean equal contents, unless the hash collides on
  exactly the two encodings.
\<close>

theorem content_ids_bind:
  assumes "length (frame (PathID_fields H s r)) < 2 ^ 64"
    and "length (frame (HunkID_fields H s p h)) < 2 ^ 64"
    and "H (frame (PathID_fields H s r)) = H (frame (PathID_fields H t q)) \<longrightarrow>
      frame (PathID_fields H s r) = frame (PathID_fields H t q)"
    and "H (frame (HunkID_fields H s p h)) = H (frame (HunkID_fields H t p' k)) \<longrightarrow>
      frame (HunkID_fields H s p h) = frame (HunkID_fields H t p' k)"
  shows "(Full (PathID H s r) = Full (PathID H t q) \<longleftrightarrow> s = t \<and> r = q) \<and>
    (Full (HunkID H s p h) = Full (HunkID H t p' k) \<longleftrightarrow> s = t \<and> p = p' \<and> h = k)"
proof -
  have "Full (PathID H s r) = Full (PathID H t q) \<longrightarrow> s = t \<and> r = q"
    using assms(3) PathID_fields_inject [OF assms(1)] by (auto simp: PathID_def)
  moreover have "Full (HunkID H s p h) = Full (HunkID H t p' k) \<longrightarrow> s = t \<and> p = p' \<and> h = k"
    using assms(4) HunkID_fields_inject [OF assms(2)] by (auto simp: HunkID_def)
  ultimately show ?thesis by auto
qed

definition sample_hunk :: raw_hunk where
  "sample_hunk = \<lparr>rh_Ordinal = 0, rh_OldStart = 1, rh_OldLines = 0, rh_NewStart = 1, rh_NewLines = 1,
     rh_NoFinalNewlineOld = False, rh_NoFinalNewlineNew = False, rh_Payload = ''+a''\<rparr>"

definition sample_record :: raw_path_record where
  "sample_record = \<lparr>rp_Kind = ''k'', rp_Status = ''A'', rp_OldPath = [], rp_NewPath = ''x'', rp_OldMode = 0,
     rp_NewMode = 33188, rp_OldSide = AbsentSide, rp_NewSide = AbsentSide, rp_TextClass = ''text'',
     rp_Additions = 1, rp_Deletions = 0, rp_OldContentDigest = None, rp_NewContentDigest = None,
     rp_Hunks = [sample_hunk]\<rparr>"

text \<open>A toy hash that tells apart the inputs of the witness: the length of its input.\<close>

definition length_hash :: "bytes \<Rightarrow> digest" where
  "length_hash b = of_nat (length b)"

lemma length_frame [codec_simps]:
  "length (frame fs) = sum_list (map (\<lambda>f. 10 + length (fst f) + length (snd f)) fs)"
  by (induction fs) (simp_all add: frame_def field_bytes_def)

lemma length_FrameList [codec_simps]:
  "length (FrameList items) = 8 + sum_list (map (\<lambda>i. 8 + length i) items)"
  by (induction items) (simp_all add: FrameList_def item_bytes_def)

lemma sample_lengths:
  "length (hunk_frame H (sample_hunk\<lparr>rh_Payload := w\<rparr>)) = 268 + length w"
  "length (record_frame H (sample_record\<lparr>rp_NewPath := w\<rparr>)) = 647 + length w"
proof -
  show h: "length (hunk_frame H (sample_hunk\<lparr>rh_Payload := w\<rparr>)) = 268 + length w" for w
    by (simp add: hunk_frame_def hunk_fields_def sample_hunk_def codec_simps boolByte_def u64_bytes_def)
  show "length (record_frame H (sample_record\<lparr>rp_NewPath := w\<rparr>)) = 647 + length w"
    using h [of "''+a''"]
    by (simp add: record_frame_def record_fields_def sample_record_def codec_simps u64_bytes_def u32_bytes_def
        optDigest_def side_frame_def side_frame_fields_def AbsentSide_def sample_hunk_def)
qed

lemma sample_id_lengths:
  "length (frame (PathID_fields H s (sample_record\<lparr>rp_NewPath := w\<rparr>))) = 710 + length w"
  "length (frame (HunkID_fields H s p (sample_hunk\<lparr>rh_Payload := w\<rparr>))) = 400 + length w"
  by (simp_all add: PathID_fields_def HunkID_fields_def codec_simps sample_lengths u64_bytes_def)

lemma length_hash_inject:
  "length x < 2 ^ 16 \<Longrightarrow> length y < 2 ^ 16 \<Longrightarrow> length_hash x = length_hash y \<longleftrightarrow> length x = length y"
  by (simp add: length_hash_def word_of_nat_eq_iff take_bit_nat_eq_self)

lemma sample_updates:
  "sample_record = sample_record\<lparr>rp_NewPath := ''x''\<rparr>" "sample_hunk = sample_hunk\<lparr>rh_Payload := ''+a''\<rparr>"
  by (simp_all add: sample_record_def sample_hunk_def)

lemma content_ids_bind_witness:
  "(Full (PathID length_hash 1 sample_record) = Full (PathID length_hash 1 (sample_record\<lparr>rp_NewPath := ''xy''\<rparr>)) \<longleftrightarrow>
      (1::digest) = 1 \<and> sample_record = sample_record\<lparr>rp_NewPath := ''xy''\<rparr>) \<and>
   (Full (HunkID length_hash 1 2 sample_hunk) = Full (HunkID length_hash 1 2 (sample_hunk\<lparr>rh_Payload := ''+ab''\<rparr>)) \<longleftrightarrow>
      (1::digest) = 1 \<and> (2::digest) = 2 \<and> sample_hunk = sample_hunk\<lparr>rh_Payload := ''+ab''\<rparr>)"
proof (rule content_ids_bind)
  note r = sample_id_lengths [of length_hash 1]
  have l: "length (frame (PathID_fields length_hash 1 sample_record)) = 711"
    "length (frame (HunkID_fields length_hash 1 2 sample_hunk)) = 402"
    using r(1) [of "''x''"] r(2) [of 2 "''+a''"] sample_updates by simp_all
  show "length (frame (PathID_fields length_hash 1 sample_record)) < 2 ^ 64"
    "length (frame (HunkID_fields length_hash 1 2 sample_hunk)) < 2 ^ 64" by (simp_all add: l)
  show "length_hash (frame (PathID_fields length_hash 1 sample_record)) =
      length_hash (frame (PathID_fields length_hash 1 (sample_record\<lparr>rp_NewPath := ''xy''\<rparr>))) \<longrightarrow>
      frame (PathID_fields length_hash 1 sample_record) =
      frame (PathID_fields length_hash 1 (sample_record\<lparr>rp_NewPath := ''xy''\<rparr>))"
    by (simp add: length_hash_inject l r(1))
  show "length_hash (frame (HunkID_fields length_hash 1 2 sample_hunk)) =
      length_hash (frame (HunkID_fields length_hash 1 2 (sample_hunk\<lparr>rh_Payload := ''+ab''\<rparr>))) \<longrightarrow>
      frame (HunkID_fields length_hash 1 2 sample_hunk) =
      frame (HunkID_fields length_hash 1 2 (sample_hunk\<lparr>rh_Payload := ''+ab''\<rparr>))"
    by (simp add: length_hash_inject l r(2))
qed

text \<open>
  C29: the canonical patch does not depend on the order in which changes were captured, as long as no
  two records share paths and status, and it determines the changes: patches with equal encodings
  hold the same records.
\<close>

theorem CanonicalPatchV1_canonical:
  assumes "length (CanonicalPatchV1 H rs) < 2 ^ 64" and "inj_on record_key (set rs)"
  shows "CanonicalPatchV1 H rs = CanonicalPatchV1 H qs \<longleftrightarrow> mset rs = mset qs"
proof
  assume "mset rs = mset qs"
  with assms(2) show "CanonicalPatchV1 H rs = CanonicalPatchV1 H qs"
    by (simp add: CanonicalPatchV1_def sortedPathRecords_mset)
qed (rule CanonicalPatchV1_inject [OF assms(1)])

lemma CanonicalPatchV1_canonical_witness:
  "CanonicalPatchV1 length_hash [sample_record, sample_record\<lparr>rp_NewPath := ''b''\<rparr>] =
     CanonicalPatchV1 length_hash [sample_record\<lparr>rp_NewPath := ''b''\<rparr>, sample_record]"
proof -
  have len: "length (CanonicalPatchV1 length_hash [sample_record, sample_record\<lparr>rp_NewPath := ''b''\<rparr>]) < 2 ^ 64"
    using sample_lengths(2) [of length_hash "''x''"] sample_lengths(2) [of length_hash "''b''"] sample_updates(1)
    by (simp add: CanonicalPatchV1_def sortedPathRecords_def codec_simps)
  have "inj_on record_key (set [sample_record, sample_record\<lparr>rp_NewPath := ''b''\<rparr>])"
    by (simp add: record_key_def sample_record_def)
  from CanonicalPatchV1_canonical [OF len this, of "[sample_record\<lparr>rp_NewPath := ''b''\<rparr>, sample_record]"]
  show ?thesis by simp
qed

text \<open>
  C30: the plan identity binds every ingredient of a plan, and nothing else: two plans have the same
  canonical encoding exactly when all the fields of \<open>identity_view\<close> agree (identifiers by their full
  digests).  So plans with different identities differ in a bound ingredient, and a hash that does
  not collide on the two encodings separates their review identifiers.
\<close>

theorem ReviewPlanIdentityV1_binds:
  assumes "length (ReviewPlanIdentityV1 p) < 2 ^ 64"
  shows "ReviewPlanIdentityV1 p = ReviewPlanIdentityV1 q \<longleftrightarrow> identity_view p = identity_view q"
proof
  show "identity_view p = identity_view q" if "ReviewPlanIdentityV1 p = ReviewPlanIdentityV1 q"
    using assms that by (rule ReviewPlanIdentityV1_view)
  show "ReviewPlanIdentityV1 p = ReviewPlanIdentityV1 q" if "identity_view p = identity_view q"
    unfolding ReviewPlanIdentityV1_def identity_view_fields [OF that] ..
qed

definition sample_plan :: plan_identity where
  "sample_plan = \<lparr>pi_PlannerVersion = ''v1'', pi_ScopeDigest = 5, pi_IndexSchema = ''s'', pi_IndexVersion = ''1'',
     pi_HeadIndexSignature = [], pi_Paths = [], pi_Hunks = [\<lparr>phe_HunkID = \<lparr>Public = ''h_1'', Full = 7\<rparr>,
     phe_Reviewability = ''full'', phe_Reason = []\<rparr>], pi_Units = [], pi_Cohorts = [], pi_Audits = [],
     pi_TrustedEvidence = [9], pi_UntrustedEvidence = [],
     pi_Constants = \<lparr>pc_StructuredThreshold = 300, pc_UnitLineCap = 400, pc_MandatoryJSONCap = 16777216,
       pc_TextClassifierVersion = ''t'', pc_ContextRankerVersion = ''c''\<rparr>\<rparr>"

lemma length_sample_plan: "length (ReviewPlanIdentityV1 sample_plan) < 2 ^ 64"
proof -
  have c: "length (frame (constants_fields (pi_Constants sample_plan))) < 1000"
    by (simp add: constants_fields_def codec_simps u64_bytes_def sample_plan_def)
  have h: "length (frame (hunk_item_fields e)) = 88 + length (phe_Reviewability e) + length (phe_Reason e)" for e
    by (simp add: hunk_item_fields_def codec_simps)
  show ?thesis
    unfolding ReviewPlanIdentityV1_def ReviewPlanIdentity_fields_def length_frame list.map
    using c by (simp add: h length_FrameList digestList_def) (simp add: sample_plan_def h)
qed

lemma ReviewPlanIdentityV1_binds_witness:
  "ReviewPlanIdentityV1 sample_plan \<noteq> ReviewPlanIdentityV1 (sample_plan\<lparr>pi_TrustedEvidence := [], pi_UntrustedEvidence := [9]\<rparr>)"
  unfolding ReviewPlanIdentityV1_binds [OF length_sample_plan] by (simp add: identity_view_def sample_plan_def)

end
