(* ===== verification/Json.thy ===== *)
theory Json
  imports Codec
begin

text \<open>
  The part of Go's \<open>encoding/json\<close> that \<open>Unit.CanonicalMandatoryJSON\<close> uses: compact objects emitted
  in declaration order with HTML escaping off.  Strings are escaped as \<open>appendString\<close> does, byte by
  byte for ASCII and rune by rune above it, with invalid UTF-8 replaced by an escape.  A nil slice is
  written \<open>null\<close>; the model has no nil, so the empty list stands for it.
\<close>

section \<open>Decimal numbers\<close>

function dec_digits :: "nat \<Rightarrow> string" where
  "dec_digits n = (if n < 10 then [char_of (48 + n)] else dec_digits (n div 10) @ [char_of (48 + n mod 10)])"
  by pat_completeness auto
termination
  by (relation "measure id") auto

declare dec_digits.simps [simp del]

text \<open>\<open>strconv.Itoa\<close>\<close>

definition itoa :: "int \<Rightarrow> string" where
  "itoa i = (if i < 0 then CHR ''-'' # dec_digits (nat (- i)) else dec_digits (nat i))"

section \<open>Strings\<close>

definition quote :: char where "quote = CHR 0x22"
definition backslash :: char where "backslash = CHR 0x5C"

definition ascii_safe :: "char \<Rightarrow> bool" where
  "ascii_safe c \<longleftrightarrow> 32 \<le> (of_char c :: int) \<and> (of_char c :: int) < 128 \<and> c \<noteq> quote \<and> c \<noteq> backslash"

text \<open>The escape of one ASCII byte that is not safe.\<close>

definition ascii_escape :: "char \<Rightarrow> string" where
  "ascii_escape c = (let b = (of_char c :: nat) in
     if c = quote \<or> c = backslash then [backslash, c]
     else if b = 8 then [backslash, CHR ''b'']
     else if b = 12 then [backslash, CHR ''f'']
     else if b = 10 then [backslash, CHR ''n'']
     else if b = 13 then [backslash, CHR ''r'']
     else if b = 9 then [backslash, CHR ''t'']
     else backslash # ''u00'' @ [hex_digit (b div 16), hex_digit (b mod 16)])"

text \<open>
  \<open>utf8.DecodeRuneInString\<close> on a string whose first byte is not ASCII: the size of the rune it
  starts with, 1 when the bytes are not a valid encoding.
\<close>

definition cont :: "int \<Rightarrow> int \<Rightarrow> char \<Rightarrow> bool" where
  "cont lo hi c \<longleftrightarrow> lo \<le> of_char c \<and> of_char c \<le> hi"

fun rune_size :: "string \<Rightarrow> nat" where
  "rune_size (a # b # rest) =
     (let x = (of_char a :: int) in
      if 0xC2 \<le> x \<and> x \<le> 0xDF then (if cont 0x80 0xBF b then 2 else 1)
      else if 0xE0 \<le> x \<and> x \<le> 0xEF then
        (let lo = (if x = 0xE0 then 0xA0 else 0x80); hi = (if x = 0xED then 0x9F else 0xBF)
         in case rest of [] \<Rightarrow> 1
            | c # _ \<Rightarrow> (if cont lo hi b \<and> cont 0x80 0xBF c then 3 else 1))
      else if 0xF0 \<le> x \<and> x \<le> 0xF4 then
        (let lo = (if x = 0xF0 then 0x90 else 0x80); hi = (if x = 0xF4 then 0x8F else 0xBF)
         in case rest of c # d # _ \<Rightarrow>
              (if cont lo hi b \<and> cont 0x80 0xBF c \<and> cont 0x80 0xBF d then 4 else 1)
            | _ \<Rightarrow> 1)
      else 1)"
| "rune_size _ = 1"

text \<open>U+2028 and U+2029, the line and paragraph separators, are escaped as well.\<close>

definition line_sep :: "string \<Rightarrow> string" where
  "line_sep r = (if r = [CHR 0xE2, CHR 0x80, CHR 0xA8] then backslash # ''u2028''
     else if r = [CHR 0xE2, CHR 0x80, CHR 0xA9] then backslash # ''u2029'' else r)"

function json_chars :: "string \<Rightarrow> string" where
  "json_chars [] = []"
| "json_chars (c # cs) =
     (if (of_char c :: int) < 128 then
        (if ascii_safe c then [c] else ascii_escape c) @ json_chars cs
      else let n = rune_size (c # cs) in
        if n \<le> 1 then (backslash # ''ufffd'') @ json_chars cs
        else line_sep (take n (c # cs)) @ json_chars (drop (n - 1) cs))"
  by pat_completeness auto
termination
  by (relation "measure length") auto

declare json_chars.simps(2) [simp del]

definition json_string :: "string \<Rightarrow> string" where
  "json_string s = quote # json_chars s @ [quote]"

definition json_bool :: "bool \<Rightarrow> string" where
  "json_bool b = (if b then ''true'' else ''false'')"

text \<open>A \<open>[]byte\<close> is written as padded base64.\<close>

definition json_bytes :: "bytes \<Rightarrow> string" where
  "json_bytes b = quote # b64_encode b @ [quote]"

fun json_join :: "string list \<Rightarrow> string" where
  "json_join [] = []"
| "json_join [x] = x"
| "json_join (x # xs) = x @ '','' @ json_join xs"

definition json_object :: "(string \<times> string) list \<Rightarrow> string" where
  "json_object kvs = ''{'' @ json_join (map (\<lambda>(k, v). json_string k @ '':'' @ v) kvs) @ ''}''"

definition json_array :: "string list \<Rightarrow> string" where
  "json_array xs = (if xs = [] then ''null'' else ''['' @ json_join xs @ '']'')"

section \<open>Strings that need no escape\<close>

lemma json_chars_safe: "list_all ascii_safe s \<Longrightarrow> json_chars s = s"
  by (induction s) (auto simp: json_chars.simps ascii_safe_def)

lemma json_string_safe: "list_all ascii_safe s \<Longrightarrow> length (json_string s) = length s + 2"
  by (simp add: json_string_def json_chars_safe)

text \<open>
  The size of an object depends only on the sizes of its values: replacing values by values of
  the same size keeps it.
\<close>

lemma length_json_join:
  "map length xs = map length ys \<Longrightarrow> length (json_join xs) = length (json_join ys)"
proof (induction xs arbitrary: ys rule: json_join.induct)
  case (2 x)
  then show ?case by (auto simp: Cons_eq_map_conv)
next
  case (3 x x' xs)
  then obtain y y' ys' where "ys = y # y' # ys'" by (auto simp: Cons_eq_map_conv)
  with 3 show ?case by auto
qed simp

lemma length_json_object:
  assumes "map fst kvs = map fst kvs'" and "map (length \<circ> snd) kvs = map (length \<circ> snd) kvs'"
  shows "length (json_object kvs) = length (json_object kvs')"
proof -
  let ?f = "\<lambda>(k, v). json_string k @ '':'' @ v"
  have "map (length \<circ> ?f) kvs = map (\<lambda>(k, n). length (json_string k) + 1 + n) (zip (map fst kvs) (map (length \<circ> snd) kvs))" for kvs
    by (induction kvs) auto
  then have "map length (map ?f kvs) = map length (map ?f kvs')"
    using assms by (simp flip: map_map)
  then show ?thesis unfolding json_object_def by (simp add: length_json_join)
qed

end
