(* ===== verification/GoText.thy ===== *)
theory GoText
  imports Json
begin

text \<open>
  The functions of Go's \<open>strings\<close>, \<open>bytes\<close> and \<open>strconv\<close> packages that the review code calls, on
  byte strings: prefixes, substrings, splitting and joining, white space, and decimal parsing.
\<close>

section \<open>Prefixes, suffixes and substrings\<close>

definition has_prefix :: "string \<Rightarrow> string \<Rightarrow> bool" where
  "has_prefix s p \<longleftrightarrow> take (length p) s = p"

definition has_suffix :: "string \<Rightarrow> string \<Rightarrow> bool" where
  "has_suffix s p \<longleftrightarrow> length p \<le> length s \<and> drop (length s - length p) s = p"

definition trim_prefix :: "string \<Rightarrow> string \<Rightarrow> string" where
  "trim_prefix s p = (if has_prefix s p then drop (length p) s else s)"

definition trim_suffix :: "string \<Rightarrow> string \<Rightarrow> string" where
  "trim_suffix s p = (if has_suffix s p then take (length s - length p) s else s)"

fun contains :: "string \<Rightarrow> string \<Rightarrow> bool" where
  "contains [] p \<longleftrightarrow> p = []"
| "contains (c # s) p \<longleftrightarrow> has_prefix (c # s) p \<or> contains s p"

lemma has_prefix_append [simp]: "has_prefix (p @ s) p"
  by (simp add: has_prefix_def)

lemma has_prefix_iff: "has_prefix s p \<longleftrightarrow> (\<exists>t. s = p @ t)"
proof
  assume "has_prefix s p"
  then have "s = p @ drop (length p) s" by (metis append_take_drop_id has_prefix_def)
  then show "\<exists>t. s = p @ t" by blast
qed auto

lemma has_prefix_Nil2 [simp]: "has_prefix s []"
  by (simp add: has_prefix_def)

lemma has_prefix_Nil1 [simp]: "has_prefix [] (c # p) \<longleftrightarrow> False"
  by (simp add: has_prefix_def)

lemma has_prefix_Cons [simp]: "has_prefix (c # s) (d # p) \<longleftrightarrow> c = d \<and> has_prefix s p"
  by (simp add: has_prefix_def)

lemma contains_iff: "contains s p \<longleftrightarrow> (\<exists>u v. s = u @ p @ v)"
proof (induction s)
  case (Cons c s)
  have "(\<exists>u v. c # s = u @ p @ v) \<longleftrightarrow> (\<exists>v. c # s = p @ v) \<or> (\<exists>u v. s = u @ p @ v)"
    by (metis append_Cons append_Nil list.exhaust list.inject)
  with Cons show ?case by (simp add: has_prefix_iff)
qed auto

section \<open>Splitting and joining\<close>

text \<open>\<open>strings.Split\<close> at a one-byte separator.\<close>

fun split_on :: "char \<Rightarrow> string \<Rightarrow> string list" where
  "split_on c [] = [[]]"
| "split_on c (x # xs) =
     (if x = c then [] # split_on c xs
      else case split_on c xs of [] \<Rightarrow> [[x]] | w # ws \<Rightarrow> (x # w) # ws)"

text \<open>\<open>strings.Join\<close>\<close>

fun join :: "string \<Rightarrow> string list \<Rightarrow> string" where
  "join sep [] = []"
| "join sep [w] = w"
| "join sep (w # v # ws) = w @ sep @ join sep (v # ws)"

lemma split_on_ne [simp]: "split_on c s \<noteq> []"
  by (induction s) (auto split: list.splits)

lemma split_on_nosep: "c \<notin> set s \<Longrightarrow> split_on c s = [s]"
  by (induction s) auto

lemma split_on_Cons: "c \<notin> set w \<Longrightarrow> split_on c (w @ c # rest) = w # split_on c rest"
  by (induction w) auto

lemma split_on_sep_free: "w \<in> set (split_on c s) \<Longrightarrow> c \<notin> set w"
  by (induction s arbitrary: w) (auto split: if_splits list.splits)

lemma join_Cons: "ws \<noteq> [] \<Longrightarrow> join sep (w # ws) = w @ sep @ join sep ws"
  by (cases ws) auto

lemma join_split: "join [c] (split_on c s) = s"
proof (induction s)
  case (Cons x s)
  show ?case
  proof (cases "x = c")
    case True
    with Cons show ?thesis by (simp add: join_Cons)
  next
    case False
    obtain w ws where e: "split_on c s = w # ws" by (meson list.exhaust split_on_ne)
    with Cons False show ?thesis by (cases ws) auto
  qed
qed simp

lemma split_join: "ws \<noteq> [] \<Longrightarrow> (\<And>w. w \<in> set ws \<Longrightarrow> c \<notin> set w) \<Longrightarrow> split_on c (join [c] ws) = ws"
proof (induction ws)
  case (Cons w ws)
  show ?case
  proof (cases ws)
    case Nil
    with Cons show ?thesis by (simp add: split_on_nosep)
  next
    case Cons': (Cons v vs)
    with Cons.prems have "split_on c (w @ c # join [c] ws) = w # split_on c (join [c] ws)"
      by (intro split_on_Cons) simp
    with Cons Cons' show ?thesis by simp
  qed
qed simp

text \<open>
  The lines of a text: split at the newline, and the empty string after a final newline is not a
  line.
\<close>

definition newline :: char where "newline = CHR 0x0A"

definition lines_of :: "string \<Rightarrow> string list" where
  "lines_of raw = (let ls = split_on newline raw in if last ls = [] then butlast ls else ls)"

definition unlines :: "string list \<Rightarrow> string" where
  "unlines ls = concat (map (\<lambda>l. l @ [newline]) ls)"

lemma unlines_simps [simp]: "unlines [] = []" "unlines (l # ls) = l @ newline # unlines ls"
  "unlines (xs @ ys) = unlines xs @ unlines ys"
  by (simp_all add: unlines_def)

lemma split_on_unlines:
  "(\<And>l. l \<in> set ls \<Longrightarrow> newline \<notin> set l) \<Longrightarrow> split_on newline (unlines ls) = ls @ [[]]"
  by (induction ls) (auto simp: split_on_Cons)

lemma lines_of_unlines:
  "(\<And>l. l \<in> set ls \<Longrightarrow> newline \<notin> set l) \<Longrightarrow> lines_of (unlines ls) = ls"
  by (simp add: lines_of_def split_on_unlines)

lemma lines_of_no_newline: "l \<in> set (lines_of raw) \<Longrightarrow> newline \<notin> set l"
  by (auto simp: lines_of_def Let_def split: if_splits dest: in_set_butlastD split_on_sep_free)

section \<open>White space\<close>

text \<open>
  The number of bytes of the white-space rune a string starts with, 0 when it starts with none:
  the ASCII spaces and the encodings of the runes for which \<open>unicode.IsSpace\<close> holds.  A lead byte
  is never taken as a continuation byte, so the bytes decide it without decoding what precedes.
\<close>

definition ascii_space :: "char \<Rightarrow> bool" where
  "ascii_space c \<longleftrightarrow> c \<in> set [CHR 0x09, CHR 0x0A, CHR 0x0B, CHR 0x0C, CHR 0x0D, CHR 0x20]"

definition wide_spaces :: "string list" where
  "wide_spaces =
     [[CHR 0xC2, CHR 0x85], [CHR 0xC2, CHR 0xA0], [CHR 0xE1, CHR 0x9A, CHR 0x80],
      [CHR 0xE2, CHR 0x80, CHR 0x80], [CHR 0xE2, CHR 0x80, CHR 0x81], [CHR 0xE2, CHR 0x80, CHR 0x82],
      [CHR 0xE2, CHR 0x80, CHR 0x83], [CHR 0xE2, CHR 0x80, CHR 0x84], [CHR 0xE2, CHR 0x80, CHR 0x85],
      [CHR 0xE2, CHR 0x80, CHR 0x86], [CHR 0xE2, CHR 0x80, CHR 0x87], [CHR 0xE2, CHR 0x80, CHR 0x88],
      [CHR 0xE2, CHR 0x80, CHR 0x89], [CHR 0xE2, CHR 0x80, CHR 0x8A], [CHR 0xE2, CHR 0x80, CHR 0xA8],
      [CHR 0xE2, CHR 0x80, CHR 0xA9], [CHR 0xE2, CHR 0x80, CHR 0xAF], [CHR 0xE2, CHR 0x81, CHR 0x9F],
      [CHR 0xE3, CHR 0x80, CHR 0x80]]"

definition space_at_start :: "string \<Rightarrow> nat" where
  "space_at_start s = (case s of [] \<Rightarrow> 0
     | c # _ \<Rightarrow> if ascii_space c then 1
         else (case List.find (has_prefix s) wide_spaces of None \<Rightarrow> 0 | Some w \<Rightarrow> length w))"

definition space_at_end :: "string \<Rightarrow> nat" where
  "space_at_end s = (if s = [] then 0 else if ascii_space (last s) then 1
     else (case List.find (has_suffix s) wide_spaces of None \<Rightarrow> 0 | Some w \<Rightarrow> length w))"

function trim_left :: "string \<Rightarrow> string" where
  "trim_left s = (let n = space_at_start s in if n = 0 \<or> s = [] then s else trim_left (drop n s))"
  by pat_completeness auto
termination by (relation "measure length") auto

function trim_right :: "string \<Rightarrow> string" where
  "trim_right s = (let n = space_at_end s in if n = 0 \<or> s = [] then s else trim_right (take (length s - n) s))"
  by pat_completeness auto
termination by (relation "measure length") auto

declare trim_left.simps [simp del] trim_right.simps [simp del]

definition TrimSpace :: "string \<Rightarrow> string" where
  "TrimSpace s = trim_right (trim_left s)"

text \<open>\<open>strings.Fields\<close>: \<open>cur\<close> is the field being read.\<close>

function fields_from :: "string \<Rightarrow> string \<Rightarrow> string list" where
  "fields_from cur s = (case s of [] \<Rightarrow> if cur = [] then [] else [cur]
     | c # r \<Rightarrow> (let n = space_at_start s in
         if n = 0 then fields_from (cur @ [c]) r
         else (if cur = [] then [] else [cur]) @ fields_from [] (drop n s)))"
  by pat_completeness auto
termination by (relation "measure (length \<circ> snd)") (auto simp: space_at_start_def)

declare fields_from.simps [simp del]

definition Fields :: "string \<Rightarrow> string list" where
  "Fields s = fields_from [] s"

lemma fields_from_ne: "w \<in> set (fields_from cur s) \<Longrightarrow> w \<noteq> []"
proof (induction cur s rule: fields_from.induct)
  case (1 cur s)
  show ?case
  proof (cases s)
    case Nil
    with "1.prems" show ?thesis by (simp add: fields_from.simps [of cur "[]"] split: if_splits)
  next
    case (Cons c r)
    with 1 show ?thesis
      by (auto simp: fields_from.simps [of cur "c # r"] Let_def split: if_splits)
  qed
qed

lemma Fields_ne: "w \<in> set (Fields s) \<Longrightarrow> w \<noteq> []"
  by (simp add: Fields_def fields_from_ne)

text \<open>Fields made of ASCII characters other than white space are read back as they are.\<close>

definition token_char :: "char \<Rightarrow> bool" where
  "token_char c \<longleftrightarrow> (of_char c :: int) < 128 \<and> \<not> ascii_space c"

definition token :: "string \<Rightarrow> bool" where
  "token w \<longleftrightarrow> w \<noteq> [] \<and> list_all token_char w"

lemma space_at_start_token: "token_char c \<Longrightarrow> space_at_start (c # s) = 0"
proof -
  assume c: "token_char c"
  have wide: "\<forall>w\<in>set wide_spaces. w \<noteq> [] \<and> 128 \<le> (of_char (hd w) :: int)"
    by (simp add: wide_spaces_def)
  have "\<not> has_prefix (c # s) w" if "w \<in> set wide_spaces" for w
    using c wide [rule_format, OF that] by (cases w) (auto simp: token_char_def)
  then have "List.find (has_prefix (c # s)) wide_spaces = None" by (auto simp: find_None_iff)
  then show ?thesis using c by (simp add: space_at_start_def token_char_def)
qed

lemma fields_from_Nil [simp]: "fields_from cur [] = (if cur = [] then [] else [cur])"
  by (simp add: fields_from.simps [of cur "[]"])

lemma fields_from_token: "list_all token_char w \<Longrightarrow> fields_from cur (w @ s) = fields_from (cur @ w) s"
proof (induction w arbitrary: cur)
  case (Cons c w)
  then show ?case
    by (simp add: fields_from.simps [of cur "c # w @ s"] space_at_start_token)
qed simp

lemma fields_from_blank:
  "fields_from cur (CHR '' '' # s) = (if cur = [] then [] else [cur]) @ fields_from [] s"
  by (simp add: fields_from.simps [of cur "CHR '' '' # s"] space_at_start_def ascii_space_def)

lemma Fields_tokens:
  "token a \<Longrightarrow> token b \<Longrightarrow> Fields (a @ CHR '' '' # b) = [a, b]"
  "token a \<Longrightarrow> token b \<Longrightarrow> token c \<Longrightarrow> Fields (a @ CHR '' '' # b @ CHR '' '' # c) = [a, b, c]"
  using fields_from_token [of a "[]"] fields_from_token [of b "[]"] fields_from_token [of c "[]"]
    fields_from_token [of b "[]" "[]"] fields_from_token [of c "[]" "[]"]
  by (simp_all add: Fields_def token_def fields_from_blank)

text \<open>A printed line of tokens is trimmed to the tokens and split back into them.\<close>

lemma Fields_join: "list_all token ws \<Longrightarrow> Fields (join '' '' ws) = ws"
proof (induction ws)
  case Nil
  then show ?case by (simp add: Fields_def)
next
  case (Cons w ws)
  then have w: "list_all token_char w" "w \<noteq> []" by (simp_all add: token_def)
  show ?case
  proof (cases ws)
    case Nil
    with w fields_from_token [of w "[]" "[]"] show ?thesis by (simp add: Fields_def)
  next
    case (Cons v vs)
    with w Cons.IH Cons.prems fields_from_token [of w "[]" "CHR '' '' # join '' '' ws"] show ?thesis
      by (simp add: Fields_def fields_from_blank)
  qed
qed

lemma space_at_end_token:
  assumes "s \<noteq> []" "token_char (last s)"
  shows "space_at_end s = 0"
proof -
  have wide: "\<forall>w\<in>set wide_spaces. w \<noteq> [] \<and> 128 \<le> (of_char (last w) :: int)"
    by (simp add: wide_spaces_def)
  have "\<not> has_suffix s w" if "w \<in> set wide_spaces" for w
  proof
    assume "has_suffix s w"
    then have "s = take (length s - length w) s @ w" by (metis append_take_drop_id has_suffix_def)
    then have "last s = last w" using wide that by (metis last_appendR)
    with wide that assms(2) show False by (auto simp: token_char_def)
  qed
  then have "List.find (has_suffix s) wide_spaces = None" by (auto simp: find_None_iff)
  then show ?thesis using assms by (simp add: space_at_end_def token_char_def)
qed

lemma trim_right_token: "s \<noteq> [] \<Longrightarrow> token_char (last s) \<Longrightarrow> trim_right s = s"
  by (subst trim_right.simps) (simp add: space_at_end_token)

lemma trim_left_token: "s \<noteq> [] \<Longrightarrow> token_char (hd s) \<Longrightarrow> trim_left s = s"
  by (cases s) (subst trim_left.simps, simp add: space_at_start_token)+

lemma join_ends:
  assumes "ws \<noteq> []" "list_all token ws"
  shows "join sep ws \<noteq> []" "hd (join sep ws) = hd (hd ws)" "last (join sep ws) = last (last ws)"
  using assms by (induction sep ws rule: join.induct) (auto simp: token_def)

lemma TrimSpace_line:
  assumes "ws \<noteq> []" "list_all token ws"
  shows "TrimSpace (join '' '' ws @ [newline]) = join '' '' ws"
proof -
  let ?s = "join '' '' ws"
  have ends: "?s \<noteq> []" "token_char (hd ?s)" "token_char (last ?s)"
  proof -
    have "\<forall>w\<in>set ws. w \<noteq> [] \<and> (\<forall>c\<in>set w. token_char c)" using assms(2) by (auto simp: list_all_iff token_def)
    then show "?s \<noteq> []" "token_char (hd ?s)" "token_char (last ?s)"
      using join_ends [OF assms] hd_in_set [OF assms(1)] last_in_set [OF assms(1)] hd_in_set last_in_set
      by metis+
  qed
  have "space_at_end (?s @ [newline]) = 1" by (simp add: space_at_end_def newline_def ascii_space_def)
  then have "trim_right (?s @ [newline]) = ?s"
    using ends by (subst trim_right.simps) (simp add: trim_right_token)
  then show ?thesis using ends by (simp add: TrimSpace_def trim_left_token)
qed

section \<open>Decimal numbers\<close>

definition is_digit :: "char \<Rightarrow> bool" where
  "is_digit c \<longleftrightarrow> 48 \<le> (of_char c :: int) \<and> (of_char c :: int) \<le> 57"

definition digit_val :: "char \<Rightarrow> int" where
  "digit_val c = of_char c - 48"

definition dec_val :: "string \<Rightarrow> int" where
  "dec_val s = foldl (\<lambda>n c. 10 * n + digit_val c) 0 s"

text \<open>
  \<open>strconv.ParseInt(s, 10, 64)\<close> and \<open>strconv.Atoi\<close> (\<open>fn\<close> is the name in the error): an optional
  sign, at least one digit, nothing else, and a value that fits 64 bits.
\<close>

definition parse_int :: "string \<Rightarrow> string \<Rightarrow> int result" where
  "parse_int fn s =
     (let neg = has_prefix s ''-'';
          d = (if neg \<or> has_prefix s ''+'' then tl s else s);
          n = dec_val d
      in if d = [] \<or> \<not> list_all is_digit d
         then Inl (Err ''strconv.%s: parsing %q: invalid syntax'' [AStr fn, AStr s])
         else if (neg \<and> n > 2 ^ 63) \<or> (\<not> neg \<and> n \<ge> 2 ^ 63)
         then Inl (Err ''strconv.%s: parsing %q: value out of range'' [AStr fn, AStr s])
         else Inr (if neg then - n else n))"

definition Atoi :: "string \<Rightarrow> int result" where
  "Atoi s = parse_int ''Atoi'' s"

definition ParseInt :: "string \<Rightarrow> int result" where
  "ParseInt s = parse_int ''ParseInt'' s"

lemma int_of_char_of: "n < 256 \<Longrightarrow> (of_char (char_of (n :: nat)) :: int) = int n"
  by (metis mod_less of_char_of of_nat_of_char)

lemma is_digit_of_nat: "n < 10 \<Longrightarrow> is_digit (char_of (48 + n :: nat))"
  by (simp add: is_digit_def int_of_char_of)

lemma digit_val_of_nat: "n < 10 \<Longrightarrow> digit_val (char_of (48 + n :: nat)) = int n"
  by (simp add: digit_val_def int_of_char_of)

lemma dec_digits_digits: "list_all is_digit (dec_digits n)"
proof (induction n rule: dec_digits.induct)
  case (1 n)
  then show ?case by (subst dec_digits.simps) (simp add: is_digit_of_nat)
qed

lemma dec_digits_token: "list_all token_char (dec_digits n)"
proof -
  have "token_char c" if "is_digit c" for c
    using that by (auto simp: is_digit_def token_char_def ascii_space_def)
  then show ?thesis using dec_digits_digits [of n] by (auto simp: list_all_iff)
qed

lemma dec_digits_ne [simp]: "dec_digits n \<noteq> []"
  by (subst dec_digits.simps) simp

lemma dec_val_dec_digits [simp]: "dec_val (dec_digits n) = int n"
proof (induction n rule: dec_digits.induct)
  case (1 n)
  show ?case
  proof (cases "n < 10")
    case True
    then show ?thesis by (subst dec_digits.simps) (simp add: dec_val_def digit_val_of_nat)
  next
    case False
    moreover have "10 * int (n div 10) + int (n mod 10) = int n"
      by (metis mult_div_mod_eq of_nat_add of_nat_mult of_nat_numeral)
    ultimately show ?thesis using 1
      by (subst dec_digits.simps) (simp add: dec_val_def digit_val_of_nat)
  qed
qed

lemma not_digit_sign: "\<not> is_digit (CHR ''-'')" "\<not> is_digit (CHR ''+'')"
  by (simp_all add: is_digit_def)

lemma digits_no_sign:
  assumes "list_all is_digit d"
  shows "\<not> has_prefix d ''-''" "\<not> has_prefix d ''+''"
  using assms not_digit_sign by (cases d; auto)+

lemma Atoi_digits:
  assumes "list_all is_digit d" "d \<noteq> []"
  shows "Atoi d = (if dec_val d < 2 ^ 63 then Inr (dec_val d)
    else Inl (Err ''strconv.%s: parsing %q: value out of range'' [AStr ''Atoi'', AStr d]))"
  using assms digits_no_sign [OF assms(1)] by (simp add: Atoi_def parse_int_def Let_def)

lemma dec_val_nonneg: "list_all is_digit d \<Longrightarrow> 0 \<le> dec_val d"
proof (induction d rule: rev_induct)
  case (snoc c d)
  then have "0 \<le> digit_val c" by (simp add: digit_val_def is_digit_def)
  with snoc show ?case by (simp add: dec_val_def)
qed (simp add: dec_val_def)

section \<open>Lower case\<close>

text \<open>
  \<open>strings.ToLower\<close>.  The code only compares the result with ASCII text, so of the runes above ASCII
  it matters which ones map to ASCII: the Kelvin sign and the dotted capital I.  Invalid bytes
  become U+FFFD; every other rune is left as it is.
\<close>

definition ascii_lower :: "char \<Rightarrow> char" where
  "ascii_lower c = (let n = (of_char c :: nat) in if 65 \<le> n \<and> n \<le> 90 then char_of (n + 32) else c)"

definition lower_rune :: "string \<Rightarrow> string" where
  "lower_rune r = (if r = [CHR 0xE2, CHR 0x84, CHR 0xAA] then ''k''
     else if r = [CHR 0xC4, CHR 0xB0] then ''i'' else r)"

function ToLower :: "string \<Rightarrow> string" where
  "ToLower [] = []"
| "ToLower (c # cs) =
     (if (of_char c :: int) < 128 then ascii_lower c # ToLower cs
      else let n = rune_size (c # cs) in
        if n \<le> 1 then [CHR 0xEF, CHR 0xBF, CHR 0xBD] @ ToLower cs
        else lower_rune (take n (c # cs)) @ ToLower (drop (n - 1) cs))"
  by pat_completeness auto
termination by (relation "measure length") auto

declare ToLower.simps(2) [simp del]

section \<open>Slash-separated paths\<close>

definition slash :: char where "slash = CHR 0x2F"

text \<open>\<open>path.Base\<close> (and \<open>filepath.Base\<close> where the separator is the slash)\<close>

definition strip_slashes :: "string \<Rightarrow> string" where
  "strip_slashes p = rev (dropWhile (\<lambda>c. c = slash) (rev p))"

definition path_Base :: "string \<Rightarrow> string" where
  "path_Base p = (if p = [] then ''.''
     else let b = last (split_on slash (strip_slashes p)) in if b = [] then [slash] else b)"

text \<open>\<open>path.Ext\<close>: from the last dot of the last element on.\<close>

definition path_Ext :: "string \<Rightarrow> string" where
  "path_Ext p = (let e = last (split_on slash p)
     in if CHR ''.'' \<in> set e then CHR ''.'' # last (split_on (CHR ''.'') e) else [])"

text \<open>\<open>path.Clean\<close>: \<open>out\<close> holds the elements kept so far, last first.\<close>

fun clean_parts :: "bool \<Rightarrow> string list \<Rightarrow> string list \<Rightarrow> string list" where
  "clean_parts rooted out [] = rev out"
| "clean_parts rooted out (e # es) =
     (if e = [] \<or> e = ''.'' then clean_parts rooted out es
      else if e = ''..'' then
        (case out of
           [] \<Rightarrow> clean_parts rooted (if rooted then [] else [''..'']) es
         | o1 # os \<Rightarrow> clean_parts rooted (if o1 = ''..'' then ''..'' # out else os) es)
      else clean_parts rooted (e # out) es)"

definition path_Clean :: "string \<Rightarrow> string" where
  "path_Clean p = (let rooted = has_prefix p [slash];
                       body = join [slash] (clean_parts rooted [] (split_on slash p))
     in if rooted then slash # body else if body = [] then ''.'' else body)"

text \<open>\<open>path.Dir\<close>: everything up to the last slash, cleaned.\<close>

definition path_Dir :: "string \<Rightarrow> string" where
  "path_Dir p = path_Clean (rev (dropWhile (\<lambda>c. c \<noteq> slash) (rev p)))"

lemma path_Base_no_slash: "slash \<in> set (path_Base p) \<Longrightarrow> path_Base p = [slash]"
  by (auto simp: path_Base_def Let_def dest: split_on_sep_free split: if_splits)
     (metis last_in_set split_on_ne split_on_sep_free)

end
