(* ===== verification/Model.thy ===== *)
theory Model
  imports Identity Json GoText
begin

text \<open>
  \<open>internal/review/model.go\<close>: the stable v1 data model of a review (request, scope, plan, unit,
  report, check result) and the validators that guard each of them.  A Go string type with named
  constants is a \<open>string\<close> here, because values read from JSON may be any string; the constants are
  definitions.  A validator returns the first error of the code's sequence of checks.
\<close>

section \<open>Checks in sequence\<close>

definition allOf :: "('e + unit) list \<Rightarrow> 'e + unit" where
  "allOf cs = allE id cs"

lemma allOf_Nil [simp]: "allOf [] = Inr ()"
  and allOf_Cons [simp]: "allOf (c # cs) = Inr u \<longleftrightarrow> c = Inr () \<and> allOf cs = Inr ()"
  by (auto simp: allOf_def)

lemma allOf_code [code]: "allOf [] = Inr ()" "allOf (c # cs) = (case c of Inl e \<Rightarrow> Inl e | Inr _ \<Rightarrow> allOf cs)"
  by (simp_all add: allOf_def bindE_def split: sum.splits)

lemma allOf_append [simp]: "allOf (cs @ ds) = Inr u \<longleftrightarrow> allOf cs = Inr () \<and> allOf ds = Inr ()"
  by (auto simp: allOf_def)

section \<open>Constants\<close>

definition UnitSchemaV1 :: string where [simp]: "UnitSchemaV1 = ''review.unit.v1''"
definition ReportSchemaV1 :: string where [simp]: "ReportSchemaV1 = ''review.report.v1''"
definition CheckSchemaV1 :: string where [simp]: "CheckSchemaV1 = ''review.check.v1''"
definition StructuredThresholdV1 :: int where [simp]: "StructuredThresholdV1 = 300"
definition MaxUnitChangedLinesV1 :: int where [simp]: "MaxUnitChangedLinesV1 = 400"
definition MaxUnitMandatoryJSONBytesV1 :: int where [simp]: "MaxUnitMandatoryJSONBytesV1 = 16777216"
definition MaxChangedPathsV1 :: int where [simp]: "MaxChangedPathsV1 = 100000"

definition AuditRemovedBehaviorV1 :: string where [simp]: "AuditRemovedBehaviorV1 = ''audit_removed_behavior_v1''"
definition AuditContractMigrationV1 :: string where [simp]: "AuditContractMigrationV1 = ''audit_contract_migration_v1''"
definition AuditTestMatrixV1 :: string where [simp]: "AuditTestMatrixV1 = ''audit_test_matrix_v1''"
definition AuditIntegrationGapV1 :: string where [simp]: "AuditIntegrationGapV1 = ''audit_integration_gap_v1''"

definition RequiredAuditsV1 :: "string list" where
  "RequiredAuditsV1 = [AuditRemovedBehaviorV1, AuditContractMigrationV1, AuditTestMatrixV1, AuditIntegrationGapV1]"

definition ModeDirect :: string where [simp]: "ModeDirect = ''direct''"
definition ModeStructured :: string where [simp]: "ModeStructured = ''structured''"

definition ModeForChurn :: "int \<Rightarrow> bool \<Rightarrow> string \<times> bool" where
  "ModeForChurn churn forceStructured =
     (let required = churn > StructuredThresholdV1
      in if required \<or> forceStructured then (ModeStructured, required) else (ModeDirect, False))"

definition ScopeWorkspace :: string where [simp]: "ScopeWorkspace = ''workspace''"
definition ScopeCommit :: string where [simp]: "ScopeCommit = ''commit''"
definition ScopeRange :: string where [simp]: "ScopeRange = ''range''"

definition ReviewClassFull :: string where [simp]: "ReviewClassFull = ''full''"
definition ReviewClassMechanical :: string where [simp]: "ReviewClassMechanical = ''mechanical''"
definition ReviewClassUnreviewable :: string where [simp]: "ReviewClassUnreviewable = ''unreviewable''"
definition PathCoverageFull :: string where [simp]: "PathCoverageFull = ''full''"
definition PathCoveragePartial :: string where [simp]: "PathCoveragePartial = ''partial''"
definition PathCoverageNone :: string where [simp]: "PathCoverageNone = ''none''"
definition HunkReviewable :: string where [simp]: "HunkReviewable = ''reviewable''"
definition HunkUnreviewableLargeText :: string where [simp]: "HunkUnreviewableLargeText = ''unreviewable_large_text''"

section \<open>Well-formed identifiers\<close>

definition lower_hex :: "char \<Rightarrow> bool" where
  "lower_hex c \<longleftrightarrow> CHR ''0'' \<le> c \<and> c \<le> CHR ''9'' \<or> CHR ''a'' \<le> c \<and> c \<le> CHR ''f''"

definition isLowerHex :: "string \<Rightarrow> nat \<Rightarrow> bool" where
  "isLowerHex s n \<longleftrightarrow> length s = n \<and> list_all lower_hex s"

definition isCanonicalDigestHex :: "string \<Rightarrow> bool" where
  "isCanonicalDigestHex s = isLowerHex s 64"

definition validReviewID :: "string \<Rightarrow> bool" where
  "validReviewID s \<longleftrightarrow> has_prefix s ReviewIDPrefixV1 \<and>
     isLowerHex (drop (length ReviewIDPrefixV1) s) 40"

lemma hex_alphabet_lower: "c \<in> set hex_alphabet \<Longrightarrow> lower_hex c"
  by (auto simp: hex_alphabet_def lower_hex_def less_eq_char_def)

lemma isLowerHex_encode [simp]: "isLowerHex (hex_encode bs) n \<longleftrightarrow> n = 2 * length bs"
  using hex_encode_alphabet hex_alphabet_lower by (auto simp: isLowerHex_def list_all_iff)

lemma validReviewID_ReviewID: "validReviewID (Public (ReviewID H p))"
  by (simp add: ReviewID_def validReviewID_def has_prefix_def)

section \<open>Requests and scopes\<close>

record plan_request =
  pr_Commit :: string
  pr_Base :: string
  pr_Head :: string
  pr_ForceStructured :: bool

definition request_kind :: "plan_request \<Rightarrow> string" where
  "request_kind r = (if pr_Commit r \<noteq> [] then ScopeCommit
     else if pr_Base r \<noteq> [] then ScopeRange else ScopeWorkspace)"

definition request_validate :: "plan_request \<Rightarrow> unit result" where
  "request_validate r = allOf [
     allE (\<lambda>(name, value). failIf (has_prefix value ''-'')
             (Err (''review: %s ref %q may not begin with '-'' @ [CHR 0x27]) [AStr name, AStr value]))
       [(''commit'', pr_Commit r), (''base'', pr_Base r), (''head'', pr_Head r)],
     failIf (pr_Commit r \<noteq> [] \<and> (pr_Base r \<noteq> [] \<or> pr_Head r \<noteq> []))
       (err ''review: commit scope cannot be combined with a base/head range''),
     failIf (pr_Base r = [] \<and> pr_Head r \<noteq> [])
       (err ''review: --head requires --base to define a range scope'')]"

record scope =
  sc_Kind :: string
  sc_ObjectFormat :: string
  sc_Base :: side_identity
  sc_Head :: side_identity
  sc_BaseRef :: string
  sc_HeadRef :: string
  sc_Digest :: digest

definition oidWidthFor :: "string \<Rightarrow> nat option" where
  "oidWidthFor objectFormat =
     (if objectFormat = ''sha1'' then Some 20 else if objectFormat = ''sha256'' then Some 32 else None)"

definition requireGitOID :: "side_identity \<Rightarrow> nat \<Rightarrow> string \<Rightarrow> unit result" where
  "requireGitOID side width label = allOf [
     failIf (side_Kind side \<noteq> SideGitOID)
       (Err ''review: %s must be a git_oid, got %q'' [AStr label, AStr (side_Kind side)]),
     failIf (length (side_Value side) \<noteq> width)
       (Err ''review: %s git_oid must be %d bytes, got %d''
         [AStr label, AInt (int width), AInt (int (length (side_Value side)))])]"

definition validateScopeSides ::
    "string \<Rightarrow> string \<Rightarrow> side_identity \<Rightarrow> side_identity \<Rightarrow> string \<Rightarrow> unit result" where
  "validateScopeSides kind objectFormat base head ctx =
     (case oidWidthFor objectFormat of
        None \<Rightarrow> Inl (Err ''review: %s has invalid object_format %q'' [AStr ctx, AStr objectFormat])
      | Some width \<Rightarrow>
          if kind = ScopeCommit \<or> kind = ScopeRange then
            allOf [requireGitOID base width (ctx @ '' base''), requireGitOID head width (ctx @ '' head'')]
          else if kind = ScopeWorkspace then
            allOf [requireGitOID base width (ctx @ '' base''),
              failIf (side_Kind head \<noteq> SideWorkspaceSHA256)
                (Err ''review: %s head must be workspace_sha256, got %q'' [AStr ctx, AStr (side_Kind head)]),
              failIf (length (side_Value head) \<noteq> 32)
                (Err ''review: %s head workspace_sha256 must be 32 bytes, got %d''
                  [AStr ctx, AInt (int (length (side_Value head)))])]
          else Inl (Err ''review: %s has invalid kind %q'' [AStr ctx, AStr kind]))"

definition scope_validate :: "scope \<Rightarrow> unit result" where
  "scope_validate s = validateScopeSides (sc_Kind s) (sc_ObjectFormat s) (sc_Base s) (sc_Head s) ''scope''"

definition validObjectFormat :: "string \<Rightarrow> bool" where
  "validObjectFormat s \<longleftrightarrow> s = ''sha1'' \<or> s = ''sha256''"

lemma requireGitOID_Inr: "requireGitOID side width label = Inr u \<longleftrightarrow>
    side_Kind side = SideGitOID \<and> length (side_Value side) = width"
  by (auto simp: requireGitOID_def)

text \<open>The accepted scopes, one row per kind.\<close>

lemma validateScopeSides_Inr:
  "validateScopeSides kind fmt base head ctx = Inr u \<longleftrightarrow>
     (\<exists>width. oidWidthFor fmt = Some width \<and>
        side_Kind base = SideGitOID \<and> length (side_Value base) = width \<and>
        (kind \<in> {ScopeCommit, ScopeRange} \<and>
           side_Kind head = SideGitOID \<and> length (side_Value head) = width
         \<or> kind = ScopeWorkspace \<and>
           side_Kind head = SideWorkspaceSHA256 \<and> length (side_Value head) = 32))"
  by (auto simp: validateScopeSides_def requireGitOID_Inr split: option.splits)

lemma oidWidthFor_Some: "oidWidthFor fmt = Some w \<longleftrightarrow> fmt = ''sha1'' \<and> w = 20 \<or> fmt = ''sha256'' \<and> w = 32"
  by (auto simp: oidWidthFor_def)

text \<open>An accepted scope has two valid sides.\<close>

lemma scope_validate_sides:
  assumes "scope_validate s = Inr u"
  shows "side_validate (sc_Base s) = Inr ()" "side_validate (sc_Head s) = Inr ()"
  using assms by (auto simp: scope_validate_def validateScopeSides_Inr oidWidthFor_Some side_validate_def)

section \<open>Plans and units\<close>

record plan_stats =
  ps_RawAdditions :: int
  ps_RawDeletions :: int
  ps_RawChurn :: int
  ps_ReviewableChurn :: int
  ps_ChangedPaths :: int

record plan_path =
  pp_PathID :: string
  pp_OldPath :: string
  pp_NewPath :: string
  pp_Status :: string
  pp_ReviewClass :: string
  pp_Coverage :: string
  pp_Roles :: "string list"
  pp_Reason :: string

definition validReviewClass :: "string \<Rightarrow> bool" where
  "validReviewClass s \<longleftrightarrow> s \<in> set [ReviewClassFull, ReviewClassMechanical, ReviewClassUnreviewable]"

definition validPathCoverage :: "string \<Rightarrow> bool" where
  "validPathCoverage s \<longleftrightarrow> s \<in> set [PathCoverageFull, PathCoveragePartial, PathCoverageNone]"

definition PlanPath_validate :: "plan_path \<Rightarrow> unit result" where
  "PlanPath_validate p = allOf [
     failIf (pp_PathID p = []) (err ''review: plan path missing path_id''),
     failIf (pp_NewPath p = [] \<and> pp_OldPath p = [])
       (Err ''review: plan path %s missing old and new path'' [AStr (pp_PathID p)]),
     failIf (pp_Status p = []) (Err ''review: plan path %s missing status'' [AStr (pp_PathID p)]),
     failIf (\<not> validReviewClass (pp_ReviewClass p))
       (Err ''review: plan path %s has invalid review class %q'' [AStr (pp_PathID p), AStr (pp_ReviewClass p)]),
     failIf (\<not> validPathCoverage (pp_Coverage p))
       (Err ''review: plan path %s has invalid coverage %q'' [AStr (pp_PathID p), AStr (pp_Coverage p)])]"

record plan_layer =
  pl_LayerID :: string
  pl_Ordinal :: int
  pl_UnitIDs :: "string list"

record plan_cohort =
  pc_CohortID :: string
  pc_Label :: string
  pc_Layers :: "plan_layer list"
  pc_UnitIDs :: "string list"

definition PlanCohort_validate :: "plan_cohort \<Rightarrow> unit result" where
  "PlanCohort_validate c = allOf [
     failIf (pc_CohortID c = []) (err ''review: cohort missing cohort_id''),
     failIf (pc_Layers c = []) (Err ''review: cohort %s has no layers'' [AStr (pc_CohortID c)]),
     allE (\<lambda>l. failIf (pl_LayerID l = [])
             (Err ''review: cohort %s has a layer without layer_id'' [AStr (pc_CohortID c)]))
       (pc_Layers c)]"

record plan_audit =
  pa_AuditID :: string
  pa_TargetIDs :: "string list"

record attention_signal =
  as_ID :: string
  as_Kind :: string
  as_Fact :: string

record next_command =
  nc_Label :: string
  nc_Command :: string

record unit_hunk =
  uh_HunkID :: string
  uh_PathID :: string
  uh_OldPath :: string
  uh_NewPath :: string
  uh_Status :: string
  uh_Ordinal :: int
  uh_OldStart :: int
  uh_OldCount :: int
  uh_NewStart :: int
  uh_NewCount :: int
  uh_NoFinalNewlineOld :: bool
  uh_NoFinalNewlineNew :: bool
  uh_PatchBase64 :: string

record review_unit =
  ru_Schema :: string
  ru_ReviewID :: string
  ru_UnitID :: string
  ru_CohortID :: string
  ru_LayerID :: string
  ru_ScopeKind :: string
  ru_ObjectFormat :: string
  ru_Base :: side_identity
  ru_Head :: side_identity
  ru_Hunks :: "unit_hunk list"

definition unit_hunk_validate :: "string \<Rightarrow> nat \<Rightarrow> unit_hunk \<Rightarrow> unit result" where
  "unit_hunk_validate unitID i h =
     (let args = [AStr unitID, AInt (int i)] in allOf [
       failIf (uh_HunkID h = []) (Err ''review: unit %s hunk %d missing hunk_id'' args),
       failIf (uh_PathID h = []) (Err ''review: unit %s hunk %d missing path_id'' args),
       failIf (uh_NewPath h = [] \<and> uh_OldPath h = [])
         (Err ''review: unit %s hunk %d missing old and new path'' args),
       failIf (uh_Status h = []) (Err ''review: unit %s hunk %d missing status'' args),
       failIf (uh_PatchBase64 h = []) (Err ''review: unit %s hunk %d missing patch_base64'' args)])"

definition Unit_validate :: "review_unit \<Rightarrow> unit result" where
  "Unit_validate u = allOf [
     failIf (ru_Schema u \<noteq> UnitSchemaV1)
       (Err ''review: unit schema %q is not %s'' [AStr (ru_Schema u), AStr UnitSchemaV1]),
     failIf (\<not> validReviewID (ru_ReviewID u))
       (Err ''review: unit has malformed review id %q'' [AStr (ru_ReviewID u)]),
     failIf (ru_UnitID u = []) (err ''review: unit missing unit_id''),
     failIf (ru_CohortID u = []) (Err ''review: unit %s missing cohort_id'' [AStr (ru_UnitID u)]),
     failIf (ru_LayerID u = []) (Err ''review: unit %s missing layer_id'' [AStr (ru_UnitID u)]),
     validateScopeSides (ru_ScopeKind u) (ru_ObjectFormat u) (ru_Base u) (ru_Head u) (''unit '' @ ru_UnitID u),
     failIf (ru_Hunks u = []) (Err ''review: unit %s owns no hunks'' [AStr (ru_UnitID u)]),
     allE (\<lambda>(i, h). unit_hunk_validate (ru_UnitID u) i h) (enumerate 0 (ru_Hunks u))]"

text \<open>\<open>json.Encoder.Encode\<close> of the unit: fields in declaration order, then one line feed.\<close>

definition json_side :: "side_identity \<Rightarrow> string" where
  "json_side s = json_object ((''kind'', json_string (side_Kind s)) #
     (if side_Value s = [] then [] else [(''value'', json_bytes (side_Value s))]))"

definition json_unit_hunk :: "unit_hunk \<Rightarrow> string" where
  "json_unit_hunk h = json_object [
     (''hunk_id'', json_string (uh_HunkID h)),
     (''path_id'', json_string (uh_PathID h)),
     (''old_path'', json_string (uh_OldPath h)),
     (''new_path'', json_string (uh_NewPath h)),
     (''status'', json_string (uh_Status h)),
     (''ordinal'', itoa (uh_Ordinal h)),
     (''old_start'', itoa (uh_OldStart h)),
     (''old_count'', itoa (uh_OldCount h)),
     (''new_start'', itoa (uh_NewStart h)),
     (''new_count'', itoa (uh_NewCount h)),
     (''old_no_final_newline'', json_bool (uh_NoFinalNewlineOld h)),
     (''new_no_final_newline'', json_bool (uh_NoFinalNewlineNew h)),
     (''patch_base64'', json_string (uh_PatchBase64 h))]"

definition CanonicalMandatoryJSON :: "review_unit \<Rightarrow> bytes" where
  "CanonicalMandatoryJSON u = json_object [
     (''schema'', json_string (ru_Schema u)),
     (''review_id'', json_string (ru_ReviewID u)),
     (''unit_id'', json_string (ru_UnitID u)),
     (''cohort_id'', json_string (ru_CohortID u)),
     (''layer_id'', json_string (ru_LayerID u)),
     (''scope_kind'', json_string (ru_ScopeKind u)),
     (''object_format'', json_string (ru_ObjectFormat u)),
     (''base'', json_side (ru_Base u)),
     (''head'', json_side (ru_Head u)),
     (''hunks'', json_array (map json_unit_hunk (ru_Hunks u)))] @ [CHR 0x0A]"

text \<open>Replacing the four public identifiers by others of the same sizes keeps the size.\<close>

definition safe_id :: "string \<Rightarrow> bool" where
  "safe_id s = list_all ascii_safe s"

lemma length_CanonicalMandatoryJSON_ids:
  assumes "safe_id (ru_ReviewID u)" "safe_id (ru_CohortID u)" "safe_id (ru_LayerID u)"
    and "safe_id r" "safe_id c" "safe_id l"
    and "length r = length (ru_ReviewID u)" "length c = length (ru_CohortID u)"
      "length l = length (ru_LayerID u)"
  shows "length (CanonicalMandatoryJSON (u\<lparr>ru_ReviewID := r, ru_CohortID := c, ru_LayerID := l\<rparr>))
       = length (CanonicalMandatoryJSON u)"
  using assms unfolding CanonicalMandatoryJSON_def length_append safe_id_def
  by (intro arg_cong2 [where f = "(+)"] length_json_object) (simp_all add: json_string_safe)

record plan =
  pn_Schema :: string
  pn_ReviewID :: string
  pn_PlanDigest :: string
  pn_Mode :: string
  pn_StructuredRequired :: bool
  pn_Scope :: scope
  pn_Stats :: plan_stats
  pn_ChangedPaths :: "plan_path list"
  pn_AttentionSignals :: "attention_signal list"
  pn_Cohorts :: "plan_cohort list"
  pn_PrimaryUnits :: "review_unit list"
  pn_RequiredAudits :: "plan_audit list"
  pn_NextCommands :: "next_command list"

definition validAuditID :: "string \<Rightarrow> bool" where
  "validAuditID s \<longleftrightarrow> s \<in> set RequiredAuditsV1"

definition Plan_validate :: "plan \<Rightarrow> unit result" where
  "Plan_validate p = allOf ([
     failIf (pn_Schema p \<noteq> PlanSchemaV1)
       (Err ''review: plan schema %q is not %s'' [AStr (pn_Schema p), AStr PlanSchemaV1]),
     failIf (\<not> validReviewID (pn_ReviewID p))
       (Err ''review: plan has malformed review id %q'' [AStr (pn_ReviewID p)]),
     failIf (\<not> isCanonicalDigestHex (pn_PlanDigest p))
       (Err ''review: plan has non-canonical plan digest %q'' [AStr (pn_PlanDigest p)]),
     failIf (pn_Mode p \<noteq> ModeDirect \<and> pn_Mode p \<noteq> ModeStructured)
       (Err ''review: plan has invalid mode %q'' [AStr (pn_Mode p)]),
     failIf (pn_Mode p = ModeDirect \<and> pn_StructuredRequired p)
       (err ''review: direct plan cannot be structured_required''),
     scope_validate (pn_Scope p),
     failIf (pn_ChangedPaths p = []) (err ''review: plan has no changed paths''),
     allE PlanPath_validate (pn_ChangedPaths p),
     failIf (pn_NextCommands p = []) (err ''review: plan missing next commands'')]
   @ (if pn_Mode p = ModeStructured then [
       failIf (pn_Cohorts p = []) (err ''review: structured plan has no cohorts''),
       allE PlanCohort_validate (pn_Cohorts p),
       allE (\<lambda>a. failIf (\<not> validAuditID (pa_AuditID a))
              (Err ''review: plan has unknown required audit %q'' [AStr (pa_AuditID a)]))
         (pn_RequiredAudits p),
       allE (\<lambda>aid. failIf (aid \<notin> set (map pa_AuditID (pn_RequiredAudits p)))
              (Err ''review: structured plan missing required audit %s'' [AStr aid]))
         RequiredAuditsV1]
     else [
       failIf (pn_Cohorts p \<noteq> [] \<or> pn_RequiredAudits p \<noteq> [])
         (err ''review: direct plan must not carry cohorts or required audits'')])
   @ [allE Unit_validate (pn_PrimaryUnits p)])"

lemma Plan_validate_common:
  assumes "Plan_validate p = Inr u"
  shows "validReviewID (pn_ReviewID p)" "isCanonicalDigestHex (pn_PlanDigest p)"
    "scope_validate (pn_Scope p) = Inr ()" "pn_ChangedPaths p \<noteq> []"
    "\<forall>c\<in>set (pn_ChangedPaths p). PlanPath_validate c = Inr ()"
    "\<forall>v\<in>set (pn_PrimaryUnits p). Unit_validate v = Inr ()"
    "pn_Mode p = ModeDirect \<or> pn_Mode p = ModeStructured"
  using assms unfolding Plan_validate_def allOf_append by auto

text \<open>A structured plan names exactly the four audits; a direct plan carries no structured part.\<close>

lemma Plan_validate_structured:
  assumes "Plan_validate p = Inr u" "pn_Mode p = ModeStructured"
  shows "pn_Cohorts p \<noteq> []" "set (map pa_AuditID (pn_RequiredAudits p)) = set RequiredAuditsV1"
  using assms unfolding Plan_validate_def allOf_append by (auto simp: validAuditID_def)

lemma Plan_validate_direct:
  assumes "Plan_validate p = Inr u" "pn_Mode p = ModeDirect"
  shows "pn_Cohorts p = []" "pn_RequiredAudits p = []" "\<not> pn_StructuredRequired p"
  using assms unfolding Plan_validate_def allOf_append by auto

section \<open>Reports\<close>

definition RecommendApprove :: string where [simp]: "RecommendApprove = ''approve''"
definition RecommendComment :: string where [simp]: "RecommendComment = ''comment''"
definition RecommendRequestChanges :: string where [simp]: "RecommendRequestChanges = ''request_changes''"
definition RecommendIncomplete :: string where [simp]: "RecommendIncomplete = ''incomplete''"

definition validRecommendation :: "string \<Rightarrow> bool" where
  "validRecommendation s \<longleftrightarrow>
     s \<in> set [RecommendApprove, RecommendComment, RecommendRequestChanges, RecommendIncomplete]"

definition validCategory :: "string \<Rightarrow> bool" where
  "validCategory s \<longleftrightarrow> s \<in> set [''functional_correctness'', ''security_privacy'', ''stability_availability'',
     ''data_integrity_integration'', ''performance_scalability'', ''maintainability_quality'']"

definition SeverityCritical :: string where [simp]: "SeverityCritical = ''critical''"
definition SeverityMajor :: string where [simp]: "SeverityMajor = ''major''"
definition SeverityMinor :: string where [simp]: "SeverityMinor = ''minor''"

definition validSeverity :: "string \<Rightarrow> bool" where
  "validSeverity s \<longleftrightarrow> s \<in> set [SeverityCritical, SeverityMajor, SeverityMinor]"

definition validConfidence :: "string \<Rightarrow> bool" where
  "validConfidence s \<longleftrightarrow> s \<in> set [''high'', ''medium'', ''low'']"

definition DispositionConfirmed :: string where [simp]: "DispositionConfirmed = ''confirmed''"
definition DispositionPlausible :: string where [simp]: "DispositionPlausible = ''plausible''"
definition DispositionRejected :: string where [simp]: "DispositionRejected = ''rejected''"
definition DispositionUnverified :: string where [simp]: "DispositionUnverified = ''unverified''"

definition validDisposition :: "string \<Rightarrow> bool" where
  "validDisposition s \<longleftrightarrow>
     s \<in> set [DispositionConfirmed, DispositionPlausible, DispositionRejected, DispositionUnverified]"

definition validRejectionReason :: "string \<Rightarrow> bool" where
  "validRejectionReason s \<longleftrightarrow> s \<in> set [''contradicted_by_code'', ''unreachable_by_invariant'',
     ''pre_existing'', ''duplicate'', ''not_introduced'']"

definition CausePrimaryUnit :: string where [simp]: "CausePrimaryUnit = ''primary_unit''"
definition CauseChangedPath :: string where [simp]: "CauseChangedPath = ''changed_path''"
definition CauseAuditTarget :: string where [simp]: "CauseAuditTarget = ''audit_target''"

definition validCauseKind :: "string \<Rightarrow> bool" where
  "validCauseKind s \<longleftrightarrow> s \<in> set [CausePrimaryUnit, CauseChangedPath, CauseAuditTarget]"

definition LocationRange :: string where [simp]: "LocationRange = ''range''"
definition LocationPath :: string where [simp]: "LocationPath = ''path''"
definition SideBase :: string where [simp]: "SideBase = ''base''"
definition SideHead :: string where [simp]: "SideHead = ''head''"

definition CoverageNotRequiredDirect :: string where [simp]: "CoverageNotRequiredDirect = ''not_required_direct''"
definition CoverageComplete :: string where [simp]: "CoverageComplete = ''complete''"
definition CoverageIncomplete :: string where [simp]: "CoverageIncomplete = ''incomplete''"

record cause =
  ca_Kind :: string
  ca_ID :: string

record location =
  lo_Kind :: string
  lo_Path :: string
  lo_Side :: string
  lo_ContentHash :: string
  lo_Identity :: "side_identity option"
  lo_Mode :: u32
  lo_EntryType :: string
  lo_Start :: int
  lo_End :: int

definition location_content_checks :: "location \<Rightarrow> unit result" where
  "location_content_checks l = allOf [
     failIf (lo_Identity l \<noteq> None) (err ''content-backed location must not carry a tagged side identity''),
     failIf (lo_Mode l \<noteq> 0) (err ''content-backed location must not carry a mode''),
     failIf (lo_EntryType l \<noteq> []) (err ''content-backed location must not carry an entry type''),
     failIf (\<not> isCanonicalDigestHex (lo_ContentHash l))
       (Err ''location content hash %q is not a canonical 32-byte digest'' [AStr (lo_ContentHash l)]),
     (if lo_Kind l = LocationRange then
        failIf (lo_Start l < 1 \<or> lo_End l < lo_Start l)
          (Err ''range location requires 1 <= start <= end, got start=%d end=%d''
            [AInt (lo_Start l), AInt (lo_End l)])
      else failIf (lo_Start l \<noteq> 0 \<or> lo_End l \<noteq> 0)
          (err ''content-backed path location must not carry range coordinates''))]"

definition location_identity_checks :: "location \<Rightarrow> unit result" where
  "location_identity_checks l = allOf [
     failIf (lo_Kind l = LocationRange) (err ''range location must be text and content-backed''),
     (case lo_Identity l of
        None \<Rightarrow> Inl (err ''non-content location needs a tagged side identity proof'')
      | Some s \<Rightarrow> (case side_validate s of
          Inl e \<Rightarrow> Inl (Err ''location identity: %w'' [AWrap e]) | Inr _ \<Rightarrow> Inr ())),
     failIf (lo_EntryType l = []) (err ''non-content location needs an entry type''),
     failIf (lo_Start l \<noteq> 0 \<or> lo_End l \<noteq> 0)
       (err ''non-content location must not carry range coordinates'')]"

definition Location_validate :: "location \<Rightarrow> unit result" where
  "Location_validate l = allOf [
     failIf (lo_Kind l \<noteq> LocationRange \<and> lo_Kind l \<noteq> LocationPath)
       (Err ''location has invalid kind %q'' [AStr (lo_Kind l)]),
     failIf (lo_Path l = []) (err ''location missing path''),
     failIf (lo_Side l \<noteq> SideBase \<and> lo_Side l \<noteq> SideHead)
       (Err ''location has invalid side %q'' [AStr (lo_Side l)]),
     (if lo_ContentHash l \<noteq> [] then location_content_checks l else location_identity_checks l)]"

record citation =
  ci_Kind :: string
  ci_ID :: string
  ci_Path :: string
  ci_Note :: string

definition Citation_validate :: "citation \<Rightarrow> unit result" where
  "Citation_validate c = allOf [
     failIf (ci_Kind c = []) (err ''review: citation missing kind''),
     failIf (ci_ID c = [] \<and> ci_Path c = []) (err ''review: citation must reference an id or path'')]"

text \<open>\<open>fmt.Errorf\<close> around a check that failed.\<close>

definition wrapE :: "(gerror \<Rightarrow> gerror) \<Rightarrow> 'a result \<Rightarrow> 'a result" where
  "wrapE w m = (case m of Inl e \<Rightarrow> Inl (w e) | Inr a \<Rightarrow> Inr a)"

lemma wrapE_Inr [simp]: "wrapE w m = Inr a \<longleftrightarrow> m = Inr a"
  by (cases m) (simp_all add: wrapE_def)

definition validateCitations :: "citation list \<Rightarrow> string \<Rightarrow> unit result" where
  "validateCitations cites label =
     allE (\<lambda>(i, c). wrapE (\<lambda>e. Err ''review: %s citation %d: %w'' [AStr label, AInt (int i), AWrap e])
            (Citation_validate c)) (enumerate 0 cites)"

record uncertainty =
  un_Blocking :: bool
  un_Summary :: string

record finding =
  fi_ID :: string
  fi_Causes :: "cause list"
  fi_Category :: string
  fi_Severity :: string
  fi_Confidence :: string
  fi_Summary :: string
  fi_Detail :: string
  fi_Scenario :: string
  fi_Locations :: "location list"
  fi_Citations :: "citation list"
  fi_IntroducedByChange :: bool
  fi_Verifier :: string
  fi_VerifierEvidence :: "citation list"
  fi_RejectionReason :: string
  fi_Remediation :: string

definition Finding_validate :: "finding \<Rightarrow> unit result" where
  "Finding_validate f = (let i = AStr (fi_ID f) in allOf ([
     failIf (fi_ID f = []) (err ''review: finding missing id''),
     failIf (fi_Causes f = []) (Err ''review: finding %s has no causal reference'' [i]),
     allE (\<lambda>c. allOf [
         failIf (\<not> validCauseKind (ca_Kind c))
           (Err ''review: finding %s has invalid cause kind %q'' [i, AStr (ca_Kind c)]),
         failIf (ca_ID c = []) (Err ''review: finding %s has an empty cause id'' [i])])
       (fi_Causes f),
     failIf (fi_Locations f = []) (Err ''review: finding %s has no location'' [i]),
     allE (\<lambda>l. wrapE (\<lambda>e. Err ''review: finding %s: %w'' [i, AWrap e]) (Location_validate l))
       (fi_Locations f),
     validateCitations (fi_Citations f) (''finding '' @ fi_ID f @ '' supporting''),
     validateCitations (fi_VerifierEvidence f) (''finding '' @ fi_ID f @ '' verifier''),
     failIf (fi_Summary f = []) (Err ''review: finding %s missing summary'' [i]),
     failIf (fi_Scenario f = []) (Err ''review: finding %s missing a concrete failure scenario'' [i]),
     failIf (fi_Detail f = []) (Err ''review: finding %s missing a detailed explanation'' [i]),
     failIf (\<not> validCategory (fi_Category f))
       (Err ''review: finding %s has invalid category %q'' [i, AStr (fi_Category f)]),
     failIf (\<not> validSeverity (fi_Severity f))
       (Err ''review: finding %s has invalid severity %q'' [i, AStr (fi_Severity f)]),
     failIf (\<not> validConfidence (fi_Confidence f))
       (Err ''review: finding %s has invalid confidence %q'' [i, AStr (fi_Confidence f)]),
     failIf (\<not> validDisposition (fi_Verifier f))
       (Err ''review: finding %s has invalid verifier disposition %q'' [i, AStr (fi_Verifier f)])]
   @ (if fi_Verifier f = DispositionRejected then [
       failIf (\<not> validRejectionReason (fi_RejectionReason f))
         (Err ''review: rejected finding %s needs a typed rejection reason'' [i]),
       failIf (fi_VerifierEvidence f = [])
         (Err ''review: rejected finding %s needs verifier evidence citations'' [i]),
       failIf (fi_Citations f = [])
         (Err ''review: rejected finding %s needs supporting citations'' [i])]
     else [failIf (fi_RejectionReason f \<noteq> [])
         (Err ''review: finding %s has a rejection reason without a rejected disposition'' [i])])))"

record primary_receipt =
  pr_UnitID :: string
  pr_AcknowledgedPrimaryHunkIDs :: "string list"
  pr_ContextCitations :: "citation list"
  pr_FindingIDs :: "string list"
  pr_Uncertainties :: "uncertainty list"
  pr_Reviewer :: string

definition PrimaryReceipt_validate :: "primary_receipt \<Rightarrow> unit result" where
  "PrimaryReceipt_validate r = allOf [
     failIf (pr_UnitID r = []) (err ''review: primary receipt missing unit id''),
     failIf (pr_Reviewer r = [])
       (Err ''review: primary receipt for %s missing reviewer identity'' [AStr (pr_UnitID r)]),
     validateCitations (pr_ContextCitations r) (''primary receipt '' @ pr_UnitID r @ '' context''),
     allE (\<lambda>u. failIf (un_Summary u = [])
            (Err ''review: primary receipt for %s has an empty uncertainty summary'' [AStr (pr_UnitID r)]))
       (pr_Uncertainties r)]"

record audit_receipt =
  ar_AuditID :: string
  ar_AcknowledgedAuditTargetIDs :: "string list"
  ar_ContextCitations :: "citation list"
  ar_FindingIDs :: "string list"
  ar_Uncertainties :: "uncertainty list"
  ar_Reviewer :: string

definition AuditReceipt_validate :: "audit_receipt \<Rightarrow> unit result" where
  "AuditReceipt_validate r = allOf [
     failIf (\<not> validAuditID (ar_AuditID r))
       (Err ''review: audit receipt has unknown audit id %q'' [AStr (ar_AuditID r)]),
     failIf (ar_Reviewer r = [])
       (Err ''review: audit receipt for %s missing reviewer identity'' [AStr (ar_AuditID r)]),
     validateCitations (ar_ContextCitations r) (''audit receipt '' @ ar_AuditID r @ '' context''),
     allE (\<lambda>u. failIf (un_Summary u = [])
            (Err ''review: audit receipt for %s has an empty uncertainty summary'' [AStr (ar_AuditID r)]))
       (ar_Uncertainties r)]"

record report =
  re_Schema :: string
  re_ReviewID :: string
  re_PlanDigest :: string
  re_Base :: side_identity
  re_Head :: side_identity
  re_Recommendation :: string
  re_Findings :: "finding list"
  re_PrimaryReceipts :: "primary_receipt list"
  re_AuditReceipts :: "audit_receipt list"
  re_Notes :: string

text \<open>
  \<open>checkRecommendationConsistency\<close>: an unrejected critical finding permits only
  \<open>request_changes\<close> or \<open>incomplete\<close>, an unrejected major finding forbids \<open>approve\<close>.
\<close>

definition checkRecommendationConsistency :: "report \<Rightarrow> unit result" where
  "checkRecommendationConsistency r = allE (\<lambda>f.
     if fi_Verifier f = DispositionRejected then Inr ()
     else if fi_Severity f = SeverityCritical then
       failIf (re_Recommendation r \<noteq> RecommendRequestChanges \<and> re_Recommendation r \<noteq> RecommendIncomplete)
         (Err ''review: unrejected critical finding %s forbids recommendation %q''
           [AStr (fi_ID f), AStr (re_Recommendation r)])
     else if fi_Severity f = SeverityMajor then
       failIf (re_Recommendation r = RecommendApprove)
         (Err ''review: unrejected major finding %s forbids approve'' [AStr (fi_ID f)])
     else Inr ()) (re_Findings r)"

text \<open>The loop over findings: \<open>seen\<close> is the set of identifiers already met.\<close>

fun findings_validate :: "string list \<Rightarrow> finding list \<Rightarrow> unit result" where
  "findings_validate seen [] = Inr ()"
| "findings_validate seen (f # fs) =
     (if fi_ID f \<in> set seen then Inl (Err ''review: duplicate finding id %q'' [AStr (fi_ID f)])
      else seqE (Finding_validate f) (findings_validate (fi_ID f # seen) fs))"

definition report_header_checks :: "report \<Rightarrow> (unit result) list" where
  "report_header_checks r = [
     failIf (re_Schema r \<noteq> ReportSchemaV1)
       (Err ''review: report schema %q is not %s'' [AStr (re_Schema r), AStr ReportSchemaV1]),
     failIf (\<not> validReviewID (re_ReviewID r))
       (Err ''review: report has malformed review id %q'' [AStr (re_ReviewID r)]),
     failIf (\<not> isCanonicalDigestHex (re_PlanDigest r))
       (Err ''review: report has non-canonical plan digest %q'' [AStr (re_PlanDigest r)]),
     wrapE (\<lambda>e. Err ''review: report base: %w'' [AWrap e]) (side_validate (re_Base r)),
     wrapE (\<lambda>e. Err ''review: report head: %w'' [AWrap e]) (side_validate (re_Head r)),
     failIf (\<not> validRecommendation (re_Recommendation r))
       (Err ''review: report has invalid recommendation %q'' [AStr (re_Recommendation r)])]"

definition Report_validate :: "report \<Rightarrow> unit result" where
  "Report_validate r = allOf (report_header_checks r @ [
     findings_validate [] (re_Findings r),
     allE PrimaryReceipt_validate (re_PrimaryReceipts r),
     allE AuditReceipt_validate (re_AuditReceipts r),
     checkRecommendationConsistency r])"

lemma findings_validate_Inr:
  "findings_validate seen fs = Inr u \<longleftrightarrow>
     distinct (map fi_ID fs) \<and> set seen \<inter> set (map fi_ID fs) = {} \<and>
     (\<forall>f\<in>set fs. Finding_validate f = Inr ())"
  by (induction fs arbitrary: seen) auto

lemma checkRecommendationConsistency_Inr:
  "checkRecommendationConsistency r = Inr u \<longleftrightarrow>
     (\<forall>f\<in>set (re_Findings r). fi_Verifier f \<noteq> DispositionRejected \<longrightarrow>
        (fi_Severity f = SeverityCritical \<longrightarrow>
           re_Recommendation r \<in> {RecommendRequestChanges, RecommendIncomplete}) \<and>
        (fi_Severity f = SeverityMajor \<longrightarrow> re_Recommendation r \<noteq> RecommendApprove))"
  unfolding checkRecommendationConsistency_def allE_eq_Inr
  by (intro ball_cong refl) (simp add: failIf_eq_Inr SeverityCritical_def SeverityMajor_def)

text \<open>An accepted location carries exactly one form of side proof.\<close>

lemma Location_validate_Inr:
  assumes "Location_validate l = Inr u"
  shows "lo_Path l \<noteq> []" "lo_Side l \<in> {SideBase, SideHead}" "lo_Kind l \<in> {LocationRange, LocationPath}"
    "lo_ContentHash l \<noteq> [] \<Longrightarrow> isCanonicalDigestHex (lo_ContentHash l) \<and> lo_Identity l = None"
    "lo_ContentHash l = [] \<Longrightarrow> lo_Kind l = LocationPath \<and>
       (\<exists>s. lo_Identity l = Some s \<and> side_validate s = Inr ())"
    "lo_Kind l = LocationRange \<Longrightarrow> 1 \<le> lo_Start l \<and> lo_Start l \<le> lo_End l"
    "lo_Kind l = LocationPath \<Longrightarrow> lo_Start l = 0 \<and> lo_End l = 0"
  using assms
  by (auto simp: Location_validate_def location_content_checks_def location_identity_checks_def
      split: if_splits option.splits sum.splits)

section \<open>Check results\<close>

definition CheckComplete :: string where [simp]: "CheckComplete = ''complete''"
definition CheckIncomplete :: string where [simp]: "CheckIncomplete = ''incomplete''"
definition CheckStale :: string where [simp]: "CheckStale = ''stale''"
definition CheckInvalid :: string where [simp]: "CheckInvalid = ''invalid''"

record check_result =
  cr_Schema :: string
  cr_ReviewID :: string
  cr_Mode :: string
  cr_Status :: string
  cr_Coverage :: string
  cr_Recommendation :: string
  cr_Problems :: "string list"

definition Complete :: "check_result \<Rightarrow> bool" where
  "Complete c \<longleftrightarrow> cr_Status c = CheckComplete"

definition validCheckStatus :: "string \<Rightarrow> bool" where
  "validCheckStatus s \<longleftrightarrow> s \<in> set [CheckComplete, CheckIncomplete, CheckStale, CheckInvalid]"

definition check_status_checks :: "check_result \<Rightarrow> (unit result) list" where
  "check_status_checks c =
     (if cr_Status c = CheckComplete then [
        failIf (cr_Problems c \<noteq> []) (err ''review: complete check must report no problems''),
        failIf (cr_Recommendation c = RecommendIncomplete)
          (err ''review: complete check cannot recommend incomplete''),
        failIf (cr_Mode c = ModeStructured \<and> cr_Coverage c \<noteq> CoverageComplete)
          (err ''review: complete structured check requires complete coverage'')]
      else if cr_Status c \<in> set [CheckIncomplete, CheckStale, CheckInvalid] then [
        failIf (cr_Problems c = []) (Err ''review: %s check must list problems'' [AStr (cr_Status c)]),
        failIf (cr_Recommendation c \<noteq> RecommendIncomplete)
          (Err ''review: %s check requires recommendation incomplete'' [AStr (cr_Status c)])]
      else [])"

definition CheckResult_validate :: "check_result \<Rightarrow> unit result" where
  "CheckResult_validate c = allOf ([
     failIf (cr_Schema c \<noteq> CheckSchemaV1)
       (Err ''review: check schema %q is not %s'' [AStr (cr_Schema c), AStr CheckSchemaV1]),
     failIf (\<not> validReviewID (cr_ReviewID c))
       (Err ''review: check has malformed review id %q'' [AStr (cr_ReviewID c)]),
     failIf (cr_Mode c \<notin> set [ModeDirect, ModeStructured])
       (Err ''review: check result has invalid mode %q'' [AStr (cr_Mode c)]),
     failIf (\<not> validCheckStatus (cr_Status c))
       (Err ''review: check result has invalid status %q'' [AStr (cr_Status c)]),
     failIf (cr_Coverage c \<notin> set [CoverageNotRequiredDirect, CoverageComplete, CoverageIncomplete])
       (Err ''review: check result has invalid coverage %q'' [AStr (cr_Coverage c)]),
     failIf (\<not> validRecommendation (cr_Recommendation c))
       (Err ''review: check result has invalid recommendation %q'' [AStr (cr_Recommendation c)]),
     failIf (cr_Mode c = ModeDirect \<and> cr_Coverage c \<noteq> CoverageNotRequiredDirect)
       (Err ''review: direct check must record coverage %s'' [AStr CoverageNotRequiredDirect]),
     failIf (cr_Mode c = ModeStructured \<and> cr_Coverage c = CoverageNotRequiredDirect)
       (err ''review: structured check must record complete or incomplete coverage'')]
   @ check_status_checks c)"

text \<open>The combinations a validated check result may have, one line per verdict.\<close>

lemma CheckResult_validate_Inr:
  "CheckResult_validate c = Inr u \<longleftrightarrow>
     cr_Schema c = CheckSchemaV1 \<and> validReviewID (cr_ReviewID c) \<and>
     (cr_Mode c = ModeDirect \<and> cr_Coverage c = CoverageNotRequiredDirect \<or>
      cr_Mode c = ModeStructured \<and> cr_Coverage c \<in> {CoverageComplete, CoverageIncomplete}) \<and>
     (Complete c \<and> cr_Problems c = [] \<and> validRecommendation (cr_Recommendation c) \<and>
        cr_Recommendation c \<noteq> RecommendIncomplete \<and>
        (cr_Mode c = ModeStructured \<longrightarrow> cr_Coverage c = CoverageComplete) \<or>
      cr_Status c \<in> {CheckIncomplete, CheckStale, CheckInvalid} \<and> cr_Problems c \<noteq> [] \<and>
        cr_Recommendation c = RecommendIncomplete)"
proof (cases "cr_Status c = CheckComplete")
  case True
  then show ?thesis
    by (auto simp: CheckResult_validate_def check_status_checks_def validCheckStatus_def Complete_def)
next
  case False
  then show ?thesis
    by (auto simp: CheckResult_validate_def check_status_checks_def validCheckStatus_def Complete_def
        validRecommendation_def)
qed

section \<open>Properties\<close>

text \<open>
  a validated plan is well formed as a whole: its identifiers have the canonical form, its
  scope resolves to two valid sides, it covers at least one changed path, and its mode decides its
  shape: a structured plan has cohorts and exactly the four required audits, a direct plan has
  neither and is not required to be structured.
\<close>

theorem Plan_validate_shape:
  assumes "Plan_validate p = Inr u"
  shows "validReviewID (pn_ReviewID p) \<and> isCanonicalDigestHex (pn_PlanDigest p) \<and>
    side_validate (sc_Base (pn_Scope p)) = Inr () \<and> side_validate (sc_Head (pn_Scope p)) = Inr () \<and>
    pn_ChangedPaths p \<noteq> [] \<and>
    (pn_Mode p = ModeStructured \<and> pn_Cohorts p \<noteq> [] \<and>
       set (map pa_AuditID (pn_RequiredAudits p)) = set RequiredAuditsV1 \<or>
     pn_Mode p = ModeDirect \<and> pn_Cohorts p = [] \<and> pn_RequiredAudits p = [] \<and> \<not> pn_StructuredRequired p)"
  using Plan_validate_common [OF assms] Plan_validate_structured [OF assms] Plan_validate_direct [OF assms]
    scope_validate_sides [of "pn_Scope p"]
  by blast

definition sample_review_id :: string where
  "sample_review_id = ''rvw_'' @ replicate 40 (CHR ''0'')"

definition sample_scope :: scope where
  "sample_scope = \<lparr>sc_Kind = ''commit'', sc_ObjectFormat = ''sha1'',
     sc_Base = \<lparr>side_Kind = ''git_oid'', side_Value = replicate 20 (CHR ''a'')\<rparr>,
     sc_Head = \<lparr>side_Kind = ''git_oid'', side_Value = replicate 20 (CHR ''b'')\<rparr>,
     sc_BaseRef = [], sc_HeadRef = ''v1'', sc_Digest = 0\<rparr>"

definition sample_direct_plan :: plan where
  "sample_direct_plan = \<lparr>pn_Schema = PlanSchemaV1, pn_ReviewID = sample_review_id,
     pn_PlanDigest = replicate 64 (CHR ''0''), pn_Mode = ''direct'', pn_StructuredRequired = False,
     pn_Scope = sample_scope,
     pn_Stats = \<lparr>ps_RawAdditions = 1, ps_RawDeletions = 0, ps_RawChurn = 1, ps_ReviewableChurn = 1, ps_ChangedPaths = 1\<rparr>,
     pn_ChangedPaths = [\<lparr>pp_PathID = ''p_1'', pp_OldPath = [], pp_NewPath = ''x'', pp_Status = ''A'',
       pp_ReviewClass = ''full'', pp_Coverage = ''full'', pp_Roles = [], pp_Reason = []\<rparr>],
     pn_AttentionSignals = [], pn_Cohorts = [], pn_PrimaryUnits = [], pn_RequiredAudits = [],
     pn_NextCommands = [\<lparr>nc_Label = ''n'', nc_Command = ''c''\<rparr>]\<rparr>"

lemma sample_review_id_valid: "validReviewID sample_review_id"
  by (simp add: validReviewID_def sample_review_id_def isLowerHex_def list_all_iff lower_hex_def less_eq_char_def)

lemma sample_scope_valid: "scope_validate sample_scope = Inr ()"
  by (simp add: scope_validate_def validateScopeSides_Inr sample_scope_def oidWidthFor_def)

lemma zero_digest_canonical: "isCanonicalDigestHex (replicate 64 (CHR ''0''))"
  by (simp add: isCanonicalDigestHex_def isLowerHex_def list_all_iff lower_hex_def less_eq_char_def)

lemma sample_direct_plan_valid: "Plan_validate sample_direct_plan = Inr ()"
  using sample_review_id_valid sample_scope_valid zero_digest_canonical
  by (simp add: Plan_validate_def sample_direct_plan_def PlanPath_validate_def validReviewClass_def validPathCoverage_def)

lemma Plan_validate_shape_witness:
  "side_validate (sc_Base (pn_Scope sample_direct_plan)) = Inr () \<and> pn_ChangedPaths sample_direct_plan \<noteq> []"
  using Plan_validate_shape [OF sample_direct_plan_valid] by blast

text \<open>
  \<open>Scope.Validate\<close> accepts exactly the scopes whose sides have the form their kind requires: a
  Git object of the format's width as the base, and as the head another one, or the 32-byte
  workspace hash for a workspace scope.
\<close>

theorem scope_validate_accepts:
  "scope_validate s = Inr () \<longleftrightarrow>
     (\<exists>width. (sc_ObjectFormat s = ''sha1'' \<and> width = 20 \<or> sc_ObjectFormat s = ''sha256'' \<and> width = 32) \<and>
        sc_Base s = \<lparr>side_Kind = SideGitOID, side_Value = side_Value (sc_Base s)\<rparr> \<and>
        length (side_Value (sc_Base s)) = width \<and>
        (sc_Kind s \<in> {ScopeCommit, ScopeRange} \<and> side_Kind (sc_Head s) = SideGitOID \<and>
           length (side_Value (sc_Head s)) = width \<or>
         sc_Kind s = ScopeWorkspace \<and> side_Kind (sc_Head s) = SideWorkspaceSHA256 \<and>
           length (side_Value (sc_Head s)) = 32))"
proof -
  have eta: "x = \<lparr>side_Kind = SideGitOID, side_Value = side_Value x\<rparr> \<longleftrightarrow> side_Kind x = SideGitOID" for x :: side_identity
    by (cases x) simp
  show ?thesis unfolding eta scope_validate_def validateScopeSides_Inr oidWidthFor_Some by blast
qed

text \<open>
  a validated report has distinct findings that are valid one by one, and its recommendation is
  consistent with them: no approval over an unrejected major finding, and only \<open>request_changes\<close> or
  \<open>incomplete\<close> over an unrejected critical one.  A rejected finding carries a reason and evidence.
\<close>

theorem Report_validate_consistent:
  assumes "Report_validate r = Inr u"
  shows "distinct (map fi_ID (re_Findings r)) \<and>
    (\<forall>f\<in>set (re_Findings r). Finding_validate f = Inr () \<and>
       (if fi_Verifier f = DispositionRejected
        then validRejectionReason (fi_RejectionReason f) \<and> fi_VerifierEvidence f \<noteq> [] \<and> fi_Citations f \<noteq> []
        else fi_RejectionReason f = [] \<and>
          (fi_Severity f = SeverityCritical \<longrightarrow> re_Recommendation r \<in> {RecommendRequestChanges, RecommendIncomplete}) \<and>
          (fi_Severity f = SeverityMajor \<longrightarrow> re_Recommendation r \<noteq> RecommendApprove)))"
proof -
  have v: "findings_validate [] (re_Findings r) = Inr ()" "checkRecommendationConsistency r = Inr ()"
    using assms by (simp_all add: Report_validate_def)
  have f: "distinct (map fi_ID (re_Findings r))" "\<forall>f\<in>set (re_Findings r). Finding_validate f = Inr ()"
    using v(1) by (simp_all add: findings_validate_Inr)
  have reason: "if fi_Verifier f = DispositionRejected
      then validRejectionReason (fi_RejectionReason f) \<and> fi_VerifierEvidence f \<noteq> [] \<and> fi_Citations f \<noteq> []
      else fi_RejectionReason f = []" if "Finding_validate f = Inr ()" for f
    using that unfolding Finding_validate_def Let_def allOf_append by (cases "fi_Verifier f = DispositionRejected") simp_all
  show ?thesis
    using f v(2) [unfolded checkRecommendationConsistency_Inr] reason by meson
qed

definition sample_finding :: finding where
  "sample_finding = \<lparr>fi_ID = ''f1'', fi_Causes = [\<lparr>ca_Kind = ''primary_unit'', ca_ID = ''u_1''\<rparr>],
     fi_Category = ''functional_correctness'', fi_Severity = ''major'', fi_Confidence = ''high'',
     fi_Summary = ''s'', fi_Detail = ''d'', fi_Scenario = ''c'',
     fi_Locations = [\<lparr>lo_Kind = ''range'', lo_Path = ''x'', lo_Side = ''head'',
       lo_ContentHash = replicate 64 (CHR ''0''), lo_Identity = None, lo_Mode = 0, lo_EntryType = [],
       lo_Start = 1, lo_End = 2\<rparr>],
     fi_Citations = [], fi_IntroducedByChange = True, fi_Verifier = ''confirmed'', fi_VerifierEvidence = [],
     fi_RejectionReason = [], fi_Remediation = []\<rparr>"

definition sample_report :: report where
  "sample_report = \<lparr>re_Schema = ReportSchemaV1, re_ReviewID = sample_review_id,
     re_PlanDigest = replicate 64 (CHR ''0''), re_Base = sc_Base sample_scope, re_Head = sc_Head sample_scope,
     re_Recommendation = ''comment'', re_Findings = [sample_finding], re_PrimaryReceipts = [],
     re_AuditReceipts = [], re_Notes = []\<rparr>"

lemma sample_location_valid: "list_all (\<lambda>l. Location_validate l = Inr ()) (fi_Locations sample_finding)"
  using zero_digest_canonical
  by (simp add: sample_finding_def Location_validate_def location_content_checks_def)

lemma sample_finding_valid: "Finding_validate sample_finding = Inr ()"
proof -
  have "allE (\<lambda>l. wrapE (\<lambda>e. Err ''review: finding %s: %w'' [AStr (fi_ID sample_finding), AWrap e]) (Location_validate l))
      (fi_Locations sample_finding) = Inr ()"
    using sample_location_valid by (simp add: list_all_iff)
  then show ?thesis unfolding Finding_validate_def Let_def allOf_append
    by (simp add: sample_finding_def validCauseKind_def validCategory_def validSeverity_def
        validConfidence_def validDisposition_def validateCitations_def)
qed

lemma sample_report_valid: "Report_validate sample_report = Inr ()"
  using sample_review_id_valid zero_digest_canonical scope_validate_sides [OF sample_scope_valid] sample_finding_valid
  unfolding Report_validate_def report_header_checks_def allOf_append
  by (simp add: sample_report_def findings_validate_Inr checkRecommendationConsistency_Inr
      validRecommendation_def) (simp add: sample_finding_def)

lemma Report_validate_consistent_witness:
  "distinct (map fi_ID (re_Findings sample_report)) \<and> re_Findings sample_report \<noteq> []"
  using Report_validate_consistent [OF sample_report_valid] by (simp add: sample_report_def)

text \<open>
  an accepted finding location carries exactly one form of side proof: a content-backed one has
  a canonical content hash and no other proof, any other is a whole-path location with a valid side
  identity and an entry type; a range is at least one line long and starts at line 1 or later.
\<close>

theorem Location_validate_proof:
  assumes "Location_validate l = Inr u"
  shows "if lo_ContentHash l \<noteq> []
     then isCanonicalDigestHex (lo_ContentHash l) \<and> lo_Identity l = None \<and> lo_Mode l = 0 \<and> lo_EntryType l = [] \<and>
       (if lo_Kind l = LocationRange then 1 \<le> lo_Start l \<and> lo_Start l \<le> lo_End l else lo_Start l = 0 \<and> lo_End l = 0)
     else lo_Kind l = LocationPath \<and> (\<exists>s. lo_Identity l = Some s \<and> side_validate s = Inr ()) \<and>
       lo_EntryType l \<noteq> [] \<and> lo_Start l = 0 \<and> lo_End l = 0"
  using assms
  by (auto simp: Location_validate_def location_content_checks_def location_identity_checks_def
      split: if_splits option.splits sum.splits)

lemma Location_validate_proof_witness:
  "isCanonicalDigestHex (lo_ContentHash (hd (fi_Locations sample_finding)))"
proof -
  have "Location_validate (hd (fi_Locations sample_finding)) = Inr ()"
    using sample_location_valid by (simp add: sample_finding_def)
  from Location_validate_proof [OF this] show ?thesis by (simp add: sample_finding_def)
qed

text \<open>
  The verdicts a validated check result may carry: \<open>complete\<close> has no problems, does not recommend
  \<open>incomplete\<close> and has complete coverage when structured; every other verdict lists problems and
  recommends \<open>incomplete\<close>; direct checks record that coverage is not required.
\<close>

theorem CheckResult_validate_accepts:
  "CheckResult_validate c = Inr () \<longleftrightarrow>
     cr_Schema c = CheckSchemaV1 \<and> validReviewID (cr_ReviewID c) \<and>
     (cr_Mode c = ModeDirect \<and> cr_Coverage c = CoverageNotRequiredDirect \<or>
      cr_Mode c = ModeStructured \<and> cr_Coverage c \<in> {CoverageComplete, CoverageIncomplete}) \<and>
     (Complete c \<and> cr_Problems c = [] \<and> validRecommendation (cr_Recommendation c) \<and>
        cr_Recommendation c \<noteq> RecommendIncomplete \<and>
        cr_Coverage c \<noteq> CoverageIncomplete \<or>
      cr_Status c \<in> {CheckIncomplete, CheckStale, CheckInvalid} \<and> cr_Problems c \<noteq> [] \<and>
        cr_Recommendation c = RecommendIncomplete)"
  unfolding CheckResult_validate_Inr by auto

text \<open>
  the size of a unit's mandatory JSON does not depend on which review, cohort and layer
  identifiers of the same length it carries, so measuring a draft with placeholder identifiers
  measures the final unit.
\<close>

theorem CanonicalMandatoryJSON_size_stable:
  assumes "list_all safe_id [ru_ReviewID u, ru_CohortID u, ru_LayerID u, r, c, l]"
    and "length r = length (ru_ReviewID u)" "length c = length (ru_CohortID u)" "length l = length (ru_LayerID u)"
  shows "length (CanonicalMandatoryJSON (u\<lparr>ru_ReviewID := r, ru_CohortID := c, ru_LayerID := l\<rparr>)) =
    length (CanonicalMandatoryJSON u)"
  using assms by (intro length_CanonicalMandatoryJSON_ids) simp_all

definition sample_unit :: review_unit where
  "sample_unit = \<lparr>ru_Schema = UnitSchemaV1, ru_ReviewID = ''rvw_0'', ru_UnitID = ''u_1'', ru_CohortID = ''c_0'',
     ru_LayerID = ''l_0'', ru_ScopeKind = ''commit'', ru_ObjectFormat = ''sha1'', ru_Base = AbsentSide,
     ru_Head = AbsentSide, ru_Hunks = []\<rparr>"

lemma CanonicalMandatoryJSON_size_stable_witness:
  "length (CanonicalMandatoryJSON (sample_unit\<lparr>ru_ReviewID := ''rvw_7'', ru_CohortID := ''c_7'', ru_LayerID := ''l_7''\<rparr>)) =
   length (CanonicalMandatoryJSON sample_unit)"
  by (rule CanonicalMandatoryJSON_size_stable)
    (simp_all add: sample_unit_def safe_id_def ascii_safe_def quote_def backslash_def)

end
