(* ===== verification/Scope.thy ===== *)
theory Scope
  imports Model
begin

text \<open>
  \<open>internal/review/scope.go\<close>: resolving a plan request into an immutable scope.  Git is not part of
  the program: \<open>git repo args\<close> is what \<open>GitRunner.Output\<close> returns for a command line, its standard
  output or an error.  The output limit is the same constant in every call and is left out.
\<close>

section \<open>Git's answers\<close>

type_synonym git_runner = "string \<Rightarrow> string list \<Rightarrow> bytes result"

text \<open>\<open>GitExitError\<close>: its message is its identity; \<open>errors.As\<close> finds the first one in the chain.\<close>

definition GitExitFmt :: string where
  "GitExitFmt = ''review: git %s exited with status %d: %s''"

definition GitExitError :: "string \<Rightarrow> int \<Rightarrow> string \<Rightarrow> gerror" where
  "GitExitError sub code msg = Err GitExitFmt [AStr sub, AInt code, AStr msg]"

definition first_some :: "'a option list \<Rightarrow> 'a option" where
  "first_some xs = (case dropWhile (\<lambda>x. x = None) xs of [] \<Rightarrow> None | x # _ \<Rightarrow> x)"

definition exit_args :: "garg list \<Rightarrow> int option" where
  "exit_args args = (case args of [AStr _, AInt c, AStr _] \<Rightarrow> Some c | _ \<Rightarrow> None)"

primrec exit_code :: "gerror \<Rightarrow> int option" and arg_exit :: "garg \<Rightarrow> int option" where
  "exit_code (Err m args) = (if m = GitExitFmt then exit_args args else first_some (map arg_exit args))"
| "arg_exit (AStr s) = None"
| "arg_exit (AInt i) = None"
| "arg_exit (AErr e) = None"
| "arg_exit (AWrap e) = exit_code e"

lemma exit_code_GitExitError [simp]: "exit_code (GitExitError sub c msg) = Some c"
  by (simp add: GitExitError_def exit_args_def)

section \<open>Errors and constants\<close>

definition ErrUnsupportedObjectFormat :: gerror where
  "ErrUnsupportedObjectFormat = err ''review: unsupported git object format''"

definition emptyTreeSHA1 :: string where
  "emptyTreeSHA1 = ''4b825dc642cb6eb9a060e54bf8d69288fbee4904''"
definition emptyTreeSHA256 :: string where
  "emptyTreeSHA256 = ''6ef19b41225c5369f1c104d45d8d85efa9b057b53b14b4b9b939dd74decc5321''"

definition emptyTreeOID :: "string \<Rightarrow> string" where
  "emptyTreeOID objectFormat = (if objectFormat = ''sha256'' then emptyTreeSHA256 else emptyTreeSHA1)"

section \<open>Resolution\<close>

definition resolveObjectFormat :: "git_runner \<Rightarrow> string \<Rightarrow> string result" where
  "resolveObjectFormat git repo =
     bindE (wrapE (\<lambda>e. Err ''review: determine object format: %w'' [AWrap e])
              (git repo [''rev-parse'', ''--show-object-format'']))
       (\<lambda>out. let format = TrimSpace out in
          if \<not> validObjectFormat format then Inl (Err ''%w: %q'' [AWrap ErrUnsupportedObjectFormat, AStr format])
          else Inr format)"




definition gitOIDSide :: "string \<Rightarrow> nat \<Rightarrow> side_identity result" where
  "gitOIDSide hexOID width =
     bindE (wrapE (\<lambda>e. Err ''review: malformed object id %q: %w'' [AStr hexOID, AWrap e]) (hex_decode hexOID))
       (\<lambda>raw. if length raw \<noteq> width
          then Inl (Err ''review: object id %q is %d bytes, want %d''
            [AStr hexOID, AInt (int (length raw)), AInt (int width)])
          else Inr \<lparr>side_Kind = SideGitOID, side_Value = raw\<rparr>)"








section \<open>Facts about the steps\<close>



lemma emptyTree_decodes:
  assumes "oidWidthFor f = Some w"
  shows "\<exists>s. gitOIDSide (emptyTreeOID f) w = Inr s"
proof -
  have "\<not> isl (gitOIDSide emptyTreeSHA1 20)" "\<not> isl (gitOIDSide emptyTreeSHA256 32)" by code_simp+
  then show ?thesis using assms by (auto simp: oidWidthFor_Some emptyTreeOID_def isl_def) (meson sum.exhaust)+
qed

lemma resolveObjectFormat_Inr:
  "resolveObjectFormat git repo = Inr f \<Longrightarrow> \<exists>w. oidWidthFor f = Some w"
  by (auto simp: resolveObjectFormat_def Let_def validObjectFormat_def oidWidthFor_def split: if_splits)


lemma request_kind_cases:
  "request_kind r = ScopeCommit \<and> pr_Commit r \<noteq> [] \<or> request_kind r = ScopeRange \<and> pr_Commit r = [] \<and> pr_Base r \<noteq> []
   \<or> request_kind r = ScopeWorkspace \<and> pr_Commit r = [] \<and> pr_Base r = []"
  by (simp add: request_kind_def)











section \<open>A repository and what Git says of it\<close>









section \<open>The resolvers in a repository\<close>










section \<open>Properties\<close>












end
