(* ===== verification/Roles.thy ===== *)
theory Roles
  imports Model
begin

text \<open>
  The first half of \<open>internal/review/cohorts.go\<close>: collecting graph facts for the changed paths
  (\<open>EnrichGraph\<close>), classifying paths into roles and deriving attention signals.  The graph is an
  argument: a record of the five query functions of \<open>GraphQueries\<close>, whose result types are those of
  \<open>internal/query\<close>.  A failed or cancelled query is a value, so one failure never removes a path.
\<close>

section \<open>Query results\<close>

record symbol_hit =
  sy_Name :: string
  sy_Kind :: string
  sy_Signature :: string
  sy_File :: string
  sy_Line :: int
  sy_EndLine :: int

record edge_view =
  ev_File :: string
  ev_Kind :: string
  ev_Line :: int
  ev_Raw :: string
  ev_Resolved :: bool

record cluster =
  cl_Label :: string
  cl_Lang :: string
  cl_Files :: "string list"

record relations =
  rl_File :: string
  rl_Exists :: bool
  rl_Symbols :: "symbol_hit list"
  rl_Includes :: "edge_view list"
  rl_IncludedBy :: "edge_view list"

record blast_summary =
  bl_File :: string
  bl_Total :: int
  bl_Direct :: int

record entrypoint_set =
  en_File :: string
  en_Count :: int
  en_Entrypoints :: "string list"

record tests_result =
  te_File :: string
  te_Tests :: "string list"

record graph_queries =
  Clusters :: "cluster list result"
  FileRelations :: "string \<Rightarrow> relations result"
  BlastSummarize :: "string \<Rightarrow> blast_summary result"
  EntrypointsFor :: "string \<Rightarrow> entrypoint_set result"
  TestsFor :: "string \<Rightarrow> tests_result result"

record file_facts =
  ff_Path :: string
  ff_Roles :: "string list"
  ff_Relations :: relations
  ff_Blast :: blast_summary
  ff_Entrypoints :: entrypoint_set
  ff_Tests :: tests_result
  ff_Signals :: "attention_signal list"

record graph_omission =
  go_Query :: string
  go_Path :: string
  go_ErrorClass :: string
  go_Err :: gerror

record graph_enrichment =
  ge_Clusters :: "cluster list"
  ge_Facts :: "string \<rightharpoonup> file_facts"
  ge_Omissions :: "graph_omission list"

section \<open>Roles\<close>

definition RoleContract :: string where "RoleContract = ''contract/type/schema/migration''"
definition RoleImplementation :: string where "RoleImplementation = ''implementation''"
definition RoleConsumer :: string where "RoleConsumer = ''consumer/integration/entrypoint''"
definition RoleTest :: string where "RoleTest = ''test''"
definition RoleOperations :: string where "RoleOperations = ''configuration/build/deployment''"
definition RoleDocumentation :: string where "RoleDocumentation = ''documentation''"
definition RoleMechanical :: string where "RoleMechanical = ''generated/vendor/dependency/lock''"
definition RoleUnknown :: string where "RoleUnknown = ''unknown/unindexed''"

lemmas role_defs = RoleContract_def RoleImplementation_def RoleConsumer_def RoleTest_def
  RoleOperations_def RoleDocumentation_def RoleMechanical_def RoleUnknown_def

definition role_order :: "string list" where
  "role_order = [RoleContract, RoleImplementation, RoleConsumer, RoleTest, RoleOperations,
     RoleDocumentation, RoleMechanical, RoleUnknown]"

definition compactStrings :: "string list \<Rightarrow> string list" where
  "compactStrings xs = remdups_adj xs"

definition sortedUniqueStrings :: "string list \<Rightarrow> string list" where
  "sortedUniqueStrings xs = compactStrings (sort xs)"

definition containsString :: "string list \<Rightarrow> string \<Rightarrow> bool" where
  "containsString xs want \<longleftrightarrow> want \<in> set xs"

lemma distinct_remdups_adj_sorted: "sorted xs \<Longrightarrow> distinct (remdups_adj xs)"
  by (induction xs rule: remdups_adj.induct) auto

lemma sortedUniqueStrings_props [simp, canon_simps]:
  "set (sortedUniqueStrings xs) = set xs" "sorted (sortedUniqueStrings xs)" "distinct (sortedUniqueStrings xs)"
  by (simp_all add: sortedUniqueStrings_def compactStrings_def distinct_remdups_adj_sorted sorted_remdups_adj)

lemma sortedUniqueStrings_eq: "sortedUniqueStrings xs = sorted_list_of_set (set xs)"
  by (rule sorted_distinct_set_unique) simp_all

lemma sortedUniqueStrings_id: "sorted xs \<Longrightarrow> distinct xs \<Longrightarrow> sortedUniqueStrings xs = xs"
  by (simp add: sortedUniqueStrings_eq sorted_list_of_set.idem_if_sorted_distinct)

definition isTestFile :: "string \<Rightarrow> bool" where
  "isTestFile p = (let p = ToLower p; base = path_Base p in
     list_ex (contains base) [''_test.'', ''.test.'', ''_spec.'', ''.spec.''] \<or>
     has_prefix base ''test_'' \<or>
     list_ex (\<lambda>segment. segment \<in> set [''test'', ''tests'', ''__tests__'', ''spec'', ''specs'', ''testdata'', ''integration_test''])
       (split_on slash p))"

definition isDocumentationPath :: "string \<Rightarrow> bool" where
  "isDocumentationPath p = (let p = ToLower p in
     path_Ext p \<in> set [''.adoc'', ''.md'', ''.markdown'', ''.mdx'', ''.rst'', ''.txt''] \<or>
     list_ex (\<lambda>segment. segment = ''doc'' \<or> segment = ''docs'') (split_on slash p))"

definition isMechanicalPath :: "string \<Rightarrow> bool" where
  "isMechanicalPath p = (let base = path_Base p in
     contains p ''/vendor/'' \<or> has_prefix p ''vendor/'' \<or>
     contains p ''/generated/'' \<or> has_prefix p ''generated/'' \<or>
     contains p ''/gen/'' \<or> has_prefix p ''gen/'' \<or>
     contains p ''/snapshots/'' \<or> has_prefix p ''snapshots/'' \<or>
     has_suffix base ''.lock'' \<or> base = ''go.sum'' \<or> base = ''package-lock.json'' \<or>
     base = ''pnpm-lock.yaml'' \<or> base = ''yarn.lock'')"

definition isOperationsPath :: "string \<Rightarrow> bool" where
  "isOperationsPath p = (let base = path_Base p; ext = path_Ext p in
     contains p ''/migrations/'' \<or> has_prefix p ''migrations/'' \<or> contains p ''/deploy/'' \<or> contains p ''/.github/'' \<or>
     has_prefix base ''Dockerfile'' \<or> base = ''Makefile'' \<or> base = ''go.mod'' \<or> base = ''package.json'' \<or>
     ext \<in> set [''.yaml'', ''.yml'', ''.toml'', ''.ini'', ''.conf''])"

definition contract_kind :: "string \<Rightarrow> bool" where
  "contract_kind k = list_ex (contains (ToLower k)) [''type'', ''interface'', ''schema'', ''migration'', ''field'', ''option'']"

definition implementation_kind :: "string \<Rightarrow> bool" where
  "implementation_kind k = list_ex (contains (ToLower k)) [''func'', ''method'', ''class'', ''component'']"

definition orderedRoles :: "string set \<Rightarrow> string list" where
  "orderedRoles roles = filter (\<lambda>r. r \<in> roles) role_order"

definition onlyIf :: "bool \<Rightarrow> 'a \<Rightarrow> 'a list" where
  "onlyIf b x = (if b then [x] else [])"

text \<open>The role set is collected in a list; only its membership matters to \<open>orderedRoles\<close>.\<close>

definition path_roles :: "file_facts \<Rightarrow> string list" where
  "path_roles f = (let p = ToLower (ff_Path f) in
     onlyIf (isTestFile p) RoleTest @
     onlyIf (isDocumentationPath p) RoleDocumentation @
     onlyIf (isMechanicalPath p) RoleMechanical @
     onlyIf (isOperationsPath p) RoleOperations @
     onlyIf (\<exists>s\<in>set (rl_Symbols (ff_Relations f)). contract_kind (sy_Kind s)) RoleContract @
     onlyIf (\<exists>s\<in>set (rl_Symbols (ff_Relations f)). implementation_kind (sy_Kind s)) RoleImplementation @
     onlyIf (en_Count (ff_Entrypoints f) = 1 \<and> en_Entrypoints (ff_Entrypoints f) = [ff_Path f]) RoleConsumer)"

definition deriveFileRoles :: "file_facts \<Rightarrow> string list" where
  "deriveFileRoles f = (let roles = path_roles f;
       roles = roles @ onlyIf (rl_Exists (ff_Relations f) \<and> roles = []) RoleImplementation;
       roles = roles @ onlyIf (\<not> rl_Exists (ff_Relations f)) RoleUnknown
     in orderedRoles (set roles))"

definition roleRank :: "string list \<Rightarrow> nat" where
  "roleRank roles = (case List.find (\<lambda>(i, r). containsString roles r) (enumerate 0 role_order) of
       None \<Rightarrow> 99 | Some (i, _) \<Rightarrow> i)"

section \<open>Attention signals\<close>

definition subsystemOf :: "string \<Rightarrow> string" where
  "subsystemOf p = (case split_on slash p of
       a # b # _ \<Rightarrow> a @ [slash] @ b
     | [_] \<Rightarrow> ''.''
     | [] \<Rightarrow> [])"

definition signal_fields :: "string \<Rightarrow> string \<Rightarrow> string \<Rightarrow> field list" where
  "signal_fields kind p fct =
     [(''schema'', ''review.signal.v1''), (''kind'', kind), (''path'', p), (''fact'', fct)]"

definition newAttentionSignal :: "(bytes \<Rightarrow> digest) \<Rightarrow> string \<Rightarrow> string \<Rightarrow> string \<Rightarrow> attention_signal" where
  "newAttentionSignal H kind p fct =
     \<lparr>as_ID = Public (public_id ''sig_'' (H (frame (signal_fields kind p fct))) PublicIDContentBytesV1),
      as_Kind = kind, as_Fact = fct\<rparr>"

definition crossSubsystemFacts :: "file_facts \<Rightarrow> string list" where
  "crossSubsystemFacts f =
     [''indexed relation crosses '' @ subsystemOf (ff_Path f) @ '' -> '' @ subsystemOf (ev_File e).
        e \<leftarrow> rl_Includes (ff_Relations f) @ rl_IncludedBy (ff_Relations f),
        ev_Resolved e \<and> subsystemOf (ev_File e) \<noteq> subsystemOf (ff_Path f)]"

definition deriveGraphSignals :: "(bytes \<Rightarrow> digest) \<Rightarrow> file_facts \<Rightarrow> attention_signal list" where
  "deriveGraphSignals H f = (let
       add = (\<lambda>kind fct. newAttentionSignal H kind (ff_Path f) fct);
       total = bl_Total (ff_Blast f); direct = bl_Direct (ff_Blast f);
       count = en_Count (ff_Entrypoints f);
       cross = crossSubsystemFacts f
     in sort_key as_ID (
       onlyIf (total \<ge> 20 \<or> direct \<ge> 10)
         (add ''high_fan_in'' (''indexed blast radius has '' @ itoa total @ '' dependents ('' @ itoa direct @ '' direct)'')) @
       onlyIf (count > 0)
         (add ''entrypoint_reachability'' (''indexed graph reaches '' @ itoa count @ '' entrypoints'')) @
       onlyIf (te_Tests (ff_Tests f) = [] \<and> \<not> containsString (ff_Roles f) RoleTest)
         (add ''no_mapped_test'' ''indexed test query returned no mapped test'') @
       onlyIf (containsString (ff_Roles f) RoleOperations)
         (add ''operational_change''
            ''recognized schema, migration, manifest, lock, build, configuration, or deployment path'') @
       onlyIf (containsString (ff_Roles f) RoleUnknown)
         (add ''unsupported_unindexed'' ''file is absent from indexed relations'') @
       (case sort cross of [] \<Rightarrow> [] | c # _ \<Rightarrow> [add ''cross_subsystem_dependency'' c])))"

section \<open>Collecting the facts\<close>

definition context_Canceled :: gerror where "context_Canceled = err ''context canceled''"
definition context_DeadlineExceeded :: gerror where "context_DeadlineExceeded = err ''context deadline exceeded''"
definition fs_ErrNotExist :: gerror where "fs_ErrNotExist = err ''file does not exist''"
definition fs_ErrPermission :: gerror where "fs_ErrPermission = err ''permission denied''"
definition unavailable :: gerror where "unavailable = err ''unavailable''"

definition classifyGraphError :: "gerror \<Rightarrow> string" where
  "classifyGraphError e =
     (if errors_is e context_Canceled then ''canceled''
      else if errors_is e context_DeadlineExceeded then ''deadline_exceeded''
      else if errors_is e fs_ErrNotExist then ''not_found''
      else if errors_is e fs_ErrPermission then ''permission_denied''
      else if e = unavailable then ''unavailable''
      else ''query_failed'')"

definition graphOmission :: "string \<Rightarrow> string \<Rightarrow> gerror \<Rightarrow> graph_omission" where
  "graphOmission name p e = \<lparr>go_Query = name, go_Path = p, go_ErrorClass = classifyGraphError e, go_Err = e\<rparr>"

definition canonicalClusters :: "cluster list \<Rightarrow> cluster list" where
  "canonicalClusters cs =
     sort_key (\<lambda>c. (cl_Label c, cl_Lang c)) (map (\<lambda>c. c\<lparr>cl_Files := sortedUniqueStrings (cl_Files c)\<rparr>) cs)"

text \<open>
  One query: the context is asked first (\<open>poll\<close> is what \<open>ctx.Err()\<close> returns at that moment), then the
  graph.  The result is the value, or the zero value and an omission.
\<close>

definition ask :: "string \<Rightarrow> string \<Rightarrow> gerror option \<Rightarrow> 'a result \<Rightarrow> 'a \<Rightarrow> 'a \<times> graph_omission list" where
  "ask name p poll answer zero = (case poll of
       Some e \<Rightarrow> (zero, [graphOmission name p e])
     | None \<Rightarrow> (case answer of Inl e \<Rightarrow> (zero, [graphOmission name p e]) | Inr v \<Rightarrow> (v, [])))"

definition zero_relations :: "string \<Rightarrow> relations" where
  "zero_relations p = \<lparr>rl_File = p, rl_Exists = False, rl_Symbols = [], rl_Includes = [], rl_IncludedBy = []\<rparr>"
definition zero_blast :: "string \<Rightarrow> blast_summary" where
  "zero_blast p = \<lparr>bl_File = p, bl_Total = 0, bl_Direct = 0\<rparr>"
definition zero_entrypoints :: "string \<Rightarrow> entrypoint_set" where
  "zero_entrypoints p = \<lparr>en_File = p, en_Count = 0, en_Entrypoints = []\<rparr>"
definition zero_tests :: "string \<Rightarrow> tests_result" where
  "zero_tests p = \<lparr>te_File = p, te_Tests = []\<rparr>"

definition zero_facts :: file_facts where
  "zero_facts = \<lparr>ff_Path = [], ff_Roles = [], ff_Relations = zero_relations [], ff_Blast = zero_blast [],
     ff_Entrypoints = zero_entrypoints [], ff_Tests = zero_tests [], ff_Signals = []\<rparr>"

text \<open>\<open>poll\<close> gives the answers of the four context checks of one path.\<close>

definition enrich_path ::
    "(bytes \<Rightarrow> digest) \<Rightarrow> (nat \<Rightarrow> gerror option) \<Rightarrow> graph_queries option \<Rightarrow> string \<Rightarrow> file_facts \<times> graph_omission list" where
  "enrich_path H poll graph p = (let
       ((rel, o1), (blast, o2), (entry, o3), (tests, o4)) = (case graph of
          None \<Rightarrow> ((zero_relations p, [graphOmission ''FileRelations'' p unavailable]),
                   (zero_blast p, [graphOmission ''BlastSummarize'' p unavailable]),
                   (zero_entrypoints p, [graphOmission ''EntrypointsFor'' p unavailable]),
                   (zero_tests p, [graphOmission ''TestsFor'' p unavailable]))
        | Some g \<Rightarrow> (ask ''FileRelations'' p (poll 0) (FileRelations g p) (zero_relations p),
                   ask ''BlastSummarize'' p (poll 1) (BlastSummarize g p) (zero_blast p),
                   ask ''EntrypointsFor'' p (poll 2) (EntrypointsFor g p) (zero_entrypoints p),
                   ask ''TestsFor'' p (poll 3) (TestsFor g p) (zero_tests p)));
       facts = \<lparr>ff_Path = p, ff_Roles = [], ff_Relations = rel, ff_Blast = blast, ff_Entrypoints = entry,
                ff_Tests = tests, ff_Signals = []\<rparr>;
       facts = facts\<lparr>ff_Roles := deriveFileRoles facts\<rparr>
     in (facts\<lparr>ff_Signals := deriveGraphSignals H facts\<rparr>, o1 @ o2 @ o3 @ o4))"

definition enrich_clusters :: "gerror option \<Rightarrow> graph_queries option \<Rightarrow> cluster list \<times> graph_omission list" where
  "enrich_clusters poll graph = (case graph of
       None \<Rightarrow> ([], [graphOmission ''Clusters'' [] unavailable])
     | Some g \<Rightarrow> (case ask ''Clusters'' [] poll (Clusters g) [] of (cs, om) \<Rightarrow> (canonicalClusters cs, om)))"

text \<open>
  \<open>EnrichGraph\<close>; \<open>poll n\<close> is the answer of the n-th context check: one for the clusters, four per path.
\<close>

definition EnrichGraph ::
    "(bytes \<Rightarrow> digest) \<Rightarrow> (nat \<Rightarrow> gerror option) \<Rightarrow> string list \<Rightarrow> graph_queries option \<Rightarrow> graph_enrichment" where
  "EnrichGraph H poll paths graph = (let
       paths = sortedUniqueStrings paths;
       (clusters, oc) = enrich_clusters (poll 0) graph;
       per = map (\<lambda>(i, p). enrich_path H (\<lambda>k. poll (1 + 4 * i + k)) graph p) (enumerate 0 paths)
     in \<lparr>ge_Clusters = clusters,
         ge_Facts = map_of (zip paths (map fst per)),
         ge_Omissions = sort_key (\<lambda>om. (go_Query om, go_Path om, go_ErrorClass om)) (oc @ concat (map snd per))\<rparr>)"

definition factsOf :: "graph_enrichment \<Rightarrow> string \<Rightarrow> file_facts" where
  "factsOf en p = (case ge_Facts en p of None \<Rightarrow> zero_facts | Some f \<Rightarrow> f)"

section \<open>Lower-cased paths have no upper-case letters\<close>

definition upper :: "char \<Rightarrow> bool" where
  "upper c \<longleftrightarrow> 65 \<le> (of_char c :: int) \<and> (of_char c :: int) \<le> 90"

lemma cont_high: "cont lo hi c \<Longrightarrow> 128 \<le> lo \<Longrightarrow> 128 \<le> (of_char c :: int)"
  by (simp add: cont_def)

lemma rune_size_high:
  assumes "rune_size s > 1" "c \<in> set (take (rune_size s) s)"
  shows "128 \<le> (of_char c :: int)"
proof (cases s rule: rune_size.cases)
  case (1 a b rest)
  consider "rune_size s = 2" "cont 0x80 0xBF b" | d r where "rest = d # r" "rune_size s = 3" "cont 0x80 0xBF b \<or> cont 0xA0 0xBF b \<or> cont 0x80 0x9F b" "cont 0x80 0xBF d"
    | d e r where "rest = d # e # r" "rune_size s = 4" "cont 0x80 0xBF b \<or> cont 0x90 0xBF b \<or> cont 0x80 0x8F b" "cont 0x80 0xBF d" "cont 0x80 0xBF e"
    using assms(1) 1 by (auto simp: Let_def split: if_splits list.splits)
  moreover have "128 \<le> (of_char a :: int)" using assms(1) 1 by (auto simp: Let_def split: if_splits)
  ultimately show ?thesis using assms(2) 1 by cases (auto dest: cont_high)
qed (use assms in auto)

lemma of_char_nat_int:
  "(of_char c :: nat) \<le> numeral k \<longleftrightarrow> (of_char c :: int) \<le> numeral k"
  "numeral k \<le> (of_char c :: nat) \<longleftrightarrow> numeral k \<le> (of_char c :: int)"
proof -
  obtain n where n: "(of_char c :: nat) = n" "(of_char c :: int) = int n" by (metis of_nat_of_char)
  show "(of_char c :: nat) \<le> numeral k \<longleftrightarrow> (of_char c :: int) \<le> numeral k"
    "numeral k \<le> (of_char c :: nat) \<longleftrightarrow> numeral k \<le> (of_char c :: int)"
    unfolding n by simp_all
qed

lemma ascii_lower_not_upper: "\<not> upper (ascii_lower c)"
proof (cases "65 \<le> (of_char c :: nat) \<and> (of_char c :: nat) \<le> 90")
  case True
  then have "ascii_lower c = char_of ((of_char c :: nat) + 32)" by (simp add: ascii_lower_def)
  with True show ?thesis by (simp add: upper_def int_of_char_of)
next
  case False
  then have "ascii_lower c = c" by (auto simp: ascii_lower_def Let_def)
  with False show ?thesis by (simp add: upper_def of_char_nat_int)
qed

lemma ToLower_not_upper: "c \<in> set (ToLower s) \<Longrightarrow> \<not> upper c"
proof (induction s rule: ToLower.induct)
  case (2 x xs)
  let ?n = "rune_size (x # xs)"
  have high: "\<not> upper d" if "d \<in> set (take ?n (x # xs))" "?n > 1" for d
    using rune_size_high [OF that(2,1)] by (simp add: upper_def)
  have rune: "\<not> upper d" if "d \<in> set (lower_rune (take ?n (x # xs)))" "?n > 1" for d
    using that high by (auto simp: lower_rune_def upper_def split: if_splits)
  from 2 show ?case
    using rune ascii_lower_not_upper
    by (auto simp: ToLower.simps(2) [of x xs] Let_def upper_def split: if_splits)
qed simp

lemma path_Base_chars: "c \<in> set (path_Base p) \<Longrightarrow> c \<in> set p \<or> c = CHR ''.'' \<or> c = slash"
proof -
  have last_sub: "set (last (split_on slash q)) \<subseteq> set q" for q
    by (induction q) (auto split: list.splits if_splits)
  have "set (strip_slashes p) \<subseteq> set p" by (auto simp: strip_slashes_def dest: set_dropWhileD)
  then show "c \<in> set (path_Base p) \<Longrightarrow> c \<in> set p \<or> c = CHR ''.'' \<or> c = slash"
    using last_sub [of "strip_slashes p"] by (auto simp: path_Base_def Let_def split: if_splits)
qed

lemma base_of_lower: "c \<in> set (path_Base (ToLower p)) \<Longrightarrow> \<not> upper c"
  using path_Base_chars [of c "ToLower p"] ToLower_not_upper [of c p] by (auto simp: upper_def slash_def)

lemma lower_base_not_build_file:
  "\<not> has_prefix (path_Base (ToLower p)) ''Dockerfile''" "path_Base (ToLower p) \<noteq> ''Makefile''"
proof -
  have D: "upper (CHR ''D'')" and M: "upper (CHR ''M'')" by (simp_all add: upper_def)
  show "\<not> has_prefix (path_Base (ToLower p)) ''Dockerfile''"
  proof
    assume "has_prefix (path_Base (ToLower p)) ''Dockerfile''"
    then have "CHR ''D'' \<in> set (path_Base (ToLower p))" by (auto simp: has_prefix_iff)
    with D base_of_lower show False by blast
  qed
  show "path_Base (ToLower p) \<noteq> ''Makefile''"
  proof
    assume "path_Base (ToLower p) = ''Makefile''"
    then have "CHR ''M'' \<in> set (path_Base (ToLower p))" by simp
    with M base_of_lower show False by blast
  qed
qed

section \<open>Facts about roles\<close>

lemma set_orderedRoles: "set (orderedRoles R) = R \<inter> set role_order"
  by (auto simp: orderedRoles_def)

lemma set_onlyIf [simp]: "set (onlyIf b x) = (if b then {x} else {})"
  by (cases b) (simp_all add: onlyIf_def)

lemma role_order_all:
  shows "set role_order = {RoleContract, RoleImplementation, RoleConsumer, RoleTest, RoleOperations,
      RoleDocumentation, RoleMechanical, RoleUnknown}"
    and "distinct role_order"
proof -
  show "set role_order = {RoleContract, RoleImplementation, RoleConsumer, RoleTest, RoleOperations,
      RoleDocumentation, RoleMechanical, RoleUnknown}" unfolding role_order_def by (simp only: list.set)
  show "distinct role_order" unfolding role_order_def role_defs by simp
qed

lemma path_roles_order: "set (path_roles f) \<subseteq> set role_order"
  by (auto simp: path_roles_def Let_def role_order_all)

lemma set_deriveFileRoles:
  "set (deriveFileRoles f) = set (path_roles f) \<union>
     (if \<not> rl_Exists (ff_Relations f) then {RoleUnknown} else if path_roles f = [] then {RoleImplementation} else {})"
  using path_roles_order [of f] by (auto simp: deriveFileRoles_def Let_def set_orderedRoles role_order_all(1))

lemma deriveFileRoles_ne: "deriveFileRoles f \<noteq> []"
proof -
  have "set (deriveFileRoles f) \<noteq> {}" unfolding set_deriveFileRoles by auto
  then show ?thesis by force
qed

lemma deriveFileRoles_subseq: "deriveFileRoles f = filter (\<lambda>r. r \<in> set (deriveFileRoles f)) role_order"
proof -
  obtain R where R: "deriveFileRoles f = orderedRoles R" by (simp add: deriveFileRoles_def Let_def)
  have "filter (\<lambda>r. r \<in> R) role_order = filter (\<lambda>r. r \<in> set role_order \<and> r \<in> R) role_order"
    by (intro filter_cong) auto
  then show ?thesis by (simp add: R orderedRoles_def)
qed

lemma factsOf_Enrich:
  assumes "p \<in> set paths"
  shows "\<exists>i. sortedUniqueStrings paths ! i = p \<and> i < length (sortedUniqueStrings paths) \<and>
    factsOf (EnrichGraph H poll paths graph) p = fst (enrich_path H (\<lambda>k. poll (1 + 4 * i + k)) graph p)"
proof -
  let ?ps = "sortedUniqueStrings paths"
  let ?f = "\<lambda>(i, p). enrich_path H (\<lambda>k. poll (1 + 4 * i + k)) graph p"
  obtain i where i: "i < length ?ps" "?ps ! i = p" using assms by (metis in_set_conv_nth sortedUniqueStrings_props(1))
  have "map_of (zip ?ps (map fst (map ?f (enumerate 0 ?ps)))) (?ps ! i) = Some (map fst (map ?f (enumerate 0 ?ps)) ! i)"
    using i by (intro map_of_zip_nth) simp_all
  with i have "ge_Facts (EnrichGraph H poll paths graph) p = Some (fst (enrich_path H (\<lambda>k. poll (1 + 4 * i + k)) graph p))"
    by (simp add: EnrichGraph_def Let_def nth_enumerate_eq split: prod.splits)
  with i show ?thesis by (auto simp: factsOf_def)
qed

lemma dom_Enrich: "dom (ge_Facts (EnrichGraph H poll paths graph)) = set paths"
  by (simp add: EnrichGraph_def Let_def dom_map_of_zip split: prod.splits)

section \<open>Properties\<close>

text \<open>
  graph collection never loses a path and isolates failures: every changed path has facts with
  at least one role, and each of its four results is the query's answer whenever that query was
  neither cancelled nor failed, whatever happened to every other query.
\<close>

theorem EnrichGraph_isolates:
  assumes "p \<in> set paths"
  shows "dom (ge_Facts (EnrichGraph H poll paths (Some g))) = set paths \<and>
    (\<exists>i. sortedUniqueStrings paths ! i = p \<and>
      (let f = factsOf (EnrichGraph H poll paths (Some g)) p; at = (\<lambda>k. poll (1 + 4 * i + k)) in
        ff_Path f = p \<and> ff_Roles f \<noteq> [] \<and>
        ff_Relations f = (case (at 0, FileRelations g p) of (None, Inr v) \<Rightarrow> v | _ \<Rightarrow> zero_relations p) \<and>
        ff_Blast f = (case (at 1, BlastSummarize g p) of (None, Inr v) \<Rightarrow> v | _ \<Rightarrow> zero_blast p) \<and>
        ff_Entrypoints f = (case (at 2, EntrypointsFor g p) of (None, Inr v) \<Rightarrow> v | _ \<Rightarrow> zero_entrypoints p) \<and>
        ff_Tests f = (case (at 3, TestsFor g p) of (None, Inr v) \<Rightarrow> v | _ \<Rightarrow> zero_tests p)))"
proof -
  obtain i where i: "sortedUniqueStrings paths ! i = p"
    "factsOf (EnrichGraph H poll paths (Some g)) p = fst (enrich_path H (\<lambda>k. poll (1 + 4 * i + k)) (Some g) p)"
    using factsOf_Enrich [OF assms] by blast
  show ?thesis unfolding dom_Enrich Let_def
    by (intro conjI exI [of _ i] refl i(1))
      (simp_all add: i(2) enrich_path_def Let_def deriveFileRoles_ne ask_def split: option.splits sum.splits)
qed

definition sample_graph :: graph_queries where
  "sample_graph = \<lparr>Clusters = Inr [], FileRelations = (\<lambda>p. Inr (zero_relations p)),
     BlastSummarize = (\<lambda>p. Inl (err ''boom'')), EntrypointsFor = (\<lambda>p. Inr (zero_entrypoints p)),
     TestsFor = (\<lambda>p. Inr \<lparr>te_File = p, te_Tests = [''x_test.go'']\<rparr>)\<rparr>"

lemma EnrichGraph_isolates_witness:
  "ff_Tests (factsOf (EnrichGraph length_hash (\<lambda>_. None) [''x.go''] (Some sample_graph)) ''x.go'') =
     \<lparr>te_File = ''x.go'', te_Tests = [''x_test.go'']\<rparr>"
  using EnrichGraph_isolates [of "''x.go''" "[''x.go'']" length_hash "\<lambda>_. None" sample_graph]
  by (simp add: sample_graph_def Let_def)

text \<open>
  The roles of a file are a non-empty selection of the eight roles in their fixed order, each at
  most once; a file the index does not know has the unknown role, and only such a file.
\<close>

theorem deriveFileRoles_ordered:
  "deriveFileRoles f \<noteq> [] \<and> distinct (deriveFileRoles f) \<and>
   deriveFileRoles f = filter (\<lambda>r. r \<in> set (deriveFileRoles f)) role_order \<and>
   (RoleUnknown \<in> set (deriveFileRoles f) \<longleftrightarrow> \<not> rl_Exists (ff_Relations f))"
proof (intro conjI)
  show "distinct (deriveFileRoles f)"
    using role_order_all(2) by (subst deriveFileRoles_subseq) simp
  have "RoleUnknown \<notin> set (path_roles f)" "RoleUnknown \<noteq> RoleImplementation"
    by (auto simp: path_roles_def Let_def role_defs split: if_splits)
  then show "RoleUnknown \<in> set (deriveFileRoles f) \<longleftrightarrow> \<not> rl_Exists (ff_Relations f)"
    by (auto simp: set_deriveFileRoles)
qed (rule deriveFileRoles_ne deriveFileRoles_subseq)+

text \<open>
  C34: the tests for a Dockerfile and a Makefile never succeed: the path is lower-cased before it is
  compared with the capitalised names, so such a file has the operations role only if its directory
  or extension gives it, and a top-level Dockerfile or Makefile never has it.
\<close>

theorem build_files_not_operations:
  "isOperationsPath (ToLower p) =
     (contains (ToLower p) ''/migrations/'' \<or> has_prefix (ToLower p) ''migrations/'' \<or> contains (ToLower p) ''/deploy/'' \<or>
      contains (ToLower p) ''/.github/'' \<or> path_Base (ToLower p) \<in> {''go.mod'', ''package.json''} \<or>
      path_Ext (ToLower p) \<in> {''.yaml'', ''.yml'', ''.toml'', ''.ini'', ''.conf''}) \<and>
   RoleOperations \<notin> set (deriveFileRoles (zero_facts\<lparr>ff_Path := ''Dockerfile''\<rparr>)) \<and>
   RoleOperations \<notin> set (deriveFileRoles (zero_facts\<lparr>ff_Path := ''Makefile''\<rparr>))"
proof (intro conjI)
  show "isOperationsPath (ToLower p) =
     (contains (ToLower p) ''/migrations/'' \<or> has_prefix (ToLower p) ''migrations/'' \<or> contains (ToLower p) ''/deploy/'' \<or>
      contains (ToLower p) ''/.github/'' \<or> path_Base (ToLower p) \<in> {''go.mod'', ''package.json''} \<or>
      path_Ext (ToLower p) \<in> {''.yaml'', ''.yml'', ''.toml'', ''.ini'', ''.conf''})"
    using lower_base_not_build_file [of p] unfolding isOperationsPath_def Let_def by auto
  have "\<not> isOperationsPath (ToLower ''Dockerfile'')" "\<not> isOperationsPath (ToLower ''Makefile'')" by code_simp+
  moreover have "RoleOperations \<notin> {RoleTest, RoleDocumentation, RoleMechanical, RoleContract, RoleImplementation, RoleConsumer, RoleUnknown}"
    by (simp add: role_defs)
  ultimately show
    "RoleOperations \<notin> set (deriveFileRoles (zero_facts\<lparr>ff_Path := ''Dockerfile''\<rparr>))"
    "RoleOperations \<notin> set (deriveFileRoles (zero_facts\<lparr>ff_Path := ''Makefile''\<rparr>))"
    unfolding set_deriveFileRoles by (auto simp: path_roles_def Let_def split: if_splits)
qed

end
