(* ===== verification/Detect.thy ===== *)
theory Detect
  imports GoText
begin

text \<open>
  \<open>internal/parse/detect.go\<close>: the language identifier of a file from its path and, for files
  without a known extension, from its shebang line.
\<close>

definition shebangLang :: "bytes \<Rightarrow> string" where
  "shebangLang head =
     (if \<not> has_prefix head ''#!'' then []
      else let s = takeWhile (\<lambda>c. c \<noteq> newline) head in
        if contains s ''bash'' \<or> contains s ''/sh'' \<or> contains s ''zsh'' then ''bash''
        else if contains s ''python'' then ''python''
        else if contains s ''lua'' then ''lua''
        else if contains s ''fish'' then ''fish''
        else [])"

text \<open>The cases of the extension switch, in its order.\<close>

definition ext_cases :: "(string list \<times> string) list" where
  "ext_cases = [
     ([''.lua''], ''lua''),
     ([''.py''], ''python''),
     ([''.js'', ''.mjs'', ''.cjs'', ''.jsx''], ''javascript''),
     ([''.ts'', ''.mts'', ''.cts''], ''typescript''),
     ([''.tsx''], ''tsx''),
     ([''.md'', ''.mdx'', ''.markdown''], ''markdown''),
     ([''.sh'', ''.bash'', ''.zsh''], ''bash''),
     ([''.css''], ''css''),
     ([''.scss''], ''scss''),
     ([''.json'', ''.jsonc''], ''json''),
     ([''.yaml'', ''.yml''], ''yaml''),
     ([''.toml''], ''toml''),
     ([''.ini''], ''ini''),
     ([''.qml''], ''qml''),
     ([''.cpp'', ''.cc'', ''.cxx'', ''.c++'', ''.hpp'', ''.hh'', ''.hxx'', ''.c'', ''.h''], ''cpp''),
     ([''.fish''], ''fish''),
     ([''.go''], ''go''),
     ([''.rs''], ''rust''),
     ([''.java''], ''java''),
     ([''.rb''], ''ruby''),
     ([''.cs''], ''csharp''),
     ([''.php'', ''.phtml''], ''php''),
     ([''.kt'', ''.kts''], ''kotlin''),
     ([''.dart''], ''dart''),
     ([''.ex'', ''.exs''], ''elixir''),
     ([''.swift''], ''swift''),
     ([''.plist'', ''.entitlements''], ''plist''),
     ([''.pbxproj''], ''pbxproj''),
     ([''.xcconfig''], ''xcconfig''),
     ([''.conf''], ''generic'')]"

definition lang_of_ext :: "string \<Rightarrow> string option" where
  "lang_of_ext ext = map_option snd (List.find (\<lambda>(es, _). ext \<in> set es) ext_cases)"

definition Detect :: "string \<Rightarrow> bytes \<Rightarrow> string" where
  "Detect relPath head =
     (let base = path_Base relPath;
          ext = ToLower (path_Ext base);
          lower = ToLower relPath
      in if contains lower ''hypr/'' \<and> (ext = ''.conf'' \<or> base = ''hyprland.conf'') then ''hyprlang''
         else if ext = ''.rasi'' then ''rasi''
         else case lang_of_ext ext of
           Some lang \<Rightarrow> lang
         | None \<Rightarrow>
             (let sb = shebangLang head in
              if sb \<noteq> [] then sb
              else if base = ''config'' \<and> (contains lower ''sway/'' \<or> contains lower ''i3/'')
              then ''generic'' else []))"

lemma shebangLang_Nil [simp]: "shebangLang [] = []"
  by (simp add: shebangLang_def has_prefix_def)

text \<open>The content of a file never changes the language of a path with a known extension.\<close>

lemma Detect_known_ext:
  assumes "lang_of_ext (ToLower (path_Ext (path_Base p))) = Some l"
  shows "Detect p head = Detect p []"
  unfolding Detect_def Let_def assms option.case by (rule refl)

end
