(* ===== verification/Diff.thy ===== *)
theory Diff
  imports Model Detect
begin

text \<open>
  \<open>internal/review/diff.go\<close> and the parsers of Git output in \<open>internal/review/git.go\<close>: text
  classification, the strict unified-patch parser that produces canonical hunks, the counting
  parser \<open>ParseUnifiedDiff\<close>, and \<open>ParseCatFileBatch\<close>.  A parser is a loop over lines whose body
  may return an error: \<open>foldE\<close> over a step function on the parser's local variables.
\<close>

section \<open>Text classification\<close>

definition thresholdTextPrefixV1 :: nat where [simp]: "thresholdTextPrefixV1 = 8000"
definition TextClassText :: string where [simp]: "TextClassText = ''text''"
definition TextClassBinary :: string where [simp]: "TextClassBinary = ''binary''"

record blob_side =
  bs_Present :: bool
  bs_Bytes :: bytes

definition recognizedTextSide :: "string \<Rightarrow> blob_side \<Rightarrow> bool" where
  "recognizedTextSide p side =
     (if \<not> bs_Present side then False
      else if Detect p [] \<noteq> [] then True
      else CHR 0x00 \<notin> set (take thresholdTextPrefixV1 (bs_Bytes side)))"

definition ThresholdText :: "string \<Rightarrow> string \<Rightarrow> blob_side \<Rightarrow> blob_side \<Rightarrow> string" where
  "ThresholdText oldPath newPath old new =
     (if recognizedTextSide oldPath old \<or> recognizedTextSide newPath new
      then TextClassText else TextClassBinary)"

text \<open>A path is binary exactly when every present side is unrecognised and has a NUL in its prefix.\<close>

lemma ThresholdText_binary:
  "ThresholdText p q old new = TextClassBinary \<longleftrightarrow>
     (bs_Present old \<longrightarrow> Detect p [] = [] \<and> CHR 0x00 \<in> set (take 8000 (bs_Bytes old))) \<and>
     (bs_Present new \<longrightarrow> Detect q [] = [] \<and> CHR 0x00 \<in> set (take 8000 (bs_Bytes new)))"
  by (auto simp: ThresholdText_def recognizedTextSide_def)

section \<open>Hunk headers\<close>

definition ErrMalformedPatch :: gerror where
  "ErrMalformedPatch = err ''review: malformed unified patch''"

definition ErrMalformedUnifiedDiff :: gerror where
  "ErrMalformedUnifiedDiff = err ''review: malformed unified diff''"

text \<open>The optional group \<open>(?:,(\d+))?\<close>: the digits, empty when the group does not match, and the rest.\<close>

definition opt_count :: "string \<Rightarrow> string \<times> string" where
  "opt_count r =
     (if has_prefix r '','' \<and> takeWhile is_digit (tl r) \<noteq> []
      then (takeWhile is_digit (tl r), dropWhile is_digit (tl r)) else ([], r))"

text \<open>The four submatches of \<open>hunkHeaderRE\<close>.\<close>

definition hunkHeaderRE :: "string \<Rightarrow> (string \<times> string \<times> string \<times> string) option" where
  "hunkHeaderRE line =
     (if \<not> has_prefix line ''@@ -'' then None
      else let r = drop 4 line; a = takeWhile is_digit r; (b, r) = opt_count (dropWhile is_digit r)
      in if a = [] \<or> \<not> has_prefix r '' +'' then None
         else let r = drop 2 r; c = takeWhile is_digit r; (d, r) = opt_count (dropWhile is_digit r)
         in if c = [] \<or> \<not> has_prefix r '' @@'' then None else Some (a, b, c, d))"

definition parseHunkNum :: "string \<Rightarrow> int \<Rightarrow> int result" where
  "parseHunkNum s def =
     (if s = [] then Inr def
      else bindE (Atoi s) (\<lambda>n. if n < 0 then Inl (Err ''negative count %d'' [AInt n]) else Inr n))"

text \<open>The header checks both parsers share; \<open>M\<close> is the parser's sentinel error.\<close>

definition header_numbers :: "string \<times> string \<times> string \<times> string \<Rightarrow> (int \<times> int \<times> int \<times> int) result" where
  "header_numbers = (\<lambda>(m1, m2, m3, m4).
     bindE (parseHunkNum m1 0) (\<lambda>oldStart.
     bindE (parseHunkNum m2 1) (\<lambda>oldLines.
     bindE (parseHunkNum m3 0) (\<lambda>newStart.
     bindE (parseHunkNum m4 1) (\<lambda>newLines.
     Inr (oldStart, oldLines, newStart, newLines))))))"

definition header_ranges :: "gerror \<Rightarrow> string \<Rightarrow> (int \<times> int \<times> int \<times> int) result" where
  "header_ranges M line = (case hunkHeaderRE line of
       None \<Rightarrow> Inl (Err ''%w: bad hunk header %q'' [AWrap M, AStr line])
     | Some m \<Rightarrow>
         bindE (wrapE (\<lambda>e. Err ''%w: hunk header %q: %v'' [AWrap M, AStr line, AErr e]) (header_numbers m))
           (\<lambda>(oldStart, oldLines, newStart, newLines).
             if (oldLines > 0 \<and> oldStart < 1) \<or> (newLines > 0 \<and> newStart < 1)
             then Inl (Err ''%w: hunk header %q has a nonzero count starting at line 0'' [AWrap M, AStr line])
             else Inr (oldStart, oldLines, newStart, newLines)))"

definition preamble_prefixes :: "string list" where
  "preamble_prefixes =
     [''diff '', ''index '', ''--- '', ''+++ '', ''old mode '', ''new mode '', ''new file mode '',
      ''deleted file mode '', ''similarity index '', ''dissimilarity index '', ''rename '', ''copy '',
      ''Binary files '', ''GIT binary patch'']"

definition isDiffPreambleLine :: "string \<Rightarrow> bool" where
  "isDiffPreambleLine line \<longleftrightarrow> line = [] \<or> list_ex (has_prefix line) preamble_prefixes"

section \<open>The strict patch parser\<close>

text \<open>The local variables of \<open>ParseUnifiedPatch\<close>; \<open>lastPrefix\<close> is the zero byte after a header or marker.\<close>

record patch_state =
  st_hunks :: "raw_hunk list"
  st_cur :: "raw_hunk option"
  st_payload :: bytes
  st_old :: int
  st_new :: int
  st_last :: char

definition patch_init :: patch_state where
  "patch_init = \<lparr>st_hunks = [], st_cur = None, st_payload = [], st_old = 0, st_new = 0, st_last = CHR 0x00\<rparr>"

definition unaccounted :: "string \<Rightarrow> gerror \<Rightarrow> int \<Rightarrow> int \<Rightarrow> gerror" where
  "unaccounted fmt M old new = Err fmt [AWrap M, AInt old, AInt new]"

definition patch_flush :: "patch_state \<Rightarrow> patch_state result" where
  "patch_flush st = (case st_cur st of
       None \<Rightarrow> Inr st
     | Some h \<Rightarrow>
         if st_old st \<noteq> 0 \<or> st_new st \<noteq> 0
         then Inl (unaccounted ''%w: hunk ended with %d old / %d new lines unaccounted''
                ErrMalformedPatch (st_old st) (st_new st))
         else Inr (st\<lparr>st_hunks := st_hunks st @ [h\<lparr>rh_Payload := st_payload st\<rparr>]\<rparr>))"

definition patch_header :: "string \<Rightarrow> patch_state \<Rightarrow> patch_state result" where
  "patch_header line st =
     bindE (header_ranges ErrMalformedPatch line) (\<lambda>(oldStart, oldLines, newStart, newLines).
       Inr (st\<lparr>st_cur := Some \<lparr>rh_Ordinal = of_nat (length (st_hunks st)),
                  rh_OldStart = word_of_int oldStart, rh_OldLines = word_of_int oldLines,
                  rh_NewStart = word_of_int newStart, rh_NewLines = word_of_int newLines,
                  rh_NoFinalNewlineOld = False, rh_NoFinalNewlineNew = False, rh_Payload = []\<rparr>,
               st_payload := [], st_old := oldLines, st_new := newLines, st_last := CHR 0x00\<rparr>))"

text \<open>The no-newline marker: its side is the one of the payload line before it.\<close>

definition patch_marker :: "raw_hunk \<Rightarrow> patch_state \<Rightarrow> patch_state result" where
  "patch_marker h st = (let done = \<lambda>h. Inr (st\<lparr>st_cur := Some h, st_last := CHR 0x00\<rparr>) in
     if st_last st = CHR ''-'' then done (h\<lparr>rh_NoFinalNewlineOld := True\<rparr>)
     else if st_last st = CHR ''+'' then done (h\<lparr>rh_NoFinalNewlineNew := True\<rparr>)
     else if st_last st = CHR '' '' then done (h\<lparr>rh_NoFinalNewlineOld := True, rh_NoFinalNewlineNew := True\<rparr>)
     else Inl (Err ''%w: no-newline marker without a preceding payload line'' [AWrap ErrMalformedPatch]))"

text \<open>The counters after one payload line, with the texts of its errors; shared by both parsers.\<close>

definition payload_counts :: "gerror \<Rightarrow> string \<Rightarrow> int \<Rightarrow> int \<Rightarrow> (int \<times> int) result" where
  "payload_counts M line old new =
     (if hd line = CHR ''+'' then
        (if new = 0 then Inl (Err ''%w: extra added line %q'' [AWrap M, AStr line]) else Inr (old, new - 1))
      else if hd line = CHR ''-'' then
        (if old = 0 then Inl (Err ''%w: extra deleted line %q'' [AWrap M, AStr line]) else Inr (old - 1, new))
      else if hd line = CHR '' '' then
        (if old = 0 \<or> new = 0 then Inl (Err ''%w: extra context line %q'' [AWrap M, AStr line])
         else Inr (old - 1, new - 1))
      else Inl (Err ''%w: unprefixed hunk line %q'' [AWrap M, AStr line]))"

definition patch_step :: "patch_state \<Rightarrow> string \<Rightarrow> patch_state result" where
  "patch_step st line =
     (if has_prefix line ''@@'' then bindE (patch_flush st) (patch_header line)
      else case st_cur st of
        None \<Rightarrow>
          if isDiffPreambleLine line then Inr st
          else Inl (Err ''%w: unexpected line %q outside any hunk'' [AWrap ErrMalformedPatch, AStr line])
      | Some h \<Rightarrow>
          if line \<noteq> [] \<and> hd line = backslash then patch_marker h st
          else if st_old st = 0 \<and> st_new st = 0 then
            (if isDiffPreambleLine line
             then bindE (patch_flush st) (\<lambda>st. Inr (st\<lparr>st_cur := None\<rparr>))
             else Inl (Err ''%w: payload line %q past declared hunk range'' [AWrap ErrMalformedPatch, AStr line]))
          else if line = [] then Inl (Err ''%w: empty payload line inside hunk'' [AWrap ErrMalformedPatch])
          else bindE (payload_counts ErrMalformedPatch line (st_old st) (st_new st)) (\<lambda>(old, new).
            Inr (st\<lparr>st_payload := st_payload st @ line @ [newline], st_old := old, st_new := new,
                    st_last := hd line\<rparr>)))"

definition ParseUnifiedPatch :: "bytes \<Rightarrow> raw_hunk list result" where
  "ParseUnifiedPatch raw =
     bindE (foldE patch_step patch_init (lines_of raw)) (\<lambda>st.
     bindE (patch_flush st) (\<lambda>st. Inr (st_hunks st)))"

text \<open>\<open>hunkPayloadChurn\<close>: the loop cuts the payload at newlines and counts by the first byte.\<close>

function hunkPayloadChurn :: "bytes \<Rightarrow> int \<times> int" where
  "hunkPayloadChurn rest =
     (if rest = [] then (0, 0)
      else let line = takeWhile (\<lambda>c. c \<noteq> newline) rest;
               (additions, deletions) = hunkPayloadChurn (drop (length line + 1) rest)
        in if line = [] then (additions, deletions)
           else if hd line = CHR ''+'' then (additions + 1, deletions)
           else if hd line = CHR ''-'' then (additions, deletions + 1)
           else (additions, deletions))"
  by pat_completeness auto
termination by (relation "measure length") auto

declare hunkPayloadChurn.simps [simp del]

section \<open>The counting parser\<close>

record diff_hunk =
  dh_OldStart :: int
  dh_OldLines :: int
  dh_NewStart :: int
  dh_NewLines :: int
  dh_Additions :: int
  dh_Deletions :: int

record unified_diff =
  ud_Hunks :: "diff_hunk list"
  ud_Additions :: int
  ud_Deletions :: int

record diff_state =
  ds_ud :: unified_diff
  ds_old :: int
  ds_new :: int
  ds_inHunk :: bool

definition diff_init :: diff_state where
  "diff_init = \<lparr>ds_ud = \<lparr>ud_Hunks = [], ud_Additions = 0, ud_Deletions = 0\<rparr>,
                ds_old = 0, ds_new = 0, ds_inHunk = False\<rparr>"

definition diff_header :: "string \<Rightarrow> diff_state \<Rightarrow> diff_state result" where
  "diff_header line st =
     bindE (header_ranges ErrMalformedUnifiedDiff line) (\<lambda>(oldStart, oldLines, newStart, newLines).
       let h = \<lparr>dh_OldStart = oldStart, dh_OldLines = oldLines, dh_NewStart = newStart,
                dh_NewLines = newLines, dh_Additions = 0, dh_Deletions = 0\<rparr>
       in Inr (st\<lparr>ds_ud := (ds_ud st)\<lparr>ud_Hunks := ud_Hunks (ds_ud st) @ [h]\<rparr>,
                  ds_old := oldLines, ds_new := newLines, ds_inHunk := True\<rparr>))"

text \<open>\<open>hunk.Additions++; ud.Additions++\<close> (and the same for deletions) on the last hunk.\<close>

definition count_line :: "string \<Rightarrow> unified_diff \<Rightarrow> unified_diff" where
  "count_line line ud =
     (let h = last (ud_Hunks ud); hs = butlast (ud_Hunks ud) in
      if hd line = CHR ''+'' then
        ud\<lparr>ud_Hunks := hs @ [h\<lparr>dh_Additions := dh_Additions h + 1\<rparr>], ud_Additions := ud_Additions ud + 1\<rparr>
      else if hd line = CHR ''-'' then
        ud\<lparr>ud_Hunks := hs @ [h\<lparr>dh_Deletions := dh_Deletions h + 1\<rparr>], ud_Deletions := ud_Deletions ud + 1\<rparr>
      else ud)"

definition diff_step :: "diff_state \<Rightarrow> string \<Rightarrow> diff_state result" where
  "diff_step st line =
     (if has_prefix line ''@@'' then
        (if ds_inHunk st \<and> (ds_old st \<noteq> 0 \<or> ds_new st \<noteq> 0)
         then Inl (unaccounted ''%w: hunk ended with %d old / %d new lines unaccounted''
                ErrMalformedUnifiedDiff (ds_old st) (ds_new st))
         else diff_header line st)
      else if \<not> ds_inHunk st then
        (if isDiffPreambleLine line then Inr st
         else Inl (Err ''%w: unexpected line %q outside any hunk'' [AWrap ErrMalformedUnifiedDiff, AStr line]))
      else if ds_old st = 0 \<and> ds_new st = 0 then
        (if isDiffPreambleLine line then Inr (st\<lparr>ds_inHunk := False\<rparr>)
         else Inl (Err ''%w: payload line %q past declared hunk range''
                [AWrap ErrMalformedUnifiedDiff, AStr line]))
      else if line = [] then
        Inl (Err ''%w: empty payload line inside hunk'' [AWrap ErrMalformedUnifiedDiff])
      else if hd line = backslash then Inr st
      else bindE (payload_counts ErrMalformedUnifiedDiff line (ds_old st) (ds_new st)) (\<lambda>(old, new).
        Inr (st\<lparr>ds_ud := count_line line (ds_ud st), ds_old := old, ds_new := new\<rparr>)))"

definition ParseUnifiedDiff :: "bytes \<Rightarrow> unified_diff result" where
  "ParseUnifiedDiff data =
     bindE (foldE diff_step diff_init (lines_of data)) (\<lambda>st.
       if ds_inHunk st \<and> (ds_old st \<noteq> 0 \<or> ds_new st \<noteq> 0)
       then Inl (unaccounted ''%w: final hunk ended with %d old / %d new lines unaccounted''
              ErrMalformedUnifiedDiff (ds_old st) (ds_new st))
       else Inr (ds_ud st))"

section \<open>\<open>git cat-file --batch\<close>\<close>

record cat_file_object =
  cf_OID :: string
  cf_Type :: string
  cf_Size :: int
  cf_Data :: bytes
  cf_Missing :: bool

definition ErrMalformedCatFile :: gerror where
  "ErrMalformedCatFile = err ''review: malformed cat-file batch output''"

definition bad_size :: "string \<Rightarrow> bool" where
  "bad_size f = (case ParseInt f of Inl _ \<Rightarrow> True | Inr n \<Rightarrow> n < 0)"

definition size_of :: "string \<Rightarrow> int" where
  "size_of f = (case ParseInt f of Inl _ \<Rightarrow> 0 | Inr n \<Rightarrow> n)"

text \<open>
  One record: the header fields and the data behind the header line; returns the object and what
  is left.  \<open>size+1\<close> is computed after \<open>size <= len(data)\<close> is known, so it cannot overflow.
\<close>

definition cat_record :: "string \<Rightarrow> bytes \<Rightarrow> (cat_file_object \<times> bytes) result" where
  "cat_record header data = (let M = ErrMalformedCatFile in case Fields header of
       [oid, kind] \<Rightarrow>
         if kind = ''missing''
         then Inr (\<lparr>cf_OID = oid, cf_Type = [], cf_Size = 0, cf_Data = [], cf_Missing = True\<rparr>, data)
         else Inl (Err ''%w: bad header %q'' [AWrap M, AStr header])
     | [oid, kind, sz] \<Rightarrow>
         if bad_size sz then Inl (Err ''%w: bad object size %q'' [AWrap M, AStr sz])
         else let size = size_of sz in
           if size > int (length data)
           then Inl (Err ''%w: object %s truncated, want %d payload bytes'' [AWrap M, AStr oid, AInt size])
           else if int (length data) < size + 1 \<or> data ! nat size \<noteq> newline
           then Inl (Err ''%w: object %s missing trailing newline'' [AWrap M, AStr oid])
           else Inr (\<lparr>cf_OID = oid, cf_Type = kind, cf_Size = size, cf_Data = take (nat size) data,
                      cf_Missing = False\<rparr>, drop (nat size + 1) data)
     | _ \<Rightarrow> Inl (Err ''%w: bad header %q'' [AWrap M, AStr header]))"

lemma cat_record_shorter: "cat_record header data = Inr (obj, rest) \<Longrightarrow> length rest \<le> length data"
  by (auto simp: cat_record_def Let_def split: list.splits if_splits)

function ParseCatFileBatch :: "bytes \<Rightarrow> cat_file_object list result" where
  "ParseCatFileBatch data =
     (if data = [] then Inr []
      else if newline \<notin> set data
      then Inl (Err ''%w: header without terminating newline'' [AWrap ErrMalformedCatFile])
      else let header = takeWhile (\<lambda>c. c \<noteq> newline) data in
        case cat_record header (drop (length header + 1) data) of
          Inl e \<Rightarrow> Inl e
        | Inr (obj, rest) \<Rightarrow> bindE (ParseCatFileBatch rest) (\<lambda>objs. Inr (obj # objs)))"
  by pat_completeness auto
termination
proof (relation "measure length", goal_cases)
  case (2 data header r obj rest)
  then have "length rest \<le> length data - (length header + 1)" using cat_record_shorter by fastforce
  with 2 show ?case by (cases data) auto
qed simp

declare ParseCatFileBatch.simps [simp del]

section \<open>What the strict parser accepts\<close>

definition payload_line :: "string \<Rightarrow> bool" where
  "payload_line l \<longleftrightarrow> l \<noteq> [] \<and> hd l \<in> set '' +-'' \<and> newline \<notin> set l"

definition old_count :: "string list \<Rightarrow> int" where
  "old_count ls = int (length (filter (\<lambda>l. hd l \<noteq> CHR ''+'') ls))"

definition new_count :: "string list \<Rightarrow> int" where
  "new_count ls = int (length (filter (\<lambda>l. hd l \<noteq> CHR ''-'') ls))"

definition line_churn :: "string list \<Rightarrow> int \<times> int" where
  "line_churn ls = (int (length (filter (\<lambda>l. hd l = CHR ''+'') ls)),
                    int (length (filter (\<lambda>l. hd l = CHR ''-'') ls)))"

lemma counts_simps [simp]:
  "old_count [] = 0" "new_count [] = 0"
  "old_count (xs @ ys) = old_count xs + old_count ys" "new_count (xs @ ys) = new_count xs + new_count ys"
  "old_count (l # ls) = (if hd l = CHR ''+'' then 0 else 1) + old_count ls"
  "new_count (l # ls) = (if hd l = CHR ''-'' then 0 else 1) + new_count ls"
  by (simp_all add: old_count_def new_count_def)

lemma counts_nonneg [simp]: "0 \<le> old_count ls" "0 \<le> new_count ls"
  by (simp_all add: old_count_def new_count_def)

text \<open>The starting line of a side that has lines is at least 1.\<close>

definition starts_ok :: "raw_hunk \<Rightarrow> bool" where
  "starts_ok h \<longleftrightarrow> (rh_OldLines h > 0 \<longrightarrow> rh_OldStart h \<ge> 1) \<and> (rh_NewLines h > 0 \<longrightarrow> rh_NewStart h \<ge> 1)"

text \<open>A hunk whose payload is a sequence of whole payload lines that its ranges account for exactly.\<close>

definition hunk_ok :: "raw_hunk \<Rightarrow> bool" where
  "hunk_ok h \<longleftrightarrow> (let ls = lines_of (rh_Payload h) in
     rh_Payload h = unlines ls \<and> list_all payload_line ls \<and>
     old_count ls = uint (rh_OldLines h) \<and> new_count ls = uint (rh_NewLines h) \<and> starts_ok h)"

lemma payload_line_no_newline: "list_all payload_line ls \<Longrightarrow> l \<in> set ls \<Longrightarrow> newline \<notin> set l"
  by (auto simp: list_all_iff payload_line_def)

lemma lines_of_payload [simp]: "list_all payload_line ls \<Longrightarrow> lines_of (unlines ls) = ls"
  by (intro lines_of_unlines) (rule payload_line_no_newline)

lemma hunk_ok_unlines:
  "list_all payload_line ls \<Longrightarrow> hunk_ok (h\<lparr>rh_Payload := unlines ls\<rparr>) \<longleftrightarrow>
     old_count ls = uint (rh_OldLines h) \<and> new_count ls = uint (rh_NewLines h) \<and> starts_ok h"
  by (simp add: hunk_ok_def starts_ok_def)

lemma parseHunkNum_bounds:
  assumes "parseHunkNum s def = Inr n" "0 \<le> def" "def < 2 ^ 63"
  shows "0 \<le> n \<and> n < 2 ^ 63"
  using assms dec_val_nonneg [of "tl s"]
  by (auto simp: parseHunkNum_def Atoi_def parse_int_def Let_def split: if_splits)

lemma header_numbers_bounds:
  assumes "header_numbers m = Inr (a, b, c, d)"
  shows "0 \<le> a \<and> a < 2 ^ 63" "0 \<le> b \<and> b < 2 ^ 63" "0 \<le> c \<and> c < 2 ^ 63" "0 \<le> d \<and> d < 2 ^ 63"
  using assms parseHunkNum_bounds [of _ 0] parseHunkNum_bounds [of _ 1]
  by (auto simp: header_numbers_def split: prod.splits)

lemma header_ranges_bounds:
  assumes "header_ranges M line = Inr (a, b, c, d)"
  shows "0 \<le> a \<and> a < 2 ^ 63" "0 \<le> b \<and> b < 2 ^ 63" "0 \<le> c \<and> c < 2 ^ 63" "0 \<le> d \<and> d < 2 ^ 63"
    "b > 0 \<longrightarrow> 1 \<le> a" "d > 0 \<longrightarrow> 1 \<le> c"
proof -
  obtain m where m: "header_numbers m = Inr (a, b, c, d)" and s: "b > 0 \<longrightarrow> 1 \<le> a" "d > 0 \<longrightarrow> 1 \<le> c"
    using assms by (auto simp: header_ranges_def split: option.splits if_splits)
  show "0 \<le> a \<and> a < 2 ^ 63" "0 \<le> b \<and> b < 2 ^ 63" "0 \<le> c \<and> c < 2 ^ 63" "0 \<le> d \<and> d < 2 ^ 63"
    by (rule header_numbers_bounds [OF m])+
  show "b > 0 \<longrightarrow> 1 \<le> a" "d > 0 \<longrightarrow> 1 \<le> c" by (rule s)+
qed

lemma uint_word_of_int_63:
  assumes "0 \<le> n \<and> n < (2::int) ^ 63"
  shows "uint (word_of_int n :: u64) = n"
proof -
  have "n < 2 ^ LENGTH(64)" using assms by simp
  then show ?thesis using assms by (simp add: uint_word_of_int_eq take_bit_int_eq_self)
qed

text \<open>The loop invariant of the strict parser.\<close>

definition cur_ok :: "patch_state \<Rightarrow> bool" where
  "cur_ok st \<longleftrightarrow> (case st_cur st of None \<Rightarrow> True
     | Some h \<Rightarrow> \<exists>ls. st_payload st = unlines ls \<and> list_all payload_line ls \<and>
         old_count ls + st_old st = uint (rh_OldLines h) \<and> new_count ls + st_new st = uint (rh_NewLines h) \<and>
         starts_ok h \<and> rh_Ordinal h = of_nat (length (st_hunks st)))"

definition ordinals :: "raw_hunk list \<Rightarrow> bool" where
  "ordinals hs \<longleftrightarrow> map rh_Ordinal hs = map of_nat [0..<length hs]"

definition patch_inv :: "patch_state \<Rightarrow> bool" where
  "patch_inv st \<longleftrightarrow> list_all hunk_ok (st_hunks st) \<and> ordinals (st_hunks st) \<and> cur_ok st"

lemma ordinals_snoc: "ordinals hs \<Longrightarrow> rh_Ordinal h = of_nat (length hs) \<Longrightarrow> ordinals (hs @ [h])"
  by (simp add: ordinals_def)

lemma patch_flush_inv:
  assumes "patch_inv st" "patch_flush st = Inr st'"
  shows "list_all hunk_ok (st_hunks st') \<and> ordinals (st_hunks st')"
proof (cases "st_cur st")
  case None
  with assms show ?thesis by (simp add: patch_flush_def patch_inv_def)
next
  case (Some h)
  with assms obtain ls where ls: "st_payload st = unlines ls" "list_all payload_line ls"
    "old_count ls + st_old st = uint (rh_OldLines h)" "new_count ls + st_new st = uint (rh_NewLines h)"
    "starts_ok h" "rh_Ordinal h = of_nat (length (st_hunks st))"
    by (auto simp: patch_inv_def cur_ok_def)
  with assms Some show ?thesis
    by (auto simp: patch_flush_def patch_inv_def hunk_ok_unlines split: if_splits intro!: ordinals_snoc)
qed

lemma patch_header_inv:
  assumes "list_all hunk_ok (st_hunks st) \<and> ordinals (st_hunks st)" "patch_header line st = Inr st'"
  shows "patch_inv st'"
proof -
  obtain a b c d where r: "header_ranges ErrMalformedPatch line = Inr (a, b, c, d)"
    using assms by (auto simp: patch_header_def)
  note bs = header_ranges_bounds [OF r]
  have u: "uint (word_of_int a :: u64) = a" "uint (word_of_int b :: u64) = b"
    "uint (word_of_int c :: u64) = c" "uint (word_of_int d :: u64) = d"
    using bs by (simp_all only: uint_word_of_int_63)
  have "starts_ok (h\<lparr>rh_OldStart := word_of_int a, rh_OldLines := word_of_int b,
      rh_NewStart := word_of_int c, rh_NewLines := word_of_int d\<rparr>)" for h
    unfolding starts_ok_def using bs by (simp add: word_less_alt word_le_def u)
  from this [of "\<lparr>rh_Ordinal = of_nat (length (st_hunks st)), rh_OldStart = 0, rh_OldLines = 0,
      rh_NewStart = 0, rh_NewLines = 0, rh_NoFinalNewlineOld = False, rh_NoFinalNewlineNew = False,
      rh_Payload = []\<rparr>"] show ?thesis
    using assms r u by (auto simp: patch_header_def patch_inv_def cur_ok_def intro!: exI [of _ "[]"])
qed

lemma patch_marker_inv:
  assumes "patch_inv st" "st_cur st = Some h" "patch_marker h st = Inr st'"
  shows "patch_inv st'"
  using assms
  by (auto simp: patch_marker_def patch_inv_def cur_ok_def starts_ok_def Let_def split: if_splits)

lemma payload_counts_Inr:
  assumes "payload_counts M line old new = Inr (old', new')" "line \<noteq> []" "newline \<notin> set line"
  shows "payload_line line" "old' = old - old_count [line]" "new' = new - new_count [line]"
  using assms by (auto simp: payload_counts_def payload_line_def split: if_splits)

lemma patch_step_inv:
  assumes "patch_inv st" "patch_step st line = Inr st'" "newline \<notin> set line"
  shows "patch_inv st'"
proof (cases "has_prefix line ''@@''")
  case True
  with assms show ?thesis by (auto simp: patch_step_def dest: patch_flush_inv intro: patch_header_inv)
next
  case False
  note at = this
  show ?thesis
  proof (cases "st_cur st")
    case None
    with at assms show ?thesis by (auto simp: patch_step_def split: if_splits)
  next
    case (Some h)
    consider (marker) "line \<noteq> [] \<and> hd line = backslash"
      | (full) "\<not> (line \<noteq> [] \<and> hd line = backslash)" "st_old st = 0 \<and> st_new st = 0"
      | (payload) "\<not> (line \<noteq> [] \<and> hd line = backslash)" "\<not> (st_old st = 0 \<and> st_new st = 0)"
      by blast
    then show ?thesis
    proof cases
      case marker
      with at Some assms show ?thesis by (auto simp: patch_step_def intro: patch_marker_inv)
    next
      case full
      with at Some assms obtain st2 where "patch_flush st = Inr st2" "st' = st2\<lparr>st_cur := None\<rparr>"
        by (auto simp: patch_step_def split: if_splits)
      with patch_flush_inv [OF assms(1)] show ?thesis by (simp add: patch_inv_def cur_ok_def)
    next
      case payload
      with at Some assms(2) obtain old new where ne: "line \<noteq> []"
        and pc: "payload_counts ErrMalformedPatch line (st_old st) (st_new st) = Inr (old, new)"
        and st': "st' = st\<lparr>st_payload := st_payload st @ line @ [newline], st_old := old, st_new := new,
            st_last := hd line\<rparr>"
        by (auto simp: patch_step_def split: if_splits)
      note pl = payload_counts_Inr [OF pc ne assms(3)]
      from Some assms(1) obtain ls where ls: "st_payload st = unlines ls" "list_all payload_line ls"
        "old_count ls + st_old st = uint (rh_OldLines h)" "new_count ls + st_new st = uint (rh_NewLines h)"
        "starts_ok h" "rh_Ordinal h = of_nat (length (st_hunks st))"
        by (auto simp: patch_inv_def cur_ok_def)
      have "cur_ok st'" unfolding cur_ok_def using Some ls pl st'
        by (auto intro!: exI [of _ "ls @ [line]"])
      with assms(1) st' show ?thesis by (simp add: patch_inv_def)
    qed
  qed
qed

lemma ParseUnifiedPatch_inv:
  assumes "ParseUnifiedPatch raw = Inr hs"
  shows "list_all hunk_ok hs" "ordinals hs"
proof -
  obtain st st' where st: "foldE patch_step patch_init (lines_of raw) = Inr st"
    "patch_flush st = Inr st'" "st_hunks st' = hs"
    using assms by (auto simp: ParseUnifiedPatch_def)
  have "patch_inv st"
  proof (rule foldE_invariant [OF st(1)])
    show "patch_inv patch_init" by (simp add: patch_inv_def patch_init_def cur_ok_def ordinals_def)
  next
    fix s x t assume "x \<in> set (lines_of raw)" "patch_inv s" "patch_step s x = Inr t"
    then show "patch_inv t" by (auto intro: patch_step_inv dest: lines_of_no_newline)
  qed
  with st show "list_all hunk_ok hs" "ordinals hs" by (auto dest: patch_flush_inv)
qed

section \<open>Churn\<close>

text \<open>The three kinds of payload line.\<close>

lemma payload_line_cases:
  assumes "payload_line l"
  obtains (plus) "hd l = CHR ''+''" | (minus) "hd l = CHR ''-''" | (blank) "hd l = CHR '' ''"
  using assms by (auto simp: payload_line_def)

lemma payload_line_chars [simp]:
  "payload_line l \<Longrightarrow> l \<noteq> []" "payload_line l \<Longrightarrow> newline \<notin> set l"
  by (simp_all add: payload_line_def)

lemma hunkPayloadChurn_unlines:
  assumes "list_all payload_line ls"
  shows "hunkPayloadChurn (unlines ls) = line_churn ls"
  using assms
proof (induction ls)
  case Nil
  then show ?case by (simp add: line_churn_def hunkPayloadChurn.simps)
next
  case (Cons l ls)
  have "takeWhile (\<lambda>c. c \<noteq> newline) (unlines (l # ls)) = l"
    using Cons.prems by (auto simp: takeWhile_append takeWhile_eq_all_conv)
  with Cons show ?case
    by (subst hunkPayloadChurn.simps) (simp add: Let_def line_churn_def)
qed

lemma churn_counts:
  "list_all payload_line ls \<Longrightarrow>
     fst (line_churn ls) - snd (line_churn ls) = new_count ls - old_count ls \<and>
     0 \<le> fst (line_churn ls) \<and> fst (line_churn ls) \<le> new_count ls \<and>
     0 \<le> snd (line_churn ls) \<and> snd (line_churn ls) \<le> old_count ls"
proof (induction ls)
  case (Cons l ls)
  then have "payload_line l" by simp
  then show ?case using Cons by (cases rule: payload_line_cases) (simp_all add: line_churn_def)
qed (simp add: line_churn_def)

lemma hunk_ok_churn:
  assumes "hunk_ok h" "hunkPayloadChurn (rh_Payload h) = (additions, deletions)"
  shows "additions - deletions = uint (rh_NewLines h) - uint (rh_OldLines h)"
    "0 \<le> additions \<and> additions \<le> uint (rh_NewLines h)" "0 \<le> deletions \<and> deletions \<le> uint (rh_OldLines h)"
proof -
  define ls where "ls = lines_of (rh_Payload h)"
  with assms have ls: "rh_Payload h = unlines ls" "list_all payload_line ls"
    "old_count ls = uint (rh_OldLines h)" "new_count ls = uint (rh_NewLines h)"
    by (simp_all add: hunk_ok_def Let_def)
  then have "line_churn ls = (additions, deletions)"
    using assms(2) by (simp add: hunkPayloadChurn_unlines)
  with churn_counts [OF ls(2)] ls show
    "additions - deletions = uint (rh_NewLines h) - uint (rh_OldLines h)"
    "0 \<le> additions \<and> additions \<le> uint (rh_NewLines h)" "0 \<le> deletions \<and> deletions \<le> uint (rh_OldLines h)"
    by simp_all
qed

section \<open>Patches as Git prints them\<close>

text \<open>
  A hunk before printing: its starting lines, the text after the second \<open>@@\<close>, and its body, each
  line with whether the no-newline marker follows it.
\<close>

record hunk_src =
  hs_OldStart :: nat
  hs_NewStart :: nat
  hs_Heading :: string
  hs_Body :: "(string \<times> bool) list"

definition src_old :: "hunk_src \<Rightarrow> nat" where
  "src_old s = nat (old_count (map fst (hs_Body s)))"

definition src_new :: "hunk_src \<Rightarrow> nat" where
  "src_new s = nat (new_count (map fst (hs_Body s)))"

definition render_header :: "hunk_src \<Rightarrow> string" where
  "render_header s = ''@@ -'' @ dec_digits (hs_OldStart s) @ '','' @ dec_digits (src_old s) @
     '' +'' @ dec_digits (hs_NewStart s) @ '','' @ dec_digits (src_new s) @ '' @@'' @ hs_Heading s"

definition no_newline_marker :: string where
  "no_newline_marker = backslash # '' No newline at end of file''"

definition render_line :: "string \<times> bool \<Rightarrow> string list" where
  "render_line lm = fst lm # (if snd lm then [no_newline_marker] else [])"

definition render_hunk :: "hunk_src \<Rightarrow> string list" where
  "render_hunk s = render_header s # concat (map render_line (hs_Body s))"

definition src_ok :: "hunk_src \<Rightarrow> bool" where
  "src_ok s \<longleftrightarrow> list_all payload_line (map fst (hs_Body s)) \<and> newline \<notin> set (hs_Heading s) \<and>
     hs_OldStart s < 2 ^ 63 \<and> hs_NewStart s < 2 ^ 63 \<and> length (hs_Body s) < 2 ^ 63 \<and>
     (src_old s > 0 \<longrightarrow> hs_OldStart s > 0) \<and> (src_new s > 0 \<longrightarrow> hs_NewStart s > 0)"

definition marked :: "char \<Rightarrow> (string \<times> bool) list \<Rightarrow> bool" where
  "marked c body \<longleftrightarrow> (\<exists>lm\<in>set body. snd lm \<and> hd (fst lm) \<in> {c, CHR '' ''})"

definition denote :: "nat \<Rightarrow> hunk_src \<Rightarrow> raw_hunk" where
  "denote i s = \<lparr>rh_Ordinal = of_nat i, rh_OldStart = of_nat (hs_OldStart s), rh_OldLines = of_nat (src_old s),
     rh_NewStart = of_nat (hs_NewStart s), rh_NewLines = of_nat (src_new s),
     rh_NoFinalNewlineOld = marked (CHR ''-'') (hs_Body s),
     rh_NoFinalNewlineNew = marked (CHR ''+'') (hs_Body s),
     rh_Payload = unlines (map fst (hs_Body s))\<rparr>"

lemma takeWhile_digits:
  "takeWhile is_digit (dec_digits n @ c # r) = (if is_digit c then dec_digits n @ c # takeWhile is_digit r else dec_digits n)"
  "\<not> is_digit c \<Longrightarrow> dropWhile is_digit (dec_digits n @ c # r) = c # r"
  using dec_digits_digits [of n] by (simp_all add: list_all_iff takeWhile_append dropWhile_append)

lemma not_digit_punct [simp]: "\<not> is_digit (CHR '','')" "\<not> is_digit (CHR '' '')"
  by (simp_all add: is_digit_def)

lemma opt_count_digits [simp]:
  "opt_count (CHR '','' # dec_digits n @ CHR '' '' # r) = (dec_digits n, CHR '' '' # r)"
  by (simp add: opt_count_def takeWhile_digits)

lemma hunkHeaderRE_render:
  "hunkHeaderRE (render_header s) =
     Some (dec_digits (hs_OldStart s), dec_digits (src_old s), dec_digits (hs_NewStart s), dec_digits (src_new s))"
  by (simp add: hunkHeaderRE_def render_header_def takeWhile_digits Let_def)

lemma parseHunkNum_digits: "n < 2 ^ 63 \<Longrightarrow> parseHunkNum (dec_digits n) d = Inr (int n)"
  by (simp add: parseHunkNum_def Atoi_digits dec_digits_digits)

lemma src_counts_bound:
  "src_ok s \<Longrightarrow> src_old s < 2 ^ 63" "src_ok s \<Longrightarrow> src_new s < 2 ^ 63"
proof -
  have "src_old s \<le> length (hs_Body s)" "src_new s \<le> length (hs_Body s)"
    unfolding src_old_def src_new_def old_count_def new_count_def nat_int
    by (metis length_filter_le length_map)+
  then show "src_ok s \<Longrightarrow> src_old s < 2 ^ 63" "src_ok s \<Longrightarrow> src_new s < 2 ^ 63"
    unfolding src_ok_def by linarith+
qed

lemma header_ranges_render:
  assumes "src_ok s"
  shows "header_ranges M (render_header s) =
    Inr (int (hs_OldStart s), int (src_old s), int (hs_NewStart s), int (src_new s))"
proof -
  have "header_numbers (dec_digits (hs_OldStart s), dec_digits (src_old s), dec_digits (hs_NewStart s),
      dec_digits (src_new s)) = Inr (int (hs_OldStart s), int (src_old s), int (hs_NewStart s), int (src_new s))"
    using assms src_counts_bound [OF assms]
    by (simp add: header_numbers_def parseHunkNum_digits src_ok_def)
  then show ?thesis using assms
    by (auto simp: header_ranges_def hunkHeaderRE_render wrapE_def src_ok_def)
qed

text \<open>One body, from any state with room for it.\<close>

definition body_effect :: "(string \<times> bool) list \<Rightarrow> raw_hunk \<Rightarrow> raw_hunk" where
  "body_effect body h = h\<lparr>rh_NoFinalNewlineOld := rh_NoFinalNewlineOld h \<or> marked (CHR ''-'') body,
     rh_NoFinalNewlineNew := rh_NoFinalNewlineNew h \<or> marked (CHR ''+'') body\<rparr>"

lemma not_at_prefix: "payload_line l \<Longrightarrow> \<not> has_prefix l ''@@''"
  by (cases l; erule payload_line_cases) simp_all

lemma payload_counts_room:
  assumes "payload_line l" "old_count [l] \<le> old" "new_count [l] \<le> new"
  shows "payload_counts M l old new = Inr (old - old_count [l], new - new_count [l])"
  using assms by (cases rule: payload_line_cases) (simp_all add: payload_counts_def)

lemma patch_step_payload:
  assumes "payload_line l" "st_cur st = Some h" "old_count [l] \<le> st_old st" "new_count [l] \<le> st_new st"
  shows "patch_step st l = Inr (st\<lparr>st_payload := st_payload st @ l @ [newline],
    st_old := st_old st - old_count [l], st_new := st_new st - new_count [l], st_last := hd l\<rparr>)"
proof -
  have "hd l \<noteq> backslash"
    using assms(1) by (cases rule: payload_line_cases) (simp_all add: backslash_def)
  moreover have "st_old st \<noteq> 0 \<or> st_new st \<noteq> 0"
    using assms(1,3,4) by (cases rule: payload_line_cases) simp_all
  ultimately show ?thesis
    using assms(1,2) not_at_prefix [OF assms(1)] payload_counts_room [OF assms(1,3,4)]
    by (elim disjE) (simp_all add: patch_step_def del: counts_simps)
qed

lemma patch_step_marker:
  assumes "payload_line l" "st_cur st = Some h" "st_last st = hd l"
  shows "patch_step st no_newline_marker = Inr (st\<lparr>st_cur := Some (body_effect [(l, True)] h), st_last := CHR 0x00\<rparr>)"
proof -
  have "marked (CHR ''-'') [(l, True)] \<longleftrightarrow> hd l \<noteq> CHR ''+''" "marked (CHR ''+'') [(l, True)] \<longleftrightarrow> hd l \<noteq> CHR ''-''"
    using assms(1) by (cases rule: payload_line_cases; simp add: marked_def)+
  with assms(1) show ?thesis using assms(2,3)
    by (cases rule: payload_line_cases)
      (simp_all add: patch_step_def no_newline_marker_def backslash_def patch_marker_def body_effect_def)
qed

lemma marked_append: "marked c (xs @ ys) \<longleftrightarrow> marked c xs \<or> marked c ys"
  by (auto simp: marked_def)

lemma body_effect_append: "body_effect (xs @ ys) h = body_effect ys (body_effect xs h)"
  by (simp add: body_effect_def marked_append disj_assoc)

lemma body_effect_unmarked: "body_effect [(l, False)] h = h"
  by (simp add: body_effect_def marked_def)

lemma render_line_steps:
  assumes "payload_line l" "st_cur st = Some h" "old_count [l] \<le> st_old st" "new_count [l] \<le> st_new st"
  shows "\<exists>x. foldE patch_step st (render_line (l, m)) = Inr (st\<lparr>st_cur := Some (body_effect [(l, m)] h),
    st_payload := st_payload st @ l @ [newline],
    st_old := st_old st - old_count [l], st_new := st_new st - new_count [l], st_last := x\<rparr>)"
proof (cases m)
  case True
  let ?st = "st\<lparr>st_payload := st_payload st @ l @ [newline],
    st_old := st_old st - old_count [l], st_new := st_new st - new_count [l], st_last := hd l\<rparr>"
  have "patch_step ?st no_newline_marker = Inr (?st\<lparr>st_cur := Some (body_effect [(l, True)] h), st_last := CHR 0x00\<rparr>)"
    using assms by (intro patch_step_marker) simp_all
  with True patch_step_payload [OF assms] show ?thesis
    by (intro exI [of _ "CHR 0x00"]) (cases st; simp add: render_line_def)
next
  case False
  with patch_step_payload [OF assms] assms show ?thesis
    by (intro exI [of _ "hd l"]) (cases st; simp add: render_line_def body_effect_unmarked)
qed

lemma body_steps:
  assumes "list_all payload_line (map fst body)" "st_cur st = Some h"
    "old_count (map fst body) \<le> st_old st" "new_count (map fst body) \<le> st_new st"
  shows "\<exists>x. foldE patch_step st (concat (map render_line body)) = Inr (st\<lparr>st_cur := Some (body_effect body h),
    st_payload := st_payload st @ unlines (map fst body),
    st_old := st_old st - old_count (map fst body), st_new := st_new st - new_count (map fst body), st_last := x\<rparr>)"
  using assms
proof (induction body arbitrary: st h)
  case Nil
  have "body_effect [] h = h" by (simp add: body_effect_def marked_def)
  with Nil show ?case by (intro exI [of _ "st_last st"]) simp
next
  case (Cons lm body)
  obtain l m where lm: "lm = (l, m)" by (cases lm)
  have nn: "0 \<le> old_count (map fst body)" "0 \<le> new_count (map fst body)" by simp_all
  have room: "old_count [l] \<le> st_old st" "new_count [l] \<le> st_new st"
    using Cons.prems lm nn by (auto split: if_splits simp del: counts_nonneg)
  obtain x where x: "foldE patch_step st (render_line lm) = Inr (st\<lparr>st_cur := Some (body_effect [lm] h),
    st_payload := st_payload st @ l @ [newline],
    st_old := st_old st - old_count [l], st_new := st_new st - new_count [l], st_last := x\<rparr>)"
    (is "_ = Inr ?st")
    using render_line_steps [of l st h m] Cons.prems room lm by auto
  have "\<exists>y. foldE patch_step ?st (concat (map render_line body)) = Inr (?st\<lparr>st_cur := Some (body_effect body (body_effect [lm] h)),
    st_payload := st_payload ?st @ unlines (map fst body),
    st_old := st_old ?st - old_count (map fst body), st_new := st_new ?st - new_count (map fst body), st_last := y\<rparr>)"
    using Cons.prems lm by (intro Cons.IH) (auto split: if_splits)
  with x show ?case
    using lm body_effect_append [of "[lm]" body h] by (auto simp: foldE_append diff_diff_eq)
qed

text \<open>A state whose pending hunk, if any, is complete: flushing it gives the hunks \<open>hs\<close>.\<close>

definition settled :: "patch_state \<Rightarrow> raw_hunk list \<Rightarrow> bool" where
  "settled st hs \<longleftrightarrow> (case patch_flush st of Inl _ \<Rightarrow> False | Inr st' \<Rightarrow> st_hunks st' = hs)"

lemma render_header_at: "has_prefix (render_header s) ''@@''"
  by (simp add: render_header_def)

lemma render_hunk_steps:
  assumes "settled st hs" "src_ok s"
  shows "\<exists>st'. foldE patch_step st (render_hunk s) = Inr st' \<and> settled st' (hs @ [denote (length hs) s])"
proof -
  obtain st1 where st1: "patch_flush st = Inr st1" "st_hunks st1 = hs"
    using assms(1) by (auto simp: settled_def split: sum.splits)
  let ?h = "\<lparr>rh_Ordinal = of_nat (length hs), rh_OldStart = of_nat (hs_OldStart s),
      rh_OldLines = of_nat (src_old s), rh_NewStart = of_nat (hs_NewStart s), rh_NewLines = of_nat (src_new s),
      rh_NoFinalNewlineOld = False, rh_NoFinalNewlineNew = False, rh_Payload = []\<rparr>"
  let ?st = "st1\<lparr>st_cur := Some ?h, st_payload := [], st_old := int (src_old s), st_new := int (src_new s),
      st_last := CHR 0x00\<rparr>"
  have head: "patch_step st (render_header s) = Inr ?st"
    using st1 header_ranges_render [OF assms(2)]
    by (simp add: patch_step_def render_header_at patch_header_def)
  have counts: "old_count (map fst (hs_Body s)) = int (src_old s)" "new_count (map fst (hs_Body s)) = int (src_new s)"
    by (simp_all add: src_old_def src_new_def)
  obtain x where x: "foldE patch_step ?st (concat (map render_line (hs_Body s))) = Inr (?st\<lparr>st_cur := Some (body_effect (hs_Body s) ?h),
    st_payload := st_payload ?st @ unlines (map fst (hs_Body s)),
    st_old := st_old ?st - old_count (map fst (hs_Body s)), st_new := st_new ?st - new_count (map fst (hs_Body s)), st_last := x\<rparr>)"
    using body_steps [of "hs_Body s" ?st ?h] assms(2) counts by (auto simp: src_ok_def)
  have "settled (?st\<lparr>st_cur := Some (body_effect (hs_Body s) ?h),
    st_payload := st_payload ?st @ unlines (map fst (hs_Body s)),
    st_old := st_old ?st - old_count (map fst (hs_Body s)), st_new := st_new ?st - new_count (map fst (hs_Body s)), st_last := x\<rparr>)
    (hs @ [denote (length hs) s])"
    using st1 counts by (simp add: settled_def patch_flush_def denote_def body_effect_def)
  with head x show ?thesis by (simp add: render_hunk_def)
qed

definition denote_all :: "nat \<Rightarrow> hunk_src list \<Rightarrow> raw_hunk list" where
  "denote_all n ss = map2 denote [n..<n + length ss] ss"

lemma denote_all_simps [simp]:
  "denote_all n [] = []" "denote_all n (s # ss) = denote n s # denote_all (Suc n) ss"
  by (simp_all add: denote_all_def upt_conv_Cons del: upt_Suc)

lemma render_hunks_steps:
  assumes "settled st hs" "list_all src_ok ss"
  shows "\<exists>st'. foldE patch_step st (concat (map render_hunk ss)) = Inr st' \<and>
    settled st' (hs @ denote_all (length hs) ss)"
  using assms
proof (induction ss arbitrary: st hs)
  case (Cons s ss)
  then obtain st1 where "foldE patch_step st (render_hunk s) = Inr st1"
    "settled st1 (hs @ [denote (length hs) s])"
    using render_hunk_steps by (metis list.pred_inject(2))
  with Cons.IH [of st1 "hs @ [denote (length hs) s]"] Cons.prems show ?case
    by (auto simp: foldE_append)
qed simp

lemma preamble_not_at: "isDiffPreambleLine l \<Longrightarrow> \<not> has_prefix l ''@@''"
  by (cases l) (auto simp: isDiffPreambleLine_def preamble_prefixes_def)

lemma preamble_steps: "list_all isDiffPreambleLine pre \<Longrightarrow> foldE patch_step patch_init pre = Inr patch_init"
proof (induction pre)
  case (Cons l pre)
  then have "patch_step patch_init l = Inr patch_init"
    by (simp add: patch_step_def preamble_not_at) (simp add: patch_init_def)
  with Cons show ?case by simp
qed simp

lemma dec_digits_no_newline: "newline \<notin> set (dec_digits n)"
proof
  assume "newline \<in> set (dec_digits n)"
  then have "is_digit newline" using dec_digits_digits [of n] by (auto simp: list_all_iff)
  then show False by (simp add: is_digit_def newline_def)
qed

lemma render_hunk_no_newline:
  assumes "src_ok s" "l \<in> set (render_hunk s)"
  shows "newline \<notin> set l"
proof -
  have marker: "newline \<notin> set no_newline_marker"
    by (simp add: no_newline_marker_def newline_def backslash_def)
  have "newline \<notin> set (render_header s)"
    using assms(1) by (simp add: render_header_def src_ok_def dec_digits_no_newline) (simp add: newline_def)
  with assms marker show ?thesis
    by (auto simp: render_hunk_def render_line_def src_ok_def list_all_iff split: if_splits)
qed

lemma ParseUnifiedPatch_render:
  assumes "list_all isDiffPreambleLine pre" "\<And>l. l \<in> set pre \<Longrightarrow> newline \<notin> set l" "list_all src_ok ss"
  shows "ParseUnifiedPatch (unlines (pre @ concat (map render_hunk ss))) = Inr (denote_all 0 ss)"
proof -
  have "lines_of (unlines (pre @ concat (map render_hunk ss))) = pre @ concat (map render_hunk ss)"
    using assms render_hunk_no_newline by (intro lines_of_unlines) (auto simp: list_all_iff)
  moreover have "settled patch_init []" by (simp add: settled_def patch_flush_def patch_init_def)
  then obtain st where "foldE patch_step patch_init (concat (map render_hunk ss)) = Inr st"
    "settled st (denote_all 0 ss)"
    using render_hunks_steps [OF _ assms(3), of patch_init "[]"] by auto
  ultimately show ?thesis using preamble_steps [OF assms(1)]
    by (auto simp: ParseUnifiedPatch_def foldE_append settled_def split: sum.splits)
qed

section \<open>The two parsers agree\<close>

text \<open>What the counting parser reports of a canonical hunk.\<close>

definition abs_hunk :: "raw_hunk \<Rightarrow> diff_hunk" where
  "abs_hunk h = \<lparr>dh_OldStart = uint (rh_OldStart h), dh_OldLines = uint (rh_OldLines h),
     dh_NewStart = uint (rh_NewStart h), dh_NewLines = uint (rh_NewLines h),
     dh_Additions = fst (hunkPayloadChurn (rh_Payload h)), dh_Deletions = snd (hunkPayloadChurn (rh_Payload h))\<rparr>"

definition abs_diff :: "raw_hunk list \<Rightarrow> unified_diff" where
  "abs_diff hs = \<lparr>ud_Hunks = map abs_hunk hs,
     ud_Additions = sum_list (map (\<lambda>h. fst (hunkPayloadChurn (rh_Payload h))) hs),
     ud_Deletions = sum_list (map (\<lambda>h. snd (hunkPayloadChurn (rh_Payload h))) hs)\<rparr>"

definition pending :: "patch_state \<Rightarrow> raw_hunk list" where
  "pending st = st_hunks st @ (case st_cur st of None \<Rightarrow> [] | Some h \<Rightarrow> [h\<lparr>rh_Payload := st_payload st\<rparr>])"

definition parsers_rel :: "patch_state \<Rightarrow> diff_state \<Rightarrow> bool" where
  "parsers_rel st ds \<longleftrightarrow> ds_ud ds = abs_diff (pending st) \<and> ds_inHunk ds = (st_cur st \<noteq> None) \<and>
     (ds_inHunk ds \<longrightarrow> ds_old ds = st_old st \<and> ds_new ds = st_new st) \<and>
     (\<exists>ls. st_payload st = unlines ls \<and> list_all payload_line ls)"

lemma abs_diff_snoc:
  "abs_diff (hs @ [h]) = (let c = hunkPayloadChurn (rh_Payload h); u = abs_diff hs in
     \<lparr>ud_Hunks = ud_Hunks u @ [abs_hunk h], ud_Additions = ud_Additions u + fst c, ud_Deletions = ud_Deletions u + snd c\<rparr>)"
  by (simp add: abs_diff_def Let_def)

lemma churn_Nil [simp]: "hunkPayloadChurn [] = (0, 0)"
  by (simp add: hunkPayloadChurn.simps)

lemma line_churn_snoc:
  "line_churn (ls @ [l]) = (fst (line_churn ls) + (if hd l = CHR ''+'' then 1 else 0),
                            snd (line_churn ls) + (if hd l = CHR ''-'' then 1 else 0))"
  by (simp add: line_churn_def)

text \<open>Counting one line is what appending it to the pending payload does to the abstraction.\<close>

lemma count_line_abs:
  assumes "list_all payload_line ls" "payload_line l"
  shows "count_line l (abs_diff (hs @ [h\<lparr>rh_Payload := unlines ls\<rparr>])) =
    abs_diff (hs @ [h\<lparr>rh_Payload := unlines ls @ l @ [newline]\<rparr>])"
proof -
  have "hunkPayloadChurn (unlines (ls @ [l])) = line_churn (ls @ [l])"
    using assms by (intro hunkPayloadChurn_unlines) simp
  then have churn: "hunkPayloadChurn (unlines ls @ l @ [newline]) = line_churn (ls @ [l])" by simp
  from assms(2) show ?thesis
    by (cases rule: payload_line_cases)
      (simp_all add: abs_diff_snoc Let_def count_line_def abs_hunk_def
        hunkPayloadChurn_unlines [OF assms(1)] churn line_churn_snoc)
qed

lemma header_ranges_sim:
  "sim (=) (header_ranges M line) (header_ranges M' line)"
  by (auto simp: header_ranges_def bindE_def wrapE_def split: option.splits sum.splits)

lemma header_sim:
  assumes "ds_ud ds = abs_diff (st_hunks st)"
  shows "sim parsers_rel (patch_header line st) (diff_header line ds)"
  using header_ranges_sim [of ErrMalformedPatch line ErrMalformedUnifiedDiff]
proof (cases rule: rel_sum.cases)
  case (2 m m')
  obtain a b c d where m: "m' = (a, b, c, d)" by (cases m')
  with 2 have r: "header_ranges ErrMalformedPatch line = Inr (a, b, c, d)"
    "header_ranges ErrMalformedUnifiedDiff line = Inr (a, b, c, d)" by simp_all
  note bs = header_ranges_bounds [OF r(1)]
  have u: "uint (word_of_int a :: u64) = a" "uint (word_of_int b :: u64) = b"
    "uint (word_of_int c :: u64) = c" "uint (word_of_int d :: u64) = d"
    using bs by (simp_all only: uint_word_of_int_63)
  show ?thesis using r assms
    by (auto simp: patch_header_def diff_header_def parsers_rel_def pending_def abs_diff_snoc abs_hunk_def u Let_def
        intro: exI [of _ "[]"])
qed (simp add: patch_header_def diff_header_def)

lemma payload_counts_sim: "sim (=) (payload_counts M l a b) (payload_counts M' l a b)"
  by (simp add: payload_counts_def)

lemma step_sim:
  assumes R: "parsers_rel st ds" and "newline \<notin> set line" "\<not> has_prefix line [backslash]"
  shows "sim parsers_rel (patch_step st line) (diff_step ds line)"
proof (cases "has_prefix line ''@@''")
  case True
  show ?thesis
  proof (cases "st_cur st")
    case None
    with True R show ?thesis
      by (simp add: patch_step_def diff_step_def patch_flush_def parsers_rel_def pending_def header_sim)
  next
    case (Some h)
    let ?st = "st\<lparr>st_hunks := st_hunks st @ [h\<lparr>rh_Payload := st_payload st\<rparr>]\<rparr>"
    have "sim parsers_rel (patch_header line ?st) (diff_header line ds)"
      using R Some by (intro header_sim) (simp add: parsers_rel_def pending_def)
    with True R Some show ?thesis
      by (simp add: patch_step_def diff_step_def patch_flush_def parsers_rel_def)
  qed
next
  case at: False
  show ?thesis
  proof (cases "st_cur st")
    case None
    with at R show ?thesis by (simp add: patch_step_def diff_step_def parsers_rel_def pending_def)
  next
    case (Some h)
    have bs: "\<not> (line \<noteq> [] \<and> hd line = backslash)" using assms(3) by (cases line) auto
    have ds: "ds_inHunk ds" "ds_old ds = st_old st" "ds_new ds = st_new st"
      using R Some by (simp_all add: parsers_rel_def)
    obtain ls where ls: "st_payload st = unlines ls" "list_all payload_line ls"
      using R by (auto simp: parsers_rel_def)
    have ud: "ds_ud ds = abs_diff (st_hunks st @ [h\<lparr>rh_Payload := unlines ls\<rparr>])"
      using R Some ls by (simp add: parsers_rel_def pending_def)
    show ?thesis
    proof (cases "st_old st = 0 \<and> st_new st = 0")
      case True
      with at Some bs ds ls ud show ?thesis
        by (auto simp: patch_step_def diff_step_def patch_flush_def parsers_rel_def pending_def)
    next
      case False
      show ?thesis
      proof (cases "line = []")
        case True
        with at Some ds False show ?thesis by (auto simp: patch_step_def diff_step_def)
      next
        case ne: False
        let ?k = "\<lambda>M. payload_counts M line (st_old st) (st_new st)"
        let ?p = "\<lambda>(old, new). Inr (st\<lparr>st_payload := st_payload st @ line @ [newline], st_old := old,
          st_new := new, st_last := hd line\<rparr>) :: patch_state result"
        let ?d = "\<lambda>(old, new). Inr (ds\<lparr>ds_ud := count_line line (ds_ud ds), ds_old := old, ds_new := new\<rparr>) :: diff_state result"
        have p: "patch_step st line = bindE (?k ErrMalformedPatch) ?p"
          using at Some bs ne False by (auto simp: patch_step_def)
        have d: "diff_step ds line = bindE (?k ErrMalformedUnifiedDiff) ?d"
          using at ds bs ne False by (auto simp: diff_step_def)
        show ?thesis
        proof (cases "?k ErrMalformedPatch")
          case (Inl e)
          with payload_counts_sim [of ErrMalformedPatch line "st_old st" "st_new st" ErrMalformedUnifiedDiff]
          obtain e' where "?k ErrMalformedUnifiedDiff = Inl e'" by (auto elim: rel_sum.cases)
          with Inl p d show ?thesis by simp
        next
          case (Inr on)
          with payload_counts_sim [of ErrMalformedPatch line "st_old st" "st_new st" ErrMalformedUnifiedDiff]
          have Inr': "?k ErrMalformedUnifiedDiff = Inr on" by (auto elim: rel_sum.cases)
          obtain old new where on: "on = (old, new)" by (cases on)
          have pl: "payload_line line"
            using payload_counts_Inr(1) [of ErrMalformedPatch line _ _ old new] Inr on ne assms(2) by blast
          have "\<exists>ls'. unlines ls @ line @ [newline] = unlines ls' \<and> list_all payload_line ls'"
            using ls(2) pl by (intro exI [of _ "ls @ [line]"]) simp
          then show ?thesis using p d Inr Inr' on ls ud ds Some count_line_abs [OF ls(2) pl]
            by (simp add: parsers_rel_def pending_def)
        qed
      qed
    qed
  qed
qed

lemma parsers_agree:
  assumes "\<forall>l\<in>set (lines_of raw). \<not> has_prefix l [backslash]"
  shows "sim (\<lambda>hs ud. ud = abs_diff hs) (ParseUnifiedPatch raw) (ParseUnifiedDiff raw)"
  unfolding ParseUnifiedPatch_def ParseUnifiedDiff_def
proof (rule sim_bindE)
  show "sim parsers_rel (foldE patch_step patch_init (lines_of raw)) (foldE diff_step diff_init (lines_of raw))"
  proof (rule foldE_sim)
    show "parsers_rel patch_init diff_init"
      by (auto simp: parsers_rel_def patch_init_def diff_init_def pending_def abs_diff_def intro: exI [of _ "[]"])
  next
    fix s t x assume "x \<in> set (lines_of raw)" "parsers_rel s t"
    with assms show "sim parsers_rel (patch_step s x) (diff_step t x)"
      by (intro step_sim) (auto dest: lines_of_no_newline)
  qed
next
  fix st ds assume "parsers_rel st ds"
  then show "sim (\<lambda>hs ud. ud = abs_diff hs) (bindE (patch_flush st) (\<lambda>st. Inr (st_hunks st)))
     (if ds_inHunk ds \<and> (ds_old ds \<noteq> 0 \<or> ds_new ds \<noteq> 0)
       then Inl (unaccounted ''%w: final hunk ended with %d old / %d new lines unaccounted''
              ErrMalformedUnifiedDiff (ds_old ds) (ds_new ds))
       else Inr (ds_ud ds))"
    by (cases "st_cur st") (auto simp: parsers_rel_def patch_flush_def pending_def)
qed

section \<open>Printing a \<open>cat-file\<close> batch\<close>

definition object_ok :: "cat_file_object \<Rightarrow> bool" where
  "object_ok ob \<longleftrightarrow> token (cf_OID ob) \<and>
     (if cf_Missing ob then cf_Type ob = [] \<and> cf_Size ob = 0 \<and> cf_Data ob = []
      else token (cf_Type ob) \<and> cf_Size ob = int (length (cf_Data ob)) \<and> cf_Size ob < 2 ^ 63)"

definition render_object :: "cat_file_object \<Rightarrow> bytes" where
  "render_object ob =
     (if cf_Missing ob then cf_OID ob @ '' missing'' @ [newline]
      else cf_OID ob @ '' '' @ cf_Type ob @ '' '' @ dec_digits (length (cf_Data ob)) @ [newline] @
           cf_Data ob @ [newline])"

lemma token_no_newline: "list_all token_char w \<Longrightarrow> newline \<notin> set w"
  by (auto simp: list_all_iff token_char_def ascii_space_def newline_def)

lemma ParseInt_digits: "n < 2 ^ 63 \<Longrightarrow> ParseInt (dec_digits n) = Inr (int n)"
  using digits_no_sign [OF dec_digits_digits [of n]] dec_digits_digits [of n]
  by (simp add: ParseInt_def parse_int_def)

lemma cat_record_object:
  assumes "object_ok ob" "\<not> cf_Missing ob"
  shows "cat_record (cf_OID ob @ '' '' @ cf_Type ob @ '' '' @ dec_digits (length (cf_Data ob)))
    (cf_Data ob @ newline # rest) = Inr (ob, rest)"
proof -
  have "token (dec_digits (length (cf_Data ob)))" by (simp add: token_def dec_digits_token)
  with assms have "Fields (cf_OID ob @ '' '' @ cf_Type ob @ '' '' @ dec_digits (length (cf_Data ob))) =
      [cf_OID ob, cf_Type ob, dec_digits (length (cf_Data ob))]"
    by (simp add: object_ok_def Fields_tokens)
  then show ?thesis using assms
    by (simp add: cat_record_def object_ok_def bad_size_def size_of_def ParseInt_digits Let_def nth_append)
qed

lemma cat_record_missing:
  assumes "object_ok ob" "cf_Missing ob"
  shows "cat_record (cf_OID ob @ '' missing'') rest = Inr (ob, rest)"
proof -
  have "token ''missing''" by (simp add: token_def token_char_def ascii_space_def)
  with assms have "Fields (cf_OID ob @ CHR '' '' # ''missing'') = [cf_OID ob, ''missing'']"
    by (intro Fields_tokens) (simp_all add: object_ok_def)
  then show ?thesis using assms by (simp add: cat_record_def object_ok_def)
qed

lemma ParseCatFileBatch_step:
  assumes "newline \<notin> set header" "cat_record header data = Inr (ob, rest)"
  shows "ParseCatFileBatch (header @ newline # data) = bindE (ParseCatFileBatch rest) (\<lambda>obs. Inr (ob # obs))"
proof -
  have "takeWhile (\<lambda>c. c \<noteq> newline) (header @ newline # data) = header"
    using assms(1) by (auto simp: takeWhile_append takeWhile_eq_all_conv)
  then show ?thesis using assms(2) by (subst ParseCatFileBatch.simps) (simp add: Let_def)
qed

lemma ParseCatFileBatch_render:
  "list_all object_ok obs \<Longrightarrow> ParseCatFileBatch (concat (map render_object obs)) = Inr obs"
proof (induction obs)
  case Nil
  then show ?case by (simp add: ParseCatFileBatch.simps)
next
  case (Cons ob obs)
  let ?rest = "concat (map render_object obs)"
  have tok: "newline \<notin> set (cf_OID ob)" "\<not> cf_Missing ob \<Longrightarrow> newline \<notin> set (cf_Type ob)"
    using Cons.prems by (auto simp: object_ok_def token_def token_no_newline)
  show ?case
  proof (cases "cf_Missing ob")
    case True
    then have "newline \<notin> set (cf_OID ob @ '' missing'')" using tok by (simp add: newline_def)
    from ParseCatFileBatch_step [OF this cat_record_missing] True Cons show ?thesis
      by (simp add: render_object_def)
  next
    case False
    let ?header = "cf_OID ob @ '' '' @ cf_Type ob @ '' '' @ dec_digits (length (cf_Data ob))"
    have "newline \<notin> set ?header"
      using tok False dec_digits_no_newline by (simp add: newline_def)
    from ParseCatFileBatch_step [OF this cat_record_object] False Cons show ?thesis
      by (simp add: render_object_def)
  qed
qed

section \<open>Properties\<close>

text \<open>
  C15: every hunk of a successfully parsed patch is whole: its payload is a sequence of newline-ended
  lines with a context, addition or deletion prefix, the declared ranges account for exactly these
  lines, a side that has lines starts at line 1 or later, the ordinals number the hunks from zero,
  and the churn counted from the payload is the difference of the ranges and within them.
\<close>

theorem ParseUnifiedPatch_sound:
  assumes "ParseUnifiedPatch raw = Inr hs"
  shows "list_all hunk_ok hs \<and> map rh_Ordinal hs = map of_nat [0..<length hs] \<and>
    (\<forall>h\<in>set hs. case hunkPayloadChurn (rh_Payload h) of (additions, deletions) \<Rightarrow>
       additions - deletions = uint (rh_NewLines h) - uint (rh_OldLines h) \<and>
       0 \<le> additions \<and> additions \<le> uint (rh_NewLines h) \<and>
       0 \<le> deletions \<and> deletions \<le> uint (rh_OldLines h))"
  using ParseUnifiedPatch_inv [OF assms] hunk_ok_churn
  by (auto simp: ordinals_def list_all_iff split: prod.splits)

definition sample_src :: hunk_src where
  "sample_src = \<lparr>hs_OldStart = 1, hs_NewStart = 1, hs_Heading = '' f'',
     hs_Body = [(''-a'', True), (''+b'', False), (''+c'', True)]\<rparr>"

definition sample_patch :: bytes where
  "sample_patch = unlines [''diff --git a/x b/x'', ''@@ -1,1 +1,2 @@ f'', ''-a'', no_newline_marker, ''+b'', ''+c'', no_newline_marker]"

lemma sample_src_ok: "src_ok sample_src"
  by (simp add: src_ok_def sample_src_def src_old_def src_new_def payload_line_def newline_def)

lemma dec_digits_small: "n < 10 \<Longrightarrow> dec_digits n = [char_of (48 + n)]"
  by (simp add: dec_digits.simps [of n])

lemma sample_render: "sample_patch = unlines ([''diff --git a/x b/x''] @ concat (map render_hunk [sample_src]))"
  by (simp add: sample_patch_def sample_src_def render_hunk_def render_header_def render_line_def
      src_old_def src_new_def dec_digits_small char_of_def bit_0)

lemma sample_parsed: "ParseUnifiedPatch sample_patch = Inr [denote 0 sample_src]"
  unfolding sample_render using sample_src_ok
  by (subst ParseUnifiedPatch_render) (simp_all add: isDiffPreambleLine_def preamble_prefixes_def newline_def)

lemma ParseUnifiedPatch_sound_witness:
  "list_all hunk_ok [denote 0 sample_src]"
  using ParseUnifiedPatch_sound [OF sample_parsed] by blast

text \<open>
  C22: parsing what Git prints gives the hunks back: any header lines of the known kinds, then any
  hunks with any bodies and markers, are parsed into exactly the hunks they denote, in order.
\<close>

theorem ParseUnifiedPatch_roundtrip:
  assumes "list_all isDiffPreambleLine pre" "\<And>l. l \<in> set pre \<Longrightarrow> newline \<notin> set l" "list_all src_ok ss"
  shows "ParseUnifiedPatch (unlines (pre @ concat (map render_hunk ss))) = Inr (map2 denote [0..<length ss] ss)"
  using ParseUnifiedPatch_render [OF assms] by (simp add: denote_all_def)

lemma ParseUnifiedPatch_roundtrip_witness:
  "ParseUnifiedPatch (unlines ([''index 1..2''] @ concat (map render_hunk [sample_src, sample_src]))) =
     Inr [denote 0 sample_src, denote 1 sample_src]"
  by (subst ParseUnifiedPatch_roundtrip)
    (auto simp: isDiffPreambleLine_def preamble_prefixes_def newline_def sample_src_ok upt_rec)

text \<open>
  C24: on a patch without no-newline markers the counting parser and the strict parser accept the
  same inputs, and the counts are those of the strict parser's hunks.
\<close>

theorem ParseUnifiedDiff_agrees:
  assumes "\<forall>l\<in>set (lines_of raw). \<not> has_prefix l [backslash]"
  shows "case ParseUnifiedPatch raw of
      Inl e \<Rightarrow> \<exists>e'. ParseUnifiedDiff raw = Inl e'
    | Inr hs \<Rightarrow> ParseUnifiedDiff raw = Inr (abs_diff hs)"
  using parsers_agree [OF assms] by (auto elim: rel_sum.cases)

lemma ParseUnifiedDiff_agrees_witness:
  "case ParseUnifiedPatch ''@@ -1'' of
      Inl e \<Rightarrow> \<exists>e'. ParseUnifiedDiff ''@@ -1'' = Inl e'
    | Inr hs \<Rightarrow> ParseUnifiedDiff ''@@ -1'' = Inr (abs_diff hs)"
  by (rule ParseUnifiedDiff_agrees) (simp add: lines_of_def newline_def backslash_def)

text \<open>
  C25: \<open>ParseCatFileBatch\<close> reads back any batch of present and missing objects exactly as Git
  prints it, whatever bytes the objects hold.
\<close>

theorem ParseCatFileBatch_roundtrip:
  assumes "list_all object_ok obs"
  shows "ParseCatFileBatch (concat (map render_object obs)) = Inr obs"
  using assms by (rule ParseCatFileBatch_render)

lemma ParseCatFileBatch_roundtrip_witness:
  "ParseCatFileBatch (concat (map render_object
     [\<lparr>cf_OID = ''ab12'', cf_Type = ''blob'', cf_Size = 2, cf_Data = [newline, CHR 0x00], cf_Missing = False\<rparr>,
      \<lparr>cf_OID = ''cd34'', cf_Type = [], cf_Size = 0, cf_Data = [], cf_Missing = True\<rparr>])) =
   Inr [\<lparr>cf_OID = ''ab12'', cf_Type = ''blob'', cf_Size = 2, cf_Data = [newline, CHR 0x00], cf_Missing = False\<rparr>,
      \<lparr>cf_OID = ''cd34'', cf_Type = [], cf_Size = 0, cf_Data = [], cf_Missing = True\<rparr>]"
  by (rule ParseCatFileBatch_roundtrip) (simp add: object_ok_def token_def token_char_def ascii_space_def)

section \<open>The marker behind a last line\<close>

definition ends_marked :: "hunk_src \<Rightarrow> bool" where
  "ends_marked s \<longleftrightarrow> hs_Body s \<noteq> [] \<and> snd (last (hs_Body s))"

definition past_range :: gerror where
  "past_range = Err ''%w: payload line %q past declared hunk range'' [AWrap ErrMalformedUnifiedDiff, AStr no_newline_marker]"

lemma marker_line: "no_newline_marker \<noteq> []" "hd no_newline_marker = backslash" "\<not> has_prefix no_newline_marker ''@@''"
  "\<not> isDiffPreambleLine no_newline_marker"
  by (simp_all add: no_newline_marker_def backslash_def isDiffPreambleLine_def preamble_prefixes_def)

text \<open>The body of a hunk, seen by the counting parser that has so far counted the lines \<open>ls\<close> of it.\<close>

lemma diff_step_payload:
  assumes "payload_line l" "ds_inHunk ds" "old_count [l] \<le> ds_old ds" "new_count [l] \<le> ds_new ds"
  shows "diff_step ds l = Inr (ds\<lparr>ds_ud := count_line l (ds_ud ds), ds_old := ds_old ds - old_count [l],
    ds_new := ds_new ds - new_count [l]\<rparr>)"
proof -
  have "hd l \<noteq> backslash"
    using assms(1) by (cases rule: payload_line_cases) (simp_all add: backslash_def)
  moreover have "ds_old ds \<noteq> 0 \<or> ds_new ds \<noteq> 0"
    using assms(1,3,4) by (cases rule: payload_line_cases) simp_all
  ultimately show ?thesis
    using assms(1,2) not_at_prefix [OF assms(1)] payload_counts_room [OF assms(1,3,4)]
    by (elim disjE) (simp_all add: diff_step_def del: counts_simps)
qed

lemma diff_step_marker:
  assumes "ds_inHunk ds"
  shows "diff_step ds no_newline_marker = (if ds_old ds = 0 \<and> ds_new ds = 0 then Inl past_range else Inr ds)"
  using assms by (simp add: diff_step_def marker_line past_range_def)

lemma diff_body_steps:
  assumes "list_all payload_line ls" and "list_all payload_line (map fst body)" and "ds_inHunk ds"
    and "ds_ud ds = abs_diff (hs @ [h\<lparr>rh_Payload := unlines ls\<rparr>])"
    and "ds_old ds = old_count (map fst body)" and "ds_new ds = new_count (map fst body)"
  shows "foldE diff_step ds (concat (map render_line body)) =
    (if body \<noteq> [] \<and> snd (last body) then Inl past_range
     else Inr (ds\<lparr>ds_ud := abs_diff (hs @ [h\<lparr>rh_Payload := unlines (ls @ map fst body)\<rparr>]), ds_old := 0, ds_new := 0\<rparr>))"
  using assms
proof (induction body arbitrary: ds ls)
  case Nil
  then show ?case by (cases ds) simp
next
  case (Cons lm body)
  obtain l m where lm: "lm = (l, m)" by (cases lm)
  have l: "payload_line l" and body: "list_all payload_line (map fst body)" using Cons.prems(2) lm by simp_all
  let ?ds = "ds\<lparr>ds_ud := abs_diff (hs @ [h\<lparr>rh_Payload := unlines (ls @ [l])\<rparr>]),
    ds_old := old_count (map fst body), ds_new := new_count (map fst body)\<rparr>"
  have "count_line l (ds_ud ds) = abs_diff (hs @ [h\<lparr>rh_Payload := unlines (ls @ [l])\<rparr>])"
    using count_line_abs [OF Cons.prems(1) l] Cons.prems(4) by simp
  moreover have "ds_old ds = old_count [l] + old_count (map fst body)" "ds_new ds = new_count [l] + new_count (map fst body)"
    using Cons.prems(5,6) lm by simp_all
  ultimately have step: "diff_step ds l = Inr ?ds"
    using diff_step_payload [OF l Cons.prems(3)] by (simp del: counts_simps)
  have IH: "foldE diff_step ?ds (concat (map render_line body)) =
    (if body \<noteq> [] \<and> snd (last body) then Inl past_range
     else Inr (?ds\<lparr>ds_ud := abs_diff (hs @ [h\<lparr>rh_Payload := unlines ((ls @ [l]) @ map fst body)\<rparr>]), ds_old := 0, ds_new := 0\<rparr>))"
    using Cons.prems(1,3) l body by (intro Cons.IH) simp_all
  have more: "old_count (map fst body) \<noteq> 0 \<or> new_count (map fst body) \<noteq> 0" if "body \<noteq> []"
  proof -
    obtain x xs where xs: "map fst body = x # xs" using \<open>body \<noteq> []\<close> by (cases "map fst body") auto
    have "0 \<le> old_count xs" "0 \<le> new_count xs" by simp_all
    then show ?thesis unfolding xs counts_simps by (cases "hd x = CHR ''+''") (simp_all del: counts_nonneg)
  qed
  have "foldE diff_step ?ds (if m then [no_newline_marker] else []) =
    (if m \<and> body = [] then Inl past_range else Inr ?ds)"
    using more Cons.prems(3) by (auto simp: diff_step_marker)
  moreover have "render_line lm = l # (if m then [no_newline_marker] else [])" by (simp add: lm render_line_def)
  ultimately show ?case using step IH lm by (auto simp: foldE_append)
qed

text \<open>Whole hunks: \<open>hs\<close> are those counted before.\<close>

definition between :: "diff_state \<Rightarrow> raw_hunk list \<Rightarrow> bool" where
  "between ds hs \<longleftrightarrow> ds_ud ds = abs_diff hs \<and> (ds_inHunk ds \<longrightarrow> ds_old ds = 0 \<and> ds_new ds = 0)"

lemma diff_hunk_steps:
  assumes "between ds hs" and ok: "src_ok s"
  shows "if ends_marked s then foldE diff_step ds (render_hunk s) = Inl past_range
    else \<exists>ds'. foldE diff_step ds (render_hunk s) = Inr ds' \<and> between ds' (hs @ [denote (length hs) s])"
proof -
  have small: "hs_OldStart s < 2 ^ 64" "hs_NewStart s < 2 ^ 64" "src_old s < 2 ^ 64" "src_new s < 2 ^ 64"
    using ok src_counts_bound [OF ok] by (auto simp: src_ok_def)
  let ?h = "(denote (length hs) s)\<lparr>rh_Payload := unlines []\<rparr>"
  let ?ds = "ds\<lparr>ds_ud := abs_diff (hs @ [?h]), ds_old := int (src_old s), ds_new := int (src_new s), ds_inHunk := True\<rparr>"
  have "abs_diff (hs @ [?h]) = (abs_diff hs)\<lparr>ud_Hunks := ud_Hunks (abs_diff hs) @ [\<lparr>dh_OldStart = int (hs_OldStart s),
      dh_OldLines = int (src_old s), dh_NewStart = int (hs_NewStart s), dh_NewLines = int (src_new s),
      dh_Additions = 0, dh_Deletions = 0\<rparr>]\<rparr>"
    using small by (simp add: abs_diff_snoc abs_hunk_def denote_def Let_def unsigned_of_nat take_bit_nat_eq_self)
  then have head: "diff_step ds (render_header s) = Inr ?ds"
    using assms(1) by (auto simp: diff_step_def render_header_at diff_header_def header_ranges_render [OF ok] between_def Let_def)
  have "foldE diff_step ?ds (concat (map render_line (hs_Body s))) =
    (if hs_Body s \<noteq> [] \<and> snd (last (hs_Body s)) then Inl past_range
     else Inr (?ds\<lparr>ds_ud := abs_diff (hs @ [(denote (length hs) s)\<lparr>rh_Payload := unlines ([] @ map fst (hs_Body s))\<rparr>]), ds_old := 0, ds_new := 0\<rparr>))"
    using ok by (intro diff_body_steps) (simp_all add: src_ok_def src_old_def src_new_def)
  moreover have "(denote (length hs) s)\<lparr>rh_Payload := unlines (map fst (hs_Body s))\<rparr> = denote (length hs) s" by (simp add: denote_def)
  ultimately show ?thesis using head by (auto simp: render_hunk_def ends_marked_def between_def)
qed

lemma diff_hunks_steps:
  assumes "between ds hs" and "list_all src_ok ss"
  shows "if list_ex ends_marked ss then foldE diff_step ds (concat (map render_hunk ss)) = Inl past_range
    else \<exists>ds'. foldE diff_step ds (concat (map render_hunk ss)) = Inr ds' \<and> between ds' (hs @ denote_all (length hs) ss)"
  using assms
proof (induction ss arbitrary: ds hs)
  case (Cons s ss)
  then have s: "src_ok s" "list_all src_ok ss" by simp_all
  show ?case
  proof (cases "ends_marked s")
    case True
    then show ?thesis using diff_hunk_steps [OF Cons.prems(1) s(1)] by (simp add: foldE_append)
  next
    case False
    then obtain ds' where ds': "foldE diff_step ds (render_hunk s) = Inr ds'" "between ds' (hs @ [denote (length hs) s])"
      using diff_hunk_steps [OF Cons.prems(1) s(1)] by auto
    show ?thesis using Cons.IH [OF ds'(2) s(2)] ds'(1) False by (auto simp: foldE_append split: if_splits)
  qed
qed simp

lemma diff_preamble_steps: "list_all isDiffPreambleLine pre \<Longrightarrow> foldE diff_step diff_init pre = Inr diff_init"
proof (induction pre)
  case (Cons l pre)
  then have "diff_step diff_init l = Inr diff_init"
    by (simp add: diff_step_def preamble_not_at diff_init_def)
  with Cons show ?case by simp
qed simp

text \<open>
  C32: The two parsers differ on the no-newline marker, exactly where it stands behind the last line of a hunk.  The
  strict parser reads back any printed patch.  The counting parser agrees with it on the ranges and
  the churn if no hunk ends with a marker; otherwise it rejects the whole patch, taking the marker for
  a payload line past the declared range.
\<close>

theorem trailing_marker_rejected:
  assumes "list_all isDiffPreambleLine pre" and "\<And>l. l \<in> set pre \<Longrightarrow> newline \<notin> set l" and "list_all src_ok ss"
    and "raw = unlines (pre @ concat (map render_hunk ss))"
  shows "ParseUnifiedPatch raw = Inr (denote_all 0 ss) \<and>
    ParseUnifiedDiff raw = (if \<exists>s\<in>set ss. hs_Body s \<noteq> [] \<and> snd (last (hs_Body s))
      then Inl (Err ''%w: payload line %q past declared hunk range'' [AWrap ErrMalformedUnifiedDiff, AStr no_newline_marker])
      else Inr (abs_diff (denote_all 0 ss)))"
proof
  show "ParseUnifiedPatch raw = Inr (denote_all 0 ss)" unfolding assms(4) by (rule ParseUnifiedPatch_render [OF assms(1-3)])
  have lines: "lines_of raw = pre @ concat (map render_hunk ss)"
    unfolding assms(4) using assms(2,3) render_hunk_no_newline by (intro lines_of_unlines) (auto simp: list_all_iff)
  have "between diff_init []" by (simp add: between_def diff_init_def abs_diff_def)
  note steps = diff_hunks_steps [OF this assms(3)]
  have ex: "list_ex ends_marked ss \<longleftrightarrow> (\<exists>s\<in>set ss. hs_Body s \<noteq> [] \<and> snd (last (hs_Body s)))"
    by (simp add: list_ex_iff ends_marked_def)
  show "ParseUnifiedDiff raw = (if \<exists>s\<in>set ss. hs_Body s \<noteq> [] \<and> snd (last (hs_Body s))
      then Inl (Err ''%w: payload line %q past declared hunk range'' [AWrap ErrMalformedUnifiedDiff, AStr no_newline_marker])
      else Inr (abs_diff (denote_all 0 ss)))"
    using steps unfolding ex [symmetric] past_range_def [symmetric] ParseUnifiedDiff_def lines
    by (auto simp: foldE_append diff_preamble_steps [OF assms(1)] between_def split: if_splits)
qed

theorem trailing_marker_rejected_witness:
  "ParseUnifiedPatch sample_patch = Inr [denote 0 sample_src] \<and>
   ParseUnifiedDiff sample_patch =
     Inl (Err ''%w: payload line %q past declared hunk range'' [AWrap ErrMalformedUnifiedDiff, AStr no_newline_marker])"
proof -
  have "list_all isDiffPreambleLine [''diff --git a/x b/x'']" by (simp add: isDiffPreambleLine_def preamble_prefixes_def)
  moreover have "newline \<notin> set l" if "l \<in> set [''diff --git a/x b/x'']" for l using that by (simp add: newline_def)
  moreover have "list_all src_ok [sample_src]" by (simp add: sample_src_ok)
  moreover have "hs_Body sample_src \<noteq> [] \<and> snd (last (hs_Body sample_src))" by (simp add: sample_src_def)
  ultimately show ?thesis using trailing_marker_rejected [OF _ _ _ sample_render] by simp
qed

end
