(* ===== verification/Pack.thy ===== *)
theory Pack
  imports Roles Diff
begin

text \<open>
  The packer of \<open>internal/review/plan.go\<close>: the hunks of one layer are put greedily into units whose
  changed lines and whose mandatory JSON stay within the caps.  A hunk over the line cap is a unit of
  its own, a hunk whose JSON alone exceeds the byte cap is left out as unreviewable.  The hash \<open>H\<close>
  is a parameter.  Go's encoder cannot fail on these records and \<open>makePackedUnit\<close> returns no error,
  so the only errors of \<open>PackReviewPartition\<close> are those of its caps.
\<close>

section \<open>Units\<close>

definition UnitKindNormal :: string where [simp]: "UnitKindNormal = ''normal''"
definition UnitKindOversizedAtomic :: string where [simp]: "UnitKindOversizedAtomic = ''oversized_atomic''"

record pack_hunk =
  ph_Path :: raw_path_record
  ph_PathID :: string
  ph_Hunk :: raw_hunk
  ph_HunkID :: stable_id
  ph_GroupKey :: string
  ph_Signals :: "string list"

record packed_unit =
  pu_Kind :: string
  pu_Unit :: review_unit
  pu_UnitStable :: stable_id
  pu_HunkIDs :: "stable_id list"
  pu_Hunks :: "raw_hunk list"
  pu_PathIDs :: "string list"
  pu_SignalIDs :: "string list"

definition placeholderID :: "string \<Rightarrow> nat \<Rightarrow> string" where
  "placeholderID prefix n = prefix @ replicate n (CHR ''0'')"

definition fixedOrPlaceholder :: "string \<Rightarrow> string \<Rightarrow> nat \<Rightarrow> string" where
  "fixedOrPlaceholder value prefix n = (if length value = length prefix + n then value else placeholderID prefix n)"

definition pack_path_id :: "string \<Rightarrow> pack_hunk \<Rightarrow> string" where
  "pack_path_id defaultPathID item = (if ph_PathID item \<noteq> [] then ph_PathID item
     else if defaultPathID \<noteq> [] then defaultPathID else placeholderID ''p_'' 32)"

definition pack_hunk_id :: "(bytes \<Rightarrow> digest) \<Rightarrow> string \<Rightarrow> pack_hunk \<Rightarrow> stable_id" where
  "pack_hunk_id H defaultPathID item = (if Public (ph_HunkID item) = []
     then public_id HunkIDPrefixV1 (H (frame [(''path'', pack_path_id defaultPathID item), (''hunk'', hunk_frame H (ph_Hunk item))]))
       PublicIDContentBytesV1
     else ph_HunkID item)"

definition pack_unit_hunk :: "(bytes \<Rightarrow> digest) \<Rightarrow> string \<Rightarrow> pack_hunk \<Rightarrow> unit_hunk" where
  "pack_unit_hunk H defaultPathID item =
     \<lparr>uh_HunkID = Public (pack_hunk_id H defaultPathID item), uh_PathID = pack_path_id defaultPathID item,
      uh_OldPath = rp_OldPath (ph_Path item), uh_NewPath = rp_NewPath (ph_Path item), uh_Status = rp_Status (ph_Path item),
      uh_Ordinal = sint (rh_Ordinal (ph_Hunk item)), uh_OldStart = sint (rh_OldStart (ph_Hunk item)),
      uh_OldCount = sint (rh_OldLines (ph_Hunk item)), uh_NewStart = sint (rh_NewStart (ph_Hunk item)),
      uh_NewCount = sint (rh_NewLines (ph_Hunk item)), uh_NoFinalNewlineOld = rh_NoFinalNewlineOld (ph_Hunk item),
      uh_NoFinalNewlineNew = rh_NoFinalNewlineNew (ph_Hunk item), uh_PatchBase64 = b64_encode (rh_Payload (ph_Hunk item))\<rparr>"

text \<open>The arguments of one partition.\<close>

record partition =
  pt_Scope :: scope
  pt_DefaultPathID :: string
  pt_CohortID :: string
  pt_LayerID :: string
  pt_LineCap :: int
  pt_MandatoryCap :: int

definition makePackedUnit :: "(bytes \<Rightarrow> digest) \<Rightarrow> partition \<Rightarrow> string \<Rightarrow> pack_hunk list \<Rightarrow> packed_unit" where
  "makePackedUnit H pt kind hunks = (let
       hunkIDs = map (pack_hunk_id H (pt_DefaultPathID pt)) hunks;
       stable = UnitID H kind hunkIDs
     in \<lparr>pu_Kind = kind,
         pu_Unit = \<lparr>ru_Schema = UnitSchemaV1, ru_ReviewID = placeholderID ''rvw_'' 40, ru_UnitID = Public stable,
           ru_CohortID = fixedOrPlaceholder (pt_CohortID pt) ''c_'' 32,
           ru_LayerID = fixedOrPlaceholder (pt_LayerID pt) ''l_'' 32,
           ru_ScopeKind = sc_Kind (pt_Scope pt), ru_ObjectFormat = sc_ObjectFormat (pt_Scope pt),
           ru_Base = sc_Base (pt_Scope pt), ru_Head = sc_Head (pt_Scope pt),
           ru_Hunks = map (pack_unit_hunk H (pt_DefaultPathID pt)) hunks\<rparr>,
         pu_UnitStable = stable, pu_HunkIDs = hunkIDs, pu_Hunks = map ph_Hunk hunks,
         pu_PathIDs = sortedUniqueStrings (map (pack_path_id (pt_DefaultPathID pt)) hunks),
         pu_SignalIDs = sortedUniqueStrings (concat (map ph_Signals hunks))\<rparr>)"

definition MandatoryUnitFits :: "review_unit \<Rightarrow> int \<Rightarrow> bool \<times> int" where
  "MandatoryUnitFits u capBytes = (let n = int (length (CanonicalMandatoryJSON u)) in (n \<le> capBytes, n))"

definition packChangedLines :: "pack_hunk list \<Rightarrow> int" where
  "packChangedLines hunks =
     sum_list (map (\<lambda>h. case hunkPayloadChurn (rh_Payload (ph_Hunk h)) of (additions, deletions) \<Rightarrow> additions + deletions) hunks)"

definition packGroups :: "pack_hunk list \<Rightarrow> pack_hunk list list" where
  "packGroups hunks = map (\<lambda>h. [h]) hunks"

section \<open>Packing\<close>

record pack_state =
  pk_packed :: "packed_unit list"
  pk_large :: "raw_hunk list"
  pk_current :: "pack_hunk list"

definition pack_flush :: "(bytes \<Rightarrow> digest) \<Rightarrow> partition \<Rightarrow> string \<Rightarrow> pack_state \<Rightarrow> pack_state" where
  "pack_flush H pt kind st = (if pk_current st = [] then st
     else st\<lparr>pk_packed := pk_packed st @ [makePackedUnit H pt kind (pk_current st)], pk_current := []\<rparr>)"

definition unit_fits :: "(bytes \<Rightarrow> digest) \<Rightarrow> partition \<Rightarrow> pack_hunk list \<Rightarrow> bool" where
  "unit_fits H pt hunks = fst (MandatoryUnitFits (pu_Unit (makePackedUnit H pt UnitKindNormal hunks)) (pt_MandatoryCap pt))"

definition pack_group :: "(bytes \<Rightarrow> digest) \<Rightarrow> partition \<Rightarrow> pack_hunk list \<Rightarrow> pack_state \<Rightarrow> pack_state" where
  "pack_group H pt grp st =
     (if \<not> unit_fits H pt grp then
        (let st = pack_flush H pt UnitKindNormal st in st\<lparr>pk_large := pk_large st @ map ph_Hunk grp\<rparr>)
      else if packChangedLines grp > pt_LineCap pt then
        (let st = pack_flush H pt UnitKindNormal st
         in pack_flush H pt UnitKindOversizedAtomic (st\<lparr>pk_current := pk_current st @ grp\<rparr>))
      else let candidate = pk_current st @ grp in
        if pk_current st \<noteq> [] \<and> (packChangedLines candidate > pt_LineCap pt \<or> \<not> unit_fits H pt candidate)
        then (pack_flush H pt UnitKindNormal st)\<lparr>pk_current := grp\<rparr>
        else st\<lparr>pk_current := candidate\<rparr>)"

definition PackReviewPartition ::
    "(bytes \<Rightarrow> digest) \<Rightarrow> partition \<Rightarrow> pack_hunk list \<Rightarrow> (packed_unit list \<times> raw_hunk list) result" where
  "PackReviewPartition H pt hunks =
     (if pt_LineCap pt \<le> 0 \<or> pt_MandatoryCap pt \<le> 0 then Inl (err ''review: non-positive packing cap'')
      else let st = pack_flush H pt UnitKindNormal
             (fold (pack_group H pt) (packGroups hunks) \<lparr>pk_packed = [], pk_large = [], pk_current = []\<rparr>)
        in Inr (pk_packed st, pk_large st))"

section \<open>The size of a unit does not depend on its kind\<close>

lemma hex_encode_safe: "list_all ascii_safe (hex_encode bs)"
proof -
  have "\<forall>c\<in>set hex_alphabet. ascii_safe c" by (simp add: hex_alphabet_def ascii_safe_def quote_def backslash_def)
  then show ?thesis using hex_encode_alphabet by (auto simp: list_all_iff)
qed

lemma public_id_safe: "list_all ascii_safe p \<Longrightarrow> list_all ascii_safe (Public (public_id p d n))"
  by (simp add: hex_encode_safe)

lemma UnitID_safe: "safe_id (Public (UnitID H kind ids))" "length (Public (UnitID H kind ids)) = 34"
  by (simp_all add: UnitID_def safe_id_def hex_encode_safe ascii_safe_def quote_def backslash_def)

lemma makePackedUnit_simps [simp]:
  "pu_Hunks (makePackedUnit H pt kind hs) = map ph_Hunk hs" "pu_Kind (makePackedUnit H pt kind hs) = kind"
  "pu_HunkIDs (makePackedUnit H pt kind hs) = map (pack_hunk_id H (pt_DefaultPathID pt)) hs"
  "pu_UnitStable (makePackedUnit H pt kind hs) = UnitID H kind (map (pack_hunk_id H (pt_DefaultPathID pt)) hs)"
  "ru_Hunks (pu_Unit (makePackedUnit H pt kind hs)) = map (pack_unit_hunk H (pt_DefaultPathID pt)) hs"
  by (simp_all add: makePackedUnit_def Let_def)

definition unit_size :: "packed_unit \<Rightarrow> int" where
  "unit_size u = int (length (CanonicalMandatoryJSON (pu_Unit u)))"

lemma unit_size_kind: "unit_size (makePackedUnit H pt kind hs) = unit_size (makePackedUnit H pt UnitKindNormal hs)"
proof -
  have eq: "length (json_string (Public (UnitID H kind ids))) = length (json_string (Public (UnitID H kind' ids)))" for kind kind' ids
    using UnitID_safe by (simp add: json_string_safe safe_id_def)
  have "length (CanonicalMandatoryJSON (pu_Unit (makePackedUnit H pt kind hs))) =
      length (CanonicalMandatoryJSON (pu_Unit (makePackedUnit H pt UnitKindNormal hs)))"
    unfolding CanonicalMandatoryJSON_def length_append makePackedUnit_def Let_def
    by (intro arg_cong2 [where f = "(+)"] length_json_object) (simp_all add: eq [of kind _ "''normal''"])
  then show ?thesis by (simp add: unit_size_def)
qed

lemma unit_fits_size: "unit_fits H pt hs \<longleftrightarrow> unit_size (makePackedUnit H pt kind hs) \<le> pt_MandatoryCap pt"
  by (simp only: unit_size_kind [of H pt kind]) (simp add: unit_fits_def MandatoryUnitFits_def unit_size_def Let_def)

section \<open>What a unit promises\<close>

text \<open>A unit of a partition: the packing of some hunks, within the caps unless it is one big hunk.\<close>

definition unit_ok :: "(bytes \<Rightarrow> digest) \<Rightarrow> partition \<Rightarrow> packed_unit \<Rightarrow> bool" where
  "unit_ok H pt u \<longleftrightarrow> (\<exists>items. items \<noteq> [] \<and> u = makePackedUnit H pt (pu_Kind u) items \<and>
     unit_size u \<le> pt_MandatoryCap pt \<and>
     (pu_Kind u = UnitKindNormal \<and> packChangedLines items \<le> pt_LineCap pt \<or>
      pu_Kind u = UnitKindOversizedAtomic \<and> length items = 1 \<and> packChangedLines items > pt_LineCap pt))"

definition pack_inv :: "(bytes \<Rightarrow> digest) \<Rightarrow> partition \<Rightarrow> pack_hunk list \<Rightarrow> pack_state \<Rightarrow> bool" where
  "pack_inv H pt seen st \<longleftrightarrow>
     concat (map pu_Hunks (pk_packed st)) @ map ph_Hunk (pk_current st) = map ph_Hunk (filter (\<lambda>h. unit_fits H pt [h]) seen) \<and>
     concat (map pu_HunkIDs (pk_packed st)) @ map (pack_hunk_id H (pt_DefaultPathID pt)) (pk_current st)
       = map (pack_hunk_id H (pt_DefaultPathID pt)) (filter (\<lambda>h. unit_fits H pt [h]) seen) \<and>
     pk_large st = map ph_Hunk (filter (\<lambda>h. \<not> unit_fits H pt [h]) seen) \<and>
     list_all (unit_ok H pt) (pk_packed st) \<and>
     (pk_current st \<noteq> [] \<longrightarrow> packChangedLines (pk_current st) \<le> pt_LineCap pt \<and> unit_fits H pt (pk_current st))"

lemma packed_unit_ok:
  assumes "items \<noteq> []" "unit_fits H pt items" "packChangedLines items \<le> pt_LineCap pt"
  shows "unit_ok H pt (makePackedUnit H pt UnitKindNormal items)"
  using assms unit_fits_size [of H pt items UnitKindNormal] unfolding unit_ok_def makePackedUnit_simps by blast

lemma oversized_unit_ok:
  assumes "unit_fits H pt [h]" "packChangedLines [h] > pt_LineCap pt"
  shows "unit_ok H pt (makePackedUnit H pt UnitKindOversizedAtomic [h])"
  using assms unit_fits_size [of H pt "[h]" UnitKindOversizedAtomic] unfolding unit_ok_def makePackedUnit_simps
  by (intro exI [of _ "[h]"]) simp

lemma pack_flush_inv:
  assumes "pack_inv H pt seen st"
  shows "pack_inv H pt seen (pack_flush H pt UnitKindNormal st)" "pk_current (pack_flush H pt UnitKindNormal st) = []"
  using assms packed_unit_ok [of "pk_current st" H pt] by (auto simp: pack_flush_def pack_inv_def)

lemma flush_alone: "pk_current st = [] \<Longrightarrow>
    pack_flush H pt kind (st\<lparr>pk_current := [h]\<rparr>) = st\<lparr>pk_packed := pk_packed st @ [makePackedUnit H pt kind [h]]\<rparr>"
  by (cases st) (simp add: pack_flush_def)

lemma pack_group_inv:
  assumes inv: "pack_inv H pt seen st"
  shows "pack_inv H pt (seen @ [h]) (pack_group H pt [h] st)"
proof -
  let ?f = "pack_flush H pt UnitKindNormal st"
  note flush = pack_flush_inv [OF inv]
  consider (large) "\<not> unit_fits H pt [h]"
    | (big) "unit_fits H pt [h]" "packChangedLines [h] > pt_LineCap pt"
    | (fits) "unit_fits H pt [h]" "\<not> packChangedLines [h] > pt_LineCap pt" by blast
  then show ?thesis
  proof cases
    case large
    then have "pack_group H pt [h] st = ?f\<lparr>pk_large := pk_large ?f @ [ph_Hunk h]\<rparr>" by (simp add: pack_group_def Let_def)
    with flush large show ?thesis by (simp add: pack_inv_def)
  next
    case big
    then have "pack_group H pt [h] st =
        ?f\<lparr>pk_packed := pk_packed ?f @ [makePackedUnit H pt UnitKindOversizedAtomic [h]]\<rparr>"
      using flush(2) by (simp add: pack_group_def Let_def flush_alone)
    with flush big oversized_unit_ok [OF big] show ?thesis by (simp add: pack_inv_def)
  next
    case fits
    show ?thesis
    proof (cases "pk_current st \<noteq> [] \<and> (packChangedLines (pk_current st @ [h]) > pt_LineCap pt \<or> \<not> unit_fits H pt (pk_current st @ [h]))")
      case True
      then have "pack_group H pt [h] st = ?f\<lparr>pk_current := [h]\<rparr>" using fits by (simp add: pack_group_def Let_def)
      with flush fits show ?thesis by (simp add: pack_inv_def)
    next
      case False
      then have step: "pack_group H pt [h] st = st\<lparr>pk_current := pk_current st @ [h]\<rparr>"
        using fits by (auto simp: pack_group_def Let_def)
      have "packChangedLines (pk_current st @ [h]) \<le> pt_LineCap pt \<and> unit_fits H pt (pk_current st @ [h])"
        using False fits by (cases "pk_current st = []") auto
      with inv fits show ?thesis unfolding step by (simp add: pack_inv_def)
    qed
  qed
qed

lemma pack_all_inv: "pack_inv H pt seen st \<Longrightarrow> pack_inv H pt (seen @ hs) (fold (pack_group H pt) (packGroups hs) st)"
proof (induction hs arbitrary: seen st)
  case (Cons h hs)
  from Cons.IH [OF pack_group_inv [OF Cons.prems, of h]] show ?case by (simp add: packGroups_def)
qed (simp add: packGroups_def)

lemma PackReviewPartition_ok:
  assumes "pt_LineCap pt > 0" "pt_MandatoryCap pt > 0"
  obtains packed large where "PackReviewPartition H pt hunks = Inr (packed, large)"
    "concat (map pu_Hunks packed) = map ph_Hunk (filter (\<lambda>h. unit_fits H pt [h]) hunks)"
    "concat (map pu_HunkIDs packed) = map (pack_hunk_id H (pt_DefaultPathID pt)) (filter (\<lambda>h. unit_fits H pt [h]) hunks)"
    "large = map ph_Hunk (filter (\<lambda>h. \<not> unit_fits H pt [h]) hunks)"
    "list_all (unit_ok H pt) packed"
proof -
  let ?st = "fold (pack_group H pt) (packGroups hunks) \<lparr>pk_packed = [], pk_large = [], pk_current = []\<rparr>"
  have "pack_inv H pt [] \<lparr>pk_packed = [], pk_large = [], pk_current = []\<rparr>" by (simp add: pack_inv_def)
  from pack_all_inv [OF this, of hunks] have "pack_inv H pt hunks ?st" by simp
  note flush = pack_flush_inv [OF this]
  show thesis
    using that [of "pk_packed (pack_flush H pt UnitKindNormal ?st)" "pk_large (pack_flush H pt UnitKindNormal ?st)"] flush assms
    by (simp add: PackReviewPartition_def Let_def pack_inv_def)
qed

text \<open>C11: packing with positive caps succeeds; the units hold the hunks that fit, each once and in order,
  and the rest is reported as too large; every unit is within the byte cap, and within the line cap
  unless it is a single hunk that exceeds it alone.\<close>

theorem PackReviewPartition_partition:
  assumes "pt_LineCap pt > 0" "pt_MandatoryCap pt > 0"
  shows "\<exists>packed large. PackReviewPartition H pt hunks = Inr (packed, large) \<and>
    concat (map pu_Hunks packed) = map ph_Hunk (filter (\<lambda>h. unit_fits H pt [h]) hunks) \<and>
    large = map ph_Hunk (filter (\<lambda>h. \<not> unit_fits H pt [h]) hunks) \<and>
    list_all (unit_ok H pt) packed"
  by (rule PackReviewPartition_ok [OF assms, of H hunks]) blast

definition sample_pack_hunk :: pack_hunk where
  "sample_pack_hunk = \<lparr>ph_Path = sample_record, ph_PathID = ''p_1'', ph_Hunk = sample_hunk,
     ph_HunkID = \<lparr>Public = ''h_1'', Full = 1\<rparr>, ph_GroupKey = [], ph_Signals = []\<rparr>"

definition sample_partition :: "int \<Rightarrow> partition" where
  "sample_partition cap = \<lparr>pt_Scope = sample_scope, pt_DefaultPathID = [], pt_CohortID = [], pt_LayerID = [],
     pt_LineCap = 400, pt_MandatoryCap = cap\<rparr>"

lemma PackReviewPartition_partition_witness:
  "\<exists>packed. PackReviewPartition length_hash (sample_partition 1) [sample_pack_hunk] = Inr (packed, [sample_hunk]) \<and>
     concat (map pu_Hunks packed) = []"
proof -
  have "\<not> unit_fits length_hash (sample_partition 1) [sample_pack_hunk]"
    by (simp add: unit_fits_def MandatoryUnitFits_def Let_def CanonicalMandatoryJSON_def json_object_def sample_partition_def)
  with PackReviewPartition_partition [of "sample_partition 1" length_hash "[sample_pack_hunk]"]
  show ?thesis by (auto simp: sample_partition_def sample_pack_hunk_def)
qed

end
