(* ===== verification/Symbols.thy ===== *)
theory Symbols
  imports Diff Detect
begin

text \<open>
  \<open>internal/review/symbols.go\<close>: mapping the hunks of a changed path to the symbols they touch on both
  sides, coalescing consecutive hunks of the same symbols, and the contract targets of the audits.
  The parsers behind \<open>extract.For\<close> are a parameter: for a language, the symbols of a source or an
  error.
\<close>

section \<open>Data\<close>

definition HunkMappingSymbolAligned :: string where [simp]: "HunkMappingSymbolAligned = ''symbol_aligned''"
definition HunkMappingMultiSymbol :: string where [simp]: "HunkMappingMultiSymbol = ''multi_symbol_atomic''"
definition HunkMappingAtomicFallback :: string where [simp]: "HunkMappingAtomicFallback = ''atomic_fallback''"

record symbol_ref =
  sr_Name :: string
  sr_Kind :: string
  sr_Signature :: string
  sr_Parent :: string
  sr_StartLine :: int
  sr_EndLine :: int

record symbol_omission =
  so_Side :: string
  so_Path :: string
  so_Class :: string

definition SymbolOmissionUnsupported :: string where "SymbolOmissionUnsupported = ''unsupported_language''"
definition SymbolOmissionParseFailed :: string where "SymbolOmissionParseFailed = ''parser_failure''"
definition SymbolOmissionMalformedHunk :: string where "SymbolOmissionMalformedHunk = ''malformed_hunk_payload''"

record hunk_mapping =
  hm_Hunk :: raw_hunk
  hm_Ordinal :: u64
  hm_BaseSymbols :: "symbol_ref list"
  hm_HeadSymbols :: "symbol_ref list"
  hm_BaseDeclarations :: "symbol_ref list"
  hm_HeadDeclarations :: "symbol_ref list"
  hm_SemanticAvailable :: bool
  hm_Kind :: string

record hunk_group =
  hg_Hunks :: "raw_hunk list"
  hg_Mappings :: "hunk_mapping list"
  hg_BaseSymbols :: "symbol_ref list"
  hg_HeadSymbols :: "symbol_ref list"

type_synonym extractor = "bytes \<Rightarrow> symbol_ref list result"

record symbol_mapper =
  sm_Detect :: "(string \<Rightarrow> bytes \<Rightarrow> string) option"
  sm_For :: "string \<Rightarrow> extractor option"

definition detector :: "symbol_mapper \<Rightarrow> string \<Rightarrow> bytes \<Rightarrow> string" where
  "detector m = (case sm_Detect m of None \<Rightarrow> Detect | Some d \<Rightarrow> d)"

section \<open>Symbols of one side\<close>

definition sortSymbolRefs :: "symbol_ref list \<Rightarrow> symbol_ref list" where
  "sortSymbolRefs ss = sort_key (\<lambda>s. (sr_StartLine s, sr_EndLine s, sr_Kind s, sr_Name s, sr_Signature s)) ss"

definition stableSymbolOmissions :: "symbol_omission list \<Rightarrow> symbol_omission list" where
  "stableSymbolOmissions os = sort_key (\<lambda>s. (so_Path s, so_Side s, so_Class s)) os"

text \<open>The symbols or the omission, \<open>Inr\<close> being the \<open>true\<close> result.\<close>

definition extractSide :: "symbol_mapper \<Rightarrow> string \<Rightarrow> string \<Rightarrow> bytes \<Rightarrow> bool \<Rightarrow> symbol_omission + symbol_ref list" where
  "extractSide m side path src present =
     (if \<not> present then Inr []
      else let omission = (\<lambda>class. Inl \<lparr>so_Side = side, so_Path = path, so_Class = class\<rparr>);
               lang = detector m path (take 512 src)
        in if lang = [] then omission SymbolOmissionUnsupported
           else case sm_For m lang of
             None \<Rightarrow> omission SymbolOmissionUnsupported
           | Some extract \<Rightarrow> (case extract src of
               Inl _ \<Rightarrow> omission SymbolOmissionParseFailed
             | Inr symbols \<Rightarrow> Inr (sortSymbolRefs
                 (filter (\<lambda>s. \<not> (sr_StartLine s < 1 \<or> sr_EndLine s < sr_StartLine s)) symbols))))"

section \<open>Lines a hunk changes\<close>

text \<open>
  The counters of seen lines are the machine words of the code, they are compared with the header.  The
  line numbers \<open>ls_old\<close> and \<open>ls_new\<close> are Go \<open>int\<close>s and unbounded here: they start from a parsed 64-bit
  number and grow by one a line, so they wrap only for a hunk that starts within its own length of \<open>2^63\<close>.
\<close>

record line_scan =
  ls_old :: int
  ls_new :: int
  ls_oldLines :: "int list"
  ls_newLines :: "int list"
  ls_oldSeen :: u64
  ls_newSeen :: u64

definition scan_line :: "string \<Rightarrow> line_scan \<Rightarrow> line_scan option" where
  "scan_line line s =
     (if line = [] then Some s
      else if hd line = CHR ''-'' then
        Some (s\<lparr>ls_oldLines := ls_oldLines s @ [ls_old s], ls_old := ls_old s + 1, ls_oldSeen := ls_oldSeen s + 1\<rparr>)
      else if hd line = CHR ''+'' then
        Some (s\<lparr>ls_newLines := ls_newLines s @ [ls_new s], ls_new := ls_new s + 1, ls_newSeen := ls_newSeen s + 1\<rparr>)
      else if hd line = CHR '' '' then
        Some (s\<lparr>ls_old := ls_old s + 1, ls_new := ls_new s + 1, ls_oldSeen := ls_oldSeen s + 1, ls_newSeen := ls_newSeen s + 1\<rparr>)
      else None)"

fun scan_lines :: "string list \<Rightarrow> line_scan \<Rightarrow> line_scan option" where
  "scan_lines [] s = Some s"
| "scan_lines (line # rest) s = Option.bind (scan_line line s) (scan_lines rest)"

text \<open>The loop skips empty lines, so it visits the newline-separated pieces of the payload.\<close>

definition changedLines :: "raw_hunk \<Rightarrow> int list \<times> int list \<times> bool" where
  "changedLines h =
     (case scan_lines (split_on newline (rh_Payload h))
        \<lparr>ls_old = sint (rh_OldStart h), ls_new = sint (rh_NewStart h), ls_oldLines = [], ls_newLines = [],
         ls_oldSeen = 0, ls_newSeen = 0\<rparr> of
        None \<Rightarrow> ([], [], False)
      | Some s \<Rightarrow> (ls_oldLines s, ls_newLines s, ls_oldSeen s = rh_OldLines h \<and> ls_newSeen s = rh_NewLines h))"

definition symbolsTouching :: "symbol_ref list \<Rightarrow> int list \<Rightarrow> symbol_ref list" where
  "symbolsTouching symbols lines =
     (if lines = [] then []
      else filter (\<lambda>s. list_ex (\<lambda>line. line \<ge> sr_StartLine s \<and> line \<le> sr_EndLine s) lines) symbols)"

section \<open>Mapping\<close>

definition side_symbols :: "symbol_omission + symbol_ref list \<Rightarrow> symbol_ref list" where
  "side_symbols r = (case r of Inl _ \<Rightarrow> [] | Inr ss \<Rightarrow> ss)"

definition side_omissions :: "symbol_omission + symbol_ref list \<Rightarrow> symbol_omission list" where
  "side_omissions r = (case r of Inl om \<Rightarrow> [om] | Inr _ \<Rightarrow> [])"

definition side_ok :: "symbol_omission + symbol_ref list \<Rightarrow> bool" where
  "side_ok r = (case r of Inl _ \<Rightarrow> False | Inr _ \<Rightarrow> True)"

definition map_hunk ::
    "symbol_omission + symbol_ref list \<Rightarrow> symbol_omission + symbol_ref list \<Rightarrow> raw_hunk \<Rightarrow> hunk_mapping" where
  "map_hunk base head hunk = (let
       (oldLines, newLines, valid) = changedLines hunk;
       mapping = \<lparr>hm_Hunk = hunk, hm_Ordinal = rh_Ordinal hunk, hm_BaseSymbols = [], hm_HeadSymbols = [],
          hm_BaseDeclarations = side_symbols base, hm_HeadDeclarations = side_symbols head,
          hm_SemanticAvailable = side_ok base \<and> side_ok head, hm_Kind = []\<rparr>
     in if \<not> valid then mapping\<lparr>hm_Kind := HunkMappingAtomicFallback, hm_SemanticAvailable := False\<rparr>
        else let
          bs = (if side_ok base then symbolsTouching (side_symbols base) oldLines else []);
          hs = (if side_ok head then symbolsTouching (side_symbols head) newLines else []);
          mapping = mapping\<lparr>hm_BaseSymbols := bs, hm_HeadSymbols := hs\<rparr>
        in mapping\<lparr>hm_Kind :=
             (if \<not> side_ok base \<or> \<not> side_ok head then HunkMappingAtomicFallback
              else if length bs \<le> 1 \<and> length hs \<le> 1 then HunkMappingSymbolAligned
              else HunkMappingMultiSymbol)\<rparr>)"

definition malformed_omission :: "raw_path_record \<Rightarrow> raw_hunk \<Rightarrow> symbol_omission list" where
  "malformed_omission r hunk = (case changedLines hunk of (_, _, valid) \<Rightarrow>
     if valid then [] else [\<lparr>so_Side = [], so_Path = (if rp_NewPath r \<noteq> [] then rp_NewPath r else rp_OldPath r),
       so_Class = SymbolOmissionMalformedHunk\<rparr>])"

definition SymbolMapper_Map ::
    "symbol_mapper \<Rightarrow> raw_path_record \<Rightarrow> bytes \<Rightarrow> bytes \<Rightarrow> hunk_mapping list \<times> symbol_omission list" where
  "SymbolMapper_Map m r base head = (let
       b = extractSide m SideBase (rp_OldPath r) base (rp_OldMode r \<noteq> 0 \<or> rp_OldPath r \<noteq> []);
       h = extractSide m SideHead (rp_NewPath r) head (rp_NewMode r \<noteq> 0 \<or> rp_NewPath r \<noteq> [])
     in (map (map_hunk b h) (rp_Hunks r),
         stableSymbolOmissions (side_omissions b @ side_omissions h @ concat (map (malformed_omission r) (rp_Hunks r)))))"

section \<open>Grouping\<close>

definition joins_group :: "hunk_group \<Rightarrow> hunk_mapping \<Rightarrow> bool" where
  "joins_group g m \<longleftrightarrow> hm_Kind m \<noteq> HunkMappingAtomicFallback \<and> (let prev = last (hg_Mappings g) in
     hm_Kind prev \<noteq> HunkMappingAtomicFallback \<and> hm_Ordinal prev + 1 = hm_Ordinal m \<and>
     hm_BaseSymbols prev = hm_BaseSymbols m \<and> hm_HeadSymbols prev = hm_HeadSymbols m)"

definition group_step :: "hunk_group list \<Rightarrow> hunk_mapping \<Rightarrow> hunk_group list" where
  "group_step gs m =
     (if gs \<noteq> [] \<and> joins_group (last gs) m then
        butlast gs @ [(last gs)\<lparr>hg_Hunks := hg_Hunks (last gs) @ [hm_Hunk m], hg_Mappings := hg_Mappings (last gs) @ [m]\<rparr>]
      else gs @ [\<lparr>hg_Hunks = [hm_Hunk m], hg_Mappings = [m], hg_BaseSymbols = hm_BaseSymbols m,
                  hg_HeadSymbols = hm_HeadSymbols m\<rparr>])"

definition GroupHunkMappings :: "hunk_mapping list \<Rightarrow> hunk_group list" where
  "GroupHunkMappings ms = foldl group_step [] ms"

section \<open>Contract targets\<close>

record semantic_target =
  tg_Kind :: string
  tg_Side :: string
  tg_Symbol :: symbol_ref
  tg_ID :: stable_id

definition TargetRemovedSymbol :: string where "TargetRemovedSymbol = ''removed_symbol''"
definition TargetChangedSignature :: string where "TargetChangedSignature = ''changed_signature''"
definition TargetAddedFieldOption :: string where "TargetAddedFieldOption = ''added_field_option''"

definition symbolKey :: "symbol_ref \<Rightarrow> string" where
  "symbolKey s = sr_Kind s @ [CHR 0x00] @ sr_Parent s @ [CHR 0x00] @ sr_Name s"

text \<open>\<open>declarationsByKey(symbols)[key]\<close>.\<close>

definition declarationsByKey :: "symbol_ref list \<Rightarrow> string \<Rightarrow> symbol_ref list" where
  "declarationsByKey symbols key = filter (\<lambda>s. symbolKey s = key) symbols"

definition hasSignature :: "symbol_ref list \<Rightarrow> string \<Rightarrow> bool" where
  "hasSignature symbols signature = list_ex (\<lambda>s. sr_Signature s = signature) symbols"

definition isFieldOrOptionKind :: "string \<Rightarrow> bool" where
  "isFieldOrOptionKind kind = (let kind = ToLower kind in
     contains kind ''field'' \<or> contains kind ''property'' \<or> contains kind ''option'' \<or> contains kind ''setting'')"

definition makeSemanticTarget ::
    "(bytes \<Rightarrow> digest) \<Rightarrow> string \<Rightarrow> string \<Rightarrow> stable_id \<Rightarrow> symbol_ref \<Rightarrow> semantic_target" where
  "makeSemanticTarget H kind side pathID symbol = (let
       content = (if sr_Signature symbol = [] then symbolKey symbol else sr_Signature symbol)
     in \<lparr>tg_Kind = kind, tg_Side = side, tg_Symbol = symbol, tg_ID = TargetID H
       \<lparr>rt_Kind = kind, rt_PathID = Full pathID, rt_Side = side, rt_SymbolKind = sr_Kind symbol,
        rt_SymbolName = sr_Name symbol, rt_Start = word_of_int (sr_StartLine symbol),
        rt_End = word_of_int (sr_EndLine symbol), rt_SignatureDigest = Some (H content)\<rparr>\<rparr>)"

definition base_targets ::
    "(bytes \<Rightarrow> digest) \<Rightarrow> stable_id \<Rightarrow> symbol_ref list \<Rightarrow> symbol_ref \<Rightarrow> semantic_target list" where
  "base_targets H pathID head symbol = (let after = declarationsByKey head (symbolKey symbol) in
     if after = [] then [makeSemanticTarget H TargetRemovedSymbol SideBase pathID symbol]
     else if \<not> hasSignature after (sr_Signature symbol)
     then [makeSemanticTarget H TargetChangedSignature SideHead pathID (hd after)] else [])"

definition head_targets ::
    "(bytes \<Rightarrow> digest) \<Rightarrow> stable_id \<Rightarrow> symbol_ref list \<Rightarrow> symbol_ref \<Rightarrow> semantic_target list" where
  "head_targets H pathID base symbol =
     (if declarationsByKey base (symbolKey symbol) = [] \<and> isFieldOrOptionKind (sr_Kind symbol)
      then [makeSemanticTarget H TargetAddedFieldOption SideHead pathID symbol] else [])"

definition mapping_targets ::
    "(bytes \<Rightarrow> digest) \<Rightarrow> stable_id \<Rightarrow> symbol_ref list \<Rightarrow> symbol_ref list \<Rightarrow> hunk_mapping \<Rightarrow> semantic_target list" where
  "mapping_targets H pathID base head m =
     concat (map (base_targets H pathID head) (hm_BaseSymbols m)) @
     concat (map (head_targets H pathID base) (hm_HeadSymbols m))"

fun dedupeSemanticTargets :: "semantic_target list \<Rightarrow> semantic_target list" where
  "dedupeSemanticTargets (a # b # ts) =
     (if tg_ID a = tg_ID b then dedupeSemanticTargets (a # ts) else a # dedupeSemanticTargets (b # ts))"
| "dedupeSemanticTargets ts = ts"

text \<open>The declarations are those of the first mapping that has them; they are the same in all.\<close>

definition semanticTargets :: "(bytes \<Rightarrow> digest) \<Rightarrow> stable_id \<Rightarrow> hunk_mapping list \<Rightarrow> semantic_target list" where
  "semanticTargets H pathID ms = (case filter hm_SemanticAvailable ms of
       [] \<Rightarrow> []
     | m # rest \<Rightarrow> dedupeSemanticTargets (sort_key (\<lambda>t. (Public (tg_ID t), digest_bytes (Full (tg_ID t))))
         (concat (map (mapping_targets H pathID (hm_BaseDeclarations m) (hm_HeadDeclarations m)) (m # rest)))))"

section \<open>Scanning an accepted payload\<close>

text \<open>The numbers of the lines a side changes, from the line \<open>n\<close> on.\<close>

fun side_lines :: "char \<Rightarrow> char \<Rightarrow> int \<Rightarrow> string list \<Rightarrow> int list" where
  "side_lines mine other n [] = []"
| "side_lines mine other n (l # ls) =
     (if hd l = mine then n # side_lines mine other (n + 1) ls
      else if hd l = other then side_lines mine other n ls else side_lines mine other (n + 1) ls)"

lemma scan_payload:
  "list_all payload_line ls \<Longrightarrow> \<exists>s'. scan_lines ls s = Some s' \<and>
     ls_oldLines s' = ls_oldLines s @ side_lines (CHR ''-'') (CHR ''+'') (ls_old s) ls \<and>
     ls_newLines s' = ls_newLines s @ side_lines (CHR ''+'') (CHR ''-'') (ls_new s) ls \<and>
     ls_oldSeen s' = ls_oldSeen s + word_of_int (old_count ls) \<and>
     ls_newSeen s' = ls_newSeen s + word_of_int (new_count ls)"
proof (induction ls arbitrary: s)
  case (Cons l ls)
  then have "payload_line l" and IH: "\<And>s. \<exists>s'. scan_lines ls s = Some s' \<and>
     ls_oldLines s' = ls_oldLines s @ side_lines (CHR ''-'') (CHR ''+'') (ls_old s) ls \<and>
     ls_newLines s' = ls_newLines s @ side_lines (CHR ''+'') (CHR ''-'') (ls_new s) ls \<and>
     ls_oldSeen s' = ls_oldSeen s + word_of_int (old_count ls) \<and>
     ls_newSeen s' = ls_newSeen s + word_of_int (new_count ls)" by simp_all
  have ne: "l \<noteq> []" using \<open>payload_line l\<close> by simp
  from \<open>payload_line l\<close> show ?case
  proof (cases rule: payload_line_cases)
    case plus
    then have "scan_line l s = Some (s\<lparr>ls_newLines := ls_newLines s @ [ls_new s], ls_new := ls_new s + 1, ls_newSeen := ls_newSeen s + 1\<rparr>)"
      using ne by (simp add: scan_line_def)
    with IH [of "s\<lparr>ls_newLines := ls_newLines s @ [ls_new s], ls_new := ls_new s + 1, ls_newSeen := ls_newSeen s + 1\<rparr>"] plus
    show ?thesis by auto
  next
    case minus
    then have "scan_line l s = Some (s\<lparr>ls_oldLines := ls_oldLines s @ [ls_old s], ls_old := ls_old s + 1, ls_oldSeen := ls_oldSeen s + 1\<rparr>)"
      using ne by (simp add: scan_line_def)
    with IH [of "s\<lparr>ls_oldLines := ls_oldLines s @ [ls_old s], ls_old := ls_old s + 1, ls_oldSeen := ls_oldSeen s + 1\<rparr>"] minus
    show ?thesis by auto
  next
    case blank
    then have "scan_line l s = Some (s\<lparr>ls_old := ls_old s + 1, ls_new := ls_new s + 1, ls_oldSeen := ls_oldSeen s + 1, ls_newSeen := ls_newSeen s + 1\<rparr>)"
      using ne by (simp add: scan_line_def)
    with IH [of "s\<lparr>ls_old := ls_old s + 1, ls_new := ls_new s + 1, ls_oldSeen := ls_oldSeen s + 1, ls_newSeen := ls_newSeen s + 1\<rparr>"] blank
    show ?thesis by auto
  qed
qed simp

lemma scan_lines_append: "scan_lines (xs @ ys) s = Option.bind (scan_lines xs s) (scan_lines ys)"
proof (induction xs arbitrary: s)
  case (Cons x xs)
  then show ?case by (cases "scan_line x s") simp_all
qed simp

lemma side_lines_bounds:
  "\<forall>n\<in>set (side_lines mine other k ls). k \<le> n \<and> n < k + int (length (filter (\<lambda>l. hd l \<noteq> other) ls))" if "mine \<noteq> other"
  using that
proof (induction ls arbitrary: k)
  case (Cons l ls)
  from Cons.IH [OF Cons.prems, of k] Cons.IH [OF Cons.prems, of "k + 1"] Cons.prems show ?case
    by (cases "hd l = mine"; cases "hd l = other") force+
qed simp

lemma side_lines_sorted: "mine \<noteq> other \<Longrightarrow> sorted_wrt (<) (side_lines mine other k ls)"
proof (induction ls arbitrary: k)
  case (Cons l ls)
  with side_lines_bounds [of mine other "k + 1" ls] show ?case by fastforce
qed simp

lemma side_lines_length: "length (side_lines mine other k ls) = length (filter (\<lambda>l. hd l = mine) ls)"
  by (induction ls arbitrary: k) auto

lemma changedLines_payload:
  assumes "hunk_ok h"
  shows "changedLines h = (side_lines (CHR ''-'') (CHR ''+'') (sint (rh_OldStart h)) (lines_of (rh_Payload h)),
    side_lines (CHR ''+'') (CHR ''-'') (sint (rh_NewStart h)) (lines_of (rh_Payload h)), True)"
proof -
  let ?ls = "lines_of (rh_Payload h)"
  let ?s = "\<lparr>ls_old = sint (rh_OldStart h), ls_new = sint (rh_NewStart h), ls_oldLines = [], ls_newLines = [],
         ls_oldSeen = 0, ls_newSeen = 0\<rparr>"
  from assms have ls: "list_all payload_line ?ls" "rh_Payload h = unlines ?ls"
    "old_count ?ls = uint (rh_OldLines h)" "new_count ?ls = uint (rh_NewLines h)"
    by (simp_all add: hunk_ok_def Let_def)
  have "split_on newline (rh_Payload h) = ?ls @ [[]]"
    using split_on_unlines [of ?ls] payload_line_no_newline [OF ls(1)] ls(2) by metis
  then have "scan_lines (split_on newline (rh_Payload h)) ?s = scan_lines ?ls ?s"
    by (cases "scan_lines ?ls ?s") (simp_all add: scan_lines_append scan_line_def)
  with scan_payload [OF ls(1), of ?s] ls(3,4) show ?thesis by (auto simp: changedLines_def)
qed

text \<open>On every hunk the strict patch parser accepts, the changed lines are found: as many per
  side as the churn counts, in increasing order and within the hunk's range.\<close>

theorem changedLines_accepted:
  assumes "hunk_ok h"
  shows "case changedLines h of (oldLines, newLines, valid) \<Rightarrow> valid \<and>
     hunkPayloadChurn (rh_Payload h) = (int (length newLines), int (length oldLines)) \<and>
     sorted_wrt (<) oldLines \<and> sorted_wrt (<) newLines \<and>
     (\<forall>n\<in>set oldLines. sint (rh_OldStart h) \<le> n \<and> n < sint (rh_OldStart h) + uint (rh_OldLines h)) \<and>
     (\<forall>n\<in>set newLines. sint (rh_NewStart h) \<le> n \<and> n < sint (rh_NewStart h) + uint (rh_NewLines h))"
proof -
  let ?ls = "lines_of (rh_Payload h)"
  from assms have ls: "list_all payload_line ?ls" "rh_Payload h = unlines ?ls"
    "old_count ?ls = uint (rh_OldLines h)" "new_count ?ls = uint (rh_NewLines h)"
    by (simp_all add: hunk_ok_def Let_def)
  have "hunkPayloadChurn (rh_Payload h) = line_churn ?ls" using hunkPayloadChurn_unlines [OF ls(1)] ls(2) by metis
  moreover have "CHR ''-'' \<noteq> CHR ''+''" "CHR ''+'' \<noteq> CHR ''-''" by simp_all
  note side_lines_bounds [OF this(1), of "sint (rh_OldStart h)" ?ls] side_lines_bounds [OF this(2), of "sint (rh_NewStart h)" ?ls]
    side_lines_sorted [OF this(1)] side_lines_sorted [OF this(2)]
  ultimately show ?thesis unfolding changedLines_payload [OF assms] ls(3,4) [symmetric] old_count_def new_count_def
    by (simp only: prod.case side_lines_length line_churn_def simp_thms)
qed

lemma changedLines_accepted_witness:
  "hunk_ok (denote 0 sample_src) \<and> changedLines (denote 0 sample_src) = ([1], [1, 2], True) \<and>
   (case changedLines (denote 0 sample_src) of (oldLines, newLines, valid) \<Rightarrow> valid \<and> sorted_wrt (<) newLines)"
proof -
  have ok: "hunk_ok (denote 0 sample_src)" using ParseUnifiedPatch_inv(1) [OF sample_parsed] by simp
  moreover have "changedLines (denote 0 sample_src) = ([1], [1, 2], True)" by code_simp
  ultimately show ?thesis using changedLines_accepted [OF ok] by auto
qed

section \<open>Every hunk is mapped\<close>

definition mapping_ok ::
    "symbol_omission + symbol_ref list \<Rightarrow> symbol_omission + symbol_ref list \<Rightarrow> raw_hunk \<Rightarrow> hunk_mapping \<Rightarrow> bool" where
  "mapping_ok b h hunk k \<longleftrightarrow> (case changedLines hunk of (oldLines, newLines, valid) \<Rightarrow>
     hm_Hunk k = hunk \<and> hm_Ordinal k = rh_Ordinal hunk \<and>
     hm_BaseDeclarations k = side_symbols b \<and> hm_HeadDeclarations k = side_symbols h \<and>
     (hm_SemanticAvailable k \<longleftrightarrow> valid \<and> side_ok b \<and> side_ok h) \<and>
     (hm_Kind k = HunkMappingAtomicFallback \<longleftrightarrow> \<not> hm_SemanticAvailable k) \<and>
     (hm_Kind k = HunkMappingSymbolAligned \<longleftrightarrow>
        hm_SemanticAvailable k \<and> length (hm_BaseSymbols k) \<le> 1 \<and> length (hm_HeadSymbols k) \<le> 1) \<and>
     set (hm_BaseSymbols k) = {s \<in> set (side_symbols b). valid \<and> (\<exists>n\<in>set oldLines. sr_StartLine s \<le> n \<and> n \<le> sr_EndLine s)} \<and>
     set (hm_HeadSymbols k) = {s \<in> set (side_symbols h). valid \<and> (\<exists>n\<in>set newLines. sr_StartLine s \<le> n \<and> n \<le> sr_EndLine s)})"

lemma set_symbolsTouching:
  "set (symbolsTouching ss ls) = {s \<in> set ss. \<exists>n\<in>set ls. sr_StartLine s \<le> n \<and> n \<le> sr_EndLine s}"
  by (auto simp: symbolsTouching_def list_ex_iff)

lemma side_not_ok [simp]: "\<not> side_ok b \<Longrightarrow> side_symbols b = []"
  by (auto simp: side_ok_def side_symbols_def split: sum.splits)

lemma map_hunk_ok: "mapping_ok b h hunk (map_hunk b h hunk)"
proof (cases "changedLines hunk")
  case (fields ol nl valid)
  show ?thesis
  proof (cases valid)
    case True
    with fields show ?thesis
      by (cases "side_ok b"; cases "side_ok h") (auto simp: mapping_ok_def map_hunk_def Let_def set_symbolsTouching)
  qed (simp add: fields mapping_ok_def map_hunk_def Let_def)
qed

abbreviation base_side :: "symbol_mapper \<Rightarrow> raw_path_record \<Rightarrow> bytes \<Rightarrow> symbol_omission + symbol_ref list" where
  "base_side m r src \<equiv> extractSide m SideBase (rp_OldPath r) src (rp_OldMode r \<noteq> 0 \<or> rp_OldPath r \<noteq> [])"

abbreviation head_side :: "symbol_mapper \<Rightarrow> raw_path_record \<Rightarrow> bytes \<Rightarrow> symbol_omission + symbol_ref list" where
  "head_side m r src \<equiv> extractSide m SideHead (rp_NewPath r) src (rp_NewMode r \<noteq> 0 \<or> rp_NewPath r \<noteq> [])"

text \<open>
  The specification, which counts positions instead of scanning.  A removed line of the payload changes the line
  of the base that as many lines that are not added ones precede, counted from the start of the hunk, and likewise
  an added line one of the head.
\<close>

definition line_changed :: "char \<Rightarrow> char \<Rightarrow> int \<Rightarrow> string list \<Rightarrow> int \<Rightarrow> bool" where
  "line_changed mine other start ls n \<longleftrightarrow> (\<exists>i<length ls. hd (ls ! i) = mine \<and>
     n = start + int (length (filter (\<lambda>l. hd l \<noteq> other) (take i ls))))"

abbreviation changes_base :: "raw_hunk \<Rightarrow> int \<Rightarrow> bool" where
  "changes_base h \<equiv> line_changed (CHR ''-'') (CHR ''+'') (sint (rh_OldStart h)) (lines_of (rh_Payload h))"

abbreviation changes_head :: "raw_hunk \<Rightarrow> int \<Rightarrow> bool" where
  "changes_head h \<equiv> line_changed (CHR ''+'') (CHR ''-'') (sint (rh_NewStart h)) (lines_of (rh_Payload h))"

lemma line_changed_Cons:
  assumes "mine \<noteq> other"
  shows "line_changed mine other k (l # ls) n \<longleftrightarrow>
     hd l = mine \<and> n = k \<or> line_changed mine other (if hd l = other then k else k + 1) ls n"
  unfolding line_changed_def Ex_less_Suc2 list.size add_0_right add_Suc_right
  by (auto simp: algebra_simps)

lemma set_side_lines: "mine \<noteq> other \<Longrightarrow> set (side_lines mine other k ls) = {n. line_changed mine other k ls n}"
proof (induction ls arbitrary: k)
  case (Cons l ls)
  then show ?case by (auto simp: line_changed_Cons)
qed (simp add: line_changed_def)

text \<open>What is known of the symbols of a side: none of a missing file, those of the extractor of its language, or nothing.\<close>

definition extracted :: "symbol_mapper \<Rightarrow> string \<Rightarrow> bytes \<Rightarrow> symbol_ref list \<Rightarrow> bool" where
  "extracted m path src ss \<longleftrightarrow> (\<exists>extract. detector m path (take 512 src) \<noteq> [] \<and>
     sm_For m (detector m path (take 512 src)) = Some extract \<and> extract src = Inr ss)"

definition side_known :: "symbol_mapper \<Rightarrow> bool \<Rightarrow> string \<Rightarrow> bytes \<Rightarrow> symbol_ref list option \<Rightarrow> bool" where
  "side_known m present path src known \<longleftrightarrow> (case known of
       None \<Rightarrow> present \<and> (\<forall>ss. \<not> extracted m path src ss)
     | Some ss \<Rightarrow> if present then extracted m path src ss else ss = [])"

definition touched :: "symbol_ref list option \<Rightarrow> (int \<Rightarrow> bool) \<Rightarrow> symbol_ref set" where
  "touched known changes = (case known of None \<Rightarrow> {} | Some ss \<Rightarrow>
     {s \<in> set ss. 1 \<le> sr_StartLine s \<and> (\<exists>n. changes n \<and> sr_StartLine s \<le> n \<and> n \<le> sr_EndLine s)})"

lemma extractSide_known:
  assumes "side_known m present path src known"
  shows "side_ok (extractSide m side path src present) \<longleftrightarrow> known \<noteq> None"
    and "set (side_symbols (extractSide m side path src present)) = (case known of None \<Rightarrow> {} | Some ss \<Rightarrow>
      {s \<in> set ss. 1 \<le> sr_StartLine s \<and> sr_StartLine s \<le> sr_EndLine s})"
  using assms unfolding side_known_def extracted_def
  by (auto simp: extractSide_def side_ok_def side_symbols_def sortSymbolRefs_def Let_def
      split: option.splits sum.splits if_splits)

lemma mapped_symbols:
  assumes "mapping_ok b h hunk k" and "hunk_ok hunk"
    and "side_ok b \<longleftrightarrow> bs \<noteq> None" "set (side_symbols b) = (case bs of None \<Rightarrow> {} | Some ss \<Rightarrow>
      {s \<in> set ss. 1 \<le> sr_StartLine s \<and> sr_StartLine s \<le> sr_EndLine s})"
    and "side_ok h \<longleftrightarrow> hs \<noteq> None" "set (side_symbols h) = (case hs of None \<Rightarrow> {} | Some ss \<Rightarrow>
      {s \<in> set ss. 1 \<le> sr_StartLine s \<and> sr_StartLine s \<le> sr_EndLine s})"
  shows "set (hm_BaseSymbols k) = touched bs (changes_base hunk)" and "set (hm_HeadSymbols k) = touched hs (changes_head hunk)"
    and "hm_Kind k = HunkMappingAtomicFallback \<longleftrightarrow> bs = None \<or> hs = None"
    and "hm_Kind k = HunkMappingSymbolAligned \<longleftrightarrow> bs \<noteq> None \<and> hs \<noteq> None \<and>
      length (hm_BaseSymbols k) \<le> 1 \<and> length (hm_HeadSymbols k) \<le> 1"
proof -
  have lines: "set (side_lines (CHR ''-'') (CHR ''+'') n ls) = {i. line_changed (CHR ''-'') (CHR ''+'') n ls i}"
    "set (side_lines (CHR ''+'') (CHR ''-'') n ls) = {i. line_changed (CHR ''+'') (CHR ''-'') n ls i}" for n ls
    by (simp_all add: set_side_lines)
  note ok = assms(1) [unfolded mapping_ok_def changedLines_payload [OF assms(2)] prod.case lines mem_Collect_eq simp_thms Bex_def]
  show "set (hm_BaseSymbols k) = touched bs (changes_base hunk)"
    using ok assms(4) by (cases bs) (auto simp: touched_def)
  show "set (hm_HeadSymbols k) = touched hs (changes_head hunk)"
    using ok assms(6) by (cases hs) (auto simp: touched_def)
  show "hm_Kind k = HunkMappingAtomicFallback \<longleftrightarrow> bs = None \<or> hs = None" using ok assms(3,5) by blast
  show "hm_Kind k = HunkMappingSymbolAligned \<longleftrightarrow> bs \<noteq> None \<and> hs \<noteq> None \<and>
      length (hm_BaseSymbols k) \<le> 1 \<and> length (hm_HeadSymbols k) \<le> 1" using ok assms(3,5) by blast
qed

lemma parsed_no_malformed:
  assumes "ParseUnifiedPatch raw = Inr (rp_Hunks r)"
  shows "concat (map (malformed_omission r) (rp_Hunks r)) = []"
proof -
  have "malformed_omission r h = []" if "h \<in> set (rp_Hunks r)" for h
    using ParseUnifiedPatch_inv(1) [OF assms] that changedLines_payload [of h] by (simp add: list_all_iff malformed_omission_def)
  then show ?thesis by simp
qed

text \<open>
  C38: the hunks of a parsed patch are mapped, whole, in order and numbered from 0, to exactly the symbols they touch: on the
  base, the extracted symbols with a proper range that contains a line the hunk removes, on the head those that
  contain a line it adds.  A side whose language is unknown or cannot be parsed touches nothing and is reported
  once; it turns every mapping into an atomic fallback, and nothing else does.  Otherwise a mapping is symbol-aligned
  if it touches at most one symbol on each side.
\<close>

theorem SymbolMapper_Map_complete:
  assumes "ParseUnifiedPatch raw = Inr (rp_Hunks r)"
    and "side_known m (rp_OldMode r \<noteq> 0 \<or> rp_OldPath r \<noteq> []) (rp_OldPath r) base bs"
    and "side_known m (rp_NewMode r \<noteq> 0 \<or> rp_NewPath r \<noteq> []) (rp_NewPath r) head hs"
  shows "case SymbolMapper_Map m r base head of (ks, oms) \<Rightarrow>
    map hm_Hunk ks = rp_Hunks r \<and> map hm_Ordinal ks = map of_nat [0..<length (rp_Hunks r)] \<and>
    (\<forall>k\<in>set ks. set (hm_BaseSymbols k) = touched bs (changes_base (hm_Hunk k)) \<and>
      set (hm_HeadSymbols k) = touched hs (changes_head (hm_Hunk k)) \<and>
      (hm_Kind k = HunkMappingAtomicFallback \<longleftrightarrow> bs = None \<or> hs = None) \<and>
      (hm_Kind k = HunkMappingSymbolAligned \<longleftrightarrow> bs \<noteq> None \<and> hs \<noteq> None \<and>
        length (hm_BaseSymbols k) \<le> 1 \<and> length (hm_HeadSymbols k) \<le> 1)) \<and>
    length oms = (if bs = None then 1 else 0) + (if hs = None then 1 else 0)"
proof -
  let ?b = "base_side m r base" and ?h = "head_side m r head"
  note b = extractSide_known [OF assms(2), of SideBase] and h = extractSide_known [OF assms(3), of SideHead]
  note parsed = ParseUnifiedPatch_inv [OF assms(1)]
  have ks: "fst (SymbolMapper_Map m r base head) = map (map_hunk ?b ?h) (rp_Hunks r)"
    by (simp add: SymbolMapper_Map_def Let_def)
  have same: "hm_Hunk (map_hunk ?b ?h x) = x" "hm_Ordinal (map_hunk ?b ?h x) = rh_Ordinal x" for x
    using map_hunk_ok [of ?b ?h x] by (simp_all add: mapping_ok_def split: prod.splits)
  have "length (side_omissions ?b) = (if bs = None then 1 else 0)" "length (side_omissions ?h) = (if hs = None then 1 else 0)"
    using b(1) h(1) by (auto simp: side_ok_def side_omissions_def split: sum.splits)
  then have n1: "length (snd (SymbolMapper_Map m r base head)) = (if bs = None then 1 else 0) + (if hs = None then 1 else 0)"
    by (simp add: SymbolMapper_Map_def Let_def stableSymbolOmissions_def parsed_no_malformed [OF assms(1)] del: concat.simps)
  have n2: "map hm_Ordinal (map (map_hunk ?b ?h) (rp_Hunks r)) = map of_nat [0..<length (rp_Hunks r)]"
    unfolding map_map comp_def same using parsed(2) by (simp add: ordinals_def)
  have n3: "map hm_Hunk (map (map_hunk ?b ?h) (rp_Hunks r)) = rp_Hunks r" unfolding map_map comp_def same by simp
  have n4: "set (hm_BaseSymbols k) = touched bs (changes_base (hm_Hunk k)) \<and>
      set (hm_HeadSymbols k) = touched hs (changes_head (hm_Hunk k)) \<and>
      (hm_Kind k = HunkMappingAtomicFallback \<longleftrightarrow> bs = None \<or> hs = None) \<and>
      (hm_Kind k = HunkMappingSymbolAligned \<longleftrightarrow> bs \<noteq> None \<and> hs \<noteq> None \<and>
        length (hm_BaseSymbols k) \<le> 1 \<and> length (hm_HeadSymbols k) \<le> 1)"
    if "k \<in> set (map (map_hunk ?b ?h) (rp_Hunks r))" for k
  proof -
    note listed = that [unfolded set_map]
    obtain x where x: "k = map_hunk ?b ?h x" "x \<in> set (rp_Hunks r)" using listed by (rule imageE)
    have "hunk_ok x" using parsed(1) x(2) by (simp add: list_all_iff)
    note m = mapped_symbols [OF map_hunk_ok [of ?b ?h x] this b h]
    show ?thesis unfolding x(1) same using m by blast
  qed
  show ?thesis unfolding case_prod_unfold ks by (intro conjI ballI n1 n2 n3 n4 [THEN conjunct1]
      n4 [THEN conjunct2, THEN conjunct1] n4 [THEN conjunct2, THEN conjunct2, THEN conjunct1]
      n4 [THEN conjunct2, THEN conjunct2, THEN conjunct2])
qed

section \<open>Groups\<close>

definition group_ok :: "hunk_group \<Rightarrow> bool" where
  "group_ok g \<longleftrightarrow> hg_Mappings g \<noteq> [] \<and> hg_Hunks g = map hm_Hunk (hg_Mappings g) \<and>
     (\<forall>k\<in>set (hg_Mappings g). hm_BaseSymbols k = hg_BaseSymbols g \<and> hm_HeadSymbols k = hg_HeadSymbols g \<and>
        (length (hg_Mappings g) = 1 \<or> hm_Kind k \<noteq> HunkMappingAtomicFallback)) \<and>
     successively (\<lambda>a b. hm_Ordinal a + 1 = hm_Ordinal b) (hg_Mappings g)"

lemma joins_group_ok:
  assumes "group_ok g" "joins_group g m"
  shows "group_ok (g\<lparr>hg_Hunks := hg_Hunks g @ [hm_Hunk m], hg_Mappings := hg_Mappings g @ [m]\<rparr>)"
proof -
  from assms(1) obtain ks k where ks: "hg_Mappings g = ks @ [k]" by (cases "hg_Mappings g" rule: rev_cases) (auto simp: group_ok_def)
  have "hm_Kind x \<noteq> HunkMappingAtomicFallback" if "x \<in> set (hg_Mappings g)" for x
    using assms that ks by (cases ks) (auto simp: group_ok_def joins_group_def Let_def)
  with assms ks show ?thesis
    by (auto simp: group_ok_def joins_group_def Let_def successively_append_iff)
qed

lemma group_step_inv:
  assumes "list_all group_ok gs" "concat (map hg_Mappings gs) = ms" "concat (map hg_Hunks gs) = map hm_Hunk ms"
    "successively (\<lambda>g g'. \<not> joins_group g (hd (hg_Mappings g'))) gs"
  shows "list_all group_ok (group_step gs m) \<and> concat (map hg_Mappings (group_step gs m)) = ms @ [m] \<and>
    concat (map hg_Hunks (group_step gs m)) = map hm_Hunk (ms @ [m]) \<and>
    successively (\<lambda>g g'. \<not> joins_group g (hd (hg_Mappings g'))) (group_step gs m)"
proof (cases gs rule: rev_cases)
  case Nil
  with assms show ?thesis by (simp add: group_step_def group_ok_def)
next
  case (snoc fs g)
  have ne: "hg_Mappings g \<noteq> []" using assms(1) snoc by (simp add: group_ok_def)
  show ?thesis
  proof (cases "joins_group g m")
    case True
    have step: "group_step gs m = fs @ [g\<lparr>hg_Hunks := hg_Hunks g @ [hm_Hunk m], hg_Mappings := hg_Mappings g @ [m]\<rparr>]"
      using True snoc by (simp add: group_step_def)
    have "group_ok (g\<lparr>hg_Hunks := hg_Hunks g @ [hm_Hunk m], hg_Mappings := hg_Mappings g @ [m]\<rparr>)"
      using joins_group_ok [OF _ True] assms(1) snoc by simp
    moreover have "successively (\<lambda>g g'. \<not> joins_group g (hd (hg_Mappings g'))) (group_step gs m)"
      using assms(4) ne unfolding step unfolding snoc by (cases fs rule: rev_cases) (auto simp: successively_append_iff hd_append)
    ultimately show ?thesis using assms snoc step by auto
  next
    case False
    then have step: "group_step gs m = gs @ [\<lparr>hg_Hunks = [hm_Hunk m], hg_Mappings = [m],
        hg_BaseSymbols = hm_BaseSymbols m, hg_HeadSymbols = hm_HeadSymbols m\<rparr>]"
      using snoc by (simp add: group_step_def)
    then show ?thesis using assms False snoc by (auto simp: successively_append_iff group_ok_def)
  qed
qed

lemma GroupHunkMappings_inv:
  "list_all group_ok (GroupHunkMappings ms) \<and> concat (map hg_Mappings (GroupHunkMappings ms)) = ms \<and>
   concat (map hg_Hunks (GroupHunkMappings ms)) = map hm_Hunk ms \<and>
   successively (\<lambda>g g'. \<not> joins_group g (hd (hg_Mappings g'))) (GroupHunkMappings ms)"
proof (induction ms rule: rev_induct)
  case (snoc m ms)
  then show ?case using group_step_inv [of "GroupHunkMappings ms" ms m] by (simp add: GroupHunkMappings_def)
qed (simp add: GroupHunkMappings_def)

lemma GroupHunkMappings_hunks: "concat (map hg_Hunks (GroupHunkMappings ms)) = map hm_Hunk ms"
  using GroupHunkMappings_inv by blast

text \<open>grouping neither splits, drops nor reorders hunks; a group has the same symbols and
  consecutive ordinals throughout, a fallback hunk is alone, and no two neighbouring groups could
  have been one.\<close>

theorem GroupHunkMappings_partition:
  "list_all group_ok (GroupHunkMappings ms) \<and> concat (map hg_Mappings (GroupHunkMappings ms)) = ms \<and>
   concat (map hg_Hunks (GroupHunkMappings ms)) = map hm_Hunk ms \<and>
   successively (\<lambda>g g'. \<not> joins_group g (hd (hg_Mappings g'))) (GroupHunkMappings ms)"
  by (rule GroupHunkMappings_inv)

section \<open>Targets\<close>

text \<open>What must become a contract target: a touched symbol that is gone or whose signature changed, and
  a touched field or option that is new.\<close>

inductive contract_target ::
    "(bytes \<Rightarrow> digest) \<Rightarrow> stable_id \<Rightarrow> symbol_ref list \<Rightarrow> symbol_ref list \<Rightarrow> hunk_mapping \<Rightarrow> semantic_target \<Rightarrow> bool"
    for H p base head k where
  removed: "s \<in> set (hm_BaseSymbols k) \<Longrightarrow> \<forall>d\<in>set head. symbolKey d \<noteq> symbolKey s \<Longrightarrow>
    contract_target H p base head k (makeSemanticTarget H TargetRemovedSymbol SideBase p s)"
| changed: "s \<in> set (hm_BaseSymbols k) \<Longrightarrow> declarationsByKey head (symbolKey s) = d # ds \<Longrightarrow>
    \<forall>d\<in>set (d # ds). sr_Signature d \<noteq> sr_Signature s \<Longrightarrow>
    contract_target H p base head k (makeSemanticTarget H TargetChangedSignature SideHead p d)"
| added: "s \<in> set (hm_HeadSymbols k) \<Longrightarrow> isFieldOrOptionKind (sr_Kind s) \<Longrightarrow>
    \<forall>d\<in>set base. symbolKey d \<noteq> symbolKey s \<Longrightarrow>
    contract_target H p base head k (makeSemanticTarget H TargetAddedFieldOption SideHead p s)"

inductive_cases contract_targetE: "contract_target H p base head k t"

lemma declarations_empty: "declarationsByKey ss key = [] \<longleftrightarrow> (\<forall>d\<in>set ss. symbolKey d \<noteq> key)"
  by (auto simp: declarationsByKey_def filter_empty_conv)

lemma mapping_targets_iff: "t \<in> set (mapping_targets H p base head k) \<longleftrightarrow> contract_target H p base head k t"
proof
  assume "t \<in> set (mapping_targets H p base head k)"
  then consider (b) s where "s \<in> set (hm_BaseSymbols k)" "t \<in> set (base_targets H p head s)"
    | (h) s where "s \<in> set (hm_HeadSymbols k)" "t \<in> set (head_targets H p base s)"
    by (auto simp: mapping_targets_def)
  then show "contract_target H p base head k t"
  proof cases
    case b
    show ?thesis
    proof (cases "declarationsByKey head (symbolKey s)")
      case Nil
      with b show ?thesis by (auto simp: base_targets_def declarations_empty intro: removed [simplified])
    next
      case (Cons d ds)
      with b show ?thesis
        by (auto simp: base_targets_def hasSignature_def list_ex_iff split: if_splits intro!: changed [simplified])
    qed
  next
    case h
    then show ?thesis by (auto simp: head_targets_def declarations_empty split: if_splits intro: added [simplified])
  qed
next
  assume "contract_target H p base head k t"
  then show "t \<in> set (mapping_targets H p base head k)"
  proof cases
    case (removed s)
    then have "t \<in> set (base_targets H p head s)" by (simp add: base_targets_def declarations_empty [THEN iffD2])
    with removed(2) show ?thesis by (auto simp: mapping_targets_def)
  next
    case (changed s d ds)
    then have "t \<in> set (base_targets H p head s)" by (simp add: base_targets_def hasSignature_def list_ex_iff)
    with changed(2) show ?thesis by (auto simp: mapping_targets_def)
  next
    case (added s)
    then have "t \<in> set (head_targets H p base s)" by (simp add: head_targets_def declarations_empty [THEN iffD2])
    with added(2) show ?thesis by (auto simp: mapping_targets_def)
  qed
qed

definition target_order :: "semantic_target \<Rightarrow> string \<times> bytes" where
  "target_order t = (Public (tg_ID t), digest_bytes (Full (tg_ID t)))"

lemma target_order_eq: "target_order s = target_order t \<longleftrightarrow> tg_ID s = tg_ID t"
  by (auto simp: target_order_def intro: stable_id.equality)

lemma dedupe_targets:
  "sorted (map target_order ts) \<Longrightarrow>
     sorted_wrt (<) (map target_order (dedupeSemanticTargets ts)) \<and>
     set (dedupeSemanticTargets ts) \<subseteq> set ts \<and> tg_ID ` set (dedupeSemanticTargets ts) = tg_ID ` set ts"
proof (induction ts rule: dedupeSemanticTargets.induct)
  case (1 a b ts)
  show ?case
  proof (cases "tg_ID a = tg_ID b")
    case True
    with 1 show ?thesis by (auto simp: target_order_def)
  next
    case False
    with 1 have IH: "sorted_wrt (<) (map target_order (dedupeSemanticTargets (b # ts)))"
      "set (dedupeSemanticTargets (b # ts)) \<subseteq> set (b # ts)"
      "tg_ID ` set (dedupeSemanticTargets (b # ts)) = tg_ID ` set (b # ts)" by auto
    have "target_order a < target_order x" if "x \<in> set (b # ts)" for x
    proof -
      have "target_order a < target_order b" using 1(3) False target_order_eq by (metis less_le list.simps(9) sorted2)
      moreover have "target_order b \<le> target_order x" using 1(3) that by auto
      ultimately show ?thesis by (rule less_le_trans)
    qed
    with IH False show ?thesis by auto
  qed
qed auto

lemma mapping_declarations:
  assumes "extractSide m SideBase (rp_OldPath r) base (rp_OldMode r \<noteq> 0 \<or> rp_OldPath r \<noteq> []) = Inr bs"
    "extractSide m SideHead (rp_NewPath r) head (rp_NewMode r \<noteq> 0 \<or> rp_NewPath r \<noteq> []) = Inr hs"
    "k \<in> set (fst (SymbolMapper_Map m r base head))"
  shows "hm_BaseDeclarations k = bs \<and> hm_HeadDeclarations k = hs"
  using assms map_hunk_ok [of "Inr bs" "Inr hs"]
  by (auto simp: SymbolMapper_Map_def Let_def mapping_ok_def side_symbols_def split: prod.splits)

text \<open>C39: when both sides could be parsed, the contract targets of a mapped path are, up to their
  identity, exactly the removed and the re-signed declarations and the newly added declarations of a
  field or an option that a hunk touches; they come in the order of their ids, none twice.\<close>

theorem semanticTargets_exact:
  assumes "base_side m r base = Inr bs" "head_side m r head = Inr hs"
  shows "let ks = fst (SymbolMapper_Map m r base head); ts = semanticTargets H pathID ks;
             wanted = {t. \<exists>k\<in>set ks. hm_SemanticAvailable k \<and> contract_target H pathID bs hs k t}
         in sorted_wrt (<) (map target_order ts) \<and> set ts \<subseteq> wanted \<and> tg_ID ` set ts = tg_ID ` wanted"
proof -
  let ?ks = "fst (SymbolMapper_Map m r base head)"
  let ?wanted = "{t. \<exists>k\<in>set ?ks. hm_SemanticAvailable k \<and> contract_target H pathID bs hs k t}"
  note decl = mapping_declarations [OF assms]
  show ?thesis
  proof (cases "filter hm_SemanticAvailable ?ks")
    case Nil
    then have "?wanted = {}" by (auto simp: filter_empty_conv)
    with Nil show ?thesis by (simp add: semanticTargets_def Let_def)
  next
    case (Cons k ks)
    let ?ts = "concat (map (mapping_targets H pathID bs hs) (k # ks))"
    have "k \<in> set (filter hm_SemanticAvailable ?ks)" by (simp add: Cons)
    then have k: "hm_BaseDeclarations k = bs" "hm_HeadDeclarations k = hs" using decl by auto
    have "semanticTargets H pathID ?ks = dedupeSemanticTargets (sort_key target_order ?ts)"
      unfolding semanticTargets_def Cons list.case k target_order_def by (rule refl)
    moreover have "set ?ts = ?wanted"
    proof -
      have "set ?ts = {t. \<exists>x\<in>set (k # ks). contract_target H pathID bs hs x t}"
        by (auto simp: mapping_targets_iff)
      also have "set (k # ks) = {x \<in> set ?ks. hm_SemanticAvailable x}" unfolding Cons [symmetric] by simp
      finally show ?thesis by (simp only: Bex_def mem_Collect_eq conj_assoc)
    qed
    moreover note dedupe_targets [of "sort_key target_order ?ts"]
    ultimately show ?thesis unfolding Let_def by (simp only: sorted_sort_key set_sort simp_thms)
  qed
qed

text \<open>a path whose hunks come from the strict patch parser has no malformed-payload omission: a hunk
  falls back only when a side could not be parsed, and the mappings keep the hunk numbering.\<close>

theorem parsed_hunks_map_cleanly:
  assumes "ParseUnifiedPatch raw = Inr (rp_Hunks r)"
  shows "let (ks, oms) = SymbolMapper_Map m r base head in
     map hm_Ordinal ks = map of_nat [0..<length ks] \<and>
     list_all (\<lambda>k. hm_Kind k = HunkMappingAtomicFallback \<longleftrightarrow>
        \<not> (side_ok (base_side m r base) \<and> side_ok (head_side m r head))) ks \<and>
     mset oms = mset (side_omissions (base_side m r base)) + mset (side_omissions (head_side m r head))"
proof -
  let ?b = "base_side m r base" and ?h = "head_side m r head"
  note hs = ParseUnifiedPatch_inv [OF assms]
  note no = parsed_no_malformed [OF assms]
  have "hm_Kind (map_hunk ?b ?h h) = HunkMappingAtomicFallback \<longleftrightarrow> \<not> (side_ok ?b \<and> side_ok ?h)"
    if "h \<in> set (rp_Hunks r)" for h
    using hs(1) that changedLines_payload [of h] map_hunk_ok [of ?b ?h h] by (simp add: list_all_iff mapping_ok_def)
  moreover have "hm_Ordinal (map_hunk ?b ?h h) = rh_Ordinal h" for h
    using map_hunk_ok [of ?b ?h h] by (simp add: mapping_ok_def split: prod.splits)
  ultimately show ?thesis using hs(2)
    by (simp add: SymbolMapper_Map_def Let_def no stableSymbolOmissions_def list_all_iff ordinals_def comp_def del: HunkMappingAtomicFallback_def)
qed

text \<open>Witnesses: a Go file whose extractor finds one function, changed by the sample patch.\<close>

definition sample_symbols :: "symbol_ref list" where
  "sample_symbols = [\<lparr>sr_Name = ''f'', sr_Kind = ''func'', sr_Signature = ''f()'', sr_Parent = [], sr_StartLine = 1, sr_EndLine = 3\<rparr>]"

definition sample_mapper :: symbol_mapper where
  "sample_mapper = \<lparr>sm_Detect = Some (\<lambda>p h. ''go''), sm_For = (\<lambda>l. Some (\<lambda>src. if src = [] then Inr [] else Inr sample_symbols))\<rparr>"

definition sample_path :: raw_path_record where
  "sample_path = sample_record\<lparr>rp_OldPath := ''a.go'', rp_NewPath := ''a.go'', rp_Hunks := [denote 0 sample_src]\<rparr>"

lemma sample_sides:
  "base_side sample_mapper sample_path ''x'' = Inr sample_symbols" "head_side sample_mapper sample_path [] = Inr []"
  by (simp_all add: extractSide_def sample_mapper_def sample_path_def detector_def Let_def sortSymbolRefs_def sample_symbols_def)

lemma sample_removed:
  "contract_target sha256 pathID sample_symbols [] (hd (fst (SymbolMapper_Map sample_mapper sample_path ''x'' [])))
     (makeSemanticTarget sha256 TargetRemovedSymbol SideBase pathID (hd sample_symbols))"
proof -
  have "changedLines (denote 0 sample_src) = ([1], [1, 2], True)" by code_simp
  then have "hm_BaseSymbols (map_hunk (Inr sample_symbols) (Inr []) (denote 0 sample_src)) = sample_symbols"
    by (simp add: map_hunk_def side_ok_def side_symbols_def symbolsTouching_def sample_symbols_def)
  then show ?thesis
    using sample_sides
    by (intro contract_target.removed) (simp_all add: SymbolMapper_Map_def Let_def sample_path_def sample_symbols_def)
qed

lemma semanticTargets_exact_witness:
  "tg_ID (makeSemanticTarget sha256 TargetRemovedSymbol SideBase \<lparr>Public = [], Full = 0\<rparr> (hd sample_symbols)) \<in>
     tg_ID ` set (semanticTargets sha256 \<lparr>Public = [], Full = 0\<rparr> (fst (SymbolMapper_Map sample_mapper sample_path ''x'' [])))"
proof -
  let ?p = "\<lparr>Public = [], Full = 0\<rparr> :: stable_id" and ?ks = "fst (SymbolMapper_Map sample_mapper sample_path ''x'' [])"
  have eq: "tg_ID ` set (semanticTargets sha256 ?p ?ks) =
      tg_ID ` {t. \<exists>k\<in>set ?ks. hm_SemanticAvailable k \<and> contract_target sha256 ?p sample_symbols [] k t}"
    using semanticTargets_exact [OF sample_sides, of sha256 ?p] unfolding Let_def by blast
  have ch: "changedLines (denote 0 sample_src) = ([1], [1, 2], True)" by code_simp
  have "?ks = [map_hunk (Inr sample_symbols) (Inr []) (denote 0 sample_src)]"
    using sample_sides by (simp add: SymbolMapper_Map_def Let_def sample_path_def)
  moreover have "hm_SemanticAvailable (map_hunk (Inr sample_symbols) (Inr []) (denote 0 sample_src))"
    by (simp add: map_hunk_def ch side_ok_def Let_def)
  ultimately have "makeSemanticTarget sha256 TargetRemovedSymbol SideBase ?p (hd sample_symbols) \<in>
      {t. \<exists>k\<in>set ?ks. hm_SemanticAvailable k \<and> contract_target sha256 ?p sample_symbols [] k t}"
    using sample_removed [of ?p] by (simp del: SideBase_def)
  then show ?thesis unfolding eq by (rule imageI)
qed

lemma parsed_hunks_map_cleanly_witness:
  "map hm_Ordinal (fst (SymbolMapper_Map sample_mapper sample_path ''x'' [])) = [0] \<and>
   mset (snd (SymbolMapper_Map sample_mapper sample_path ''x'' [])) = {#}"
proof -
  have "ParseUnifiedPatch sample_patch = Inr (rp_Hunks sample_path)" using sample_parsed by (simp add: sample_path_def)
  from parsed_hunks_map_cleanly [OF this, of sample_mapper "''x''" "[]"]
  have "map hm_Ordinal (fst (SymbolMapper_Map sample_mapper sample_path ''x'' [])) =
      map of_nat [0..<length (fst (SymbolMapper_Map sample_mapper sample_path ''x'' []))]"
    "mset (snd (SymbolMapper_Map sample_mapper sample_path ''x'' [])) =
      mset (side_omissions (Inr sample_symbols)) + mset (side_omissions (Inr []))"
    unfolding sample_sides by (simp_all add: Let_def case_prod_unfold)
  moreover have "length (fst (SymbolMapper_Map sample_mapper sample_path ''x'' [])) = 1"
    by (simp add: SymbolMapper_Map_def Let_def sample_path_def)
  ultimately show ?thesis by (simp add: side_omissions_def)
qed

lemma SymbolMapper_Map_complete_witness:
  "map hm_Hunk (fst (SymbolMapper_Map sample_mapper sample_path ''x'' [])) = [denote 0 sample_src] \<and>
   map (\<lambda>k. set (hm_BaseSymbols k)) (fst (SymbolMapper_Map sample_mapper sample_path ''x'' [])) = [set sample_symbols]"
proof -
  have parsed: "ParseUnifiedPatch sample_patch = Inr (rp_Hunks sample_path)" using sample_parsed by (simp add: sample_path_def)
  have known: "side_known sample_mapper (rp_OldMode sample_path \<noteq> 0 \<or> rp_OldPath sample_path \<noteq> []) (rp_OldPath sample_path) ''x'' (Some sample_symbols)"
    "side_known sample_mapper (rp_NewMode sample_path \<noteq> 0 \<or> rp_NewPath sample_path \<noteq> []) (rp_NewPath sample_path) [] (Some [])"
    by (simp_all add: side_known_def extracted_def sample_mapper_def sample_path_def detector_def)
  note mapped = SymbolMapper_Map_complete [OF parsed known]
  have hunks: "rp_Hunks sample_path = [denote 0 sample_src]" by (simp add: sample_path_def)
  have "set (side_lines (CHR ''-'') (CHR ''+'') (sint (rh_OldStart (denote 0 sample_src))) (lines_of (rh_Payload (denote 0 sample_src)))) = {1}"
    by code_simp
  then have "changes_base (denote 0 sample_src) 1" by (simp add: set_side_lines set_eq_iff)
  then have "touched (Some sample_symbols) (changes_base (denote 0 sample_src)) = set sample_symbols"
    by (auto simp: touched_def sample_symbols_def intro!: exI [of _ 1])
  then show ?thesis using mapped unfolding hunks by (auto simp: case_prod_unfold map_eq_Cons_conv)
qed

end
