(* ===== verification/Tarjan.thy ===== *)
theory Tarjan
  imports Prelude
begin

text \<open>
  \<open>stronglyConnected\<close> of \<open>internal/review/cohorts.go\<close>: Tarjan's algorithm over the dependency graph of
  a set of files.  The local variables of the closure are a record; the stack has its top first.
  The recursion is bounded by fuel, one unit per level; \<open>visit_ok\<close> shows that the number of
  unvisited files is always enough.
\<close>

section \<open>The algorithm\<close>

record 'a tarjan =
  tj_index :: nat
  tj_indices :: "'a \<rightharpoonup> nat"
  tj_low :: "'a \<rightharpoonup> nat"
  tj_stack :: "'a list"
  tj_components :: "'a list list"

definition tj_init :: "'a tarjan" where
  "tj_init = \<lparr>tj_index = 0, tj_indices = Map.empty, tj_low = Map.empty, tj_stack = [], tj_components = []\<rparr>"

text \<open>Lookups of keys that are present; the missing case is Go's zero value.\<close>

definition idx :: "'a tarjan \<Rightarrow> 'a \<Rightarrow> nat" where
  "idx st v = (case tj_indices st v of None \<Rightarrow> 0 | Some n \<Rightarrow> n)"

definition low :: "'a tarjan \<Rightarrow> 'a \<Rightarrow> nat" where
  "low st v = (case tj_low st v of None \<Rightarrow> 0 | Some n \<Rightarrow> n)"

definition tj_enter :: "'a \<Rightarrow> 'a tarjan \<Rightarrow> 'a tarjan" where
  "tj_enter v st = st\<lparr>tj_indices := (tj_indices st)(v \<mapsto> tj_index st), tj_low := (tj_low st)(v \<mapsto> tj_index st),
     tj_index := tj_index st + 1, tj_stack := v # tj_stack st\<rparr>"

definition lower_to :: "'a \<Rightarrow> nat \<Rightarrow> 'a tarjan \<Rightarrow> 'a tarjan" where
  "lower_to v n st = st\<lparr>tj_low := (tj_low st)(v \<mapsto> min (low st v) n)\<rparr>"

text \<open>Popping the stack down to and including \<open>v\<close>; \<open>onStack\<close> is membership in the stack.\<close>

definition tj_finish :: "('a::linorder) \<Rightarrow> 'a tarjan \<Rightarrow> 'a tarjan" where
  "tj_finish v st = (if low st v = idx st v then
       let above = takeWhile (\<lambda>w. w \<noteq> v) (tj_stack st) in
       st\<lparr>tj_stack := tl (dropWhile (\<lambda>w. w \<noteq> v) (tj_stack st)),
          tj_components := tj_components st @ [sort (above @ [v])]\<rparr>
     else st)"

fun tj_visit :: "nat \<Rightarrow> ('a::linorder \<Rightarrow> 'a list) \<Rightarrow> 'a \<Rightarrow> 'a tarjan \<Rightarrow> 'a tarjan option"
  and tj_succs :: "nat \<Rightarrow> ('a \<Rightarrow> 'a list) \<Rightarrow> 'a \<Rightarrow> 'a list \<Rightarrow> 'a tarjan \<Rightarrow> 'a tarjan option" where
  "tj_visit 0 adj v st = None"
| "tj_visit (Suc n) adj v st = map_option (tj_finish v) (tj_succs n adj v (adj v) (tj_enter v st))"
| "tj_succs n adj v [] st = Some st"
| "tj_succs n adj v (w # ws) st =
     (case tj_indices st w of
        None \<Rightarrow> Option.bind (tj_visit n adj w st) (\<lambda>st. tj_succs n adj v ws (lower_to v (low st w) st))
      | Some i \<Rightarrow> tj_succs n adj v ws (if w \<in> set (tj_stack st) then lower_to v i st else st))"

fun tj_all :: "nat \<Rightarrow> ('a::linorder \<Rightarrow> 'a list) \<Rightarrow> 'a list \<Rightarrow> 'a tarjan \<Rightarrow> 'a tarjan option" where
  "tj_all n adj [] st = Some st"
| "tj_all n adj (p # ps) st =
     (if tj_indices st p = None then Option.bind (tj_visit n adj p st) (tj_all n adj ps) else tj_all n adj ps st)"

text \<open>The components, sorted by their first element; fuel for every file is always enough.\<close>

definition stronglyConnected :: "('a::linorder) list \<Rightarrow> ('a \<Rightarrow> 'a list) \<Rightarrow> 'a list list option" where
  "stronglyConnected files adj =
     map_option (\<lambda>st. sort_key hd (tj_components st)) (tj_all (length files) adj files tj_init)"

section \<open>The invariant\<close>

definition emitted :: "'a tarjan \<Rightarrow> 'a set" where
  "emitted st = \<Union> (set ` set (tj_components st))"

definition edges :: "('a \<Rightarrow> 'a list) \<Rightarrow> ('a \<times> 'a) set" where
  "edges adj = {(x, y). y \<in> set (adj x)}"

text \<open>
  Components already emitted: each is strongly connected, they are disjoint, and every edge out of
  one leads to itself or to an earlier one.
\<close>

definition scc :: "('a \<Rightarrow> 'a list) \<Rightarrow> 'a set \<Rightarrow> bool" where
  "scc adj C \<longleftrightarrow> C \<noteq> {} \<and> (\<forall>x\<in>C. \<forall>y\<in>C. (x, y) \<in> (edges adj)\<^sup>*)"

fun comps_ok :: "('a \<Rightarrow> 'a list) \<Rightarrow> 'a set list \<Rightarrow> bool" where
  "comps_ok adj [] \<longleftrightarrow> True"
| "comps_ok adj (C # Cs) \<longleftrightarrow> scc adj C \<and> C \<inter> \<Union> (set Cs) = {} \<and>
     (\<forall>x\<in>C. set (adj x) \<subseteq> C \<union> \<Union> (set Cs)) \<and> comps_ok adj Cs"

definition tj_inv :: "('a::linorder \<Rightarrow> 'a list) \<Rightarrow> 'a set \<Rightarrow> 'a tarjan \<Rightarrow> bool" where
  "tj_inv adj A st \<longleftrightarrow>
     dom (tj_indices st) = set (tj_stack st) \<union> emitted st \<and> dom (tj_indices st) \<subseteq> A \<and>
     set (tj_stack st) \<inter> emitted st = {} \<and>
     sorted_wrt (\<lambda>x y. idx st y < idx st x) (tj_stack st) \<and>
     (\<forall>x\<in>dom (tj_indices st). idx st x < tj_index st) \<and>
     comps_ok adj (rev (map set (tj_components st))) \<and> (\<forall>c\<in>set (tj_components st). sorted c \<and> distinct c)"

text \<open>
  Edges into \<open>Y\<close> that lead to emitted vertices or to stack vertices at level \<open>l\<close> or above, and vertices
  that reach a lower stack vertex.
\<close>

definition covered :: "'a tarjan \<Rightarrow> nat \<Rightarrow> 'a set \<Rightarrow> bool" where
  "covered st l Y \<longleftrightarrow> (\<forall>y\<in>Y. y \<in> emitted st \<or> y \<in> set (tj_stack st) \<and> l \<le> idx st y)"

definition reaches_level :: "('a \<Rightarrow> 'a list) \<Rightarrow> 'a tarjan \<Rightarrow> 'a \<Rightarrow> nat \<Rightarrow> bool" where
  "reaches_level adj st x l \<longleftrightarrow> (\<exists>y\<in>set (tj_stack st). idx st y = l \<and> (x, y) \<in> (edges adj)\<^sup>*)"

definition descends :: "('a \<Rightarrow> 'a list) \<Rightarrow> 'a tarjan \<Rightarrow> 'a \<Rightarrow> bool" where
  "descends adj st x \<longleftrightarrow> (\<exists>l<idx st x. reaches_level adj st x l)"

text \<open>The finished part \<open>seg\<close> of the stack above \<open>v\<close> in a state whose level for \<open>v\<close> is \<open>l\<close>.\<close>

definition segment :: "('a \<Rightarrow> 'a list) \<Rightarrow> 'a tarjan \<Rightarrow> 'a \<Rightarrow> nat \<Rightarrow> 'a list \<Rightarrow> bool" where
  "segment adj st v l seg \<longleftrightarrow>
     (\<forall>x\<in>set seg. covered st l (set (adj x)) \<and> descends adj st x \<and> (v, x) \<in> (edges adj)\<^sup>*)"

text \<open>What a visit may change.\<close>

definition extends :: "'a tarjan \<Rightarrow> 'a tarjan \<Rightarrow> bool" where
  "extends st st' \<longleftrightarrow> (\<forall>x\<in>dom (tj_indices st). tj_indices st' x = tj_indices st x \<and> tj_low st' x = tj_low st x) \<and>
     emitted st \<subseteq> emitted st' \<and> tj_index st \<le> tj_index st' \<and>
     (\<forall>x\<in>dom (tj_indices st') - dom (tj_indices st). tj_index st \<le> idx st' x)"

text \<open>After a visit of \<open>v\<close>: either its component was emitted, or it stays on the stack with its segment.\<close>

definition visited :: "('a::linorder \<Rightarrow> 'a list) \<Rightarrow> 'a set \<Rightarrow> 'a tarjan \<Rightarrow> 'a \<Rightarrow> 'a tarjan \<Rightarrow> bool" where
  "visited adj A st v st' \<longleftrightarrow> tj_inv adj A st' \<and> extends st st' \<and> v \<in> dom (tj_indices st') \<and> low st' v \<le> idx st' v \<and>
     (tj_stack st' = tj_stack st \<and> v \<in> emitted st' \<and> low st' v = idx st' v \<or>
      (\<exists>seg. tj_stack st' = seg @ [v] @ tj_stack st \<and> segment adj st' v (low st' v) (seg @ [v])
        \<and> reaches_level adj st' v (low st' v)))"

text \<open>During a visit of \<open>v\<close>, begun in \<open>st0\<close>, with the edges to \<open>D\<close> already followed.\<close>

definition visiting :: "('a::linorder \<Rightarrow> 'a list) \<Rightarrow> 'a set \<Rightarrow> 'a tarjan \<Rightarrow> 'a \<Rightarrow> 'a set \<Rightarrow> 'a tarjan \<Rightarrow> bool" where
  "visiting adj A st0 v D st \<longleftrightarrow> tj_inv adj A st \<and> extends st0 st \<and> v \<in> dom (tj_indices st) \<and>
     v \<notin> dom (tj_indices st0) \<and>
     (\<exists>seg. tj_stack st = seg @ [v] @ tj_stack st0 \<and> segment adj st v (low st v) seg) \<and>
     low st v \<le> idx st v \<and> covered st (low st v) D \<and> reaches_level adj st v (low st v)"

section \<open>Small facts\<close>

lemma lower_to_simps [simp]:
  "tj_indices (lower_to v n st) = tj_indices st" "tj_stack (lower_to v n st) = tj_stack st"
  "tj_index (lower_to v n st) = tj_index st" "tj_components (lower_to v n st) = tj_components st"
  "idx (lower_to v n st) = idx st" "emitted (lower_to v n st) = emitted st"
  "low (lower_to v n st) x = (if x = v then min (low st v) n else low st x)"
  by (simp_all add: lower_to_def idx_def low_def emitted_def fun_eq_iff)

lemma lower_to_inv [simp]: "tj_inv adj A (lower_to v n st) \<longleftrightarrow> tj_inv adj A st"
  by (simp add: tj_inv_def)

lemma lower_to_levels [simp]:
  "covered (lower_to v n st) l Y \<longleftrightarrow> covered st l Y"
  "reaches_level adj (lower_to v n st) x l \<longleftrightarrow> reaches_level adj st x l"
  "descends adj (lower_to v n st) x \<longleftrightarrow> descends adj st x"
  "segment adj (lower_to v n st) v' l seg \<longleftrightarrow> segment adj st v' l seg"
  by (simp_all add: covered_def reaches_level_def descends_def segment_def)

lemma covered_mono: "covered st l Y \<Longrightarrow> l' \<le> l \<Longrightarrow> covered st l' Y"
  by (auto simp: covered_def)

lemma segment_mono: "segment adj st v l seg \<Longrightarrow> l' \<le> l \<Longrightarrow> segment adj st v l' seg"
  by (auto simp: segment_def intro: covered_mono)

lemma segment_append: "segment adj st v l (xs @ ys) \<longleftrightarrow> segment adj st v l xs \<and> segment adj st v l ys"
  by (auto simp: segment_def)

lemma segment_from: "segment adj st w l seg \<Longrightarrow> (v, w) \<in> edges adj \<Longrightarrow> segment adj st v l seg"
  by (auto simp: segment_def intro: converse_rtrancl_into_rtrancl)

lemma extends_trans: "extends a b \<Longrightarrow> extends b c \<Longrightarrow> extends a c"
proof -
  assume ab: "extends a b" and bc: "extends b c"
  have d: "dom (tj_indices a) \<subseteq> dom (tj_indices b)" using ab by (force simp: extends_def)
  show "extends a c" unfolding extends_def
  proof (intro conjI ballI)
    fix x assume "x \<in> dom (tj_indices a)"
    moreover from this have "x \<in> dom (tj_indices b)" using d by blast
    ultimately show "tj_indices c x = tj_indices a x" "tj_low c x = tj_low a x"
      using ab bc unfolding extends_def by (metis (no_types, lifting))+
  next
    fix x assume x: "x \<in> dom (tj_indices c) - dom (tj_indices a)"
    show "tj_index a \<le> idx c x"
    proof (cases "x \<in> dom (tj_indices b)")
      case True
      then have "idx c x = idx b x" using bc by (simp add: extends_def idx_def)
      with True x ab show ?thesis by (simp add: extends_def)
    next
      case False
      with x have "x \<in> dom (tj_indices c) - dom (tj_indices b)" by simp
      then have "tj_index b \<le> idx c x" using bc unfolding extends_def by blast
      moreover have "tj_index a \<le> tj_index b" using ab by (simp add: extends_def)
      ultimately show ?thesis by simp
    qed
  qed (use ab bc in \<open>auto simp: extends_def\<close>)
qed

lemma extends_idx: "extends st st' \<Longrightarrow> x \<in> dom (tj_indices st) \<Longrightarrow> idx st' x = idx st x \<and> low st' x = low st x"
  by (simp add: extends_def idx_def low_def)

lemma stack_dom: "tj_inv adj A st \<Longrightarrow> x \<in> set (tj_stack st) \<Longrightarrow> x \<in> dom (tj_indices st)"
  by (simp add: tj_inv_def)

text \<open>Facts about a state survive a visit that keeps its stack below.\<close>

lemma survive:
  assumes "tj_inv adj A st" "extends st st'" "set (tj_stack st) \<subseteq> set (tj_stack st')"
  shows "covered st l Y \<Longrightarrow> covered st' l Y"
    "x \<in> dom (tj_indices st) \<Longrightarrow> reaches_level adj st x l \<Longrightarrow> reaches_level adj st' x l"
    "x \<in> set (tj_stack st) \<Longrightarrow> descends adj st x \<Longrightarrow> descends adj st' x"
proof -
  have i: "idx st' y = idx st y" if "y \<in> set (tj_stack st)" for y
    using extends_idx [OF assms(2)] stack_dom [OF assms(1) that] by simp
  show "covered st l Y \<Longrightarrow> covered st' l Y" using i assms(2,3) by (force simp: covered_def extends_def)
  show level: "x \<in> dom (tj_indices st) \<Longrightarrow> reaches_level adj st x l \<Longrightarrow> reaches_level adj st' x l" for x l
    using i assms(3) by (force simp: reaches_level_def)
  show "x \<in> set (tj_stack st) \<Longrightarrow> descends adj st x \<Longrightarrow> descends adj st' x"
    using level i stack_dom [OF assms(1)] by (fastforce simp: descends_def)
qed

lemma survive_segment:
  assumes "tj_inv adj A st" "extends st st'" "set (tj_stack st) \<subseteq> set (tj_stack st')" "set seg \<subseteq> set (tj_stack st)"
  shows "segment adj st v l seg \<Longrightarrow> segment adj st' v l seg"
  using assms(4) survive [OF assms(1-3)] by (auto simp: segment_def)

section \<open>One visit\<close>

lemma enter_visiting:
  assumes "tj_inv adj A st" "tj_indices st v = None" "v \<in> A"
  shows "visiting adj A st v {} (tj_enter v st)"
proof -
  have st: "idx (tj_enter v st) x = (if x = v then tj_index st else idx st x)"
    "low (tj_enter v st) x = (if x = v then tj_index st else low st x)"
    "emitted (tj_enter v st) = emitted st" for x
    by (simp_all add: tj_enter_def idx_def low_def emitted_def)
  have v: "v \<notin> set (tj_stack st)" "v \<notin> emitted st" using assms(1,2) by (auto simp: tj_inv_def)
  have lt: "\<forall>x\<in>set (tj_stack st). idx st x < tj_index st" using assms(1) by (auto simp: tj_inv_def)
  have sorted: "sorted_wrt (\<lambda>x y. idx (tj_enter v st) y < idx (tj_enter v st) x) (tj_stack st)"
    using assms(1) v(1) unfolding st tj_inv_def by (auto intro: sorted_wrt_mono_rel [rotated])
  have "tj_inv adj A (tj_enter v st)"
    using assms v lt sorted unfolding tj_inv_def st by (auto simp: tj_enter_def less_Suc_eq)
  moreover have "extends st (tj_enter v st)"
    using assms(2) st by (auto simp: extends_def) (auto simp: tj_enter_def)
  moreover have "v \<notin> dom (tj_indices st)" using assms(2) by (simp add: domIff)
  moreover have "tj_stack (tj_enter v st) = [] @ [v] @ tj_stack st" "v \<in> dom (tj_indices (tj_enter v st))"
    by (simp_all add: tj_enter_def)
  moreover have "segment adj (tj_enter v st) v l []" for l by (simp add: segment_def)
  ultimately show ?thesis
    unfolding visiting_def st by (auto simp: covered_def reaches_level_def st)
qed

text \<open>One edge of the loop: to a vertex not seen before, on the stack, or already emitted.\<close>

lemma extends_lower: "extends st0 st \<Longrightarrow> v \<notin> dom (tj_indices st0) \<Longrightarrow> extends st0 (lower_to v n st)"
proof -
  assume e: "extends st0 st" and v: "v \<notin> dom (tj_indices st0)"
  have "tj_low (lower_to v n st) x = tj_low st x" if "x \<in> dom (tj_indices st0)" for x
    using that v by (auto simp: lower_to_def)
  with e show ?thesis unfolding extends_def lower_to_simps by simp
qed

lemma extends_dom: "extends st st' \<Longrightarrow> x \<in> dom (tj_indices st) \<Longrightarrow> x \<in> dom (tj_indices st')"
  by (simp add: extends_def domIff)

lemma covered_insert: "covered st l (insert w D) \<longleftrightarrow> covered st l {w} \<and> covered st l D"
  by (auto simp: covered_def)

lemma reaches_from: "reaches_level adj st w l \<Longrightarrow> (v, w) \<in> edges adj \<Longrightarrow> reaches_level adj st v l"
  by (auto simp: reaches_level_def intro: converse_rtrancl_into_rtrancl)

lemma step_unvisited:
  assumes L: "visiting adj A st0 v D st" and w: "tj_indices st w = None" "w \<in> set (adj v)"
    and V: "visited adj A st w st1"
  shows "visiting adj A st0 v (insert w D) (lower_to v (low st1 w) st1)"
proof -
  obtain seg where seg: "tj_stack st = seg @ [v] @ tj_stack st0" "segment adj st v (low st v) seg"
    using L by (auto simp: visiting_def)
  from L have inv: "tj_inv adj A st" and ext0: "extends st0 st" and vd: "v \<in> dom (tj_indices st)"
    and vn: "v \<notin> dom (tj_indices st0)"
    and lv: "low st v \<le> idx st v" "covered st (low st v) D" "reaches_level adj st v (low st v)"
    by (simp_all add: visiting_def)
  from V have inv1: "tj_inv adj A st1" and ext: "extends st st1" and wd: "w \<in> dom (tj_indices st1)" "low st1 w \<le> idx st1 w"
    by (simp_all add: visited_def)
  have v1: "low st1 v = low st v" "idx st1 v = idx st v" using extends_idx [OF ext vd] by simp_all
  have vd1: "v \<in> dom (tj_indices st1)" by (rule extends_dom [OF ext vd])
  have vw: "(v, w) \<in> edges adj" using w(2) by (simp add: edges_def)
  have ext': "extends st0 (lower_to v n st1)" for n
    by (rule extends_lower [OF extends_trans [OF ext0 ext] vn])
  have wn: "w \<notin> dom (tj_indices st)" using w(1) by auto
  have widx: "tj_index st \<le> idx st1 w" using ext wd(1) wn unfolding extends_def by blast
  have vlt: "idx st v < tj_index st" using inv vd by (simp add: tj_inv_def)
  let ?l = "min (low st v) (low st1 w)"
  have sub: "set (tj_stack st) \<subseteq> set (tj_stack st1)" using V by (auto simp: visited_def)
  have vs: "v \<in> set (tj_stack st)" and ss: "set seg \<subseteq> set (tj_stack st)" using seg(1) by auto
  have cov: "covered st1 ?l D" using survive(1) [OF inv ext sub lv(2)] by (rule covered_mono) simp
  have sg: "segment adj st1 v ?l seg"
    using survive_segment [OF inv ext sub ss seg(2)] by (rule segment_mono) simp
  have rv: "reaches_level adj st1 v (low st v)" using survive(2) [OF inv ext sub vd lv(3)] .
  have split: "(\<exists>seg'. tj_stack st1 = seg' @ [v] @ tj_stack st0 \<and> segment adj st1 v ?l seg') \<and>
     covered st1 ?l {w} \<and> reaches_level adj st1 v ?l"
  proof -
    from V consider (popped) "tj_stack st1 = tj_stack st" "w \<in> emitted st1" "low st1 w = idx st1 w"
      | (stays) segw where "tj_stack st1 = segw @ [w] @ tj_stack st" "segment adj st1 w (low st1 w) (segw @ [w])"
        "reaches_level adj st1 w (low st1 w)"
      by (auto simp: visited_def)
    then show ?thesis
    proof cases
      case popped
      then have "?l = low st v" using widx vlt lv(1) by simp
      with popped seg(1) sg rv show ?thesis by (auto simp: covered_def)
    next
      case stays
      have "segment adj st1 v ?l (segw @ [w])"
        using segment_from [OF stays(2) vw] by (rule segment_mono) simp
      with sg have "segment adj st1 v ?l (segw @ [w] @ seg)" by (simp only: segment_append)
      moreover have "tj_stack st1 = (segw @ [w] @ seg) @ [v] @ tj_stack st0" using stays(1) seg(1) by simp
      moreover have "covered st1 ?l {w}" using stays(1) wd(2) by (simp add: covered_def min.coboundedI2)
      moreover have "reaches_level adj st1 v ?l"
        using rv reaches_from [OF stays(3) vw] by (simp add: min_def)
      ultimately show ?thesis by blast
    qed
  qed
  then obtain seg' where seg': "tj_stack st1 = seg' @ [v] @ tj_stack st0" "segment adj st1 v ?l seg'" by blast
  have cov': "covered st1 ?l (insert w D)" using split cov by (simp only: covered_insert [of st1 ?l w D])
  have "?l \<le> idx st v" using lv(1) by simp
  then show ?thesis
    unfolding visiting_def lower_to_simps lower_to_inv lower_to_levels v1
    using inv1 ext' vd1 vn seg' cov' split by auto
qed

lemma step_on_stack:
  assumes L: "visiting adj A st0 v D st" and w: "tj_indices st w = Some i" "w \<in> set (adj v)" "w \<in> set (tj_stack st)"
  shows "visiting adj A st0 v (insert w D) (lower_to v i st)"
proof -
  obtain seg where seg: "tj_stack st = seg @ [v] @ tj_stack st0" "segment adj st v (low st v) seg"
    using L by (auto simp: visiting_def)
  from L have inv: "tj_inv adj A st" "v \<in> dom (tj_indices st)" "v \<notin> dom (tj_indices st0)"
    and lv: "low st v \<le> idx st v" "covered st (low st v) D" "reaches_level adj st v (low st v)"
    and ext: "extends st0 (lower_to v i st)"
    by (simp_all add: visiting_def extends_lower)
  have i: "idx st w = i" using w(1) by (simp add: idx_def)
  have "(v, w) \<in> (edges adj)\<^sup>*" using w(2) by (auto simp: edges_def)
  with w(3) i have r: "reaches_level adj st v i" by (auto simp: reaches_level_def)
  have "covered st (min (low st v) i) {w}" using w(3) i by (simp add: covered_def)
  moreover have "covered st (min (low st v) i) D" using lv(2) by (rule covered_mono) simp
  ultimately have c: "covered st (min (low st v) i) (insert w D)"
    by (simp only: covered_insert [of st "min (low st v) i" w D])
  have "segment adj st v (min (low st v) i) seg" using seg(2) by (rule segment_mono) simp
  moreover have "reaches_level adj st v (min (low st v) i)" using lv(3) r by (simp add: min_def)
  moreover have "min (low st v) i \<le> idx st v" using lv(1) by simp
  ultimately show ?thesis
    unfolding visiting_def lower_to_simps lower_to_inv lower_to_levels using inv ext seg(1) c by auto
qed

lemma step_emitted:
  assumes L: "visiting adj A st0 v D st" and w: "tj_indices st w = Some i" "w \<notin> set (tj_stack st)"
  shows "visiting adj A st0 v (insert w D) st"
proof -
  have "w \<in> emitted st" using L w by (auto simp: visiting_def tj_inv_def)
  then have "covered st l {w}" for l by (simp add: covered_def)
  with L show ?thesis unfolding visiting_def covered_insert [of st _ w D] by blast
qed

text \<open>The components emitted so far are closed under the edges.\<close>

lemma comps_closed:
  assumes "comps_ok adj Cs" "(x, y) \<in> (edges adj)\<^sup>*" "x \<in> \<Union> (set Cs)"
  shows "y \<in> \<Union> (set Cs)"
proof -
  have step: "z \<in> \<Union> (set Cs)" if "(y, z) \<in> edges adj" "y \<in> \<Union> (set Cs)" for y z
    using assms(1) that by (induction Cs) (fastforce simp: edges_def)+
  from assms(2,3) show ?thesis by (induction rule: rtrancl_induct) (simp, blast intro: step)
qed

lemma strictly_sorted_distinct: "sorted_wrt (\<lambda>x y. (f y :: nat) < f x) xs \<Longrightarrow> distinct xs"
  by (induction xs) auto

lemma emitted_union: "emitted st = \<Union> (set (rev (map set (tj_components st))))"
  by (simp add: emitted_def)

lemma finish_root:
  assumes L: "visiting adj A st0 v (set (adj v)) st" and root: "low st v = idx st v"
  shows "visited adj A st0 v (tj_finish v st)"
proof -
  obtain seg where seg: "tj_stack st = seg @ [v] @ tj_stack st0" "segment adj st v (low st v) seg"
    using L by (auto simp: visiting_def)
  let ?C = "insert v (set seg)"
  from L have inv: "tj_inv adj A st" and vd: "v \<in> dom (tj_indices st)" and ext: "extends st0 st"
    and cov: "covered st (idx st v) (set (adj v))"
    by (simp_all add: visiting_def root)
  from inv have ok: "comps_ok adj (rev (map set (tj_components st)))"
    and disj: "set (tj_stack st) \<inter> emitted st = {}"
    and dom: "dom (tj_indices st) = set (tj_stack st) \<union> emitted st" "dom (tj_indices st) \<subseteq> A"
    and ord: "sorted_wrt (\<lambda>x y. idx st y < idx st x) (tj_stack st)"
    and cs: "\<forall>c\<in>set (tj_components st). sorted c \<and> distinct c"
    and lt: "\<forall>x\<in>dom (tj_indices st). idx st x < tj_index st"
    unfolding tj_inv_def by blast+
  have above: "idx st v < idx st x" if "x \<in> set seg" for x using ord that by (auto simp: seg(1) sorted_wrt_append)
  have below: "idx st x < idx st v" if "x \<in> set (tj_stack st0)" for x
    using ord that by (auto simp: seg(1) sorted_wrt_append)
  have vseg: "v \<notin> set seg" using above by blast
  have dist: "distinct (tj_stack st)"
    by (rule strictly_sorted_distinct [OF ord])
  have closed: "set (adj x) \<subseteq> ?C \<union> emitted st" if "x \<in> ?C" for x
  proof -
    have "covered st (idx st v) (set (adj x))" using that cov seg(2) by (auto simp: segment_def root)
    then show ?thesis using below unfolding covered_def seg(1) by (force simp: not_le [symmetric])
  qed
  have stay: "y \<in> ?C \<union> emitted st" if "(x, y) \<in> (edges adj)\<^sup>*" "x \<in> ?C" for x y
    using that
  proof (induction rule: rtrancl_induct)
    case (step y z)
    show ?case
    proof (cases "y \<in> ?C")
      case True with closed step(2) show ?thesis by (auto simp: edges_def)
    next
      case False
      with step have "y \<in> emitted st" by blast
      with comps_closed [OF ok, of y z] step(2) show ?thesis by (auto simp: emitted_union)
    qed
  qed blast
  have up: "(x, v) \<in> (edges adj)\<^sup>*" if "x \<in> ?C" for x
    using that
  proof (induction "idx st x" arbitrary: x rule: less_induct)
    case less
    show ?case
    proof (cases "x = v")
      case False
      with less(2) have "descends adj st x" using seg(2) by (auto simp: segment_def)
      then obtain y where y: "y \<in> set (tj_stack st)" "idx st y < idx st x" "(x, y) \<in> (edges adj)\<^sup>*"
        by (auto simp: descends_def reaches_level_def)
      with stay [OF y(3) less(2)] disj have "y \<in> ?C" by blast
      from rtrancl_trans [OF y(3) less(1) [OF y(2) this]] show ?thesis .
    qed simp
  qed
  have fwd: "(v, x) \<in> (edges adj)\<^sup>*" if "x \<in> ?C" for x using that seg(2) by (auto simp: segment_def)
  have scc: "scc adj ?C" unfolding scc_def using rtrancl_trans [OF up fwd] by blast
  have tw: "takeWhile (\<lambda>w. w \<noteq> v) (tj_stack st) = seg" "dropWhile (\<lambda>w. w \<noteq> v) (tj_stack st) = v # tj_stack st0"
    using vseg by (simp_all add: seg(1) takeWhile_append dropWhile_append)
  have fin: "tj_finish v st = st\<lparr>tj_stack := tj_stack st0, tj_components := tj_components st @ [sort (seg @ [v])]\<rparr>"
    by (simp add: tj_finish_def root tw Let_def)
  have st': "emitted (tj_finish v st) = ?C \<union> emitted st" "idx (tj_finish v st) = idx st" "low (tj_finish v st) = low st"
    "tj_indices (tj_finish v st) = tj_indices st" "tj_low (tj_finish v st) = tj_low st"
    "tj_stack (tj_finish v st) = tj_stack st0" "tj_index (tj_finish v st) = tj_index st"
    unfolding fin by (auto simp: emitted_def idx_def low_def fun_eq_iff)
  have "comps_ok adj (rev (map set (tj_components (tj_finish v st))))"
    using scc closed disj ok by (auto simp: fin seg(1) emitted_union)
  moreover have "\<forall>c\<in>set (tj_components (tj_finish v st)). sorted c \<and> distinct c"
    using cs dist by (auto simp: fin seg(1))
  moreover have "set (tj_stack st0) \<inter> ?C = {}" using dist by (auto simp: seg(1))
  ultimately have "tj_inv adj A (tj_finish v st)"
    using dom disj ord lt unfolding tj_inv_def st' by (auto simp: seg(1) sorted_wrt_append)
  moreover have "extends st0 (tj_finish v st)" using ext unfolding extends_def st' by auto
  ultimately show ?thesis unfolding visited_def st' using vd root by simp
qed

lemma finish_inner:
  assumes L: "visiting adj A st0 v (set (adj v)) st" and inner: "low st v \<noteq> idx st v"
  shows "visited adj A st0 v (tj_finish v st)"
proof -
  obtain seg where seg: "tj_stack st = seg @ [v] @ tj_stack st0" "segment adj st v (low st v) seg"
    using L by (auto simp: visiting_def)
  from L inner have d: "descends adj st v" unfolding visiting_def descends_def by (metis le_neq_implies_less)
  have "segment adj st v (low st v) (seg @ [v])"
    using seg(2) d L by (simp add: segment_append) (simp add: segment_def visiting_def)
  with L seg inner show ?thesis by (auto simp: visiting_def visited_def tj_finish_def)
qed

lemma finish_visited: "visiting adj A st0 v (set (adj v)) st \<Longrightarrow> visited adj A st0 v (tj_finish v st)"
  by (cases "low st v = idx st v") (auto intro: finish_root finish_inner)

section \<open>The whole traversal\<close>

abbreviation unseen :: "'a set \<Rightarrow> 'a tarjan \<Rightarrow> 'a set" where
  "unseen A st \<equiv> A - dom (tj_indices st)"

text \<open>Fuel for every unvisited vertex is enough.\<close>

lemma visit_ok:
  assumes fin: "finite A"
  shows "\<forall>x\<in>A. set (adj x) \<subseteq> A \<Longrightarrow> tj_inv adj A st \<Longrightarrow> tj_indices st v = None \<Longrightarrow> v \<in> A \<Longrightarrow>
      card (unseen A st) \<le> n \<Longrightarrow> \<exists>st'. tj_visit n adj v st = Some st' \<and> visited adj A st v st'"
    and "\<forall>x\<in>A. set (adj x) \<subseteq> A \<Longrightarrow> visiting adj A st0 v D st \<Longrightarrow> v \<in> A \<Longrightarrow> set ws \<subseteq> set (adj v) \<Longrightarrow>
      card (unseen A st) \<le> n \<Longrightarrow>
      \<exists>st'. tj_succs n adj v ws st = Some st' \<and> visiting adj A st0 v (set ws \<union> D) st'"
proof (induction n adj v st and n adj v ws st arbitrary: and st0 D rule: tj_visit_tj_succs.induct)
  case (1 adj v st)
  then have "v \<in> unseen A st" by (simp add: domIff)
  with 1(5) fin show ?case by (auto simp: card_eq_0_iff)
next
  case (2 n adj v st)
  have "unseen A (tj_enter v st) = unseen A st - {v}" by (auto simp: tj_enter_def)
  moreover have "v \<in> unseen A st" using 2 by (simp add: domIff)
  ultimately have "card (unseen A (tj_enter v st)) \<le> n" using 2(6) fin by simp
  from 2(1) [OF 2(2) enter_visiting [OF 2(3-5)] 2(5) order_refl this]
  obtain st' where "tj_succs n adj v (adj v) (tj_enter v st) = Some st'" "visiting adj A st v (set (adj v)) st'"
    by auto
  then show ?case by (auto intro: finish_visited)
next
  case (3 n adj v st)
  then show ?case by simp
next
  case (4 n adj v w ws st)
  have wv: "w \<in> set (adj v)" using 4(7) by simp
  have wA: "w \<in> A" using 4(4,6) wv by blast
  show ?case
  proof (cases "tj_indices st w")
    case None
    from 4(5) have inv: "tj_inv adj A st" by (simp add: visiting_def)
    from 4(1) [OF None 4(4) inv None wA 4(8)] obtain st1
      where st1: "tj_visit n adj w st = Some st1" "visited adj A st w st1" by blast
    have "unseen A st1 \<subseteq> unseen A st" using st1(2) by (auto simp: visited_def dest: extends_dom)
    with fin 4(8) have "card (unseen A (lower_to v (low st1 w) st1)) \<le> n"
      by (simp add: le_trans [OF card_mono [OF finite_Diff]])
    from 4(2) [OF None st1(1) 4(4) step_unvisited [OF 4(5) None wv st1(2)] 4(6) _ this] 4(7) None st1(1)
    show ?thesis by auto
  next
    case (Some i)
    show ?thesis
    proof (cases "w \<in> set (tj_stack st)")
      case True
      from 4(3) [OF Some 4(4), of _ "insert w D"] step_on_stack [OF 4(5) Some wv True] True Some 4(6,7,8)
      show ?thesis by auto
    next
      case False
      from 4(3) [OF Some 4(4), of _ "insert w D"] step_emitted [OF 4(5) Some False] False Some 4(6,7,8)
      show ?thesis by auto
    qed
  qed
qed

lemma all_ok:
  assumes fin: "finite A" and cl: "\<And>x. x \<in> A \<Longrightarrow> set (adj x) \<subseteq> A" and n: "card A \<le> n"
  shows "tj_inv adj A st \<Longrightarrow> tj_stack st = [] \<Longrightarrow> set ps \<subseteq> A \<Longrightarrow>
    \<exists>st'. tj_all n adj ps st = Some st' \<and> tj_inv adj A st' \<and> tj_stack st' = [] \<and>
      set ps \<union> dom (tj_indices st) \<subseteq> dom (tj_indices st')"
proof (induction ps arbitrary: st)
  case (Cons p ps)
  show ?case
  proof (cases "tj_indices st p")
    case None
    have "card (unseen A st) \<le> n" using n fin by (meson card_mono Diff_subset le_trans)
    from visit_ok(1) [OF fin _ Cons(2) None _ this] Cons(4) cl
    obtain st1 where st1: "tj_visit n adj p st = Some st1" "visited adj A st p st1" by auto
    then have inv1: "tj_inv adj A st1" and ext: "extends st st1" by (simp_all add: visited_def)
    have empty: "tj_stack st1 = []"
    proof (rule ccontr)
      assume "tj_stack st1 \<noteq> []"
      with st1(2) Cons(3) obtain seg where seg: "tj_stack st1 = seg @ [p]" "segment adj st1 p (low st1 p) (seg @ [p])"
        by (auto simp: visited_def)
      then obtain y where "y \<in> set (tj_stack st1)" "idx st1 y < idx st1 p"
        by (auto simp: segment_def descends_def reaches_level_def)
      with inv1 seg(1) show False by (auto simp: tj_inv_def sorted_wrt_append)
    qed
    from Cons(1) [OF inv1 empty] Cons(4) obtain st' where
      st': "tj_all n adj ps st1 = Some st'" "tj_inv adj A st'" "tj_stack st' = []"
        "set ps \<union> dom (tj_indices st1) \<subseteq> dom (tj_indices st')" by auto
    moreover have "p \<in> dom (tj_indices st1)" using st1(2) by (simp add: visited_def)
    moreover have "dom (tj_indices st) \<subseteq> dom (tj_indices st1)" using extends_dom [OF ext] by blast
    ultimately have "set (p # ps) \<union> dom (tj_indices st) \<subseteq> dom (tj_indices st')"
      unfolding list.set by blast
    with None st1(1) st' show ?thesis by simp
  next
    case (Some i)
    with Cons show ?thesis by (fastforce simp: domIff)
  qed
qed auto

text \<open>In a family of closed components, reaching each other is sharing a component.\<close>

lemma comps_ok_append: "comps_ok adj (Cs @ Ds) \<Longrightarrow> comps_ok adj Ds"
  by (induction Cs) auto

lemma comps_scc: "comps_ok adj Cs \<Longrightarrow> C \<in> set Cs \<Longrightarrow> scc adj C"
  by (induction Cs) auto

lemma comps_mutual:
  assumes "comps_ok adj Cs" "x \<in> \<Union> (set Cs)" "(x, y) \<in> (edges adj)\<^sup>*" "(y, x) \<in> (edges adj)\<^sup>*"
  shows "\<exists>C\<in>set Cs. x \<in> C \<and> y \<in> C"
proof -
  from assms(2) obtain C where C: "C \<in> set Cs" "x \<in> C" by blast
  then obtain As Bs where Cs: "Cs = As @ C # Bs" by (auto dest: split_list)
  from comps_ok_append [of adj As "C # Bs"] assms(1) Cs have ok: "comps_ok adj (C # Bs)" by simp
  then have "y \<in> \<Union> (set (C # Bs))" by (rule comps_closed [OF _ assms(3)]) (use C in simp)
  moreover have "y \<notin> \<Union> (set Bs)"
  proof
    assume "y \<in> \<Union> (set Bs)"
    then have "x \<in> \<Union> (set Bs)" by (rule comps_closed [OF _ assms(4), rotated]) (use ok in simp)
    with ok C show False by auto
  qed
  ultimately show ?thesis using C by auto
qed

lemma comps_distinct:
  "comps_ok adj (rev (map set cs)) \<Longrightarrow> \<forall>c\<in>set cs. distinct c \<Longrightarrow> distinct (concat cs)"
  by (induction cs rule: rev_induct) auto

lemma mset_concat_sort_key: "mset (concat (sort_key f xs)) = mset (concat xs)"
  by (simp only: mset_concat sum_mset_sum_list [symmetric]) simp

text \<open>
  What the callers use: the components are sorted sets that partition the files, and two files share
  a component exactly when each reaches the other.
\<close>

definition mutual :: "('a \<Rightarrow> 'a list) \<Rightarrow> 'a \<Rightarrow> 'a \<Rightarrow> bool" where
  "mutual adj x y \<longleftrightarrow> (x, y) \<in> (edges adj)\<^sup>* \<and> (y, x) \<in> (edges adj)\<^sup>*"

definition sccs_of :: "('a::linorder \<Rightarrow> 'a list) \<Rightarrow> 'a set \<Rightarrow> 'a list list \<Rightarrow> bool" where
  "sccs_of adj A cs \<longleftrightarrow> set (concat cs) = A \<and> distinct (concat cs) \<and> sorted (map hd cs) \<and>
     (\<forall>c\<in>set cs. c \<noteq> [] \<and> sorted c) \<and>
     (\<forall>x\<in>A. \<forall>y\<in>A. (\<exists>c\<in>set cs. x \<in> set c \<and> y \<in> set c) \<longleftrightarrow> mutual adj x y)"

lemma stronglyConnected_sccs:
  assumes cl: "\<And>x. x \<in> set files \<Longrightarrow> set (adj x) \<subseteq> set files"
  shows "\<exists>cs. stronglyConnected files adj = Some cs \<and> sccs_of adj (set files) cs"
proof -
  have "tj_inv adj (set files) tj_init" "tj_stack tj_init = []" by (simp_all add: tj_inv_def tj_init_def emitted_def)
  from all_ok [where adj = adj and ps = files, OF finite_set cl card_length this order_refl]
  obtain st where st: "tj_all (length files) adj files tj_init = Some st" "tj_inv adj (set files) st"
    "tj_stack st = []" "set files \<subseteq> dom (tj_indices st)" by auto
  let ?cs = "tj_components st"
  from st(2) have ok: "comps_ok adj (rev (map set ?cs))" and em: "emitted st = set files"
    and cs: "\<forall>c\<in>set ?cs. sorted c \<and> distinct c"
    using st(3,4) by (auto simp: tj_inv_def)
  have U: "\<Union> (set (rev (map set ?cs))) = set files" using em by (simp add: emitted_def)
  have scc: "scc adj (set c)" if "c \<in> set ?cs" for c using comps_scc [OF ok] that by simp
  have "(\<exists>c\<in>set ?cs. x \<in> set c \<and> y \<in> set c) \<longleftrightarrow> mutual adj x y" if "x \<in> set files" for x y
  proof
    show "mutual adj x y" if "\<exists>c\<in>set ?cs. x \<in> set c \<and> y \<in> set c"
      using that scc by (auto simp: scc_def mutual_def)
    show "\<exists>c\<in>set ?cs. x \<in> set c \<and> y \<in> set c" if "mutual adj x y"
      using comps_mutual [OF ok, of x y] that \<open>x \<in> set files\<close> unfolding U by (simp add: mutual_def)
  qed
  moreover have "c \<noteq> []" if "c \<in> set ?cs" for c using scc [OF that] by (auto simp: scc_def)
  moreover have "distinct (concat ?cs)" using comps_distinct [OF ok] cs by blast
  moreover have "distinct (concat (sort_key hd ?cs)) \<longleftrightarrow> distinct (concat ?cs)"
    by (rule mset_eq_imp_distinct_iff [OF mset_concat_sort_key])
  ultimately have "sccs_of adj (set files) (sort_key hd ?cs)"
    unfolding sccs_of_def using cs em by (simp add: emitted_def)
  with st(1) show ?thesis by (simp add: stronglyConnected_def)
qed

text \<open>C35: Tarjan's search ends with the strongly connected components of the graph: two files are in
  one component exactly when each reaches the other.\<close>

theorem stronglyConnected_mutual:
  assumes "\<And>x. x \<in> set files \<Longrightarrow> set (adj x) \<subseteq> set files"
  shows "\<exists>cs. stronglyConnected files adj = Some cs \<and> sccs_of adj (set files) cs"
  using stronglyConnected_sccs [OF assms] .

definition sample_adj :: "nat \<Rightarrow> nat list" where
  "sample_adj x = (if x = 1 then [2] else if x = 2 then [1, 3] else [])"

lemma stronglyConnected_mutual_witness:
  "(\<exists>cs. stronglyConnected [1, 2, 3] sample_adj = Some cs \<and> sccs_of sample_adj (set [1, 2, 3]) cs) \<and>
   stronglyConnected [1, 2, 3] sample_adj = Some [[1, 2], [3]]"
proof
  show "\<exists>cs. stronglyConnected [1, 2, 3] sample_adj = Some cs \<and> sccs_of sample_adj (set [1, 2, 3]) cs"
    by (rule stronglyConnected_mutual) (auto simp: sample_adj_def)
qed code_simp

end
