(* ===== verification/Layers.thy ===== *)
theory Layers
  imports Roles Tarjan
begin

text \<open>
  \<open>dependencyLayers\<close> of \<open>internal/review/cohorts.go\<close>: the dependency graph of the files of a cohort,
  its condensation by \<open>Tarjan\<close>, and Kahn's algorithm over the components, which gives each one the
  length of the longest chain of dependencies below it.  \<open>kahn\<close> has fuel for one round per
  component; \<open>kahn_loop_ok\<close> shows that this is enough because the condensation is acyclic.
\<close>

section \<open>The dependency graph of a cohort\<close>

record file_layer =
  fl_Ordinal :: nat
  fl_Paths :: "string list"

text \<open>Edges lead from what is depended on to what depends on it; tests come after what they test.\<close>

definition file_edges :: "file_facts \<Rightarrow> string \<Rightarrow> (string \<times> string) list" where
  "file_edges f p =
     map (\<lambda>e. (ev_File e, p)) (filter ev_Resolved (rl_Includes (ff_Relations f))) @
     map (\<lambda>e. (p, ev_File e)) (filter ev_Resolved (rl_IncludedBy (ff_Relations f))) @
     map (\<lambda>t. (p, t)) (te_Tests (ff_Tests f))"

definition dependency_edges :: "string list \<Rightarrow> (string \<Rightarrow> file_facts) \<Rightarrow> (string \<times> string) list" where
  "dependency_edges files facts =
     filter (\<lambda>(a, b). a \<noteq> b \<and> a \<in> set files \<and> b \<in> set files) (concat (map (\<lambda>p. file_edges (facts p) p) files))"

text \<open>\<open>sortedMapKeys(adj[v])\<close>.\<close>

definition successors :: "(string \<times> string) list \<Rightarrow> string \<Rightarrow> string list" where
  "successors es v = sortedUniqueStrings (map snd (filter (\<lambda>e. fst e = v) es))"

definition componentOf :: "string list list \<Rightarrow> string \<Rightarrow> nat" where
  "componentOf cs p = (case List.find (\<lambda>(i, c). p \<in> set c) (enumerate 0 cs) of None \<Rightarrow> 0 | Some (i, c) \<Rightarrow> i)"

definition component_edges :: "string list list \<Rightarrow> (string \<times> string) list \<Rightarrow> (nat \<times> nat) list" where
  "component_edges cs es =
     remdups (filter (\<lambda>(a, b). a \<noteq> b) (map (\<lambda>(p, q). (componentOf cs p, componentOf cs q)) es))"

section \<open>Kahn's algorithm\<close>

definition sortComponents :: "string list list \<Rightarrow> nat list \<Rightarrow> nat list" where
  "sortComponents cs ids = sort_key (\<lambda>i. hd (cs ! i)) ids"

definition sortedComponentKeys :: "string list list \<Rightarrow> (nat \<times> nat) list \<Rightarrow> nat \<Rightarrow> nat list" where
  "sortedComponentKeys cs E current = sortComponents cs (map snd (filter (\<lambda>(a, b). a = current) E))"

record kahn =
  kn_ready :: "nat list"
  kn_indegree :: "int list"
  kn_depth :: "nat list"

definition kahn_init :: "string list list \<Rightarrow> (nat \<times> nat) list \<Rightarrow> kahn" where
  "kahn_init cs E = (let n = length cs; indegree = map (\<lambda>i. int (length (filter (\<lambda>(a, b). b = i) E))) [0..<n] in
     \<lparr>kn_ready = sortComponents cs (filter (\<lambda>i. indegree ! i = 0) [0..<n]), kn_indegree = indegree,
      kn_depth = replicate n 0\<rparr>)"

definition kahn_relax :: "string list list \<Rightarrow> nat \<Rightarrow> nat \<Rightarrow> kahn \<Rightarrow> kahn" where
  "kahn_relax cs current b st =
     (let d = kn_depth st;
          d = (if d ! b < d ! current + 1 then d[b := d ! current + 1] else d);
          deg = (kn_indegree st)[b := kn_indegree st ! b - 1]
      in \<lparr>kn_ready = (if deg ! b = 0 then sortComponents cs (kn_ready st @ [b]) else kn_ready st),
          kn_indegree = deg, kn_depth = d\<rparr>)"

fun kahn_loop :: "nat \<Rightarrow> string list list \<Rightarrow> (nat \<times> nat) list \<Rightarrow> kahn \<Rightarrow> nat list option" where
  "kahn_loop fuel cs E st = (case kn_ready st of
       [] \<Rightarrow> Some (kn_depth st)
     | current # rest \<Rightarrow> (case fuel of
         0 \<Rightarrow> None
       | Suc n \<Rightarrow> kahn_loop n cs E (fold (kahn_relax cs current) (sortedComponentKeys cs E current) (st\<lparr>kn_ready := rest\<rparr>))))"

definition kahn_depths :: "string list list \<Rightarrow> (nat \<times> nat) list \<Rightarrow> nat list option" where
  "kahn_depths cs E = kahn_loop (length cs) cs E (kahn_init cs E)"

section \<open>The layers\<close>

definition layer_members :: "(string \<Rightarrow> file_facts) \<Rightarrow> string list list \<Rightarrow> nat list \<Rightarrow> nat \<Rightarrow> string list" where
  "layer_members facts cs depth ordinal =
     sort_key (\<lambda>p. (roleRank (ff_Roles (facts p)), p))
       (concat (map (\<lambda>(i, c). c) (filter (\<lambda>(i, c). depth ! i = ordinal) (enumerate 0 cs))))"

definition layers_of :: "(string \<Rightarrow> file_facts) \<Rightarrow> string list list \<Rightarrow> nat list \<Rightarrow> file_layer list" where
  "layers_of facts cs depth =
     map (\<lambda>(i, ms). \<lparr>fl_Ordinal = i, fl_Paths = ms\<rparr>) (enumerate 0
       (filter (\<lambda>ms. ms \<noteq> []) (map (layer_members facts cs depth) [0..<Suc (fold max depth 0)])))"

definition dependencyLayers :: "string list \<Rightarrow> (string \<Rightarrow> file_facts) \<Rightarrow> file_layer list option" where
  "dependencyLayers files facts = (let es = dependency_edges files facts in
     Option.bind (stronglyConnected files (successors es)) (\<lambda>cs.
       map_option (layers_of facts cs) (kahn_depths cs (component_edges cs es))))"

section \<open>Kahn's invariant\<close>

text \<open>The depth a component has once the components of \<open>P\<close> are processed.\<close>

definition depth_from :: "(nat \<times> nat) list \<Rightarrow> nat list \<Rightarrow> nat set \<Rightarrow> nat \<Rightarrow> nat" where
  "depth_from E depth P b = Max (insert 0 ((\<lambda>a. depth ! a + 1) ` {a \<in> P. (a, b) \<in> set E}))"

definition open_preds :: "(nat \<times> nat) list \<Rightarrow> nat set \<Rightarrow> nat \<Rightarrow> nat set" where
  "open_preds E P b = {a. a \<notin> P \<and> (a, b) \<in> set E}"

definition edges_ok :: "nat \<Rightarrow> (nat \<times> nat) list \<Rightarrow> bool" where
  "edges_ok n E \<longleftrightarrow> distinct E \<and> acyclic (set E) \<and> (\<forall>(a, b)\<in>set E. a < n \<and> b < n)"

text \<open>
  \<open>P\<close> is the set of components taken from the queue.  While the successors of \<open>c\<close> are relaxed,
  \<open>T\<close> are those still to come, whose counts and depths do not have \<open>c\<close> yet.
\<close>

definition kahn_inv :: "nat \<Rightarrow> (nat \<times> nat) list \<Rightarrow> nat set \<Rightarrow> nat \<Rightarrow> nat set \<Rightarrow> kahn \<Rightarrow> bool" where
  "kahn_inv n E P c T st \<longleftrightarrow>
     length (kn_indegree st) = n \<and> length (kn_depth st) = n \<and> P \<subseteq> {..<n} \<and>
     distinct (kn_ready st) \<and> set (kn_ready st) = {b. b < n \<and> b \<notin> P \<and> kn_indegree st ! b = 0} \<and>
     (\<forall>b\<in>P. open_preds E P b = {}) \<and>
     (\<forall>b<n. kn_indegree st ! b = int (card (open_preds E (P - (if b \<in> T then {c} else {})) b))) \<and>
     (\<forall>b<n. kn_depth st ! b = depth_from E (kn_depth st) (P - (if b \<in> T then {c} else {})) b)"

lemma open_preds_finite [simp]: "finite (open_preds E P b)"
  by (rule finite_subset [of _ "fst ` set E"]) (force simp: open_preds_def)+

lemma preds_finite [simp]: "finite {a \<in> P. (a, b) \<in> set E}"
  by (rule finite_subset [of _ "fst ` set E"]) force+

lemma depth_from_cong:
  "(\<And>a. (a, b) \<in> set E \<Longrightarrow> a \<in> P \<longleftrightarrow> a \<in> Q) \<Longrightarrow> (\<And>a. a \<in> P \<Longrightarrow> d ! a = d' ! a) \<Longrightarrow> depth_from E d P b = depth_from E d' Q b"
  unfolding depth_from_def by (intro arg_cong [of _ _ "\<lambda>X. Max (insert 0 X)"]) (auto intro!: image_cong)

lemma open_preds_cong: "(\<And>a. (a, b) \<in> set E \<Longrightarrow> a \<in> P \<longleftrightarrow> a \<in> Q) \<Longrightarrow> open_preds E P b = open_preds E Q b"
  by (auto simp: open_preds_def)

lemma Max_insert_0: "finite S \<Longrightarrow> Max (insert (0::nat) (insert y S)) = max y (Max (insert 0 S))"
  by (subst insert_commute, subst Max_insert) auto

lemma depth_from_insert:
  assumes "c \<in> P" "(c, b) \<in> set E"
  shows "depth_from E d P b = max (d ! c + 1) (depth_from E d (P - {c}) b)"
proof -
  have "{a \<in> P. (a, b) \<in> set E} = insert c {a \<in> P - {c}. (a, b) \<in> set E}" using assms by auto
  then have "depth_from E d P b = Max (insert 0 (insert (d ! c + 1) ((\<lambda>a. d ! a + 1) ` {a \<in> P - {c}. (a, b) \<in> set E})))"
    unfolding depth_from_def by (simp only: image_insert)
  also have "\<dots> = max (d ! c + 1) (depth_from E d (P - {c}) b)"
    unfolding depth_from_def by (rule Max_insert_0) (rule finite_imageI, rule preds_finite)
  finally show ?thesis .
qed

lemma open_preds_insert:
  assumes "c \<in> P" "(c, b) \<in> set E"
  shows "card (open_preds E (P - {c}) b) = Suc (card (open_preds E P b))"
proof -
  have "open_preds E (P - {c}) b = insert c (open_preds E P b)" "c \<notin> open_preds E P b"
    using assms by (auto simp: open_preds_def)
  then show ?thesis by simp
qed

lemma sortComponents_set [simp]: "set (sortComponents cs ids) = set ids"
  "distinct (sortComponents cs ids) \<longleftrightarrow> distinct ids"
  by (simp_all add: sortComponents_def)

lemma relax_inv:
  assumes inv: "kahn_inv n E P c T st" and e: "c \<in> P" "(c, b) \<in> set E" "b \<notin> P" "b \<in> T" "b < n"
  shows "kahn_inv n E P c (T - {b}) (kahn_relax cs c b st)"
proof -
  let ?d = "kn_depth st" and ?g = "kn_indegree st"
  let ?d' = "?d[b := max (?d ! b) (?d ! c + 1)]" and ?g' = "?g[b := ?g ! b - 1]"
  have st': "kn_depth (kahn_relax cs c b st) = ?d'" "kn_indegree (kahn_relax cs c b st) = ?g'"
    "kn_ready (kahn_relax cs c b st) = (if ?g' ! b = 0 then sortComponents cs (kn_ready st @ [b]) else kn_ready st)"
    by (simp_all add: kahn_relax_def Let_def max_def)
  from inv have len: "length ?g = n" "length ?d = n" and P: "P \<subseteq> {..<n}" "\<forall>b\<in>P. open_preds E P b = {}"
    and r: "distinct (kn_ready st)" "set (kn_ready st) = {b. b < n \<and> b \<notin> P \<and> ?g ! b = 0}"
    and g: "\<And>x. x < n \<Longrightarrow> ?g ! x = int (card (open_preds E (P - (if x \<in> T then {c} else {})) x))"
    and d: "\<And>x. x < n \<Longrightarrow> ?d ! x = depth_from E ?d (P - (if x \<in> T then {c} else {})) x"
    unfolding kahn_inv_def by blast+
  have gb: "?g ! b = int (card (open_preds E P b)) + 1"
    using g [OF e(5)] e(4) open_preds_insert [OF e(1,2)] by simp
  have g': "?g' ! x = int (card (open_preds E (P - (if x \<in> T - {b} then {c} else {})) x))" if "x < n" for x
    using g [OF that] gb len e(5) by (cases "x = b") auto
  have same: "depth_from E ?d' Q x = depth_from E ?d Q x" if "Q \<subseteq> P" for Q x
    by (rule depth_from_cong) (simp, metis e(3) nth_list_update_neq subsetD that)
  have "?d ! b = depth_from E ?d (P - {c}) b" using d [OF e(5)] e(4) by simp
  then have "max (?d ! b) (?d ! c + 1) = depth_from E ?d P b"
    using depth_from_insert [OF e(1,2), of ?d] by simp
  then have db: "max (?d ! b) (?d ! c + 1) = depth_from E ?d' P b" by (rule trans [OF _ same [OF order_refl, symmetric]])
  have d': "?d' ! x = depth_from E ?d' (P - (if x \<in> T - {b} then {c} else {})) x" if "x < n" for x
  proof (cases "x = b")
    case True
    with db len e(5) show ?thesis by simp
  next
    case False
    with d [OF that] same [of "P - (if x \<in> T then {c} else {})"] show ?thesis by (auto split: if_splits)
  qed
  have nb: "b \<notin> set (kn_ready st)" using r(2) gb by simp
  have bb: "?g' ! b = int (card (open_preds E P b))" using gb len e(5) by simp
  have other: "?g' ! x = ?g ! x" if "x \<noteq> b" for x using that by simp
  have set': "set (kn_ready (kahn_relax cs c b st)) = (if ?g' ! b = 0 then insert b (set (kn_ready st)) else set (kn_ready st))"
    unfolding st'(3) by simp
  have ready: "distinct (kn_ready (kahn_relax cs c b st))" unfolding st'(3) using r(1) nb by simp
  have readys: "set (kn_ready (kahn_relax cs c b st)) = {b. b < n \<and> b \<notin> P \<and> ?g' ! b = 0}"
  proof (rule set_eqI)
    fix x
    show "x \<in> set (kn_ready (kahn_relax cs c b st)) \<longleftrightarrow> x \<in> {b. b < n \<and> b \<notin> P \<and> ?g' ! b = 0}"
      unfolding set' r(2) using other [of x] e(3,5) gb by (cases "x = b") (simp_all only: mem_Collect_eq, simp_all)
  qed
  show ?thesis unfolding kahn_inv_def st'(1,2) length_list_update
    by (intro conjI allI impI) (rule len P ready readys g' d', assumption?)+
qed

lemma relax_all_inv:
  "kahn_inv n E P c (set bs) st \<Longrightarrow> c \<in> P \<Longrightarrow> \<forall>b\<in>set bs. (c, b) \<in> set E \<and> b \<notin> P \<and> b < n \<Longrightarrow> distinct bs \<Longrightarrow>
   kahn_inv n E P c {} (fold (kahn_relax cs c) bs st)"
proof (induction bs arbitrary: st)
  case (Cons b bs)
  from Cons.prems(3,4) have "set (b # bs) - {b} = set bs" by auto
  with relax_inv [OF Cons.prems(1,2), of b cs] Cons.prems(3)
  have "kahn_inv n E P c (set bs) (kahn_relax cs c b st)" by simp
  with Cons show ?case by simp
qed simp

lemma kahn_inv_any: "kahn_inv n E P c {} st \<longleftrightarrow> kahn_inv n E P c' {} st"
  by (simp add: kahn_inv_def)

text \<open>Taking \<open>c\<close> from the queue makes all its successors pending.\<close>

lemma take_inv:
  assumes ok: "edges_ok n E" and inv: "kahn_inv n E P c {} st" and r: "kn_ready st = c # rest"
  shows "kahn_inv n E (insert c P) c {b. (c, b) \<in> set E} (st\<lparr>kn_ready := rest\<rparr>)"
    "c \<notin> P" "c < n" "\<forall>b. (c, b) \<in> set E \<longrightarrow> b \<notin> insert c P \<and> b < n"
proof -
  have "c \<in> set (kn_ready st)" by (simp add: r)
  with inv have c: "c < n" "c \<notin> P" "kn_indegree st ! c = 0" by (auto simp: kahn_inv_def)
  with inv have oc: "open_preds E P c = {}" by (simp add: kahn_inv_def)
  show "c \<notin> P" "c < n" by fact+
  show "\<forall>b. (c, b) \<in> set E \<longrightarrow> b \<notin> insert c P \<and> b < n"
  proof (intro allI impI)
    fix b assume e: "(c, b) \<in> set E"
    then have "c \<in> open_preds E P b" using c(2) by (simp add: open_preds_def)
    with inv have "b \<notin> P" by (auto simp: kahn_inv_def)
    moreover have "b \<noteq> c" using ok e by (auto simp: edges_ok_def acyclic_def)
    ultimately show "b \<notin> insert c P \<and> b < n" using ok e by (auto simp: edges_ok_def)
  qed
  let ?Q = "\<lambda>b. insert c P - (if b \<in> {b. (c, b) \<in> set E} then {c} else {})"
  have Q: "a \<in> ?Q b \<longleftrightarrow> a \<in> P" if "(a, b) \<in> set E" for a b using that c(2) by auto
  have "open_preds E (?Q b) b = open_preds E P b" "depth_from E d (?Q b) b = depth_from E d P b" for b d
    by (rule open_preds_cong, erule Q) (rule depth_from_cong, erule Q, simp)
  moreover have "open_preds E (insert c P) b \<subseteq> open_preds E P b" for b by (auto simp: open_preds_def)
  moreover have "set rest = {b. b < n \<and> b \<notin> insert c P \<and> kn_indegree st ! b = 0}" "distinct rest"
    using inv r unfolding kahn_inv_def by auto
  ultimately show "kahn_inv n E (insert c P) c {b. (c, b) \<in> set E} (st\<lparr>kn_ready := rest\<rparr>)"
    using inv c(1) oc unfolding kahn_inv_def by (simp del: mem_Collect_eq) (metis subset_empty)
qed

definition depths_ok :: "nat \<Rightarrow> (nat \<times> nat) list \<Rightarrow> nat list \<Rightarrow> bool" where
  "depths_ok n E d \<longleftrightarrow> length d = n \<and> (\<forall>b<n. d ! b = depth_from E d {..<n} b)"

lemma kahn_finished:
  assumes ok: "edges_ok n E" and inv: "kahn_inv n E P c {} st" and r: "kn_ready st = []"
  shows "depths_ok n E (kn_depth st)"
proof -
  have P: "P \<subseteq> {..<n}" using inv by (simp add: kahn_inv_def)
  have "P = {..<n}"
  proof (rule ccontr)
    assume "P \<noteq> {..<n}"
    then obtain x where x: "x \<in> {..<n} - P" using P by blast
    have "wf (set E)" using ok by (simp add: edges_ok_def finite_acyclic_wf)
    from wfE_min [OF this x] obtain z where z: "z \<in> {..<n} - P" "\<forall>y. (y, z) \<in> set E \<longrightarrow> y \<notin> {..<n} - P" by blast
    then have "open_preds E P z = {}" using ok by (auto simp: open_preds_def edges_ok_def)
    with inv z(1) have "z \<in> set (kn_ready st)" unfolding kahn_inv_def by simp
    with r show False by simp
  qed
  with inv show ?thesis by (simp add: kahn_inv_def depths_ok_def)
qed

lemma kahn_loop_ok:
  "edges_ok n E \<Longrightarrow> kahn_inv n E P c {} st \<Longrightarrow> n - card P \<le> fuel \<Longrightarrow>
   \<exists>d. kahn_loop fuel cs E st = Some d \<and> depths_ok n E d"
proof (induction fuel arbitrary: P c st)
  case (Suc fuel)
  show ?case
  proof (cases "kn_ready st")
    case Nil
    with kahn_finished [OF Suc.prems(1,2)] show ?thesis by simp
  next
    case (Cons b rest)
    note t = take_inv [OF Suc.prems(1) kahn_inv_any [THEN iffD1, OF Suc.prems(2)] Cons]
    let ?bs = "sortedComponentKeys cs E b"
    have "distinct E" using Suc.prems(1) by (simp add: edges_ok_def)
    then have "distinct ?bs" by (auto simp: sortedComponentKeys_def distinct_map inj_on_def distinct_filter)
    moreover have "set ?bs = {x. (b, x) \<in> set E}" by (force simp: sortedComponentKeys_def)
    ultimately have bs: "set ?bs = {x. (b, x) \<in> set E}" "distinct ?bs" by blast+
    have "kahn_inv n E (insert b P) b {} (fold (kahn_relax cs b) ?bs (st\<lparr>kn_ready := rest\<rparr>))"
      by (rule relax_all_inv [OF t(1) [folded bs(1)]]) (use t(4) bs in auto)
    moreover have "P \<subseteq> {..<n}" using Suc.prems(2) by (simp add: kahn_inv_def)
    then have "n - card (insert b P) \<le> fuel" using t(2) Suc.prems(3) finite_subset [of P "{..<n}"] by simp
    ultimately show ?thesis using Suc.IH [OF Suc.prems(1)] Cons by simp
  qed
next
  case 0
  show ?case
  proof (cases "kn_ready st")
    case Nil
    with kahn_finished [OF 0(1,2)] show ?thesis by simp
  next
    case (Cons b rest)
    note t = take_inv [OF 0(1) kahn_inv_any [THEN iffD1, OF 0(2)] Cons]
    have "P \<subseteq> {..<n}" using 0(2) by (simp add: kahn_inv_def)
    with t have "P \<subset> {..<n}" by blast
    from psubset_card_mono [OF finite_lessThan this] 0(3) show ?thesis by simp
  qed
qed

lemma kahn_init_inv:
  assumes ok: "edges_ok (length cs) E"
  shows "kahn_inv (length cs) E {} c {} (kahn_init cs E)"
proof -
  have "length (filter (\<lambda>(a, b). b = i) E) = card (open_preds E {} i)" for i
  proof -
    have "distinct (map fst (filter (\<lambda>(a, b). b = i) E))"
      using ok by (auto simp: edges_ok_def distinct_map inj_on_def)
    from distinct_card [OF this] have "length (filter (\<lambda>(a, b). b = i) E) = card (fst ` set (filter (\<lambda>(a, b). b = i) E))"
      by (simp only: set_map length_map)
    moreover have "fst ` set (filter (\<lambda>(a, b). b = i) E) = open_preds E {} i" by (force simp: open_preds_def)
    ultimately show ?thesis by simp
  qed
  then show ?thesis unfolding kahn_inv_def kahn_init_def Let_def by (auto simp: depth_from_def)
qed

lemma kahn_depths_ok: "edges_ok (length cs) E \<Longrightarrow> \<exists>d. kahn_depths cs E = Some d \<and> depths_ok (length cs) E d"
  unfolding kahn_depths_def by (rule kahn_loop_ok [OF _ kahn_init_inv]) simp_all

lemma depths_edge: "depths_ok n E d \<Longrightarrow> (a, b) \<in> set E \<Longrightarrow> a < n \<Longrightarrow> b < n \<Longrightarrow> d ! a < d ! b"
proof -
  assume d: "depths_ok n E d" and e: "(a, b) \<in> set E" "a < n" "b < n"
  have "d ! a + 1 \<le> depth_from E d {..<n} b"
    unfolding depth_from_def by (rule Max_ge) (use e in auto)
  with d e show ?thesis by (simp add: depths_ok_def)
qed

lemma depths_tight:
  assumes d: "depths_ok n E d" and b: "b < n" "d ! b = Suc k"
  shows "\<exists>a<n. (a, b) \<in> set E \<and> d ! a = k"
proof -
  have "depth_from E d {..<n} b \<in> insert 0 ((\<lambda>a. d ! a + 1) ` {a \<in> {..<n}. (a, b) \<in> set E})"
    unfolding depth_from_def by (rule Max_in) auto
  with d b show ?thesis by (auto simp: depths_ok_def)
qed

section \<open>The condensation\<close>

lemma edges_successors [simp]: "edges (successors es) = set es"
  by (force simp: edges_def successors_def)

lemma disjoint_nth: "distinct (concat xss) \<Longrightarrow> i < length xss \<Longrightarrow> j < length xss \<Longrightarrow> i \<noteq> j \<Longrightarrow> set (xss ! i) \<inter> set (xss ! j) = {}"
proof (induction xss arbitrary: i j)
  case (Cons xs xss)
  have mem: "set (xss ! k) \<subseteq> set (concat xss)" if "k < length xss" for k using that by (auto intro: nth_mem)
  from Cons show ?case
    by (cases i; cases j) (use mem in \<open>fastforce+\<close>)
qed simp

lemma componentOf_iff:
  assumes "distinct (concat cs)" "p \<in> set (concat cs)"
  shows "componentOf cs p = i \<longleftrightarrow> i < length cs \<and> p \<in> set (cs ! i)"
proof -
  from assms(2) obtain k where k: "k < length cs" "p \<in> set (cs ! k)" by (auto simp: in_set_conv_nth) (metis nth_mem)
  have uniq: "j = k" if "j < length cs" "p \<in> set (cs ! j)" for j
  proof (rule ccontr)
    assume "j \<noteq> k"
    with assms(1) that k have "set (cs ! j) \<inter> set (cs ! k) = {}" by (intro disjoint_nth)
    with that k show False by blast
  qed
  have "List.find (\<lambda>(i, c). p \<in> set c) (enumerate 0 cs) \<noteq> None"
    using k by (auto simp: find_None_iff in_set_enumerate_eq)
  then obtain j c where jc: "List.find (\<lambda>(i, c). p \<in> set c) (enumerate 0 cs) = Some (j, c)" by auto
  then have "(j, c) \<in> set (enumerate 0 cs)" "p \<in> set c" by (auto simp: find_Some_iff) (metis length_enumerate nth_mem)
  then have "j < length cs" "p \<in> set (cs ! j)" by (auto simp: in_set_enumerate_eq)
  with uniq jc k show ?thesis by (auto simp: componentOf_def)
qed

lemma sccs_component:
  assumes "sccs_of adj A cs"
  shows "p \<in> A \<Longrightarrow> componentOf cs p < length cs" "p \<in> A \<Longrightarrow> p \<in> set (cs ! componentOf cs p)"
    "i < length cs \<Longrightarrow> p \<in> set (cs ! i) \<Longrightarrow> p \<in> A \<and> componentOf cs p = i"
    "p \<in> A \<Longrightarrow> q \<in> A \<Longrightarrow> componentOf cs p = componentOf cs q \<longleftrightarrow> mutual adj p q"
proof -
  have cs: "set (concat cs) = A" "distinct (concat cs)"
    and mut: "\<And>x y. x \<in> A \<Longrightarrow> y \<in> A \<Longrightarrow> (\<exists>c\<in>set cs. x \<in> set c \<and> y \<in> set c) \<longleftrightarrow> mutual adj x y"
    using assms by (simp_all add: sccs_of_def)
  have at_p: "componentOf cs p < length cs \<and> p \<in> set (cs ! componentOf cs p)" if "p \<in> A" for p
    using componentOf_iff [OF cs(2), of p "componentOf cs p"] that by (simp only: cs(1) simp_thms)
  then show "p \<in> A \<Longrightarrow> componentOf cs p < length cs" "p \<in> A \<Longrightarrow> p \<in> set (cs ! componentOf cs p)" by blast+
  have eq: "p \<in> A \<and> componentOf cs p = i" if "i < length cs" "p \<in> set (cs ! i)" for i p
  proof -
    have "p \<in> set (concat cs)" using that by (auto intro: nth_mem)
    with that componentOf_iff [OF cs(2) this] show ?thesis by (simp only: cs(1) simp_thms)
  qed
  then show "i < length cs \<Longrightarrow> p \<in> set (cs ! i) \<Longrightarrow> p \<in> A \<and> componentOf cs p = i" .
  show "p \<in> A \<Longrightarrow> q \<in> A \<Longrightarrow> componentOf cs p = componentOf cs q \<longleftrightarrow> mutual adj p q"
    unfolding mut [symmetric] using at_p eq by (metis in_set_conv_nth nth_mem)
qed

lemma component_edges_iff: "(i, j) \<in> set (component_edges cs es) \<longleftrightarrow>
    i \<noteq> j \<and> (\<exists>p q. (p, q) \<in> set es \<and> componentOf cs p = i \<and> componentOf cs q = j)"
  by (force simp: component_edges_def)

text \<open>Two components on a cycle would be one: the condensation is acyclic.\<close>

lemma component_edges_ok:
  assumes sccs: "sccs_of (successors es) A cs" and es: "\<forall>(p, q)\<in>set es. p \<in> A \<and> q \<in> A"
  shows "edges_ok (length cs) (component_edges cs es)"
proof -
  let ?E = "component_edges cs es"
  note sc = sccs_component [OF sccs]
  have edge: "(p, q) \<in> (set es)\<^sup>*" if "(i, j) \<in> set ?E" "p \<in> A" "componentOf cs p = i" "q \<in> A" "componentOf cs q = j" for i j p q
  proof -
    from that(1) obtain p' q' where e: "(p', q') \<in> set es" "componentOf cs p' = i" "componentOf cs q' = j"
      by (auto simp: component_edges_iff)
    with es have "p' \<in> A" "q' \<in> A" by auto
    with sc(4) [of p p'] sc(4) [of q' q] e that have "(p, p') \<in> (set es)\<^sup>*" "(q', q) \<in> (set es)\<^sup>*"
      by (simp_all add: mutual_def)
    with e(1) show ?thesis by (meson rtrancl.rtrancl_into_rtrancl rtrancl_trans)
  qed
  have path: "(p, q) \<in> (set es)\<^sup>*"
    if "(i, j) \<in> (set ?E)\<^sup>+" "p \<in> A" "componentOf cs p = i" "q \<in> A" "componentOf cs q = j" for i j p q
    using that
  proof (induction arbitrary: q rule: trancl_induct)
    case (base j) then show ?case by (blast intro: edge)
  next
    case (step j k)
    from step.hyps(2) obtain r where "r \<in> A" "componentOf cs r = j" using es by (auto simp: component_edges_iff)
    with step.IH step.hyps(2) step.prems edge show ?case by (blast intro: rtrancl_trans)
  qed
  have "acyclic (set ?E)" unfolding acyclic_def
  proof
    fix i
    show "(i, i) \<notin> (set ?E)\<^sup>+"
    proof
      assume "(i, i) \<in> (set ?E)\<^sup>+"
      then obtain j where e: "(i, j) \<in> set ?E" and r: "(j, i) \<in> (set ?E)\<^sup>*" by (auto dest: tranclD)
      then have ne: "j \<noteq> i" and "(j, i) \<in> (set ?E)\<^sup>+" by (auto simp: component_edges_iff rtrancl_eq_or_trancl)
      moreover obtain p q where p: "p \<in> A" "componentOf cs p = i" "q \<in> A" "componentOf cs q = j"
        using e es by (auto simp: component_edges_iff)
      ultimately have "mutual (successors es) p q" using path [of j i q p] edge [OF e] by (simp add: mutual_def)
      with sc(4) [OF p(1,3)] p ne show False by simp
    qed
  qed
  moreover have "distinct ?E" by (simp add: component_edges_def)
  moreover have "\<forall>(i, j)\<in>set ?E. i < length cs \<and> j < length cs"
    using sc(1) es by (fastforce simp: component_edges_iff)
  ultimately show ?thesis by (simp add: edges_ok_def)
qed

section \<open>The layers\<close>

text \<open>
  What the packer relies on: the layers partition the files and are numbered from zero; a file comes
  after everything it depends on, in the same layer exactly when the dependency is mutual; and every
  file of a later layer depends on one of the layer before.
\<close>

definition layering :: "string list \<Rightarrow> (string \<times> string) list \<Rightarrow> (string \<Rightarrow> file_facts) \<Rightarrow> file_layer list \<Rightarrow> bool" where
  "layering files es facts ls \<longleftrightarrow>
     map fl_Ordinal ls = [0..<length ls] \<and>
     distinct (concat (map fl_Paths ls)) \<and> set (concat (map fl_Paths ls)) = set files \<and>
     (\<forall>l\<in>set ls. fl_Paths l \<noteq> [] \<and> sorted (map (\<lambda>p. (roleRank (ff_Roles (facts p)), p)) (fl_Paths l))) \<and>
     (\<forall>i<length ls. \<forall>j<length ls. \<forall>p\<in>set (fl_Paths (ls ! i)). \<forall>q\<in>set (fl_Paths (ls ! j)).
        (p, q) \<in> set es \<longrightarrow> i \<le> j \<and> (i = j \<longleftrightarrow> (q, p) \<in> (set es)\<^sup>*)) \<and>
     (\<forall>i. Suc i < length ls \<longrightarrow> (\<forall>q\<in>set (fl_Paths (ls ! Suc i)). \<exists>p\<in>set (fl_Paths (ls ! i)). (p, q) \<in> (set es)\<^sup>*))"

lemma distinct_concat_filter: "distinct (concat (map f xs)) \<Longrightarrow> distinct (concat (map f (filter P xs)))"
  by (induction xs) auto

lemma dependency_edges_in: "\<forall>(p, q)\<in>set (dependency_edges files facts). p \<in> set files \<and> q \<in> set files"
  by (auto simp: dependency_edges_def)

lemma distinct_members: "distinct (concat cs) \<Longrightarrow> distinct (layer_members facts cs d k)"
  unfolding layer_members_def distinct_sort
  by (rule distinct_concat_filter) (simp add: case_prod_unfold map_snd_enumerate [unfolded snd_def])

lemma set_members:
  assumes "sccs_of adj A cs"
  shows "set (layer_members facts cs d k) = {p \<in> A. d ! componentOf cs p = k}"
proof (rule set_eqI)
  fix p
  have "p \<in> set (layer_members facts cs d k) \<longleftrightarrow> (\<exists>i<length cs. p \<in> set (cs ! i) \<and> d ! i = k)"
    by (auto simp: layer_members_def in_set_enumerate_eq)
  also have "\<dots> \<longleftrightarrow> p \<in> A \<and> d ! componentOf cs p = k" using sccs_component(1-3) [OF assms] by blast
  finally show "p \<in> set (layer_members facts cs d k) \<longleftrightarrow> p \<in> {p \<in> A. d ! componentOf cs p = k}" by simp
qed

lemma fold_max: "x \<in> set xs \<Longrightarrow> (x::nat) \<le> fold max xs a" "fold max xs a = a \<or> fold max xs a \<in> set xs" "a \<le> fold max xs a"
  by (induction xs arbitrary: a) (auto simp: max_def, (meson le_trans nat_le_linear)+)

text \<open>No depth below the greatest one is left out, so no layer is skipped.\<close>

lemma depth_reached:
  assumes d: "depths_ok n E d" and "b < n" "k \<le> d ! b"
  shows "\<exists>a<n. d ! a = k"
  using assms(2,3)
proof (induction "d ! b" arbitrary: b)
  case (Suc m)
  from depths_tight [OF d Suc.prems(1) Suc.hyps(2) [symmetric]] obtain a where a: "a < n" "d ! a = m" by blast
  show ?case using Suc a by (cases "k = Suc m") auto
qed auto

lemma members_nonempty:
  assumes sccs: "sccs_of adj A cs" and d: "depths_ok (length cs) E d" and ne: "cs \<noteq> []" and k: "k < Suc (fold max d 0)"
  shows "layer_members facts cs d k \<noteq> []"
proof -
  have len: "length d = length cs" using d by (simp add: depths_ok_def)
  have "\<exists>b<length cs. fold max d 0 \<le> d ! b"
    using fold_max(2) [of d 0] ne len by (auto simp: in_set_conv_nth)
  then obtain b where "b < length cs" "k \<le> d ! b" using k by auto
  from depth_reached [OF d this] obtain a where a: "a < length cs" "d ! a = k" by blast
  moreover have "cs ! a \<noteq> []" using sccs a(1) by (simp add: sccs_of_def)
  then obtain p where "p \<in> set (cs ! a)" by (metis list.set_intros(1) neq_Nil_conv)
  ultimately have "p \<in> {p \<in> A. d ! componentOf cs p = k}" using sccs_component(3) [OF sccs] by blast
  then have "set (layer_members facts cs d k) \<noteq> {}" unfolding set_members [OF sccs] by blast
  then show ?thesis by simp
qed

lemma layers_of_eq:
  assumes "sccs_of adj A cs" "depths_ok (length cs) E d" "cs \<noteq> []"
  shows "layers_of facts cs d = map (\<lambda>k. \<lparr>fl_Ordinal = k, fl_Paths = layer_members facts cs d k\<rparr>) [0..<Suc (fold max d 0)]"
proof -
  have "filter (\<lambda>ms. ms \<noteq> []) (map (layer_members facts cs d) [0..<Suc (fold max d 0)]) =
    map (layer_members facts cs d) [0..<Suc (fold max d 0)]"
    using members_nonempty [OF assms] by (intro filter_True) (auto simp del: upt_Suc)
  then show ?thesis unfolding layers_of_def
    by (auto intro!: nth_equalityI simp: nth_enumerate_eq simp del: upt_Suc)
qed

theorem layers_of_layering:
  assumes sccs: "sccs_of (successors es) (set files) cs" and es: "\<forall>(p, q)\<in>set es. p \<in> set files \<and> q \<in> set files"
    and d: "depths_ok (length cs) (component_edges cs es) d"
  shows "layering files es facts (layers_of facts cs d)"
proof (cases "cs = []")
  case True
  then have "layers_of facts cs d = []" by (simp add: layers_of_def layer_members_def) 
  moreover have "files = []" using sccs True by (simp add: sccs_of_def)
  ultimately show ?thesis by (simp add: layering_def)
next
  case False
  let ?N = "Suc (fold max d 0)" and ?ms = "layer_members facts cs d" and ?ls = "layers_of facts cs d"
  note eq = layers_of_eq [OF sccs d False] and mem = set_members [OF sccs] and sc = sccs_component [OF sccs]
  have len: "length ?ls = ?N" and path: "\<And>k. k < ?N \<Longrightarrow> fl_Paths (?ls ! k) = ?ms k"
    by (simp_all add: eq del: upt_Suc)
  have paths: "map fl_Paths ?ls = map ?ms [0..<?N]" and ord: "map fl_Ordinal ?ls = [0..<?N]"
    by (simp_all add: eq comp_def del: upt_Suc)
  have dist: "distinct (concat cs)" using sccs by (simp add: sccs_of_def)
  have bound: "d ! componentOf cs p < ?N" if "p \<in> set files" for p
  proof -
    have "componentOf cs p < length d" using sc(1) [OF that] d by (simp add: depths_ok_def)
    from fold_max(1) [OF nth_mem [OF this], of 0] show ?thesis by simp
  qed
  have disj: "distinct (concat (map ?ms ks))" if "distinct ks" for ks
    using that by (induction ks) (use distinct_members [OF dist] in \<open>auto simp: mem\<close>)
  have lower: "i \<le> j \<and> (i = j \<longleftrightarrow> (q, p) \<in> (set es)\<^sup>*)"
    if "p \<in> set (?ms i)" "q \<in> set (?ms j)" "(p, q) \<in> set es" for p q i j
  proof -
    from that have pq: "p \<in> set files" "q \<in> set files" "d ! componentOf cs p = i" "d ! componentOf cs q = j"
      by (auto simp: mem)
    have m: "(q, p) \<in> (set es)\<^sup>* \<longleftrightarrow> componentOf cs p = componentOf cs q"
      using that(3) sc(4) [OF pq(1,2)] by (auto simp: mutual_def)
    show ?thesis
    proof (cases "componentOf cs p = componentOf cs q")
      case False
      with that(3) have "(componentOf cs p, componentOf cs q) \<in> set (component_edges cs es)"
        by (auto simp: component_edges_iff)
      from depths_edge [OF d this] sc(1) pq m False show ?thesis by simp
    qed (use pq m in auto)
  qed
  have below: "\<exists>p\<in>set (?ms i). (p, q) \<in> (set es)\<^sup>*" if "q \<in> set (?ms (Suc i))" for i q
  proof -
    from that have q: "q \<in> set files" "d ! componentOf cs q = Suc i" by (auto simp: mem)
    from depths_tight [OF d sc(1) [OF q(1)] q(2)] obtain a where
      a: "(a, componentOf cs q) \<in> set (component_edges cs es)" "d ! a = i" by blast
    then obtain p r where pr: "(p, r) \<in> set es" "componentOf cs p = a" "componentOf cs r = componentOf cs q"
      by (auto simp: component_edges_iff)
    with es have A: "p \<in> set files" "r \<in> set files" by auto
    with sc(4) [of r q] pr q have "(r, q) \<in> (set es)\<^sup>*" by (simp add: mutual_def)
    with pr(1) have "(p, q) \<in> (set es)\<^sup>*" by (rule converse_rtrancl_into_rtrancl)
    with A a pr show ?thesis by (auto simp: mem)
  qed
  have layer: "l \<in> set ?ls \<Longrightarrow> fl_Paths l \<noteq> [] \<and> sorted (map (\<lambda>p. (roleRank (ff_Roles (facts p)), p)) (fl_Paths l))" for l
    using members_nonempty [OF sccs d False] by (auto simp: eq layer_members_def simp del: upt_Suc)
  have all: "set (concat (map ?ms [0..<?N])) = set files" using bound by (auto simp: mem simp del: upt_Suc)
  have dj: "distinct (concat (map ?ms [0..<?N]))" by (rule disj) simp
  show ?thesis
    unfolding layering_def len paths ord
  proof (intro conjI ballI allI impI)
    fix i q assume i: "Suc i < ?N" and "q \<in> set (fl_Paths (?ls ! Suc i))"
    then show "\<exists>p\<in>set (fl_Paths (?ls ! i)). (p, q) \<in> (set es)\<^sup>*" using below path by simp
  next
    fix i j p q assume "i < ?N" "j < ?N" "p \<in> set (fl_Paths (?ls ! i))" "q \<in> set (fl_Paths (?ls ! j))" "(p, q) \<in> set es"
    then show "i \<le> j" "i = j \<longleftrightarrow> (q, p) \<in> (set es)\<^sup>*" using lower [of p i q j] by (simp_all only: path)
  qed (use layer all dj in blast)+
qed

theorem dependencyLayers_ok:
  "\<exists>ls. dependencyLayers files facts = Some ls \<and> layering files (dependency_edges files facts) facts ls"
proof -
  let ?es = "dependency_edges files facts"
  have "set (successors ?es x) \<subseteq> set files" for x by (auto simp: successors_def dependency_edges_def)
  then obtain cs where cs: "stronglyConnected files (successors ?es) = Some cs" "sccs_of (successors ?es) (set files) cs"
    using stronglyConnected_sccs by metis
  from kahn_depths_ok [OF component_edges_ok [OF cs(2) dependency_edges_in]]
  obtain d where d: "kahn_depths cs (component_edges cs ?es) = Some d" "depths_ok (length cs) (component_edges cs ?es) d"
    by blast
  from layers_of_layering [OF cs(2) dependency_edges_in d(2)] cs(1) d(1) show ?thesis
    by (simp add: dependencyLayers_def Let_def)
qed

text \<open>C36: layering always ends, whatever cycles the relations have: the fuel of both searches is
  enough, and the layers order the files of a cohort by their dependencies.\<close>

theorem dependencyLayers_layering:
  "\<exists>ls. dependencyLayers files facts = Some ls \<and> layering files (dependency_edges files facts) facts ls"
  by (rule dependencyLayers_ok)

end
