(* ===== verification/UnionFind.thy ===== *)
theory UnionFind
  imports Prelude
begin

text \<open>
  The union-find structure \<open>pathUnion\<close> of \<open>internal/review/cohorts.go\<close>: a parent map with path
  compression, where the smaller root wins.  \<open>find\<close> recurses without a bound, so it is a partial
  function; it returns on every forest the code can build.  What its clients rely on is the locale
  \<open>merge_find\<close>: merging two elements joins exactly their classes.
\<close>

section \<open>The interface\<close>

definition link :: "('a \<times> 'a) list \<Rightarrow> ('a \<times> 'a) set" where
  "link es = set es \<union> (set es)\<inverse>"

lemma link_simps [simp]: "link [] = {}" "link (e # es) = {e, (snd e, fst e)} \<union> link es"
  "link (es @ fs) = link es \<union> link fs"
  by (auto simp: link_def)

fun joins :: "('s \<Rightarrow> 'a \<Rightarrow> 'a \<Rightarrow> 's option) \<Rightarrow> 's \<Rightarrow> ('a \<times> 'a) list \<Rightarrow> 's option" where
  "joins join s [] = Some s"
| "joins join s ((a, b) # es) = Option.bind (join s a b) (\<lambda>s. joins join s es)"

locale merge_find =
  fixes inv :: "'s \<Rightarrow> 'a set \<Rightarrow> bool"
    and same :: "'s \<Rightarrow> 'a \<Rightarrow> 'a \<Rightarrow> bool"
    and join :: "'s \<Rightarrow> 'a \<Rightarrow> 'a \<Rightarrow> 's option"
  assumes same_refl: "inv s A \<Longrightarrow> x \<in> A \<Longrightarrow> same s x x"
    and same_sym: "same s x y \<Longrightarrow> same s y x"
    and same_trans: "inv s A \<Longrightarrow> same s x y \<Longrightarrow> same s y z \<Longrightarrow> same s x z"
    and same_in: "inv s A \<Longrightarrow> same s x y \<Longrightarrow> x \<in> A"
    and join_ok: "inv s A \<Longrightarrow> a \<in> A \<Longrightarrow> b \<in> A \<Longrightarrow>
      \<exists>s'. join s a b = Some s' \<and> inv s' A \<and>
        (\<forall>x y. same s' x y \<longleftrightarrow> same s x y \<or> (same s x a \<and> same s b y) \<or> (same s x b \<and> same s a y))"
begin

definition classes :: "'s \<Rightarrow> ('a \<times> 'a) set" where
  "classes s = {(x, y). same s x y}"

lemma classes_rtrancl: "inv s A \<Longrightarrow> x \<in> A \<Longrightarrow> (x, y) \<in> (classes s)\<^sup>* \<Longrightarrow> same s x y"
  by (erule rtrancl_induct) (auto simp: classes_def intro: same_refl same_trans)

lemma join_classes:
  assumes "inv s A" "a \<in> A" "b \<in> A" "join s a b = Some s'"
  shows "inv s' A" "classes s \<subseteq> classes s'" "(a, b) \<in> classes s'" "(b, a) \<in> classes s'"
    "classes s' \<subseteq> (classes s \<union> {(a, b), (b, a)})\<^sup>*"
proof -
  have s': "inv s' A" "\<forall>x y. same s' x y \<longleftrightarrow> same s x y \<or> (same s x a \<and> same s b y) \<or> (same s x b \<and> same s a y)"
    using join_ok [OF assms(1-3)] assms(4) by auto
  then show "inv s' A" "classes s \<subseteq> classes s'" by (auto simp: classes_def)
  show "(a, b) \<in> classes s'" "(b, a) \<in> classes s'"
    using s'(2) assms same_refl [OF assms(1)] by (simp_all add: classes_def)
  show "classes s' \<subseteq> (classes s \<union> {(a, b), (b, a)})\<^sup>*"
  proof
    fix e assume "e \<in> classes s'"
    then obtain x y where e: "e = (x, y)" and "same s x y \<or> (same s x a \<and> same s b y) \<or> (same s x b \<and> same s a y)"
      using s'(2) by (auto simp: classes_def)
    moreover have step: "(u, v) \<in> (classes s \<union> {(a, b), (b, a)})\<^sup>*"
      if "same s u v \<or> (u, v) = (a, b) \<or> (u, v) = (b, a)" for u v
      using that by (intro r_into_rtrancl) (auto simp: classes_def)
    ultimately show "e \<in> (classes s \<union> {(a, b), (b, a)})\<^sup>*"
      using rtrancl_trans [OF step rtrancl_trans [OF step step], of x a b y]
        rtrancl_trans [OF step rtrancl_trans [OF step step], of x b a y] by blast
  qed
qed

text \<open>Merging along a list of pairs always succeeds and computes connectivity.\<close>

lemma joins_connect:
  assumes "inv s A" "\<forall>(a, b)\<in>set es. a \<in> A \<and> b \<in> A"
  shows "\<exists>s'. joins join s es = Some s' \<and> inv s' A \<and>
    (\<forall>x\<in>A. \<forall>y. same s' x y \<longleftrightarrow> (x, y) \<in> (classes s \<union> link es)\<^sup>*)"
  using assms
proof (induction es arbitrary: s)
  case Nil
  then show ?case using classes_rtrancl [OF Nil(1)] by (auto simp: classes_def)
next
  case (Cons e es)
  obtain a b where e: "e = (a, b)" by (cases e)
  with Cons.prems obtain s1 where s1: "join s a b = Some s1" using join_ok [of s A a b] by auto
  from e Cons.prems have ab: "a \<in> A" "b \<in> A" by auto
  note j = join_classes [OF Cons.prems(1) ab s1]
  obtain s' where s': "joins join s1 es = Some s'" "inv s' A"
    "\<forall>x\<in>A. \<forall>y. same s' x y \<longleftrightarrow> (x, y) \<in> (classes s1 \<union> link es)\<^sup>*"
    using Cons.IH [OF j(1)] Cons.prems by auto
  have "(classes s1 \<union> link es)\<^sup>* = (classes s \<union> link (e # es))\<^sup>*"
  proof (rule antisym)
    have "classes s1 \<subseteq> (classes s \<union> link (e # es))\<^sup>*"
      using j(5) rtrancl_mono [of "classes s \<union> {(a, b), (b, a)}" "classes s \<union> link (e # es)"] e by auto
    then show "(classes s1 \<union> link es)\<^sup>* \<subseteq> (classes s \<union> link (e # es))\<^sup>*"
      by (intro rtrancl_subset_rtrancl) auto
    show "(classes s \<union> link (e # es))\<^sup>* \<subseteq> (classes s1 \<union> link es)\<^sup>*"
      using j(2-4) e by (intro rtrancl_mono) auto
  qed
  with s' s1 e show ?case by auto
qed

end

section \<open>The forest\<close>

type_synonym path_union = "string \<rightharpoonup> string"

definition parent_of :: "path_union \<Rightarrow> string \<Rightarrow> string" where
  "parent_of u p = (case u p of None \<Rightarrow> [] | Some q \<Rightarrow> q)"

definition newPathUnion :: "string list \<Rightarrow> path_union" where
  "newPathUnion paths = map_of (zip paths paths)"

partial_function (option) uf_find :: "path_union \<Rightarrow> string \<Rightarrow> (path_union \<times> string) option" where
  "uf_find u p = (let parent = parent_of u p in
     if parent \<noteq> p then Option.bind (uf_find u parent) (\<lambda>(u, r). Some (u(p \<mapsto> r), r))
     else Some (u, parent))"

declare uf_find.simps [code]

definition uf_union :: "path_union \<Rightarrow> string \<Rightarrow> string \<Rightarrow> path_union option" where
  "uf_union u a b =
     Option.bind (uf_find u a) (\<lambda>(u, ra).
     Option.bind (uf_find u b) (\<lambda>(u, rb).
       if ra = rb then Some u else if ra < rb then Some (u(rb \<mapsto> ra)) else Some (u(ra \<mapsto> rb))))"

text \<open>The root of an element, as a relation; the invariant says parents never exceed their children.\<close>

inductive root_of :: "path_union \<Rightarrow> string \<Rightarrow> string \<Rightarrow> bool" for u where
  root_here: "u p = Some p \<Longrightarrow> root_of u p p"
| root_up: "u p = Some q \<Longrightarrow> q \<noteq> p \<Longrightarrow> root_of u q r \<Longrightarrow> root_of u p r"

inductive_cases root_ofE: "root_of u p r"

definition uf_inv :: "path_union \<Rightarrow> string set \<Rightarrow> bool" where
  "uf_inv u A \<longleftrightarrow> finite A \<and> dom u = A \<and> (\<forall>p q. u p = Some q \<longrightarrow> q \<in> A \<and> q \<le> p)"

definition uf_same :: "path_union \<Rightarrow> string \<Rightarrow> string \<Rightarrow> bool" where
  "uf_same u a b \<longleftrightarrow> (\<exists>r. root_of u a r \<and> root_of u b r)"

lemma root_of_step: "u p = Some q \<Longrightarrow> q \<noteq> p \<Longrightarrow> root_of u p r \<longleftrightarrow> root_of u q r"
  by (auto elim: root_of.cases intro: root_up)

lemma root_of_self: "u p = Some p \<Longrightarrow> root_of u p r \<longleftrightarrow> r = p"
  by (auto elim: root_of.cases intro: root_here)

lemma root_of_det: "root_of u p r \<Longrightarrow> root_of u p s \<Longrightarrow> r = s"
  by (induction arbitrary: s rule: root_of.induct) (simp_all add: root_of_step root_of_self)

lemma root_of_fix: "root_of u p r \<Longrightarrow> u r = Some r"
  by (induction rule: root_of.induct) auto

lemma root_of_dom: "root_of u p r \<Longrightarrow> p \<in> dom u"
  by (auto elim: root_ofE)

lemma root_of_in: "uf_inv u A \<Longrightarrow> root_of u p r \<Longrightarrow> p \<in> A"
  using root_of_dom [of u p r] by (simp add: uf_inv_def)

lemma root_of_le: "uf_inv u A \<Longrightarrow> root_of u p r \<Longrightarrow> r \<le> p"
  by (rotate_tac 1, induction rule: root_of.induct) (auto simp: uf_inv_def intro: order_trans)

lemma root_of_root: "root_of u p r \<Longrightarrow> root_of u r r"
  by (rule root_here [OF root_of_fix])

text \<open>Descending along parents is well-founded on a finite carrier.\<close>

lemma below_measure:
  assumes "finite A" "q \<in> A" "q < (p::string)"
  shows "card {x \<in> A. x < q} < card {x \<in> A. x < p}"
  using assms by (intro psubset_card_mono) (auto intro: less_trans)

lemma root_exists:
  assumes "uf_inv u A" "p \<in> A"
  shows "\<exists>r. root_of u p r"
  using assms(2)
proof (induction "card {x \<in> A. x < p}" arbitrary: p rule: less_induct)
  case less
  obtain q where q: "u p = Some q" "q \<in> A" "q \<le> p" using assms(1) less.prems by (auto simp: uf_inv_def dom_def)
  show ?case
  proof (cases "q = p")
    case True
    with q show ?thesis by (auto intro: root_here)
  next
    case False
    then have "card {x \<in> A. x < q} < card {x \<in> A. x < p}"
      using assms(1) q by (intro below_measure) (auto simp: uf_inv_def order_le_less)
    with less.hyps q(2) False q(1) show ?thesis by (blast intro: root_up)
  qed
qed

text \<open>Pointing an element at its root changes no root.\<close>

lemma compress_roots:
  assumes inv: "uf_inv u A" and r: "root_of u p r" "r \<noteq> p"
  shows "uf_inv (u(p \<mapsto> r)) A" "root_of (u(p \<mapsto> r)) x s \<longleftrightarrow> root_of u x s"
proof -
  have pr: "p \<in> A" "r \<in> A" "r \<le> p" "u r = Some r"
    using inv r root_of_dom root_of_root root_of_le root_of_fix by (auto simp: uf_inv_def)
  with inv show inv': "uf_inv (u(p \<mapsto> r)) A" by (auto simp: uf_inv_def)
  have to: "root_of (u(p \<mapsto> r)) x s" if "root_of u x s" for x s
    using that
  proof (induction rule: root_of.induct)
    case (root_here q)
    then have "q \<noteq> p" using r root_of_det by (metis root_of.root_here)
    with root_here show ?case by (auto intro: root_of.root_here)
  next
    case (root_up q q' s)
    show ?case
    proof (cases "q = p")
      case True
      then have "s = r" using root_up r(1) root_of_det by (metis root_of.root_up)
      moreover have "root_of (u(p \<mapsto> r)) r r" using pr(4) r(2) by (intro root_of.root_here) simp
      then have "root_of (u(p \<mapsto> r)) p r" using r(2) by (intro root_of.root_up [of _ p r]) simp_all
      ultimately show ?thesis using True by (simp del: fun_upd_apply)
    next
      case False
      with root_up show ?thesis by (intro root_of.root_up [of _ q q']) simp_all
    qed
  qed
  show "root_of (u(p \<mapsto> r)) x s \<longleftrightarrow> root_of u x s"
  proof
    assume x: "root_of (u(p \<mapsto> r)) x s"
    then have "x \<in> A" by (rule root_of_in [OF inv'])
    then obtain s' where "root_of u x s'" using root_exists [OF inv] by blast
    with to x root_of_det show "root_of u x s" by blast
  qed (rule to)
qed

lemma uf_find_ok:
  assumes "uf_inv u A" "root_of u p r"
  shows "\<exists>u'. uf_find u p = Some (u', r) \<and> uf_inv u' A \<and> (\<forall>x s. root_of u' x s \<longleftrightarrow> root_of u x s)"
  using assms(2)
proof (induction rule: root_of.induct)
  case (root_here p)
  with assms(1) show ?case by (simp add: uf_find.simps [of u p] parent_of_def)
next
  case (root_up p q r)
  then obtain u' where u': "uf_find u q = Some (u', r)" "uf_inv u' A" "\<forall>x s. root_of u' x s \<longleftrightarrow> root_of u x s" by auto
  have "root_of u p r" using root_up by (blast intro: root_of.root_up)
  with u' have p: "root_of u' p r" by blast
  have "r \<noteq> p"
  proof
    assume "r = p"
    then have "u p = Some p" using root_of_fix [OF \<open>root_of u p r\<close>] by simp
    with root_up show False by simp
  qed
  with u' compress_roots [OF u'(2) p] root_up show ?case
    by (simp add: uf_find.simps [of u p] parent_of_def)
qed

text \<open>Pointing a larger root at a smaller one merges exactly their classes.\<close>

lemma merge_roots:
  assumes inv: "uf_inv u A" and roots: "root_of u a ra" "root_of u b rb" "ra < rb"
  shows "uf_inv (u(rb \<mapsto> ra)) A"
    "root_of (u(rb \<mapsto> ra)) x s \<longleftrightarrow> (if root_of u x rb then s = ra else root_of u x s)"
proof -
  have fix_: "u ra = Some ra" "u rb = Some rb" using roots root_of_fix by auto
  then show inv': "uf_inv (u(rb \<mapsto> ra)) A" using inv roots(3) by (auto simp: uf_inv_def)
  have to: "root_of (u(rb \<mapsto> ra)) x (if s = rb then ra else s)" if "root_of u x s" for x s
    using that
  proof (induction rule: root_of.induct)
    case (root_here q)
    have ra: "root_of (u(rb \<mapsto> ra)) ra ra" using fix_ roots(3) by (intro root_of.root_here) auto
    show ?case
    proof (cases "q = rb")
      case True
      have "root_of (u(rb \<mapsto> ra)) rb ra" using ra roots(3) by (intro root_of.root_up [of _ rb ra]) auto
      with True show ?thesis by (simp del: fun_upd_apply)
    next
      case False
      with root_here show ?thesis by (simp add: root_of.root_here)
    qed
  next
    case (root_up q q' s)
    then have "q \<noteq> rb" using fix_ by auto
    with root_up show ?case by (intro root_of.root_up [of _ q q']) simp_all
  qed
  show "root_of (u(rb \<mapsto> ra)) x s \<longleftrightarrow> (if root_of u x rb then s = ra else root_of u x s)"
  proof (cases "x \<in> A")
    case True
    then obtain t where t: "root_of u x t" using root_exists [OF inv] by blast
    with to [OF t] root_of_det show ?thesis by (metis (full_types))
  next
    case False
    then have "\<not> root_of (u(rb \<mapsto> ra)) x s" "\<not> root_of u x t" for t
      using root_of_in [OF inv] root_of_in [OF inv'] by blast+
    then show ?thesis by auto
  qed
qed

lemma merge_same:
  assumes inv: "uf_inv u A" and roots: "root_of u a ra" "root_of u b rb" "ra < rb"
  shows "uf_same (u(rb \<mapsto> ra)) x y \<longleftrightarrow>
    uf_same u x y \<or> (uf_same u x a \<and> uf_same u b y) \<or> (uf_same u x b \<and> uf_same u a y)"
proof -
  have ex: "(\<exists>r. root_of u z r \<and> P r) \<longleftrightarrow> P t" if "root_of u z t" for z t P
    using that root_of_det by blast
  have merged: "root_of (u(rb \<mapsto> ra)) z r \<longleftrightarrow> (if t = rb then r = ra else r = t)" if "root_of u z t" for z t r
    unfolding merge_roots(2) [OF assms] using that root_of_det by metis
  show ?thesis
  proof (cases "x \<in> A \<and> y \<in> A")
    case True
    then obtain tx ty where t: "root_of u x tx" "root_of u y ty" using root_exists [OF inv] by blast
    have at: "root_of u x r \<longleftrightarrow> r = tx" "root_of u y r \<longleftrightarrow> r = ty" "root_of u a r \<longleftrightarrow> r = ra" "root_of u b r \<longleftrightarrow> r = rb" for r
      using t roots(1,2) root_of_det by metis+
    show ?thesis unfolding uf_same_def at merged [OF t(1)] merged [OF t(2)] using roots(3) by auto
  next
    case False
    moreover have "dom u = A" "dom (u(rb \<mapsto> ra)) = A" using inv merge_roots(1) [OF assms] by (simp_all add: uf_inv_def)
    ultimately have "\<not> (root_of (u(rb \<mapsto> ra)) x r \<and> root_of (u(rb \<mapsto> ra)) y r)" "\<not> (root_of u x r \<and> root_of u y s)" for r s
      using root_of_dom by blast+
    moreover have "\<not> uf_same u x a \<or> \<not> uf_same u b y" "\<not> uf_same u x b \<or> \<not> uf_same u a y"
      using False root_of_dom \<open>dom u = A\<close> unfolding uf_same_def by blast+
    ultimately show ?thesis unfolding uf_same_def by blast
  qed
qed

lemma uf_union_ok:
  assumes inv: "uf_inv u A" and A: "a \<in> A" "b \<in> A"
  shows "\<exists>u'. uf_union u a b = Some u' \<and> uf_inv u' A \<and>
    (\<forall>x y. uf_same u' x y \<longleftrightarrow> uf_same u x y \<or> (uf_same u x a \<and> uf_same u b y) \<or> (uf_same u x b \<and> uf_same u a y))"
proof -
  obtain ra rb where roots: "root_of u a ra" "root_of u b rb" using root_exists [OF inv] A by blast
  obtain u1 where u1: "uf_find u a = Some (u1, ra)" "uf_inv u1 A" "\<forall>x s. root_of u1 x s \<longleftrightarrow> root_of u x s"
    using uf_find_ok [OF inv roots(1)] by blast
  then have "root_of u1 b rb" using roots by blast
  then obtain u2 where u2: "uf_find u1 b = Some (u2, rb)" "uf_inv u2 A" "\<forall>x s. root_of u2 x s \<longleftrightarrow> root_of u x s"
    using uf_find_ok [OF u1(2)] u1(3) by metis
  have same: "uf_same u2 x y \<longleftrightarrow> uf_same u x y" for x y using u2(3) by (simp add: uf_same_def)
  have r2: "root_of u2 a ra" "root_of u2 b rb" using u2(3) roots by blast+
  consider "ra = rb" | "ra < rb" | "rb < ra" by fastforce
  then show ?thesis
  proof cases
    case 1
    then have "uf_same u x y \<longleftrightarrow> uf_same u x y \<or> (uf_same u x a \<and> uf_same u b y) \<or> (uf_same u x b \<and> uf_same u a y)" for x y
      using roots root_of_det unfolding uf_same_def by metis
    with 1 u1 u2 same show ?thesis by (auto simp: uf_union_def)
  next
    case 2
    then have "uf_union u a b = Some (u2(rb \<mapsto> ra))" using u1 u2 by (auto simp: uf_union_def)
    with same merge_roots(1) [OF u2(2) r2 2] merge_same [OF u2(2) r2 2] show ?thesis by auto
  next
    case 3
    then have "uf_union u a b = Some (u2(ra \<mapsto> rb))" using u1 u2 by (auto simp: uf_union_def)
    with same merge_roots(1) [OF u2(2) r2(2,1) 3] merge_same [OF u2(2) r2(2,1) 3] show ?thesis by auto
  qed
qed

interpretation uf: merge_find uf_inv uf_same uf_union
proof
  fix s A x y z
  show "uf_inv s A \<Longrightarrow> x \<in> A \<Longrightarrow> uf_same s x x" using root_exists by (auto simp: uf_same_def)
  show "uf_same s x y \<Longrightarrow> uf_same s y x" by (auto simp: uf_same_def)
  show "uf_inv s A \<Longrightarrow> uf_same s x y \<Longrightarrow> uf_same s y z \<Longrightarrow> uf_same s x z"
    using root_of_det unfolding uf_same_def by metis
  show "uf_inv s A \<Longrightarrow> uf_same s x y \<Longrightarrow> x \<in> A" using root_of_dom by (auto simp: uf_same_def uf_inv_def)
qed (rule uf_union_ok)

lemma uf_inv_new: "uf_inv (newPathUnion paths) (set paths)"
proof -
  have "newPathUnion paths p = (if p \<in> set paths then Some p else None)" for p
    unfolding newPathUnion_def by (induction paths) auto
  then show ?thesis by (auto simp: uf_inv_def dom_def split: if_splits)
qed

lemma uf_same_new: "uf_same (newPathUnion paths) x y \<longleftrightarrow> x = y \<and> x \<in> set paths"
proof -
  have id: "newPathUnion paths p = (if p \<in> set paths then Some p else None)" for p
    unfolding newPathUnion_def by (induction paths) auto
  have "root_of (newPathUnion paths) z r \<longleftrightarrow> z = r \<and> z \<in> set paths" for z r
  proof
    assume "root_of (newPathUnion paths) z r"
    then show "z = r \<and> z \<in> set paths" by (cases rule: root_of.cases) (simp_all add: id split: if_splits)
  next
    assume "z = r \<and> z \<in> set paths"
    then show "root_of (newPathUnion paths) z r" using id by (auto intro: root_here)
  qed
  then show ?thesis by (auto simp: uf_same_def)
qed

lemma uf_joins_new:
  assumes "\<forall>(a, b)\<in>set es. a \<in> set paths \<and> b \<in> set paths"
  shows "\<exists>u. joins uf_union (newPathUnion paths) es = Some u \<and> uf_inv u (set paths) \<and>
    (\<forall>x\<in>set paths. \<forall>y. uf_same u x y \<longleftrightarrow> (x, y) \<in> (link es)\<^sup>*)"
proof -
  have "uf.classes (newPathUnion paths) \<subseteq> Id" by (auto simp: uf.classes_def uf_same_new)
  then have "uf.classes (newPathUnion paths) \<union> link es \<subseteq> (link es)\<^sup>*" by auto
  then have "(uf.classes (newPathUnion paths) \<union> link es)\<^sup>* = (link es)\<^sup>*" by (intro rtrancl_subset) auto
  with uf.joins_connect [OF uf_inv_new assms] show ?thesis by metis
qed

text \<open>The root is the least element of the class, whatever the order of the merges was.\<close>

lemma root_is_least:
  assumes "uf_inv u A" "root_of u p r"
  shows "uf_same u p r" "uf_same u p q \<Longrightarrow> r \<le> q"
proof -
  show "uf_same u p r" using assms(2) root_of_root by (auto simp: uf_same_def)
  assume "uf_same u p q"
  then have "root_of u q r" using assms(2) root_of_det by (metis uf_same_def)
  then show "r \<le> q" by (rule root_of_le [OF assms(1)])
qed

text \<open>\<open>find\<close> over a list, threading the forest.\<close>

fun find_all :: "path_union \<Rightarrow> string list \<Rightarrow> (path_union \<times> string list) option" where
  "find_all u [] = Some (u, [])"
| "find_all u (p # ps) =
     Option.bind (uf_find u p) (\<lambda>(u, r). Option.bind (find_all u ps) (\<lambda>(u, rs). Some (u, r # rs)))"

lemma find_all_ok:
  assumes "uf_inv u A" "set ps \<subseteq> A"
  shows "\<exists>u' rs. find_all u ps = Some (u', rs) \<and> uf_inv u' A \<and> (\<forall>x s. root_of u' x s \<longleftrightarrow> root_of u x s) \<and>
    list_all2 (root_of u) ps rs"
  using assms
proof (induction ps arbitrary: u)
  case (Cons p ps)
  then have "p \<in> A" by simp
  then obtain r where "root_of u p r" using root_exists [OF Cons.prems(1)] by blast
  then obtain u1 where u1: "uf_find u p = Some (u1, r)" "uf_inv u1 A" "\<forall>x s. root_of u1 x s \<longleftrightarrow> root_of u x s"
    using uf_find_ok [OF Cons.prems(1)] by blast
  then have "root_of u1 = root_of u" by blast
  with Cons.IH [OF u1(2)] Cons.prems u1 \<open>root_of u p r\<close> show ?case by auto
qed auto

end
