(* ===== verification/Cohorts.thy ===== *)
theory Cohorts
  imports Layers UnionFind
begin

text \<open>
  \<open>BuildFileCohorts\<close> of \<open>internal/review/cohorts.go\<close>: the changed files are joined along the proven
  relations with \<open>UnionFind\<close>, the cohorts whose files are all mechanical become one, and each cohort
  is layered by \<open>Layers\<close>.  Go collects the groups in a map; here they are listed by their root, and
  the final sort fixes the order either way.
\<close>

section \<open>Which files are joined\<close>

record file_cohort =
  fc_Key :: string
  fc_Label :: string
  fc_Files :: "string list"
  fc_Layers :: "file_layer list"

definition cluster_members :: "string list \<Rightarrow> cluster \<Rightarrow> string list" where
  "cluster_members paths c = filter (\<lambda>p. p \<in> set paths) (cl_Files c)"

definition cluster_edges :: "string list \<Rightarrow> cluster \<Rightarrow> (string \<times> string) list" where
  "cluster_edges paths c = (case cluster_members paths c of [] \<Rightarrow> [] | m # ms \<Rightarrow> map (\<lambda>p. (m, p)) ms)"

definition relation_edges :: "string list \<Rightarrow> file_facts \<Rightarrow> string \<Rightarrow> (string \<times> string) list" where
  "relation_edges paths f p =
     map (\<lambda>e. (p, ev_File e)) (filter (\<lambda>e. ev_Resolved e \<and> ev_File e \<in> set paths)
       (rl_Includes (ff_Relations f) @ rl_IncludedBy (ff_Relations f))) @
     map (\<lambda>t. (p, t)) (filter (\<lambda>t. t \<in> set paths) (te_Tests (ff_Tests f)))"

definition cohort_edges :: "string list \<Rightarrow> graph_enrichment \<Rightarrow> (string \<times> string) list" where
  "cohort_edges paths en = concat (map (cluster_edges paths) (ge_Clusters en)) @
     concat (map (\<lambda>p. relation_edges paths (factsOf en p) p) paths)"

definition clusterLabels :: "graph_enrichment \<Rightarrow> string \<Rightarrow> string list" where
  "clusterLabels en p = concat (map (\<lambda>c. map (\<lambda>q. cl_Label c) (filter (\<lambda>q. q = p) (cl_Files c))) (ge_Clusters en))"

section \<open>Grouping\<close>

definition group_by_root :: "string list \<Rightarrow> string list \<Rightarrow> string list list" where
  "group_by_root paths roots =
     map (\<lambda>r. map fst (filter (\<lambda>(p, s). s = r) (zip paths roots))) (sortedUniqueStrings roots)"

definition is_mechanical :: "graph_enrichment \<Rightarrow> string \<Rightarrow> bool" where
  "is_mechanical en p = containsString (ff_Roles (factsOf en p)) RoleMechanical"

text \<open>\<open>first\<close> is \<open>firstMechanical\<close>, empty as long as no all-mechanical component was met.\<close>

fun merge_mechanical :: "graph_enrichment \<Rightarrow> string \<Rightarrow> string list list \<Rightarrow> path_union \<Rightarrow> path_union option" where
  "merge_mechanical en first [] u = Some u"
| "merge_mechanical en first (members # rest) u =
     (if \<not> list_all (is_mechanical en) members then merge_mechanical en first rest u
      else if first = [] then merge_mechanical en (hd members) rest u
      else Option.bind (uf_union u first (hd members)) (merge_mechanical en first rest))"

section \<open>Keys\<close>

fun shared_segments :: "string list \<Rightarrow> string list \<Rightarrow> string list" where
  "shared_segments (dir # dirs) (other # others) = (if dir \<noteq> other then [] else dir # shared_segments dirs others)"
| "shared_segments _ _ = []"

definition nearestCommonDir :: "string list \<Rightarrow> string" where
  "nearestCommonDir files = (case files of [] \<Rightarrow> ''.'' | f # fs \<Rightarrow>
     let common = foldl (\<lambda>common file. shared_segments common (split_on slash (path_Dir file))) (split_on slash (path_Dir f)) fs
     in if common = [] then ''.'' else join [slash] common)"

definition cohortMembershipKey :: "string list \<Rightarrow> string list \<Rightarrow> graph_enrichment \<Rightarrow> string" where
  "cohortMembershipKey files labels en =
     (if labels \<noteq> [] then ''cluster:'' @ join ''+'' labels
      else if length files = 1 then ''path:'' @ hd files
      else if list_all (is_mechanical en) files then ''mechanical:'' @ nearestCommonDir files
      else ''connected:'' @ join ''+'' files)"

definition make_cohort :: "graph_enrichment \<Rightarrow> string list \<Rightarrow> file_cohort option" where
  "make_cohort en files = (let files = sort files;
       labels = sortedUniqueStrings (concat (map (clusterLabels en) files));
       key = cohortMembershipKey files labels en
     in map_option (\<lambda>ls. \<lparr>fc_Key = key, fc_Label = trim_prefix key ''cluster:'', fc_Files = files, fc_Layers = ls\<rparr>)
          (dependencyLayers files (factsOf en)))"

fun all_some :: "('a \<Rightarrow> 'b option) \<Rightarrow> 'a list \<Rightarrow> 'b list option" where
  "all_some f [] = Some []"
| "all_some f (x # xs) = Option.bind (f x) (\<lambda>y. map_option (\<lambda>ys. y # ys) (all_some f xs))"

definition cohort_key :: "file_cohort \<Rightarrow> string \<times> string" where
  "cohort_key c = (fc_Key c, join [CHR 0x00] (fc_Files c))"

definition BuildFileCohorts :: "string list \<Rightarrow> graph_enrichment \<Rightarrow> file_cohort list option" where
  "BuildFileCohorts paths en = (let paths = sortedUniqueStrings paths in
     Option.bind (joins uf_union (newPathUnion paths) (cohort_edges paths en)) (\<lambda>u.
     Option.bind (find_all u paths) (\<lambda>(u, roots).
     Option.bind (merge_mechanical en [] (group_by_root paths roots) u) (\<lambda>u.
     Option.bind (find_all u paths) (\<lambda>(u, roots).
       map_option (sort_key cohort_key) (all_some (make_cohort en) (group_by_root paths roots)))))))"

section \<open>Groups\<close>

definition the_root :: "path_union \<Rightarrow> string \<Rightarrow> string" where
  "the_root u p = (THE r. root_of u p r)"

lemma the_root: "root_of u p r \<Longrightarrow> the_root u p = r"
  using root_of_det by (auto simp: the_root_def)

lemma roots_map: "list_all2 (root_of u) ps rs \<Longrightarrow> rs = map (the_root u) ps"
  by (induction rule: list_all2_induct) (auto simp: the_root)

lemma same_iff_root: "uf_inv u A \<Longrightarrow> p \<in> A \<Longrightarrow> q \<in> A \<Longrightarrow> uf_same u p q \<longleftrightarrow> the_root u p = the_root u q"
  using root_exists the_root root_of_det by (metis uf_same_def)

lemma group_eq: "group_by_root ps (map f ps) = map (\<lambda>r. filter (\<lambda>p. f p = r) ps) (sortedUniqueStrings (map f ps))"
proof -
  have "map fst (filter (\<lambda>(p, s). s = r) (zip ps (map f ps))) = filter (\<lambda>p. f p = r) ps" for r
    by (induction ps) auto
  then show ?thesis by (simp add: group_by_root_def)
qed

lemma groups:
  assumes "distinct ps"
  shows "distinct (concat (group_by_root ps (map f ps)))" "set (concat (group_by_root ps (map f ps))) = set ps"
    "g \<in> set (group_by_root ps (map f ps)) \<longleftrightarrow> (\<exists>p\<in>set ps. g = filter (\<lambda>q. f q = f p) ps)"
proof -
  have "distinct (concat (map (\<lambda>r. filter (\<lambda>p. f p = r) ps) rs))" if "distinct rs" for rs
    using that by (induction rs) (use assms in auto)
  then show "distinct (concat (group_by_root ps (map f ps)))" unfolding group_eq by simp
  show "set (concat (group_by_root ps (map f ps))) = set ps" unfolding group_eq by auto
  show "g \<in> set (group_by_root ps (map f ps)) \<longleftrightarrow> (\<exists>p\<in>set ps. g = filter (\<lambda>q. f q = f p) ps)"
    unfolding group_eq by auto
qed

lemma same_group: "p \<in> set ps \<Longrightarrow> q \<in> set ps \<Longrightarrow>
    (\<exists>x\<in>set (group_by_root ps (map f ps)). p \<in> set x \<and> q \<in> set x) \<longleftrightarrow> f p = f q"
  unfolding group_eq by auto

section \<open>Merging the mechanical components\<close>

definition mechanical_edges :: "graph_enrichment \<Rightarrow> string \<Rightarrow> string list list \<Rightarrow> (string \<times> string) list" where
  "mechanical_edges en first gs = (let hs = map hd (filter (list_all (is_mechanical en)) gs) in
     if first = [] then (case hs of [] \<Rightarrow> [] | h # hs \<Rightarrow> map (\<lambda>p. (h, p)) hs) else map (\<lambda>p. (first, p)) hs)"

lemma merge_mechanical_joins:
  "\<forall>g\<in>set gs. hd g \<noteq> [] \<Longrightarrow> merge_mechanical en first gs u = joins uf_union u (mechanical_edges en first gs)"
proof (induction en first gs u rule: merge_mechanical.induct)
  case (2 en first members rest u)
  then show ?case by (cases "uf_union u first (hd members)") (auto simp: mechanical_edges_def Let_def)
qed (simp add: mechanical_edges_def)

definition linked :: "(string \<times> string) list \<Rightarrow> string \<Rightarrow> string \<Rightarrow> bool" where
  "linked es p q \<longleftrightarrow> (p, q) \<in> (link es)\<^sup>*"

text \<open>A component all of whose files are mechanical.\<close>

definition mechanical_class :: "string set \<Rightarrow> graph_enrichment \<Rightarrow> (string \<Rightarrow> string \<Rightarrow> bool) \<Rightarrow> string \<Rightarrow> bool" where
  "mechanical_class A en same p \<longleftrightarrow> (\<forall>q\<in>A. same p q \<longrightarrow> is_mechanical en q)"

lemma mechanical_edges_in:
  assumes "(h, k) \<in> set (mechanical_edges en [] gs)" "\<forall>g\<in>set gs. g \<noteq> []"
  shows "\<exists>g\<in>set gs. h \<in> set g \<and> list_all (is_mechanical en) g" "\<exists>g\<in>set gs. k \<in> set g \<and> list_all (is_mechanical en) g"
proof -
  obtain x xs where hs: "map hd (filter (list_all (is_mechanical en)) gs) = x # xs" "h = x" "k \<in> set xs"
    using assms(1) by (auto simp: mechanical_edges_def Let_def split: list.splits)
  have rep: "\<exists>g\<in>set gs. y \<in> set g \<and> list_all (is_mechanical en) g" if "y \<in> set (x # xs)" for y
  proof -
    from that have "y \<in> set (map hd (filter (list_all (is_mechanical en)) gs))" by (simp only: hs(1))
    then obtain g where "g \<in> set gs" "list_all (is_mechanical en) g" "y = hd g" by auto
    then show ?thesis using assms(2) hd_in_set [of g] by blast
  qed
  show "\<exists>g\<in>set gs. h \<in> set g \<and> list_all (is_mechanical en) g" "\<exists>g\<in>set gs. k \<in> set g \<and> list_all (is_mechanical en) g"
    using hs(2,3) by (auto intro!: rep)
qed

lemma mechanical_edges_connect:
  assumes "g \<in> set gs" "g' \<in> set gs" "list_all (is_mechanical en) g" "list_all (is_mechanical en) g'"
  shows "(hd g, hd g') \<in> (link (mechanical_edges en [] gs))\<^sup>*"
proof -
  let ?hs = "map hd (filter (list_all (is_mechanical en)) gs)"
  have g: "hd g \<in> set ?hs" "hd g' \<in> set ?hs" using assms by auto
  then obtain x xs where hs: "?hs = x # xs" by (cases ?hs) auto
  have me: "mechanical_edges en [] gs = map (\<lambda>p. (x, p)) xs" by (simp add: mechanical_edges_def Let_def hs)
  have "(x, h) \<in> (link (mechanical_edges en [] gs))\<^sup>* \<and> (h, x) \<in> (link (mechanical_edges en [] gs))\<^sup>*" if "h \<in> set ?hs" for h
    using that unfolding hs me link_def by auto
  with g show ?thesis by (meson rtrancl_trans)
qed

text \<open>Merging joins exactly the mechanical components.\<close>

lemma merged_classes:
  assumes inv: "uf_inv u A" and ps: "distinct ps" "set ps = A" and rs: "gs = group_by_root ps (map (the_root u) ps)" and p: "p \<in> A"
  shows "(p, q) \<in> (uf.classes u \<union> link (mechanical_edges en [] gs))\<^sup>* \<longleftrightarrow>
    uf_same u p q \<or> q \<in> A \<and> mechanical_class A en (uf_same u) p \<and> mechanical_class A en (uf_same u) q"
proof -
  let ?M = "mechanical_class A en (uf_same u)" and ?R = "uf.classes u \<union> link (mechanical_edges en [] gs)"
  have gs: "g \<in> set gs \<longleftrightarrow> (\<exists>p\<in>A. g = filter (\<lambda>q. uf_same u p q) ps)" for g
    unfolding rs groups(3) [OF ps(1)] ps(2) using same_iff_root [OF inv] ps(2)
    by (intro bex_cong refl) (metis (mono_tags, lifting) filter_cong)
  have refl: "uf_same u x x" if "x \<in> A" for x using uf.same_refl [OF inv that] .
  note sym = uf.same_sym and trans = uf.same_trans [OF inv]
  have M: "?M y" if "?M x" "uf_same u x y" for x y using that trans by (auto simp: mechanical_class_def)
  have inA: "y \<in> A" if "uf_same u x y" for x y using uf.same_in [OF inv sym [OF that]] .
  have end_M: "x \<in> A \<and> ?M x" if "g \<in> set gs" "x \<in> set g" "list_all (is_mechanical en) g" for g x
  proof -
    from that(1) obtain z where z: "z \<in> A" "g = filter (\<lambda>q. uf_same u z q) ps" unfolding gs by blast
    with that ps have "uf_same u z x" "?M z" by (auto simp: mechanical_class_def list_all_iff)
    with M inA show ?thesis by blast
  qed
  have ne: "\<forall>g\<in>set gs. g \<noteq> []"
  proof
    fix g assume "g \<in> set gs"
    then obtain z where "z \<in> A" "g = filter (\<lambda>q. uf_same u z q) ps" unfolding gs by blast
    with refl ps(2) have "z \<in> set g" by simp
    then show "g \<noteq> []" by auto
  qed
  have rep: "\<exists>g\<in>set gs. list_all (is_mechanical en) g \<and> uf_same u x (hd g)" if "x \<in> A" "?M x" for x
  proof -
    let ?g = "filter (\<lambda>q. uf_same u x q) ps"
    have "?g \<in> set gs" unfolding gs using that(1) by blast
    moreover have "list_all (is_mechanical en) ?g" using that ps by (auto simp: mechanical_class_def list_all_iff)
    moreover have "hd ?g \<in> set ?g" using ne calculation(1) by (intro hd_in_set) blast
    ultimately show ?thesis by auto
  qed
  show ?thesis
  proof
    assume "(p, q) \<in> ?R\<^sup>*"
    then show "uf_same u p q \<or> q \<in> A \<and> ?M p \<and> ?M q"
    proof (induction rule: rtrancl_induct)
      case base show ?case using refl p by blast
    next
      case (step y z)
      from step(2) consider "uf_same u y z" | "(y, z) \<in> link (mechanical_edges en [] gs)" by (auto simp: uf.classes_def)
      then show ?case
      proof cases
        case 1 with step(3) trans M inA show ?thesis by blast
      next
        case 2
        then have "y \<in> A \<and> ?M y" "z \<in> A \<and> ?M z"
          using mechanical_edges_in [OF _ ne] end_M by (fastforce simp: link_def)+
        with step(3) M sym show ?thesis by blast
      qed
    qed
  next
    assume "uf_same u p q \<or> q \<in> A \<and> ?M p \<and> ?M q"
    then show "(p, q) \<in> ?R\<^sup>*"
    proof
      assume q: "q \<in> A \<and> ?M p \<and> ?M q"
      from rep [OF p] q obtain g where g: "g \<in> set gs" "list_all (is_mechanical en) g" "uf_same u p (hd g)" by blast
      from rep [of q] q obtain h where h: "h \<in> set gs" "list_all (is_mechanical en) h" "uf_same u q (hd h)" by blast
      have "(hd g, hd h) \<in> ?R\<^sup>*"
        using mechanical_edges_connect [OF g(1) h(1) g(2) h(2)] rtrancl_mono [of "link (mechanical_edges en [] gs)" ?R] by blast
      moreover have "(p, hd g) \<in> ?R" "(hd h, q) \<in> ?R" using g(3) sym [OF h(3)] by (simp_all add: uf.classes_def)
      ultimately show ?thesis by (meson converse_rtrancl_into_rtrancl rtrancl.rtrancl_into_rtrancl)
    qed (auto simp: uf.classes_def)
  qed
qed

section \<open>The cohorts\<close>

lemma cohort_edges_in: "\<forall>(a, b)\<in>set (cohort_edges ps en). a \<in> set ps \<and> b \<in> set ps"
proof -
  have "a \<in> set ps \<and> b \<in> set ps" if "(a, b) \<in> set (cluster_edges ps c)" for a b c
  proof -
    have "set (cluster_members ps c) \<subseteq> set ps" by (auto simp: cluster_members_def)
    with that show ?thesis by (cases "cluster_members ps c") (auto simp: cluster_edges_def)
  qed
  then show ?thesis by (fastforce simp: cohort_edges_def relation_edges_def)
qed

lemma all_some_map: "\<forall>x\<in>set xs. \<exists>y. f x = Some y \<and> P x y \<Longrightarrow> \<exists>ys. all_some f xs = Some ys \<and> list_all2 P xs ys"
  by (induction xs) auto

definition cohort_of :: "graph_enrichment \<Rightarrow> string list \<Rightarrow> file_cohort \<Rightarrow> bool" where
  "cohort_of en files c \<longleftrightarrow> fc_Files c = files \<and>
     fc_Key c = cohortMembershipKey files (sortedUniqueStrings (concat (map (clusterLabels en) files))) en \<and>
     layering files (dependency_edges files (factsOf en)) (factsOf en) (fc_Layers c)"

lemma make_cohort_ok: "sorted files \<Longrightarrow> \<exists>c. make_cohort en files = Some c \<and> cohort_of en files c"
proof -
  assume "sorted files"
  then have "sort files = files" by (rule sort_key_id_if_sorted [of "\<lambda>x. x", simplified])
  moreover obtain ls where "dependencyLayers files (factsOf en) = Some ls"
    "layering files (dependency_edges files (factsOf en)) (factsOf en) ls" using dependencyLayers_ok by blast
  ultimately show ?thesis by (simp add: make_cohort_def Let_def cohort_of_def)
qed

definition same_cohort :: "file_cohort list \<Rightarrow> string \<Rightarrow> string \<Rightarrow> bool" where
  "same_cohort cs p q \<longleftrightarrow> (\<exists>c\<in>set cs. p \<in> set (fc_Files c) \<and> q \<in> set (fc_Files c))"

lemma the_root_cong: "\<forall>x s. root_of u' x s \<longleftrightarrow> root_of u x s \<Longrightarrow> the_root u' = the_root u \<and> uf_same u' = uf_same u"
  by (simp add: the_root_def fun_eq_iff uf_same_def)

lemma find_all_roots:
  assumes "uf_inv u (set ps)"
  shows "\<exists>u'. find_all u ps = Some (u', map (the_root u') ps) \<and> uf_inv u' (set ps) \<and> uf_same u' = uf_same u"
proof -
  from find_all_ok [OF assms order_refl] obtain u' rs where u': "find_all u ps = Some (u', rs)" "uf_inv u' (set ps)"
    "\<forall>x s. root_of u' x s \<longleftrightarrow> root_of u x s" "list_all2 (root_of u) ps rs" by blast
  with roots_map [OF u'(4)] the_root_cong [OF u'(3)] show ?thesis by auto
qed

definition mechanical_component :: "string list \<Rightarrow> graph_enrichment \<Rightarrow> string \<Rightarrow> bool" where
  "mechanical_component paths en p \<longleftrightarrow>
     (\<forall>q\<in>set paths. linked (cohort_edges (sortedUniqueStrings paths) en) p q \<longrightarrow> is_mechanical en q)"

lemma cohorts_of_groups:
  assumes inv: "uf_inv u (set ps)" and ps: "distinct ps" "sorted ps" and gs: "gs = group_by_root ps (map (the_root u) ps)"
  shows "\<exists>cs. map_option (sort_key cohort_key) (all_some (make_cohort en) gs) = Some cs \<and>
     distinct (concat (map fc_Files cs)) \<and> set (concat (map fc_Files cs)) = set ps \<and>
     (\<forall>c\<in>set cs. fc_Files c \<noteq> [] \<and> sorted (fc_Files c) \<and> cohort_of en (fc_Files c) c) \<and>
     (\<forall>p\<in>set ps. \<forall>q\<in>set ps. same_cohort cs p q \<longleftrightarrow> uf_same u p q)"
proof -
  note g = groups [OF ps(1), where f = "the_root u", folded gs]
  have refl: "x \<in> set (filter (\<lambda>q. the_root u q = the_root u x) ps)" if "x \<in> set ps" for x using that by simp
  have "sorted x \<and> x \<noteq> []" if "x \<in> set gs" for x
  proof -
    from that obtain y where "y \<in> set ps" "x = filter (\<lambda>q. the_root u q = the_root u y) ps" using g(3) by blast
    moreover from this refl [of y] have "y \<in> set x" by simp
    then have "x \<noteq> []" by auto
    ultimately show ?thesis using ps(2) by (simp add: sorted_wrt_filter)
  qed
  then have sorted: "\<forall>x\<in>set gs. sorted x \<and> x \<noteq> []" by blast
  then obtain cs where cs: "all_some (make_cohort en) gs = Some cs" "list_all2 (cohort_of en) gs cs"
    using all_some_map [of gs "make_cohort en" "cohort_of en"] make_cohort_ok by blast
  from cs(2) have files: "map fc_Files cs = gs" by (induction rule: list_all2_induct) (auto simp: cohort_of_def)
  from cs(2) files have coh: "\<forall>c\<in>set cs. cohort_of en (fc_Files c) c"
    by (auto simp: list_all2_conv_all_nth in_set_conv_nth)
  let ?cs = "sort_key cohort_key cs"
  have m: "mset (concat (map fc_Files ?cs)) = mset (concat gs)"
    unfolding files [symmetric] mset_concat sum_mset_sum_list [symmetric] by simp
  from mset_eq_imp_distinct_iff [OF m] mset_eq_setD [OF m] g(1,2)
  have "distinct (concat (map fc_Files ?cs))" "set (concat (map fc_Files ?cs)) = set ps" by simp_all
  moreover have mem: "fc_Files c \<in> set gs" if "c \<in> set cs" for c using that by (simp add: files [symmetric])
  then have "\<forall>c\<in>set ?cs. fc_Files c \<noteq> [] \<and> sorted (fc_Files c) \<and> cohort_of en (fc_Files c) c"
    using sorted coh by simp
  moreover have "same_cohort ?cs p q \<longleftrightarrow> uf_same u p q" if "p \<in> set ps" "q \<in> set ps" for p q
  proof -
    have "same_cohort ?cs p q \<longleftrightarrow> (\<exists>x\<in>fc_Files ` set cs. p \<in> set x \<and> q \<in> set x)" by (auto simp: same_cohort_def)
    also have "fc_Files ` set cs = set gs" by (metis files set_map)
    also have "(\<exists>x\<in>set gs. p \<in> set x \<and> q \<in> set x) \<longleftrightarrow> the_root u p = the_root u q"
      unfolding gs by (rule same_group [OF that])
    finally show ?thesis using same_iff_root [OF inv that] by simp
  qed
  ultimately show ?thesis using cs(1) by auto
qed

lemma BuildFileCohorts_ok:
  assumes "[] \<notin> set paths"
  shows "\<exists>cs. BuildFileCohorts paths en = Some cs \<and>
     distinct (concat (map fc_Files cs)) \<and> set (concat (map fc_Files cs)) = set paths \<and>
     (\<forall>c\<in>set cs. fc_Files c \<noteq> [] \<and> sorted (fc_Files c) \<and> cohort_of en (fc_Files c) c) \<and>
     (\<forall>p\<in>set paths. \<forall>q\<in>set paths. same_cohort cs p q \<longleftrightarrow>
        linked (cohort_edges (sortedUniqueStrings paths) en) p q \<or>
        mechanical_component paths en p \<and> mechanical_component paths en q)"
proof -
  let ?ps = "sortedUniqueStrings paths"
  let ?es = "cohort_edges ?ps en"
  obtain u0 where u0: "joins uf_union (newPathUnion ?ps) ?es = Some u0" "uf_inv u0 (set ?ps)"
    "\<forall>x\<in>set ?ps. \<forall>y. uf_same u0 x y \<longleftrightarrow> linked ?es x y"
    using uf_joins_new [OF cohort_edges_in] unfolding linked_def by blast
  from find_all_roots [OF u0(2)] obtain u1 where u1: "find_all u0 ?ps = Some (u1, map (the_root u1) ?ps)"
    "uf_inv u1 (set ?ps)" "uf_same u1 = uf_same u0" by blast
  let ?gs = "group_by_root ?ps (map (the_root u1) ?ps)"
  let ?me = "mechanical_edges en [] ?gs"
  note g = groups [OF sortedUniqueStrings_props(3) [of paths], where f = "the_root u1"]
  have ne: "g \<noteq> [] \<and> set g \<subseteq> set paths" if "g \<in> set ?gs" for g
  proof -
    from that [unfolded g(3)] obtain y where y: "y \<in> set ?ps" "g = filter (\<lambda>q. the_root u1 q = the_root u1 y) ?ps" ..
    then have "y \<in> set g" by simp
    then have "g \<noteq> []" by auto
    moreover have "set g \<subseteq> set paths" using y(2) by auto
    ultimately show ?thesis by blast
  qed
  have "\<forall>g\<in>set ?gs. hd g \<noteq> []"
  proof
    fix g assume "g \<in> set ?gs"
    from ne [OF this] have "hd g \<in> set paths" using hd_in_set by blast
    with assms show "hd g \<noteq> []" by metis
  qed
  note merge = merge_mechanical_joins [OF this, of en "[]" u1]
  have "\<forall>(a, b)\<in>set ?me. a \<in> set ?ps \<and> b \<in> set ?ps"
  proof (intro ballI, unfold case_prod_unfold)
    fix e assume "e \<in> set ?me"
    then have e: "(fst e, snd e) \<in> set ?me" by simp
    have "\<forall>g\<in>set ?gs. g \<noteq> []" using ne by blast
    from mechanical_edges_in [OF e this] ne show "fst e \<in> set ?ps \<and> snd e \<in> set ?ps"
      unfolding sortedUniqueStrings_props(1) by blast
  qed
  from uf.joins_connect [OF u1(2) this] obtain u2 where u2: "joins uf_union u1 ?me = Some u2" "uf_inv u2 (set ?ps)"
    "\<forall>x\<in>set ?ps. \<forall>y. uf_same u2 x y \<longleftrightarrow> (x, y) \<in> (uf.classes u1 \<union> link ?me)\<^sup>*" by blast
  from find_all_roots [OF u2(2)] obtain u3 where u3: "find_all u2 ?ps = Some (u3, map (the_root u3) ?ps)"
    "uf_inv u3 (set ?ps)" "uf_same u3 = uf_same u2" by blast
  have mech: "mechanical_class (set ?ps) en (uf_same u1) p \<longleftrightarrow> mechanical_component paths en p" if "p \<in> set ?ps" for p
    using that u0(3) by (simp add: mechanical_class_def mechanical_component_def u1(3))
  have same: "uf_same u3 p q \<longleftrightarrow> linked ?es p q \<or> mechanical_component paths en p \<and> mechanical_component paths en q"
    if "p \<in> set ?ps" "q \<in> set ?ps" for p q
    using that merged_classes [OF u1(2) sortedUniqueStrings_props(3) refl refl that(1)] u2(3) u0(3) mech
    by (simp add: u3(3) u1(3))
  from cohorts_of_groups [OF u3(2) sortedUniqueStrings_props(3,2) refl, of en] same show ?thesis
    unfolding BuildFileCohorts_def Let_def using u0(1) u1(1) merge u2(1) u3(1) by auto
qed

text \<open>C37: whatever the clusters, relations and roles are, the cohorts are computed, they partition
  the changed files, and two files share one exactly when proven relations connect them or both lie
  in components of mechanical files only.\<close>

theorem BuildFileCohorts_partition:
  assumes "[] \<notin> set paths"
  shows "\<exists>cs. BuildFileCohorts paths en = Some cs \<and>
     distinct (concat (map fc_Files cs)) \<and> set (concat (map fc_Files cs)) = set paths \<and>
     (\<forall>c\<in>set cs. fc_Files c \<noteq> [] \<and> sorted (fc_Files c) \<and> cohort_of en (fc_Files c) c) \<and>
     (\<forall>p\<in>set paths. \<forall>q\<in>set paths. same_cohort cs p q \<longleftrightarrow>
        linked (cohort_edges (sortedUniqueStrings paths) en) p q \<or>
        mechanical_component paths en p \<and> mechanical_component paths en q)"
  by (rule BuildFileCohorts_ok [OF assms])

definition sample_enrichment :: graph_enrichment where
  "sample_enrichment = \<lparr>ge_Clusters = [\<lparr>cl_Label = ''core'', cl_Lang = ''go'', cl_Files = [''a.go'', ''b.go'']\<rparr>],
     ge_Facts = Map.empty, ge_Omissions = []\<rparr>"

lemma BuildFileCohorts_partition_witness:
  "\<exists>cs. BuildFileCohorts [''b.go'', ''a.go'', ''c.go''] sample_enrichment = Some cs \<and>
     set (concat (map fc_Files cs)) = {''a.go'', ''b.go'', ''c.go''} \<and> same_cohort cs ''b.go'' ''a.go''"
proof -
  have "(''a.go'', ''b.go'') \<in> set (cohort_edges (sortedUniqueStrings [''b.go'', ''a.go'', ''c.go'']) sample_enrichment)"
    by (simp add: cohort_edges_def cluster_edges_def cluster_members_def sample_enrichment_def)
  then have linked: "linked (cohort_edges (sortedUniqueStrings [''b.go'', ''a.go'', ''c.go'']) sample_enrichment) ''b.go'' ''a.go''"
    unfolding linked_def link_def by (intro r_into_rtrancl) auto
  have a: "''b.go'' \<in> set [''b.go'', ''a.go'', ''c.go'']" "''a.go'' \<in> set [''b.go'', ''a.go'', ''c.go'']" by simp_all
  have "[] \<notin> set [''b.go'', ''a.go'', ''c.go'']" by simp
  from BuildFileCohorts_partition [OF this, of sample_enrichment] obtain cs where
    cs: "BuildFileCohorts [''b.go'', ''a.go'', ''c.go''] sample_enrichment = Some cs"
      "set (concat (map fc_Files cs)) = set [''b.go'', ''a.go'', ''c.go'']"
      "linked (cohort_edges (sortedUniqueStrings [''b.go'', ''a.go'', ''c.go'']) sample_enrichment) ''b.go'' ''a.go''
       \<longrightarrow> same_cohort cs ''b.go'' ''a.go''" using a by blast
  have "set [''b.go'', ''a.go'', ''c.go''] = {''a.go'', ''b.go'', ''c.go''}" by auto
  with cs linked show ?thesis by (metis (no_types, lifting))
qed

end
