(* ===== verification/Planner.thy ===== *)
theory Planner
  imports Pack Symbols Cohorts
begin

text \<open>
  \<open>Planner.Build\<close> of \<open>internal/review/plan.go\<close>: from a capture and a view of the indexed head to the
  plan.  The phases of the Go function are definitions of their own: the records, the layers, the
  identifiers, the units, the audits, the identity and the plan.  The graph, the source resolver and
  the parsers are parameters; a nil planner is the zero one.  Go iterates over the \<open>planned\<close> map where the
  order does not matter; here the entries are listed by path.
\<close>

section \<open>Errors and the identifier set\<close>

definition PlanErrorInvalidCapture :: string where "PlanErrorInvalidCapture = ''invalid_capture''"
definition PlanErrorCanceled :: string where "PlanErrorCanceled = ''canceled''"
definition PlanErrorIdentity :: string where "PlanErrorIdentity = ''identity''"
definition PlanErrorSource :: string where "PlanErrorSource = ''source''"
definition PlanErrorUnitSize :: string where "PlanErrorUnitSize = ''unit_size''"
definition PlanErrorInvariant :: string where "PlanErrorInvariant = ''invariant''"

definition PlanError :: "string \<Rightarrow> string \<Rightarrow> gerror \<Rightarrow> gerror" where
  "PlanError kind path e = (if path \<noteq> [] then Err ''review: plan %s for %s: %v'' [AStr kind, AStr path, AWrap e]
     else Err ''review: plan %s: %v'' [AStr kind, AWrap e])"

definition ErrIDCollision :: gerror where
  "ErrIDCollision = err ''review: public ID prefix collision with a different full digest''"

definition IDCollisionError :: "string \<Rightarrow> gerror" where
  "IDCollisionError public = Err ''%v: %s'' [AWrap ErrIDCollision, AStr public]"

record checked_ids =
  ck_byPublic :: "string \<rightharpoonup> stable_id"
  ck_probes :: "string \<rightharpoonup> stable_id"
  ck_probe :: "(stable_id \<Rightarrow> stable_id) option"

definition newCheckedIDSet :: "(stable_id \<Rightarrow> stable_id) option \<Rightarrow> checked_ids" where
  "newCheckedIDSet probe = \<lparr>ck_byPublic = Map.empty, ck_probes = Map.empty, ck_probe = probe\<rparr>"

definition clashes :: "(string \<rightharpoonup> stable_id) \<Rightarrow> stable_id \<Rightarrow> bool" where
  "clashes m i = (case m (Public i) of None \<Rightarrow> False | Some existing \<Rightarrow> Full existing \<noteq> Full i)"

definition put_new :: "(string \<rightharpoonup> stable_id) \<Rightarrow> stable_id \<Rightarrow> (string \<rightharpoonup> stable_id)" where
  "put_new m i = (if m (Public i) = None then m(Public i \<mapsto> i) else m)"

definition ids_insert :: "checked_ids \<Rightarrow> stable_id \<Rightarrow> checked_ids result" where
  "ids_insert s i = (let candidate = (case ck_probe s of None \<Rightarrow> i | Some probe \<Rightarrow> probe i) in
     if clashes (ck_byPublic s) i then Inl (IDCollisionError (Public i))
     else if clashes (ck_probes s) candidate then Inl (IDCollisionError (Public candidate))
     else Inr (s\<lparr>ck_byPublic := put_new (ck_byPublic s) i, ck_probes := put_new (ck_probes s) candidate\<rparr>))"

definition ids_lookup :: "checked_ids \<Rightarrow> string \<Rightarrow> stable_id result" where
  "ids_lookup s public = (case ck_byPublic s public of
       None \<Rightarrow> Inl (Err ''review: identity %s was not registered'' [AStr public])
     | Some i \<Rightarrow> Inr i)"

definition insert_id :: "string \<Rightarrow> checked_ids \<Rightarrow> stable_id \<Rightarrow> checked_ids result" where
  "insert_id path s i = wrapE (PlanError PlanErrorIdentity path) (ids_insert s i)"

definition insert_ids :: "string \<Rightarrow> checked_ids \<Rightarrow> stable_id list \<Rightarrow> checked_ids result" where
  "insert_ids path s is = foldE (insert_id path) s is"

section \<open>Inputs and state\<close>

record capture =
  cp_Scope :: scope
  cp_Paths :: "raw_path_record list"
  cp_RawAdditions :: int
  cp_RawDeletions :: int
  cp_RawChurn :: int
  cp_ReviewableChurn :: int
  cp_ChangedPaths :: int
  cp_CanonicalPatch :: digest

record evidence =
  ee_IndexSchema :: string
  ee_IndexVersion :: string
  ee_HeadIndexSignature :: bytes
  ee_TrustedLocal :: "digest list"
  ee_UntrustedPolicy :: "digest list"
  ee_ForceStructured :: bool

text \<open>\<open>Sources.Read\<close>: whether the path is present on the side, and its bytes.\<close>

record head_view =
  hv_Query :: graph_queries
  hv_Sources :: "(string \<Rightarrow> string \<Rightarrow> (bool \<times> bytes) result) option"

record planner =
  py_Graph :: "graph_queries option"
  py_SymbolMapper :: symbol_mapper
  py_ForceStructured :: bool
  py_PlannerVersion :: string
  py_MaxChangedLines :: int
  py_MaxMandatoryBytes :: int
  py_IDCollisionProbe :: "(stable_id \<Rightarrow> stable_id) option"

definition lineCap :: "planner \<Rightarrow> int" where
  "lineCap p = (if py_MaxChangedLines p > 0 then py_MaxChangedLines p else MaxUnitChangedLinesV1)"

definition mandatoryCap :: "planner \<Rightarrow> int" where
  "mandatoryCap p = (if py_MaxMandatoryBytes p > 0 then py_MaxMandatoryBytes p else MaxUnitMandatoryJSONBytesV1)"

definition planner_version :: "planner \<Rightarrow> string" where
  "planner_version p = (if py_PlannerVersion p \<noteq> [] then py_PlannerVersion p else ''1'')"

record planned_path =
  pq_record :: raw_path_record
  pq_path :: string
  pq_pathID :: stable_id
  pq_roles :: "string list"
  pq_class :: string
  pq_coverage :: string
  pq_reason :: string
  pq_mappings :: "hunk_mapping list"
  pq_groups :: "hunk_group list"
  pq_semantic :: "semantic_target list"
  pq_symbolOmissions :: "symbol_omission list"
  pq_hunkIDs :: "u64 \<rightharpoonup> stable_id"
  pq_reviewability :: "u64 \<rightharpoonup> string"
  pq_hunkReasons :: "u64 \<rightharpoonup> string"
  pq_signals :: "attention_signal list"

type_synonym planned = "string \<rightharpoonup> planned_path"

definition zero_id :: stable_id where "zero_id = \<lparr>Public = [], Full = 0\<rparr>"

text \<open>Lookups with Go's zero value for a missing key.\<close>

definition hunk_id_of :: "planned_path \<Rightarrow> raw_hunk \<Rightarrow> stable_id" where
  "hunk_id_of pp h = (case pq_hunkIDs pp (rh_Ordinal h) of None \<Rightarrow> zero_id | Some i \<Rightarrow> i)"

definition reviewability_of :: "planned_path \<Rightarrow> raw_hunk \<Rightarrow> string" where
  "reviewability_of pp h = (case pq_reviewability pp (rh_Ordinal h) of None \<Rightarrow> [] | Some s \<Rightarrow> s)"

definition hunk_reason_of :: "planned_path \<Rightarrow> raw_hunk \<Rightarrow> string" where
  "hunk_reason_of pp h = (case pq_hunkReasons pp (rh_Ordinal h) of None \<Rightarrow> [] | Some s \<Rightarrow> s)"

definition recordPath :: "raw_path_record \<Rightarrow> string" where
  "recordPath r = (if rp_NewPath r \<noteq> [] then rp_NewPath r else rp_OldPath r)"

section \<open>Checking the capture and reading the sources\<close>

fun paths_validate :: "string list \<Rightarrow> raw_path_record list \<Rightarrow> unit result" where
  "paths_validate seen [] = Inr ()"
| "paths_validate seen (r # rs) = (let p = recordPath r;
       key = rp_NewPath r @ [CHR 0x00] @ rp_OldPath r @ [CHR 0x00] @ rp_Status r in
     if p = [] then Inl (err ''capture path has no old or new name'')
     else if key \<in> set seen then Inl (Err ''duplicate canonical path record %q'' [AStr p])
     else paths_validate (key # seen) rs)"

definition validatePlannerCapture :: "capture \<Rightarrow> unit result" where
  "validatePlannerCapture c = allOf [
     scope_validate (cp_Scope c),
     failIf (cp_Paths c = []) (err ''capture has no changed paths''),
     failIf (int (length (cp_Paths c)) > MaxChangedPathsV1) (Err ''capture has %d changed paths'' [AInt (int (length (cp_Paths c)))]),
     paths_validate [] (cp_Paths c)]"

definition read_source :: "(string \<Rightarrow> string \<Rightarrow> (bool \<times> bytes) result) \<Rightarrow> string \<Rightarrow> string \<Rightarrow> bytes result" where
  "read_source read side path = (if path = [] then Inr []
     else bindE (wrapE (\<lambda>e. Err (''read '' @ side @ '' source: %w'') [AWrap e]) (read side path)) (\<lambda>(present, bs).
       if present then Inr bs else Inl (err (side @ '' source is absent''))))"

definition readPlanningSources :: "head_view option \<Rightarrow> raw_path_record \<Rightarrow> (bytes \<times> bytes) result" where
  "readPlanningSources view r = (case Option.bind view hv_Sources of
       None \<Rightarrow> Inl (err ''source resolver unavailable'')
     | Some read \<Rightarrow>
         bindE (read_source read SideBase (rp_OldPath r)) (\<lambda>base.
         bindE (read_source read SideHead (rp_NewPath r)) (\<lambda>head. Inr (base, head))))"

section \<open>Signals and reasons\<close>

fun dedupe_signals :: "attention_signal list \<Rightarrow> attention_signal list" where
  "dedupe_signals (a # b # ss) =
     (if as_ID a = as_ID b then dedupe_signals (a # ss) else a # dedupe_signals (b # ss))"
| "dedupe_signals ss = ss"

definition canonicalSignals :: "attention_signal list \<Rightarrow> attention_signal list" where
  "canonicalSignals ss = dedupe_signals (sort_key (\<lambda>s. (as_ID s, as_Kind s, as_Fact s)) ss)"

definition appendPlanReasons :: "string \<Rightarrow> string list \<Rightarrow> string" where
  "appendPlanReasons current added =
     join ''; '' (sortedUniqueStrings (added @ (if current \<noteq> [] then [current] else [])))"

definition omission_text :: "graph_omission \<Rightarrow> string" where
  "omission_text om = (if go_Path om = []
     then ''review: graph omission query='' @ go_Query om @ '' class='' @ go_ErrorClass om
     else ''review: graph omission query='' @ go_Query om @ '' path='' @ go_Path om @ '' class='' @ go_ErrorClass om)"

definition omission_signal :: "(bytes \<Rightarrow> digest) \<Rightarrow> graph_omission \<Rightarrow> attention_signal" where
  "omission_signal H om = newAttentionSignal H ''graph_omission'' (go_Path om) (omission_text om)"

text \<open>\<open>graphSignalsByPath\<close> and \<open>graphReasonsByPath\<close>: an omission without a path belongs to every path.\<close>

definition owned_omissions :: "graph_enrichment \<Rightarrow> string \<Rightarrow> graph_omission list" where
  "owned_omissions en path = filter (\<lambda>om. go_Path om = [] \<or> go_Path om = path) (ge_Omissions en)"

definition classifyPlanPath :: "raw_path_record \<Rightarrow> string list \<Rightarrow> string \<times> string \<times> string" where
  "classifyPlanPath r roles =
     (if rp_TextClass r \<noteq> TextClassText then (ReviewClassUnreviewable, PathCoverageNone, ''non-text content'')
      else let class = (if containsString roles RoleMechanical then ReviewClassMechanical else ReviewClassFull)
        in if rp_Hunks r = [] then (class, PathCoverageFull, ''no primary-owned text hunk'')
           else (class, PathCoverageFull, []))"

definition target_signal :: "semantic_target \<Rightarrow> (string \<Rightarrow> string \<Rightarrow> attention_signal) \<Rightarrow> attention_signal list" where
  "target_signal t add = (let f = sr_Kind (tg_Symbol t) @ '' '' @ sr_Name (tg_Symbol t) in
     if tg_Kind t = TargetRemovedSymbol then [add ''removed_symbol'' f]
     else if tg_Kind t = TargetChangedSignature then [add ''changed_signature'' f]
     else if tg_Kind t = TargetAddedFieldOption then [add ''added_field_option'' f] else [])"

definition hunk_signal :: "raw_hunk \<Rightarrow> (string \<Rightarrow> string \<Rightarrow> attention_signal) \<Rightarrow> attention_signal list" where
  "hunk_signal h add = (case hunkPayloadChurn (rh_Payload h) of (a, d) \<Rightarrow> let n = itoa (uint (rh_Ordinal h)) in
     onlyIf (d > 0 \<and> d \<ge> a * 2)
       (add ''deletion_heavy'' (''hunk '' @ n @ '' has '' @ itoa d @ '' deletions and '' @ itoa a @ '' additions'')) @
     onlyIf (a > 0 \<and> d > 0 \<and> min a d * 2 \<ge> max a d)
       (add ''replacement_heavy'' (''hunk '' @ n @ '' replaces '' @ itoa d @ ''/'' @ itoa a @ '' lines'')) @
     onlyIf (a + d > MaxUnitChangedLinesV1)
       (add ''large_rewrite'' (''hunk '' @ n @ '' changes '' @ itoa (a + d) @ '' raw lines'')))"

definition contentSignals ::
    "(bytes \<Rightarrow> digest) \<Rightarrow> string \<Rightarrow> semantic_target list \<Rightarrow> raw_hunk list \<Rightarrow> string \<Rightarrow> string \<Rightarrow> attention_signal list" where
  "contentSignals H path semantic hunks class reason = (let add = (\<lambda>kind f. newAttentionSignal H kind path f) in
     canonicalSignals (concat (map (\<lambda>t. target_signal t add) semantic) @ concat (map (\<lambda>h. hunk_signal h add) hunks) @
       onlyIf (class = ReviewClassUnreviewable) (add ''unreviewable_content'' reason)))"

definition symbol_omission_signal :: "(bytes \<Rightarrow> digest) \<Rightarrow> symbol_omission \<Rightarrow> attention_signal" where
  "symbol_omission_signal H om =
     newAttentionSignal H ''symbol_mapping_omission'' (so_Path om) (so_Class om @ '':'' @ so_Side om)"

section \<open>Planning one record\<close>

record build_state =
  bu_ids :: checked_ids
  bu_attention :: "attention_signal list"
  bu_planned :: planned

text \<open>The arguments of \<open>Build\<close> that stay fixed, with the scope whose digest is filled in.\<close>

record build_env =
  be_H :: "bytes \<Rightarrow> digest"
  be_planner :: planner
  be_view :: "head_view option"
  be_scope :: scope
  be_enrichment :: graph_enrichment

definition planned_of ::
    "build_env \<Rightarrow> raw_path_record \<Rightarrow> hunk_mapping list \<Rightarrow> symbol_omission list \<Rightarrow> semantic_target list \<Rightarrow> planned_path" where
  "planned_of en r mappings omissions semantic = (let
       H = be_H en; path = recordPath r; pathID = PathID H (sc_Digest (be_scope en)) r;
       facts = factsOf (be_enrichment en) path;
       roles = (if ff_Roles facts = [] then [RoleUnknown] else ff_Roles facts);
       (class, coverage, reason) = classifyPlanPath r roles;
       owned = owned_omissions (be_enrichment en) path;
       reason = appendPlanReasons reason (map omission_text owned);
       content = contentSignals H path semantic (rp_Hunks r) class reason;
       symbolSignals = map (symbol_omission_signal H) omissions;
       signals = canonicalSignals (ff_Signals facts @ map (omission_signal H) owned @ content @ symbolSignals)
     in \<lparr>pq_record = r, pq_path = path, pq_pathID = pathID, pq_roles = roles, pq_class = class, pq_coverage = coverage,
         pq_reason = foldl (\<lambda>reason s. appendPlanReasons reason [as_Fact s]) reason symbolSignals,
         pq_mappings = mappings, pq_groups = GroupHunkMappings mappings, pq_semantic = semantic,
         pq_symbolOmissions = omissions,
         pq_hunkIDs = map_of (rev (map (\<lambda>h. (rh_Ordinal h, HunkID H (sc_Digest (be_scope en)) (Full pathID) h)) (rp_Hunks r))),
         pq_reviewability = map_of (map (\<lambda>h. (rh_Ordinal h, HunkReviewable)) (rp_Hunks r)),
         pq_hunkReasons = Map.empty, pq_signals = signals\<rparr>)"

definition plan_record :: "build_env \<Rightarrow> build_state \<Rightarrow> raw_path_record \<Rightarrow> build_state result" where
  "plan_record en st r = (let
       H = be_H en; path = recordPath r; pathID = PathID H (sc_Digest (be_scope en)) r;
       hunkIDs = map (HunkID H (sc_Digest (be_scope en)) (Full pathID)) (rp_Hunks r)
     in bindE (insert_ids path (bu_ids st) (pathID # hunkIDs)) (\<lambda>ids.
        bindE (if rp_TextClass r = TextClassText \<and> rp_Hunks r \<noteq> []
               then wrapE (PlanError PlanErrorSource path) (readPlanningSources (be_view en) r)
               else Inr ([], [])) (\<lambda>(base, head).
        let (mappings, omissions) = SymbolMapper_Map (py_SymbolMapper (be_planner en)) r base head;
            semantic = semanticTargets H pathID mappings
        in bindE (insert_ids path ids (map tg_ID semantic)) (\<lambda>ids.
           let pp = planned_of en r mappings omissions semantic
           in Inr \<lparr>bu_ids = ids, bu_attention = bu_attention st @ pq_signals pp,
                   bu_planned = (bu_planned st)(path \<mapsto> pp)\<rparr>))))"

section \<open>Packing the layers\<close>

definition pack_items_of :: "planned_path \<Rightarrow> pack_hunk list" where
  "pack_items_of pp = concat (map (\<lambda>g. map (\<lambda>h.
       \<lparr>ph_Path = pq_record pp, ph_PathID = Public (pq_pathID pp), ph_Hunk = h, ph_HunkID = hunk_id_of pp h,
        ph_GroupKey = Public (pq_pathID pp) @ '':'' @ itoa (uint (rh_Ordinal (hd (hg_Hunks g)))),
        ph_Signals = map as_ID (pq_signals pp)\<rparr>) (hg_Hunks g)) (pq_groups pp))"

text \<open>Every path of a layer is planned; the missing case would be Go's nil entry.\<close>

definition partitionPackHunks :: "string list \<Rightarrow> planned \<Rightarrow> pack_hunk list" where
  "partitionPackHunks paths planned =
     sort_key (\<lambda>i. (recordPath (ph_Path i), rh_OldStart (ph_Hunk i), rh_NewStart (ph_Hunk i), rh_Ordinal (ph_Hunk i),
         Public (ph_HunkID i)))
       (concat (map (\<lambda>p. case planned p of None \<Rightarrow> [] | Some pp \<Rightarrow> pack_items_of pp) paths))"

definition large_signal :: "build_env \<Rightarrow> planned_path \<Rightarrow> raw_hunk \<Rightarrow> attention_signal" where
  "large_signal en pp h = newAttentionSignal (be_H en) ''unreviewable_large_text'' (pq_path pp)
     (''hunk '' @ itoa (uint (rh_Ordinal h)) @ '' mandatory JSON exceeds '' @ itoa (mandatoryCap (be_planner en)) @ '' bytes'')"

definition mark_large :: "build_env \<Rightarrow> pack_hunk \<Rightarrow> build_state \<Rightarrow> build_state" where
  "mark_large en item st = (let path = recordPath (ph_Path item); h = ph_Hunk item in
     case bu_planned st path of
       None \<Rightarrow> st
     | Some pp \<Rightarrow> let signal = large_signal en pp h; pp = pp\<lparr>
           pq_reviewability := (pq_reviewability pp)(rh_Ordinal h \<mapsto> HunkUnreviewableLargeText),
           pq_hunkReasons := (pq_hunkReasons pp)(rh_Ordinal h \<mapsto> HunkUnreviewableLargeText),
           pq_signals := canonicalSignals (pq_signals pp @ [signal])\<rparr>
         in st\<lparr>bu_attention := bu_attention st @ [signal], bu_planned := (bu_planned st)(path \<mapsto> pp)\<rparr>)"

definition layer_partition :: "build_env \<Rightarrow> partition" where
  "layer_partition en = \<lparr>pt_Scope = be_scope en, pt_DefaultPathID = [], pt_CohortID = placeholderID ''c_'' 32,
     pt_LayerID = placeholderID ''l_'' 32, pt_LineCap = lineCap (be_planner en),
     pt_MandatoryCap = mandatoryCap (be_planner en)\<rparr>"

text \<open>A fold that collects a result per element.\<close>

fun mapS :: "('s \<Rightarrow> 'a \<Rightarrow> ('s \<times> 'b) result) \<Rightarrow> 's \<Rightarrow> 'a list \<Rightarrow> ('s \<times> 'b list) result" where
  "mapS f s [] = Inr (s, [])"
| "mapS f s (x # xs) = bindE (f s x) (\<lambda>(s, y). bindE (mapS f s xs) (\<lambda>(s, ys). Inr (s, y # ys)))"

definition pack_layer :: "build_env \<Rightarrow> build_state \<Rightarrow> file_layer \<Rightarrow> (build_state \<times> packed_unit list) result" where
  "pack_layer en st layer = (let items = partitionPackHunks (fl_Paths layer) (bu_planned st) in
     bindE (wrapE (PlanError PlanErrorUnitSize []) (PackReviewPartition (be_H en) (layer_partition en) items)) (\<lambda>(packed, large).
       let owned = map Public (concat (map pu_HunkIDs packed));
           missed = filter (\<lambda>i. Public (ph_HunkID i) \<notin> set owned) items
       in if length missed \<noteq> length large
          then Inl (PlanError PlanErrorInvariant [] (err ''large hunk ownership count mismatch''))
          else Inr (fold (mark_large en) missed st, packed)))"

definition pack_cohort :: "build_env \<Rightarrow> build_state \<Rightarrow> file_cohort \<Rightarrow> (build_state \<times> packed_unit list list) result" where
  "pack_cohort en st c = mapS (pack_layer en) st (fc_Layers c)"

section \<open>Cohort and layer identifiers\<close>

record packed_layer =
  pkl_Layer :: file_layer
  pkl_Units :: "packed_unit list"
  pkl_ID :: stable_id

record packed_cohort =
  pkc_Cohort :: file_cohort
  pkc_ID :: stable_id
  pkc_Layers :: "packed_layer list"

definition identify_cohort ::
    "build_env \<Rightarrow> checked_ids \<Rightarrow> file_cohort \<times> packed_unit list list \<Rightarrow> (checked_ids \<times> packed_cohort) result" where
  "identify_cohort en ids cu = (case cu of (cohort, units) \<Rightarrow> let
       unitIDs = map pu_UnitStable (concat units);
       cid = CohortID (be_H en) (sc_Digest (be_scope en)) (fc_Key cohort) unitIDs;
       layers = map (\<lambda>(l, us). \<lparr>pkl_Layer = l, pkl_Units = us,
         pkl_ID = LayerID (be_H en) cid (of_nat (fl_Ordinal l)) (map pu_UnitStable us)\<rparr>) (zip (fc_Layers cohort) units)
     in bindE (insert_ids [] ids (unitIDs @ [cid] @ map pkl_ID layers)) (\<lambda>ids.
        Inr (ids, \<lparr>pkc_Cohort = cohort, pkc_ID = cid, pkc_Layers = layers\<rparr>)))"

section \<open>Final units\<close>

definition planned_list :: "string list \<Rightarrow> planned \<Rightarrow> planned_path list" where
  "planned_list paths planned = List.map_filter planned (sortedUniqueStrings paths)"

definition signalIDsForPaths :: "planned_path list \<Rightarrow> string list \<Rightarrow> string list" where
  "signalIDsForPaths pps pathIDs =
     sortedUniqueStrings (concat (map (\<lambda>pp. map as_ID (pq_signals pp)) (filter (\<lambda>pp. Public (pq_pathID pp) \<in> set pathIDs) pps)))"

definition place_unit :: "planned_path list \<Rightarrow> stable_id \<Rightarrow> stable_id \<Rightarrow> packed_unit \<Rightarrow> packed_unit" where
  "place_unit pps cid lid u = u\<lparr>
     pu_Unit := (pu_Unit u)\<lparr>ru_CohortID := Public cid, ru_LayerID := Public lid\<rparr>,
     pu_SignalIDs := sortedUniqueStrings (pu_SignalIDs u @ signalIDsForPaths pps (pu_PathIDs u))\<rparr>"

definition placed_units :: "planned_path list \<Rightarrow> packed_cohort list \<Rightarrow> packed_unit list" where
  "placed_units pps pcs = concat (map (\<lambda>c. concat (map (\<lambda>l.
     map (place_unit pps (pkc_ID c) (pkl_ID l)) (pkl_Units l)) (pkc_Layers c))) pcs)"

section \<open>Coverage\<close>

definition update_coverage :: "planned_path \<Rightarrow> planned_path" where
  "update_coverage pp = (let r = pq_record pp in
     if rp_TextClass r \<noteq> TextClassText \<or> rp_Hunks r = [] then pp
     else if list_ex (\<lambda>h. reviewability_of pp h = HunkUnreviewableLargeText) (rp_Hunks r)
     then pp\<lparr>pq_coverage := PathCoveragePartial, pq_reason := HunkUnreviewableLargeText\<rparr>
     else pp\<lparr>pq_coverage := PathCoverageFull\<rparr>)"

definition hunk_churn :: "raw_hunk \<Rightarrow> int" where
  "hunk_churn h = (case hunkPayloadChurn (rh_Payload h) of (a, d) \<Rightarrow> a + d)"

definition reviewableChurn :: "planned_path list \<Rightarrow> int" where
  "reviewableChurn pps = sum_list (map (\<lambda>pp. sum_list (map hunk_churn
     (filter (\<lambda>h. reviewability_of pp h = HunkReviewable) (rp_Hunks (pq_record pp))))) pps)"

section \<open>Audits\<close>

definition unitNeedsTestAudit :: "string list \<Rightarrow> bool" where
  "unitNeedsTestAudit roles = (if containsString roles RoleTest \<or> containsString roles RoleMechanical then False
     else list_ex (containsString roles) [RoleImplementation, RoleContract, RoleOperations, RoleConsumer])"

definition audit_entries :: "planned_path \<Rightarrow> (string \<times> string) list" where
  "audit_entries pp = (let hunks = rp_Hunks (pq_record pp) in
     concat (map (\<lambda>h. let i = Public (hunk_id_of pp h) in
       onlyIf (snd (hunkPayloadChurn (rh_Payload h)) > 0) (AuditRemovedBehaviorV1, i) @
       onlyIf (reviewability_of pp h = HunkUnreviewableLargeText) (AuditIntegrationGapV1, i)) hunks) @
     concat (map (\<lambda>t. let i = Public (tg_ID t) in
       if tg_Kind t = TargetRemovedSymbol then [(AuditRemovedBehaviorV1, i), (AuditContractMigrationV1, i)]
       else if tg_Kind t = TargetChangedSignature \<or> tg_Kind t = TargetAddedFieldOption then [(AuditContractMigrationV1, i)]
       else []) (pq_semantic pp)) @
     onlyIf (pq_class pp = ReviewClassMechanical \<or> pq_class pp = ReviewClassUnreviewable \<or>
             \<not> list_ex (\<lambda>h. reviewability_of pp h = HunkReviewable) hunks)
       (AuditIntegrationGapV1, Public (pq_pathID pp)))"

definition needs_test_matrix :: "planned_path list \<Rightarrow> packed_unit \<Rightarrow> bool" where
  "needs_test_matrix pps u =
     list_ex (\<lambda>pathID. list_ex (\<lambda>pp. Public (pq_pathID pp) = pathID \<and> unitNeedsTestAudit (pq_roles pp)) pps) (pu_PathIDs u)"

definition buildAudits :: "string \<Rightarrow> stable_id list \<Rightarrow> planned_path list \<Rightarrow> packed_unit list \<Rightarrow> plan_audit list" where
  "buildAudits mode cohortIDs pps units = (if mode \<noteq> ModeStructured then []
     else let entries = concat (map audit_entries pps) @
            map (\<lambda>c. (AuditIntegrationGapV1, Public c)) cohortIDs @
            map (\<lambda>u. (AuditTestMatrixV1, Public (pu_UnitStable u))) (filter (needs_test_matrix pps) units)
       in map (\<lambda>aid. \<lparr>pa_AuditID = aid, pa_TargetIDs = sortedUniqueStrings (map snd (filter (\<lambda>e. fst e = aid) entries))\<rparr>)
            RequiredAuditsV1)"

section \<open>The plan identity\<close>

definition record_hunk_entries :: "planned \<Rightarrow> raw_path_record \<Rightarrow> plan_hunk_entry list" where
  "record_hunk_entries planned r = (case planned (recordPath r) of None \<Rightarrow> [] | Some pp \<Rightarrow>
     map (\<lambda>h. \<lparr>phe_HunkID = hunk_id_of pp h, phe_Reviewability = reviewability_of pp h, phe_Reason = hunk_reason_of pp h\<rparr>)
       (rp_Hunks r))"

definition record_path_entries :: "planned \<Rightarrow> raw_path_record \<Rightarrow> plan_path_entry list" where
  "record_path_entries planned r = (case planned (recordPath r) of None \<Rightarrow> [] | Some pp \<Rightarrow>
     [\<lparr>ppe_PathID = pq_pathID pp, ppe_ReviewClass = pq_class pp, ppe_Coverage = pq_coverage pp, ppe_Reason = pq_reason pp,
       ppe_RoleIDs = pq_roles pp\<rparr>])"

definition layer_entry :: "packed_unit list \<Rightarrow> packed_cohort \<Rightarrow> packed_layer \<Rightarrow> plan_cohort_entry" where
  "layer_entry units c l = \<lparr>pce_CohortID = pkc_ID c, pce_LayerID = pkl_ID l,
     pce_UnitIDs = map pu_UnitStable (filter (\<lambda>u. ru_CohortID (pu_Unit u) = Public (pkc_ID c) \<and>
       ru_LayerID (pu_Unit u) = Public (pkl_ID l)) units)\<rparr>"

definition buildPlanIdentity ::
    "build_env \<Rightarrow> evidence \<Rightarrow> raw_path_record list \<Rightarrow> planned \<Rightarrow> packed_unit list \<Rightarrow> packed_cohort list \<Rightarrow> plan_audit list \<Rightarrow>
     checked_ids \<Rightarrow> plan_identity result" where
  "buildPlanIdentity en ev records planned units pcs audits ids =
     bindE (mapE (\<lambda>a. bindE (mapE (ids_lookup ids) (pa_TargetIDs a)) (\<lambda>ts.
         Inr \<lparr>pae_AuditID = pa_AuditID a, pae_TargetIDs = ts\<rparr>)) audits) (\<lambda>auditEntries.
     Inr \<lparr>pi_PlannerVersion = planner_version (be_planner en), pi_ScopeDigest = sc_Digest (be_scope en),
       pi_IndexSchema = (if ee_IndexSchema ev \<noteq> [] then ee_IndexSchema ev else ''index.v1''),
       pi_IndexVersion = (if ee_IndexVersion ev \<noteq> [] then ee_IndexVersion ev else ''unknown''),
       pi_HeadIndexSignature = ee_HeadIndexSignature ev,
       pi_Paths = concat (map (record_path_entries planned) records),
       pi_Hunks = concat (map (record_hunk_entries planned) records),
       pi_Units = map (\<lambda>u. \<lparr>pue_UnitID = pu_UnitStable u, pue_Kind = pu_Kind u, pue_HunkIDs = pu_HunkIDs u,
         pue_AttentionSignalIDs = pu_SignalIDs u\<rparr>) units,
       pi_Cohorts = concat (map (\<lambda>c. map (layer_entry units c) (pkc_Layers c)) pcs),
       pi_Audits = auditEntries,
       pi_TrustedEvidence = ee_TrustedLocal ev, pi_UntrustedEvidence = ee_UntrustedPolicy ev,
       pi_Constants = \<lparr>pc_StructuredThreshold = word_of_int StructuredThresholdV1,
         pc_UnitLineCap = word_of_int (lineCap (be_planner en)), pc_MandatoryJSONCap = word_of_int (mandatoryCap (be_planner en)),
         pc_TextClassifierVersion = ''text.v1'', pc_ContextRankerVersion = ''rank.v1''\<rparr>\<rparr>)"

section \<open>The plan\<close>

definition materializePlanCohorts :: "packed_cohort list \<Rightarrow> plan_cohort list" where
  "materializePlanCohorts pcs = map (\<lambda>c. \<lparr>pc_CohortID = Public (pkc_ID c), pc_Label = fc_Label (pkc_Cohort c),
     pc_Layers = map (\<lambda>l. \<lparr>pl_LayerID = Public (pkl_ID l), pl_Ordinal = int (fl_Ordinal (pkl_Layer l)),
       pl_UnitIDs = map (\<lambda>u. Public (pu_UnitStable u)) (pkl_Units l)\<rparr>) (pkc_Layers c),
     pc_UnitIDs = concat (map (\<lambda>l. map (\<lambda>u. Public (pu_UnitStable u)) (pkl_Units l)) (pkc_Layers c))\<rparr>) pcs"

definition plan_path_of :: "planned \<Rightarrow> raw_path_record \<Rightarrow> plan_path list" where
  "plan_path_of planned r = (case planned (recordPath r) of None \<Rightarrow> [] | Some pp \<Rightarrow>
     [\<lparr>pp_PathID = Public (pq_pathID pp), pp_OldPath = rp_OldPath r, pp_NewPath = rp_NewPath r, pp_Status = rp_Status r,
       pp_ReviewClass = pq_class pp, pp_Coverage = pq_coverage pp, pp_Roles = pq_roles pp, pp_Reason = pq_reason pp\<rparr>])"

definition nextCommands :: "string \<Rightarrow> string \<Rightarrow> review_unit list \<Rightarrow> next_command list" where
  "nextCommands reviewID mode units = (let
       commands = map (\<lambda>u. \<lparr>nc_Label = ''review unit '' @ ru_UnitID u,
           nc_Command = ''prowl-agent review unit '' @ reviewID @ ''/'' @ ru_UnitID u\<rparr>) units @
         onlyIf (mode = ModeStructured) \<lparr>nc_Label = ''check review'',
           nc_Command = ''prowl-agent review check --review '' @ reviewID @ '' --report review-results.json''\<rparr>
     in if commands = [] then [\<lparr>nc_Label = ''inspect review gaps'', nc_Command = ''prowl-agent review plan''\<rparr>] else commands)"

text \<open>The final identifier of the review goes into every unit; its size must not change.\<close>

definition seal_unit :: "int \<Rightarrow> string \<Rightarrow> packed_unit \<Rightarrow> packed_unit result" where
  "seal_unit cap reviewID u = (let size_before = length (CanonicalMandatoryJSON (pu_Unit u));
       sealed = (pu_Unit u)\<lparr>ru_ReviewID := reviewID\<rparr>; size_after = length (CanonicalMandatoryJSON sealed) in
     if size_before \<noteq> size_after then Inl (PlanError PlanErrorInvariant [] (err ''fixed-length ID substitution changed mandatory JSON size''))
     else if int size_after > cap then Inl (PlanError PlanErrorUnitSize [] (Err ''final mandatory JSON is %d bytes'' [AInt (int size_after)]))
     else Inr (u\<lparr>pu_Unit := sealed\<rparr>))"

definition finish_plan ::
    "build_env \<Rightarrow> capture \<Rightarrow> evidence \<Rightarrow> raw_path_record list \<Rightarrow> build_state \<Rightarrow> packed_cohort list \<Rightarrow> plan result" where
  "finish_plan en cp ev records st pcs = (let
       paths = map recordPath records;
       units = placed_units (planned_list paths (bu_planned st)) pcs;
       planned = map_option update_coverage \<circ> bu_planned st;
       pps = planned_list paths planned;
       (mode, required) = ModeForChurn (cp_RawChurn cp) (py_ForceStructured (be_planner en) \<or> ee_ForceStructured ev);
       audits = buildAudits mode (map pkc_ID pcs) pps units
     in bindE (wrapE (PlanError PlanErrorIdentity []) (buildPlanIdentity en ev records planned units pcs audits (bu_ids st))) (\<lambda>identity.
        let reviewID = ReviewID (be_H en) identity in
        bindE (insert_id [] (bu_ids st) reviewID) (\<lambda>_.
        bindE (mapE (seal_unit (mandatoryCap (be_planner en)) (Public reviewID)) units) (\<lambda>sealed.
        let primary = map pu_Unit sealed;
            plan = \<lparr>pn_Schema = PlanSchemaV1, pn_ReviewID = Public reviewID,
              pn_PlanDigest = hex_encode (digest_bytes (ReviewPlanDigest (be_H en) identity)),
              pn_Mode = mode, pn_StructuredRequired = required, pn_Scope = be_scope en,
              pn_Stats = \<lparr>ps_RawAdditions = cp_RawAdditions cp, ps_RawDeletions = cp_RawDeletions cp, ps_RawChurn = cp_RawChurn cp,
                ps_ReviewableChurn = reviewableChurn pps, ps_ChangedPaths = int (length records)\<rparr>,
              pn_ChangedPaths = concat (map (plan_path_of planned) records),
              pn_AttentionSignals = canonicalSignals (bu_attention st),
              pn_Cohorts = (if mode = ModeStructured then materializePlanCohorts pcs else []),
              pn_PrimaryUnits = primary,
              pn_RequiredAudits = (if mode = ModeStructured then audits else []),
              pn_NextCommands = nextCommands (Public reviewID) mode primary\<rparr>
        in bindE (wrapE (PlanError PlanErrorInvariant []) (Plan_validate plan)) (\<lambda>_. Inr plan)))))"

section \<open>Build\<close>

definition build_environment ::
    "(bytes \<Rightarrow> digest) \<Rightarrow> (nat \<Rightarrow> gerror option) \<Rightarrow> planner \<Rightarrow> head_view option \<Rightarrow> capture \<Rightarrow> string list \<Rightarrow> build_env" where
  "build_environment H poll p view cp paths = (let
       scope = cp_Scope cp;
       scope = (if sc_Digest scope = 0
         then scope\<lparr>sc_Digest := ScopeDigest H (sc_ObjectFormat scope) (sc_Base scope) (sc_Head scope) (sc_Kind scope) (cp_CanonicalPatch cp)\<rparr>
         else scope);
       graph = (case py_Graph p of Some g \<Rightarrow> Some g | None \<Rightarrow> map_option hv_Query view)
     in \<lparr>be_H = H, be_planner = p, be_view = view, be_scope = scope,
         be_enrichment = EnrichGraph H (\<lambda>n. poll (Suc n)) paths graph\<rparr>)"

definition planner_cohorts :: "build_env \<Rightarrow> string list \<Rightarrow> file_cohort list" where
  "planner_cohorts en paths = (case BuildFileCohorts paths (be_enrichment en) of None \<Rightarrow> [] | Some cs \<Rightarrow> cs)"

definition Build ::
    "(bytes \<Rightarrow> digest) \<Rightarrow> (nat \<Rightarrow> gerror option) \<Rightarrow> planner \<Rightarrow> capture \<Rightarrow> head_view option \<Rightarrow> evidence \<Rightarrow> plan result" where
  "Build H poll p cp view ev = (case poll 0 of
       Some e \<Rightarrow> Inl (PlanError PlanErrorCanceled [] e)
     | None \<Rightarrow>
       bindE (wrapE (PlanError PlanErrorInvalidCapture []) (validatePlannerCapture cp)) (\<lambda>_. let
         records = sortedPathRecords (cp_Paths cp);
         paths = map recordPath records;
         en = build_environment H poll p view cp paths;
         cohorts = planner_cohorts en paths;
         st = \<lparr>bu_ids = newCheckedIDSet (py_IDCollisionProbe p),
               bu_attention = map (omission_signal H) (ge_Omissions (be_enrichment en)), bu_planned = Map.empty\<rparr>
       in bindE (foldE (plan_record en) st records) (\<lambda>st.
          bindE (mapS (pack_cohort en) st cohorts) (\<lambda>(st, units).
          bindE (mapS (identify_cohort en) (bu_ids st) (zip cohorts units)) (\<lambda>(ids, pcs).
            finish_plan en cp ev records (st\<lparr>bu_ids := ids\<rparr>) pcs)))))"

end
