(* ===== verification/Ownership.thy ===== *)
theory Ownership
  imports Planner
begin

text \<open>
  What \<open>Planner.Build\<close> guarantees about the hunks of a capture: each is owned by exactly one primary
  unit unless it is too large for one, and the reviewability, the coverage and the statistics of the
  plan say which.  The proof follows the phases of \<open>Planner\<close>: the records, the layers, the units.
\<close>

section \<open>The packing of one hunk\<close>

definition hunk_of_plan :: "build_env \<Rightarrow> raw_path_record \<Rightarrow> raw_hunk \<Rightarrow> stable_id" where
  "hunk_of_plan en r h = HunkID (be_H en) (sc_Digest (be_scope en)) (Full (PathID (be_H en) (sc_Digest (be_scope en)) r)) h"

definition plain_item :: "build_env \<Rightarrow> raw_path_record \<Rightarrow> raw_hunk \<Rightarrow> pack_hunk" where
  "plain_item en r h = \<lparr>ph_Path = r, ph_PathID = Public (PathID (be_H en) (sc_Digest (be_scope en)) r), ph_Hunk = h,
     ph_HunkID = hunk_of_plan en r h, ph_GroupKey = [], ph_Signals = []\<rparr>"

text \<open>A hunk can be reviewed when its unit alone fits the byte cap.\<close>

definition fits :: "build_env \<Rightarrow> raw_path_record \<Rightarrow> raw_hunk \<Rightarrow> bool" where
  "fits en r h = unit_fits (be_H en) (layer_partition en) [plain_item en r h]"

definition item_core :: "pack_hunk \<Rightarrow> raw_path_record \<times> string \<times> raw_hunk \<times> stable_id" where
  "item_core i = (ph_Path i, ph_PathID i, ph_Hunk i, ph_HunkID i)"

lemma unit_fits_core:
  assumes "item_core i = item_core j"
  shows "unit_fits H pt [i] = unit_fits H pt [j]"
proof -
  have "pack_hunk_id H d i = pack_hunk_id H d j" "pack_unit_hunk H d i = pack_unit_hunk H d j" for d
    using assms by (simp_all add: item_core_def pack_hunk_id_def pack_unit_hunk_def pack_path_id_def)
  then have "pu_Unit (makePackedUnit H pt UnitKindNormal [i]) = pu_Unit (makePackedUnit H pt UnitKindNormal [j])"
    by (simp add: makePackedUnit_def Let_def)
  then show ?thesis by (simp add: unit_fits_def)
qed

lemma HunkID_public_ne [simp]: "Public (HunkID H s p h) \<noteq> []"
  by (simp add: HunkID_def)

lemma hunk_of_plan_ne [simp]: "Public (hunk_of_plan en r h) \<noteq> []"
  by (simp add: hunk_of_plan_def)

section \<open>Planning the records\<close>

text \<open>What is known of the entry of a record once it is planned, whatever is marked later.\<close>

definition planned_ok :: "build_env \<Rightarrow> raw_path_record \<Rightarrow> planned_path \<Rightarrow> bool" where
  "planned_ok en r pp \<longleftrightarrow> pq_record pp = r \<and> pq_path pp = recordPath r \<and>
     pq_pathID pp = PathID (be_H en) (sc_Digest (be_scope en)) r \<and>
     concat (map hg_Hunks (pq_groups pp)) = rp_Hunks r \<and>
     (\<forall>h\<in>set (rp_Hunks r). hunk_id_of pp h = hunk_of_plan en r h)"

definition marked_as :: "build_env \<Rightarrow> bool \<Rightarrow> raw_path_record \<Rightarrow> planned_path \<Rightarrow> bool" where
  "marked_as en packed r pp \<longleftrightarrow> (\<forall>h\<in>set (rp_Hunks r).
     reviewability_of pp h = (if packed \<and> \<not> fits en r h then HunkUnreviewableLargeText else HunkReviewable))"

lemma map_hunks: "map hm_Hunk (fst (SymbolMapper_Map m r base head)) = rp_Hunks r"
proof -
  have "hm_Hunk (map_hunk b h hunk) = hunk" for b h hunk
    using map_hunk_ok [of b h hunk] by (simp add: mapping_ok_def split: prod.splits)
  then show ?thesis by (simp add: SymbolMapper_Map_def Let_def comp_def)
qed

lemma ordinals_lookup:
  "distinct (map rh_Ordinal hs) \<Longrightarrow> h \<in> set hs \<Longrightarrow> map_of (rev (map (\<lambda>h. (rh_Ordinal h, f h)) hs)) (rh_Ordinal h) = Some (f h)"
  by (intro map_of_is_SomeI) (auto simp: rev_map [symmetric] comp_def)

lemma constant_lookup: "h \<in> set hs \<Longrightarrow> map_of (map (\<lambda>h. (rh_Ordinal h, c)) hs) (rh_Ordinal h) = Some c"
  by (induction hs) auto

lemma planned_of_ok:
  assumes "distinct (map rh_Ordinal (rp_Hunks r))" "map hm_Hunk ms = rp_Hunks r"
  shows "planned_ok en r (planned_of en r ms oms sem)" "marked_as en False r (planned_of en r ms oms sem)"
proof -
  obtain c cov re where cl: "classifyPlanPath r (if ff_Roles (factsOf (be_enrichment en) (recordPath r)) = [] then [RoleUnknown]
      else ff_Roles (factsOf (be_enrichment en) (recordPath r))) = (c, cov, re)" by (cases "classifyPlanPath r (if ff_Roles (factsOf (be_enrichment en) (recordPath r)) = [] then [RoleUnknown]
      else ff_Roles (factsOf (be_enrichment en) (recordPath r)))")
  let ?pp = "planned_of en r ms oms sem"
  have pp: "pq_record ?pp = r" "pq_path ?pp = recordPath r" "pq_pathID ?pp = PathID (be_H en) (sc_Digest (be_scope en)) r"
    "pq_groups ?pp = GroupHunkMappings ms"
    "pq_hunkIDs ?pp = map_of (rev (map (\<lambda>h. (rh_Ordinal h, hunk_of_plan en r h)) (rp_Hunks r)))"
    "pq_reviewability ?pp = map_of (map (\<lambda>h. (rh_Ordinal h, HunkReviewable)) (rp_Hunks r))"
    unfolding planned_of_def Let_def cl by (simp_all add: hunk_of_plan_def)
  have "concat (map hg_Hunks (GroupHunkMappings ms)) = rp_Hunks r"
    using GroupHunkMappings_hunks assms(2) by metis
  then show "planned_ok en r ?pp" "marked_as en False r ?pp"
    using ordinals_lookup [OF assms(1), of _ "hunk_of_plan en r"] constant_lookup [of _ "rp_Hunks r" HunkReviewable]
    by (simp_all add: planned_ok_def marked_as_def pp hunk_id_of_def reviewability_of_def)
qed

text \<open>The state between two layers: the layers of the paths \<open>D\<close> are packed.\<close>

definition build_inv :: "build_env \<Rightarrow> raw_path_record list \<Rightarrow> string set \<Rightarrow> planned \<Rightarrow> bool" where
  "build_inv en records D planned \<longleftrightarrow> (\<forall>r\<in>set records. \<exists>pp. planned (recordPath r) = Some pp \<and>
     planned_ok en r pp \<and> marked_as en (recordPath r \<in> D) r pp)"

lemma plan_record_ok:
  assumes "plan_record en st r = Inr st'" "distinct (map rh_Ordinal (rp_Hunks r))"
  shows "\<exists>pp. bu_planned st' = (bu_planned st)(recordPath r \<mapsto> pp) \<and> planned_ok en r pp \<and> marked_as en False r pp"
proof -
  from assms(1) obtain base head where "bu_planned st' = (bu_planned st)(recordPath r \<mapsto>
      (case SymbolMapper_Map (py_SymbolMapper (be_planner en)) r base head of (ms, oms) \<Rightarrow>
         planned_of en r ms oms (semanticTargets (be_H en) (PathID (be_H en) (sc_Digest (be_scope en)) r) ms)))"
    by (auto simp: plan_record_def Let_def case_prod_unfold)
  then show ?thesis unfolding case_prod_unfold using planned_of_ok [OF assms(2) map_hunks, of en] by blast
qed

lemma plan_records_inv:
  "foldE (plan_record en) st rs = Inr st' \<Longrightarrow> build_inv en done {} (bu_planned st) \<Longrightarrow>
   distinct (map recordPath (done @ rs)) \<Longrightarrow> \<forall>r\<in>set rs. distinct (map rh_Ordinal (rp_Hunks r)) \<Longrightarrow>
   build_inv en (done @ rs) {} (bu_planned st')"
proof (induction rs arbitrary: st "done")
  case (Cons r rs)
  from Cons.prems(1) obtain st1 where st1: "plan_record en st r = Inr st1" "foldE (plan_record en) st1 rs = Inr st'"
    by auto
  from plan_record_ok [OF st1(1)] Cons.prems(4) obtain pp where
    pp: "bu_planned st1 = (bu_planned st)(recordPath r \<mapsto> pp)" "planned_ok en r pp" "marked_as en False r pp" by auto
  have "build_inv en (done @ [r]) {} (bu_planned st1)" unfolding build_inv_def
  proof
    fix q assume "q \<in> set (done @ [r])"
    then consider "q = r" | "q \<in> set done" "recordPath q \<noteq> recordPath r" using Cons.prems(3) by (auto simp: image_iff)
    then show "\<exists>pp. bu_planned st1 (recordPath q) = Some pp \<and> planned_ok en q pp \<and> marked_as en (recordPath q \<in> {}) q pp"
      using pp Cons.prems(2) by cases (auto simp: build_inv_def)
  qed
  from Cons.IH [OF st1(2) this] Cons.prems(3,4) show ?case by simp
qed simp

section \<open>Packing one layer\<close>

definition layer_items :: "build_env \<Rightarrow> (string \<Rightarrow> raw_path_record) \<Rightarrow> string list \<Rightarrow> pack_hunk list" where
  "layer_items en rec ps = concat (map (\<lambda>p. map (plain_item en (rec p)) (rp_Hunks (rec p))) ps)"

lemma pack_items_core:
  assumes "planned_ok en r pp"
  shows "map item_core (pack_items_of pp) = map item_core (map (plain_item en r) (rp_Hunks r))"
proof -
  from assms have r: "pq_record pp = r" "pq_pathID pp = PathID (be_H en) (sc_Digest (be_scope en)) r"
    and hs: "concat (map hg_Hunks (pq_groups pp)) = rp_Hunks r"
    and ids: "\<forall>h\<in>set (rp_Hunks r). hunk_id_of pp h = hunk_of_plan en r h" by (auto simp: planned_ok_def)
  have "map item_core (pack_items_of pp) =
      map (\<lambda>h. (r, Public (pq_pathID pp), h, hunk_id_of pp h)) (concat (map hg_Hunks (pq_groups pp)))"
    by (simp add: pack_items_of_def map_concat comp_def item_core_def r(1))
  also have "\<dots> = map item_core (map (plain_item en r) (rp_Hunks r))"
    unfolding hs r(2) using ids by (simp add: item_core_def plain_item_def)
  finally show ?thesis .
qed

definition items_of :: "string list \<Rightarrow> planned \<Rightarrow> pack_hunk list" where
  "items_of ps planned = concat (map (\<lambda>p. case planned p of None \<Rightarrow> [] | Some pp \<Rightarrow> pack_items_of pp) ps)"

lemma partition_mset: "mset (partitionPackHunks ps planned) = mset (items_of ps planned)"
  by (simp add: partitionPackHunks_def items_of_def)

lemma items_core:
  assumes inv: "build_inv en records D planned" and ps: "\<forall>p\<in>set ps. rec p \<in> set records \<and> recordPath (rec p) = p"
  shows "map item_core (items_of ps planned) = map item_core (layer_items en rec ps)"
  using ps
proof (induction ps)
  case (Cons p ps)
  then have r: "rec p \<in> set records" "recordPath (rec p) = p" by auto
  with inv obtain pp where pp: "planned p = Some pp" "planned_ok en (rec p) pp" unfolding build_inv_def by metis
  with Cons pack_items_core [OF pp(2)] show ?case by (simp add: items_of_def layer_items_def)
qed (simp add: items_of_def layer_items_def)

text \<open>The hunks that are not owned by a unit are exactly those that do not fit one.\<close>

lemma filter_subset_length:
  assumes "\<And>x. x \<in> set xs \<Longrightarrow> P x \<Longrightarrow> Q x" "length (filter P xs) = length (filter Q xs)"
  shows "filter P xs = filter Q xs"
proof -
  have sub: "filter P xs = filter P (filter Q xs)" using assms(1) by (induction xs) auto
  then have len: "length (filter P (filter Q xs)) = length (filter Q xs)" using assms(2) by simp
  have "P x" if "x \<in> set (filter Q xs)" for x
  proof (rule ccontr)
    assume "\<not> P x"
    with length_filter_less [of x "filter Q xs" P] that len show False by simp
  qed
  then have "filter P (filter Q xs) = filter Q xs" by (rule filter_True [OF ballI])
  with sub show ?thesis by (rule trans)
qed

lemma pack_layer_parts:
  assumes "pack_layer en st layer = Inr (st', units)"
  shows "let items = partitionPackHunks (fl_Paths layer) (bu_planned st); F = (\<lambda>i. unit_fits (be_H en) (layer_partition en) [i])
     in (\<forall>i\<in>set items. Public (ph_HunkID i) \<noteq> []) \<longrightarrow>
        st' = fold (mark_large en) (filter (\<lambda>i. \<not> F i) items) st \<and>
        concat (map pu_HunkIDs units) = map ph_HunkID (filter F items) \<and>
        list_all (unit_ok (be_H en) (layer_partition en)) units"
proof -
  let ?pt = "layer_partition en" and ?items = "partitionPackHunks (fl_Paths layer) (bu_planned st)"
  let ?F = "\<lambda>i. unit_fits (be_H en) ?pt [i]"
  have caps: "pt_LineCap ?pt > 0" "pt_MandatoryCap ?pt > 0"
    by (simp_all add: layer_partition_def lineCap_def mandatoryCap_def)
  from PackReviewPartition_ok [OF caps, of "be_H en" ?items] obtain packed large where
    pack: "PackReviewPartition (be_H en) ?pt ?items = Inr (packed, large)"
    "concat (map pu_HunkIDs packed) = map (pack_hunk_id (be_H en) (pt_DefaultPathID ?pt)) (filter ?F ?items)"
    "large = map ph_Hunk (filter (\<lambda>h. \<not> ?F h) ?items)" "list_all (unit_ok (be_H en) ?pt) packed" by blast
  let ?owned = "map Public (concat (map pu_HunkIDs packed))"
  let ?missed = "filter (\<lambda>i. Public (ph_HunkID i) \<notin> set ?owned) ?items"
  from assms pack(1) have st': "length ?missed = length large" "st' = fold (mark_large en) ?missed st" "units = packed"
    by (auto simp: pack_layer_def Let_def wrapE_def split: if_splits)
  show ?thesis unfolding Let_def
  proof (intro impI conjI)
    assume ne: "\<forall>i\<in>set ?items. Public (ph_HunkID i) \<noteq> []"
    then have ids: "map (pack_hunk_id (be_H en) d) (filter ?F ?items) = map ph_HunkID (filter ?F ?items)" for d
      by (auto simp: pack_hunk_id_def)
    show owned: "concat (map pu_HunkIDs units) = map ph_HunkID (filter ?F ?items)" unfolding st'(3) pack(2) by (rule ids)
    have "?missed = filter (\<lambda>h. \<not> ?F h) ?items"
    proof (rule filter_subset_length)
      fix i assume "i \<in> set ?items" "Public (ph_HunkID i) \<notin> set ?owned"
      moreover have "Public (ph_HunkID i) \<in> set ?owned" if "?F i"
      proof -
        have "ph_HunkID i \<in> set (map ph_HunkID (filter ?F ?items))" using that calculation(1) by simp
        then have "ph_HunkID i \<in> set (concat (map pu_HunkIDs packed))" by (simp only: owned [unfolded st'(3)])
        then show ?thesis unfolding set_map by (rule imageI)
      qed
      ultimately show "\<not> ?F i" by blast
    qed (use st'(1) pack(3) in simp)
    with st'(2) show "st' = fold (mark_large en) (filter (\<lambda>i. \<not> ?F i) ?items) st" by simp
    show "list_all (unit_ok (be_H en) ?pt) units" using st'(3) pack(4) by simp
  qed
qed

text \<open>Marking changes only what it says.\<close>

definition same_entry :: "planned_path \<Rightarrow> planned_path \<Rightarrow> bool" where
  "same_entry pp qq \<longleftrightarrow> pq_record pp = pq_record qq \<and> pq_path pp = pq_path qq \<and> pq_pathID pp = pq_pathID qq \<and>
     pq_groups pp = pq_groups qq \<and> pq_hunkIDs pp = pq_hunkIDs qq"

lemma same_entry_refl [simp]: "same_entry pp pp"
  by (simp add: same_entry_def)

lemma same_entry_trans: "same_entry a b \<Longrightarrow> same_entry b c \<Longrightarrow> same_entry a c"
  by (simp add: same_entry_def)

lemma same_entry_ok: "same_entry pp qq \<Longrightarrow> planned_ok en r qq \<Longrightarrow> planned_ok en r pp"
  by (simp add: same_entry_def planned_ok_def hunk_id_of_def)

definition names :: "pack_hunk \<Rightarrow> string \<Rightarrow> raw_hunk \<Rightarrow> bool" where
  "names i p h \<longleftrightarrow> recordPath (ph_Path i) = p \<and> rh_Ordinal (ph_Hunk i) = rh_Ordinal h"

lemma mark_one:
  assumes "bu_planned st p = Some pp"
  shows "\<exists>pp'. bu_planned (mark_large en i st) p = Some pp' \<and> same_entry pp' pp \<and>
    (\<forall>h. reviewability_of pp' h = (if names i p h then HunkUnreviewableLargeText else reviewability_of pp h))"
  using assms by (cases "recordPath (ph_Path i) = p")
    (auto simp: mark_large_def Let_def names_def same_entry_def reviewability_of_def split: option.splits)

lemma mark_all:
  "bu_planned st p = Some pp \<Longrightarrow> \<exists>pp'. bu_planned (fold (mark_large en) is st) p = Some pp' \<and> same_entry pp' pp \<and>
    (\<forall>h. reviewability_of pp' h = (if \<exists>i\<in>set is. names i p h then HunkUnreviewableLargeText else reviewability_of pp h))"
proof (induction "is" arbitrary: st pp)
  case (Cons i "is")
  from mark_one [OF Cons.prems, of en i] obtain pp1 where pp1: "bu_planned (mark_large en i st) p = Some pp1" "same_entry pp1 pp"
    "\<forall>h. reviewability_of pp1 h = (if names i p h then HunkUnreviewableLargeText else reviewability_of pp h)" by blast
  from Cons.IH [OF pp1(1)] obtain pp' where pp': "bu_planned (fold (mark_large en) is (mark_large en i st)) p = Some pp'"
    "same_entry pp' pp1"
    "\<forall>h. reviewability_of pp' h = (if \<exists>i\<in>set is. names i p h then HunkUnreviewableLargeText else reviewability_of pp1 h)" by blast
  have "\<forall>h. reviewability_of pp' h = (if \<exists>j\<in>set (i # is). names j p h then HunkUnreviewableLargeText else reviewability_of pp h)"
    using pp1(3) pp'(3) by simp
  with pp'(1) same_entry_trans [OF pp'(2) pp1(2)] show ?case by auto
qed auto

lemma filter_core:
  assumes "map c xs = map c ys" "\<And>x y. c x = c y \<Longrightarrow> F x = F y \<and> g x = g y"
  shows "map g (filter F xs) = map g (filter F ys)"
proof -
  have "list_all2 (\<lambda>x y. c x = c y) xs ys" using assms(1) by (simp add: list_all2_conv_all_nth list_eq_iff_nth_eq)
  then show ?thesis by (induction rule: list_all2_induct) (auto dest: assms(2))
qed

definition record_of :: "raw_path_record list \<Rightarrow> string \<Rightarrow> raw_path_record" where
  "record_of records p = the (map_of (map (\<lambda>r. (recordPath r, r)) records) p)"

lemma record_of:
  assumes "distinct (map recordPath records)"
  shows "r \<in> set records \<Longrightarrow> record_of records (recordPath r) = r"
    "p \<in> recordPath ` set records \<Longrightarrow> record_of records p \<in> set records \<and> recordPath (record_of records p) = p"
proof -
  have one: "map_of (map (\<lambda>r. (recordPath r, r)) records) (recordPath r) = Some r" if "r \<in> set records" for r
    using assms that by (intro map_of_is_SomeI) (auto simp: comp_def)
  show "r \<in> set records \<Longrightarrow> record_of records (recordPath r) = r" by (simp add: record_of_def one)
  show "p \<in> recordPath ` set records \<Longrightarrow> record_of records p \<in> set records \<and> recordPath (record_of records p) = p"
    using one by (auto simp: record_of_def)
qed

text \<open>The identifiers of the reviewable hunks of some paths.\<close>

definition reviewable_ids :: "build_env \<Rightarrow> raw_path_record list \<Rightarrow> string list \<Rightarrow> stable_id list" where
  "reviewable_ids en records ps = concat (map (\<lambda>p. let r = record_of records p in
     map (hunk_of_plan en r) (filter (fits en r) (rp_Hunks r))) ps)"

lemma reviewable_ids_items:
  "map ph_HunkID (filter (\<lambda>i. unit_fits (be_H en) (layer_partition en) [i]) (layer_items en (record_of records) ps)) =
   reviewable_ids en records ps"
proof (induction ps)
  case (Cons p ps)
  have "map ph_HunkID (filter (\<lambda>i. unit_fits (be_H en) (layer_partition en) [i]) (map (plain_item en r) hs)) =
      map (hunk_of_plan en r) (filter (fits en r) hs)" for r hs
    by (induction hs) (auto simp: fits_def plain_item_def)
  with Cons show ?case by (simp add: reviewable_ids_def layer_items_def Let_def)
qed (simp add: reviewable_ids_def layer_items_def)

lemma layer_cores:
  assumes "distinct (map recordPath records)" "build_inv en records D planned" "set ps \<subseteq> recordPath ` set records"
  shows "item_core ` set (partitionPackHunks ps planned) = item_core ` set (layer_items en (record_of records) ps)"
proof -
  have rec_ps: "\<forall>p\<in>set ps. record_of records p \<in> set records \<and> recordPath (record_of records p) = p"
    using record_of(2) [OF assms(1)] assms(3) by blast
  have "item_core ` set (partitionPackHunks ps planned) = item_core ` set (items_of ps planned)"
    using mset_eq_setD [OF partition_mset [of ps planned]] by simp
  also have "\<dots> = item_core ` set (layer_items en (record_of records) ps)"
    using arg_cong [OF items_core [OF assms(2) rec_ps], of set] by simp
  finally show ?thesis .
qed

lemma layer_item:
  assumes "distinct (map recordPath records)" "build_inv en records D planned" "set ps \<subseteq> recordPath ` set records"
    and "i \<in> set (partitionPackHunks ps planned)"
  shows "\<exists>p\<in>set ps. \<exists>h\<in>set (rp_Hunks (record_of records p)). item_core i = item_core (plain_item en (record_of records p) h)"
proof -
  from assms(4) layer_cores [OF assms(1-3)] have "item_core i \<in> item_core ` set (layer_items en (record_of records) ps)" by blast
  then obtain x where x: "item_core i = item_core x" "x \<in> set (layer_items en (record_of records) ps)" by (rule imageE)
  from x(2) have "\<exists>p\<in>set ps. \<exists>h\<in>set (rp_Hunks (record_of records p)). x = plain_item en (record_of records p) h"
    by (auto simp: layer_items_def)
  with x(1) show ?thesis by metis
qed

lemma layer_item_named:
  assumes "distinct (map recordPath records)" "build_inv en records D planned" "set ps \<subseteq> recordPath ` set records"
    and "i \<in> set (partitionPackHunks ps planned)"
  shows "Public (ph_HunkID i) \<noteq> []" "ph_PathID i \<noteq> []" "ph_Path i \<in> set records" "ph_Hunk i \<in> set (rp_Hunks (ph_Path i))"
proof -
  from layer_item [OF assms] obtain p h where ph: "p \<in> set ps" "h \<in> set (rp_Hunks (record_of records p))"
    "item_core i = item_core (plain_item en (record_of records p) h)" by blast
  have "record_of records p \<in> set records" using record_of(2) [OF assms(1)] ph(1) assms(3) by blast
  with ph(2,3) show "Public (ph_HunkID i) \<noteq> []" "ph_PathID i \<noteq> []" "ph_Path i \<in> set records" "ph_Hunk i \<in> set (rp_Hunks (ph_Path i))"
    by (auto simp: item_core_def plain_item_def PathID_def)
qed

lemma pack_layer_inv:
  assumes dist: "distinct (map recordPath records)" "\<forall>r\<in>set records. distinct (map rh_Ordinal (rp_Hunks r))"
    and inv: "build_inv en records D (bu_planned st)" and ps: "set (fl_Paths layer) \<subseteq> recordPath ` set records"
    and pack: "pack_layer en st layer = Inr (st', units)"
  shows "build_inv en records (D \<union> set (fl_Paths layer)) (bu_planned st') \<and>
    mset (concat (map pu_HunkIDs units)) = mset (reviewable_ids en records (fl_Paths layer)) \<and>
    list_all (unit_ok (be_H en) (layer_partition en)) units"
proof -
  let ?ps = "fl_Paths layer" and ?rec = "record_of records"
  let ?items = "partitionPackHunks ?ps (bu_planned st)" and ?plain = "layer_items en ?rec ?ps"
  let ?F = "\<lambda>i. unit_fits (be_H en) (layer_partition en) [i]"
  note rec = record_of [OF dist(1)]
  have rec_ps: "\<forall>p\<in>set ?ps. ?rec p \<in> set records \<and> recordPath (?rec p) = p" using rec(2) ps by blast
  have core: "map item_core (items_of ?ps (bu_planned st)) = map item_core ?plain" by (rule items_core [OF inv rec_ps])
  note cores = layer_cores [OF dist(1) inv ps] and item = layer_item [OF dist(1) inv ps]
  have ne: "\<forall>i\<in>set ?items. Public (ph_HunkID i) \<noteq> []" using layer_item_named [OF dist(1) inv ps] by blast
  have plain: "x \<in> set ?plain \<longleftrightarrow> (\<exists>p\<in>set ?ps. \<exists>h\<in>set (rp_Hunks (?rec p)). x = plain_item en (?rec p) h)" for x
    by (auto simp: layer_items_def)
  from pack_layer_parts [OF pack] ne have
    st': "st' = fold (mark_large en) (filter (\<lambda>i. \<not> ?F i) ?items) st"
    and ids: "concat (map pu_HunkIDs units) = map ph_HunkID (filter ?F ?items)"
    and ok: "list_all (unit_ok (be_H en) (layer_partition en)) units" by (simp_all add: Let_def)
  have "mset (map ph_HunkID (filter ?F ?items)) = mset (map ph_HunkID (filter ?F (items_of ?ps (bu_planned st))))"
    using partition_mset [of ?ps "bu_planned st"] by simp
  also have "map ph_HunkID (filter ?F (items_of ?ps (bu_planned st))) = map ph_HunkID (filter ?F ?plain)"
  proof (rule filter_core [OF core])
    fix x y assume xy: "item_core x = item_core y"
    show "?F x = ?F y \<and> ph_HunkID x = ph_HunkID y" using unit_fits_core [OF xy] xy by (simp add: item_core_def)
  qed
  also have "\<dots> = reviewable_ids en records ?ps" by (rule reviewable_ids_items)
  finally have m: "mset (concat (map pu_HunkIDs units)) = mset (reviewable_ids en records ?ps)" by (simp only: ids)
  have named: "(\<exists>i\<in>set (filter (\<lambda>i. \<not> ?F i) ?items). names i (recordPath r) h) \<longleftrightarrow> recordPath r \<in> set ?ps \<and> \<not> fits en r h"
    if r: "r \<in> set records" "h \<in> set (rp_Hunks r)" for r h
  proof
    assume "\<exists>i\<in>set (filter (\<lambda>i. \<not> ?F i) ?items). names i (recordPath r) h"
    then obtain i where i: "i \<in> set ?items" "\<not> ?F i" "names i (recordPath r) h" by auto
    from item [OF i(1)] obtain p k where pk: "p \<in> set ?ps" "k \<in> set (rp_Hunks (?rec p))"
      "item_core i = item_core (plain_item en (?rec p) k)" by blast
    then have eqs: "ph_Path i = ?rec p" "ph_Hunk i = k" by (auto simp: item_core_def plain_item_def)
    then have p: "p = recordPath r" using i(3) rec_ps pk(1) by (auto simp: names_def)
    then have rp: "?rec p = r" using rec(1) [OF r(1)] by simp
    then have "k = h" using i(3) eqs(2) pk(2) r dist(2) by (auto simp: names_def distinct_map inj_on_def)
    with i(2) pk(3) rp p pk(1) show "recordPath r \<in> set ?ps \<and> \<not> fits en r h"
      using unit_fits_core [OF pk(3), of "be_H en" "layer_partition en"] by (simp add: fits_def)
  next
    assume a: "recordPath r \<in> set ?ps \<and> \<not> fits en r h"
    then have "plain_item en r h \<in> set ?plain" using plain rec(1) [OF r(1)] r(2) by metis
    then have "item_core (plain_item en r h) \<in> item_core ` set ?items" using cores by blast
    then obtain i where i: "i \<in> set ?items" "item_core i = item_core (plain_item en r h)" by auto
    with a have "\<not> ?F i" using unit_fits_core [OF i(2), of "be_H en" "layer_partition en"] by (simp add: fits_def)
    moreover have "names i (recordPath r) h" using i(2) by (simp add: names_def item_core_def plain_item_def)
    ultimately show "\<exists>i\<in>set (filter (\<lambda>i. \<not> ?F i) ?items). names i (recordPath r) h" using i(1) by auto
  qed
  have "build_inv en records (D \<union> set ?ps) (bu_planned st')" unfolding build_inv_def
  proof
    fix r assume r: "r \<in> set records"
    with inv obtain pp where pp: "bu_planned st (recordPath r) = Some pp" "planned_ok en r pp"
      "marked_as en (recordPath r \<in> D) r pp" unfolding build_inv_def by blast
    from mark_all [OF pp(1), of en "filter (\<lambda>i. \<not> ?F i) ?items", folded st'] obtain pp' where pp':
      "bu_planned st' (recordPath r) = Some pp'" "same_entry pp' pp"
      "\<forall>h. reviewability_of pp' h = (if \<exists>i\<in>set (filter (\<lambda>i. \<not> ?F i) ?items). names i (recordPath r) h
         then HunkUnreviewableLargeText else reviewability_of pp h)" by blast
    have "marked_as en (recordPath r \<in> D \<union> set ?ps) r pp'" unfolding marked_as_def
    proof
      fix h assume h: "h \<in> set (rp_Hunks r)"
      have "reviewability_of pp h = (if recordPath r \<in> D \<and> \<not> fits en r h then HunkUnreviewableLargeText else HunkReviewable)"
        using pp(3) h unfolding marked_as_def by blast
      with pp'(3) named [OF r h] show "reviewability_of pp' h =
        (if recordPath r \<in> D \<union> set ?ps \<and> \<not> fits en r h then HunkUnreviewableLargeText else HunkReviewable)" by auto
    qed
    with pp'(1) same_entry_ok [OF pp'(2) pp(2)]
    show "\<exists>pp. bu_planned st' (recordPath r) = Some pp \<and> planned_ok en r pp \<and> marked_as en (recordPath r \<in> D \<union> set ?ps) r pp"
      by blast
  qed
  with m ok show ?thesis by blast
qed

section \<open>All layers\<close>

lemma mapS_inv:
  assumes "mapS f s xs = Inr (s', ys)" "I D s"
    and "\<And>x D s s1 y. x \<in> set xs \<Longrightarrow> I D s \<Longrightarrow> f s x = Inr (s1, y) \<Longrightarrow> I (D \<union> g x) s1 \<and> R x y"
  shows "I (D \<union> \<Union> (g ` set xs)) s' \<and> list_all2 R xs ys"
  using assms
proof (induction xs arbitrary: s D ys)
  case (Cons x xs)
  from Cons.prems(1) obtain s1 y ys' where s1: "f s x = Inr (s1, y)" "mapS f s1 xs = Inr (s', ys')" "ys = y # ys'" by auto
  from Cons.prems(3) [OF _ Cons.prems(2) s1(1)] have i: "I (D \<union> g x) s1" "R x y" by simp_all
  from Cons.IH [OF s1(2) i(1)] Cons.prems(3) have "I (D \<union> g x \<union> \<Union> (g ` set xs)) s' \<and> list_all2 R xs ys'" by simp
  with i(2) s1(3) show ?case by (simp add: Un_assoc)
qed simp

definition layer_packed :: "build_env \<Rightarrow> raw_path_record list \<Rightarrow> file_layer \<Rightarrow> packed_unit list \<Rightarrow> bool" where
  "layer_packed en records layer units \<longleftrightarrow>
     mset (concat (map pu_HunkIDs units)) = mset (reviewable_ids en records (fl_Paths layer)) \<and>
     list_all (unit_ok (be_H en) (layer_partition en)) units"

definition cohort_paths :: "file_cohort \<Rightarrow> string list" where
  "cohort_paths c = concat (map fl_Paths (fc_Layers c))"

lemma pack_cohorts_inv:
  assumes dist: "distinct (map recordPath records)" "\<forall>r\<in>set records. distinct (map rh_Ordinal (rp_Hunks r))"
    and inv: "build_inv en records {} (bu_planned st)"
    and cs: "\<Union> (set ` cohort_paths ` set cs) \<subseteq> recordPath ` set records"
    and pack: "mapS (pack_cohort en) st cs = Inr (st', unitss)"
  shows "build_inv en records (\<Union> (set ` cohort_paths ` set cs)) (bu_planned st') \<and>
    list_all2 (\<lambda>c uss. list_all2 (layer_packed en records) (fc_Layers c) uss) cs unitss"
proof -
  have step: "build_inv en records (D \<union> set (cohort_paths c)) (bu_planned s1) \<and>
      list_all2 (layer_packed en records) (fc_Layers c) uss"
    if c: "c \<in> set cs" "build_inv en records D (bu_planned s)" "pack_cohort en s c = Inr (s1, uss)" for c D s s1 uss
  proof -
    from c(3) have m: "mapS (pack_layer en) s (fc_Layers c) = Inr (s1, uss)" by (simp add: pack_cohort_def)
    have "build_inv en records (D \<union> \<Union> ((\<lambda>l. set (fl_Paths l)) ` set (fc_Layers c))) (bu_planned s1) \<and>
        list_all2 (layer_packed en records) (fc_Layers c) uss"
    proof (rule mapS_inv [OF m, where I = "\<lambda>D s. build_inv en records D (bu_planned s)"])
      show "build_inv en records D (bu_planned s)" by fact
      fix l D s s1 us assume l: "l \<in> set (fc_Layers c)" "build_inv en records D (bu_planned s)" "pack_layer en s l = Inr (s1, us)"
      have "set (fl_Paths l) \<subseteq> set (cohort_paths c)" using l(1) by (auto simp: cohort_paths_def)
      also have "\<dots> \<subseteq> recordPath ` set records" using cs c(1) by blast
      finally show "build_inv en records (D \<union> set (fl_Paths l)) (bu_planned s1) \<and> layer_packed en records l us"
        unfolding layer_packed_def using pack_layer_inv [OF dist l(2) _ l(3)] by blast
    qed
    moreover have "\<Union> ((\<lambda>l. set (fl_Paths l)) ` set (fc_Layers c)) = set (cohort_paths c)" by (simp add: cohort_paths_def)
    ultimately show ?thesis by simp
  qed
  have "build_inv en records ({} \<union> \<Union> ((\<lambda>c. set (cohort_paths c)) ` set cs)) (bu_planned st') \<and>
      list_all2 (\<lambda>c uss. list_all2 (layer_packed en records) (fc_Layers c) uss) cs unitss"
    by (rule mapS_inv [OF pack, where I = "\<lambda>D s. build_inv en records D (bu_planned s)"]) (use inv step in blast)+
  then show ?thesis by (simp add: image_image)
qed

lemma layers_ids:
  "list_all2 (layer_packed en records) ls uss \<Longrightarrow>
     mset (concat (map pu_HunkIDs (concat uss))) = mset (reviewable_ids en records (concat (map fl_Paths ls))) \<and>
     list_all (unit_ok (be_H en) (layer_partition en)) (concat uss)"
  by (induction rule: list_all2_induct) (auto simp: layer_packed_def reviewable_ids_def)

lemma cohorts_ids:
  "list_all2 (\<lambda>c uss. list_all2 (layer_packed en records) (fc_Layers c) uss) cs unitss \<Longrightarrow>
     mset (concat (map pu_HunkIDs (concat (concat unitss)))) = mset (reviewable_ids en records (concat (map cohort_paths cs))) \<and>
     list_all (unit_ok (be_H en) (layer_partition en)) (concat (concat unitss))"
proof (induction rule: list_all2_induct)
  case (Cons c cs uss unitss)
  with layers_ids [OF Cons(1)] show ?case by (simp add: cohort_paths_def reviewable_ids_def)
qed (simp add: reviewable_ids_def)

section \<open>Identifiers and final units\<close>

lemma identify_units:
  assumes "identify_cohort en ids (c, uss) = Inr (ids', pc)" "length uss = length (fc_Layers c)"
  shows "map pkl_Units (pkc_Layers pc) = uss"
  using assms by (auto simp: identify_cohort_def Let_def case_prod_unfold comp_def intro!: nth_equalityI)

lemma identify_all:
  assumes "mapS (identify_cohort en) ids (zip cs unitss) = Inr (ids', pcs)"
    "list_all2 (\<lambda>c uss. length uss = length (fc_Layers c)) cs unitss"
  shows "map (\<lambda>pc. map pkl_Units (pkc_Layers pc)) pcs = unitss"
  using assms(2,1)
proof (induction arbitrary: ids pcs rule: list_all2_induct)
  case (Cons c cs uss unitss)
  then obtain ids1 pc pcs' where pc: "identify_cohort en ids (c, uss) = Inr (ids1, pc)"
    "mapS (identify_cohort en) ids1 (zip cs unitss) = Inr (ids', pcs')" "pcs = pc # pcs'" by auto
  with identify_units [OF pc(1) Cons(1)] Cons(3) [OF pc(2)] show ?case by simp
qed simp

text \<open>Placing and sealing a unit keep its hunks.\<close>

definition unit_hunk_ids :: "review_unit \<Rightarrow> string list" where
  "unit_hunk_ids u = map uh_HunkID (ru_Hunks u)"

lemma unit_ok_hunk_ids: "unit_ok H pt u \<Longrightarrow> unit_hunk_ids (pu_Unit u) = map Public (pu_HunkIDs u)"
proof -
  assume "unit_ok H pt u"
  then obtain items where u: "u = makePackedUnit H pt (pu_Kind u) items" by (auto simp: unit_ok_def)
  have "unit_hunk_ids (pu_Unit (makePackedUnit H pt k items)) = map Public (pu_HunkIDs (makePackedUnit H pt k items))" for k
    by (simp add: unit_hunk_ids_def pack_unit_hunk_def)
  with u show ?thesis by metis
qed

lemma placed_hunk_ids:
  "map (\<lambda>u. unit_hunk_ids (pu_Unit u)) (placed_units pps pcs) =
   map (\<lambda>u. unit_hunk_ids (pu_Unit u)) (concat (concat (map (\<lambda>pc. map pkl_Units (pkc_Layers pc)) pcs)))"
proof (induction pcs)
  case (Cons pc pcs)
  have "map (\<lambda>u. unit_hunk_ids (pu_Unit u)) (concat (map (\<lambda>l. map (place_unit pps c (pkl_ID l)) (pkl_Units l)) ls)) =
      map (\<lambda>u. unit_hunk_ids (pu_Unit u)) (concat (map pkl_Units ls))" for c ls
    by (induction ls) (simp_all add: place_unit_def unit_hunk_ids_def)
  with Cons show ?case by (simp add: placed_units_def)
qed (simp add: placed_units_def)

lemma sealed_hunk_ids:
  "mapE (seal_unit cap i) us = Inr vs \<Longrightarrow>
     map unit_hunk_ids (map pu_Unit vs) = map (\<lambda>u. unit_hunk_ids (pu_Unit u)) us"
proof -
  assume "mapE (seal_unit cap i) us = Inr vs"
  then have "list_all2 (\<lambda>u v. seal_unit cap i u = Inr v) us vs" by (simp add: mapE_eq_Inr)
  then show ?thesis
    by (induction rule: list_all2_induct) (auto simp: seal_unit_def Let_def unit_hunk_ids_def split: if_splits)
qed

section \<open>The cohorts cover the paths\<close>

lemma layering_paths:
  "cohort_of en (fc_Files c) c \<Longrightarrow> distinct (cohort_paths c) \<and> set (cohort_paths c) = set (fc_Files c)"
  by (simp add: cohort_of_def layering_def cohort_paths_def)

lemma concat_cohort_paths:
  "\<forall>c\<in>set cs. distinct (cohort_paths c) \<and> set (cohort_paths c) = set (fc_Files c) \<Longrightarrow>
   distinct (concat (map fc_Files cs)) \<Longrightarrow>
   distinct (concat (map cohort_paths cs)) \<and> set (concat (map cohort_paths cs)) = set (concat (map fc_Files cs))"
  by (induction cs) auto

lemma cohorts_cover:
  assumes "[] \<notin> set paths" "distinct paths"
  shows "mset (concat (map cohort_paths (planner_cohorts en paths))) = mset paths"
proof -
  from BuildFileCohorts_ok [OF assms(1), of "be_enrichment en"] obtain cs where
    cs: "BuildFileCohorts paths (be_enrichment en) = Some cs" "distinct (concat (map fc_Files cs))"
      "set (concat (map fc_Files cs)) = set paths" "\<forall>c\<in>set cs. cohort_of (be_enrichment en) (fc_Files c) c" by blast
  from cs(4) layering_paths have "\<forall>c\<in>set cs. distinct (cohort_paths c) \<and> set (cohort_paths c) = set (fc_Files c)" by blast
  from concat_cohort_paths [OF this cs(2)] cs(3)
  have "distinct (concat (map cohort_paths cs))" "set (concat (map cohort_paths cs)) = set paths" by simp_all
  with assms(2) have "mset (concat (map cohort_paths cs)) = mset paths" by (simp only: set_eq_iff_mset_eq_distinct)
  with cs(1) show ?thesis by (simp add: planner_cohorts_def)
qed

lemma mset_concat_map: "mset xs = mset ys \<Longrightarrow> mset (concat (map f xs)) = mset (concat (map f ys))"
  by (simp add: mset_concat sum_mset_sum_list [symmetric])

lemma reviewable_ids_mset:
  "mset ps = mset qs \<Longrightarrow> mset (reviewable_ids en records ps) = mset (reviewable_ids en records qs)"
  unfolding reviewable_ids_def by (rule mset_concat_map)

lemma paths_validate_named: "paths_validate seen rs = Inr () \<Longrightarrow> [] \<notin> recordPath ` set rs"
  by (induction rs arbitrary: seen) (auto simp: Let_def split: if_splits)

section \<open>The phases of Build\<close>

definition start_state :: "planner \<Rightarrow> build_env \<Rightarrow> build_state" where
  "start_state p en = \<lparr>bu_ids = newCheckedIDSet (py_IDCollisionProbe p),
     bu_attention = map (omission_signal (be_H en)) (ge_Omissions (be_enrichment en)), bu_planned = Map.empty\<rparr>"

definition build_records :: "capture \<Rightarrow> raw_path_record list" where
  "build_records cp = sortedPathRecords (cp_Paths cp)"

definition environment_of ::
    "(bytes \<Rightarrow> digest) \<Rightarrow> (nat \<Rightarrow> gerror option) \<Rightarrow> planner \<Rightarrow> head_view option \<Rightarrow> capture \<Rightarrow> build_env" where
  "environment_of H poll p view cp = build_environment H poll p view cp (map recordPath (build_records cp))"

lemma environment_simps [simp]:
  "be_H (environment_of H poll p view cp) = H" "be_planner (environment_of H poll p view cp) = p"
  by (simp_all add: environment_of_def build_environment_def Let_def)

lemma Build_phases:
  assumes "Build H poll p cp view ev = Inr plan"
  defines "en \<equiv> environment_of H poll p view cp"
  obtains st1 st2 unitss ids pcs where "paths_validate [] (cp_Paths cp) = Inr ()"
    "foldE (plan_record en) (start_state p en) (build_records cp) = Inr st1"
    "mapS (pack_cohort en) st1 (planner_cohorts en (map recordPath (build_records cp))) = Inr (st2, unitss)"
    "mapS (identify_cohort en) (bu_ids st2) (zip (planner_cohorts en (map recordPath (build_records cp))) unitss) = Inr (ids, pcs)"
    "finish_plan en cp ev (build_records cp) (st2\<lparr>bu_ids := ids\<rparr>) pcs = Inr plan"
proof -
  have H: "be_H en = H" by (simp add: en_def)
  from assms(1) show thesis
    by (auto simp: Build_def Let_def validatePlannerCapture_def case_prod_unfold build_records_def [symmetric]
        environment_of_def [symmetric] en_def [symmetric] start_state_def H intro: that split: option.splits)
qed

lemma finish_plan_parts:
  assumes "finish_plan en cp ev records st pcs = Inr plan"
  defines "planned \<equiv> map_option update_coverage \<circ> bu_planned st"
  obtains rid :: stable_id and sealed where
    "mapE (seal_unit (mandatoryCap (be_planner en)) (Public rid))
       (placed_units (planned_list (map recordPath records) (bu_planned st)) pcs) = Inr sealed"
    "pn_PrimaryUnits plan = map pu_Unit sealed" "pn_ReviewID plan = Public rid"
    "ps_ReviewableChurn (pn_Stats plan) = reviewableChurn (planned_list (map recordPath records) planned)"
    "pn_ChangedPaths plan = concat (map (plan_path_of planned) records)" "Plan_validate plan = Inr ()"
proof -
  obtain mode required where "ModeForChurn (cp_RawChurn cp) (py_ForceStructured (be_planner en) \<or> ee_ForceStructured ev) = (mode, required)"
    by fastforce
  with assms(1) obtain identity sealed where
    "mapE (seal_unit (mandatoryCap (be_planner en)) (Public (ReviewID (be_H en) identity)))
       (placed_units (planned_list (map recordPath records) (bu_planned st)) pcs) = Inr sealed \<and>
     pn_PrimaryUnits plan = map pu_Unit sealed \<and> pn_ReviewID plan = Public (ReviewID (be_H en) identity) \<and>
     ps_ReviewableChurn (pn_Stats plan) = reviewableChurn (planned_list (map recordPath records) planned) \<and>
     pn_ChangedPaths plan = concat (map (plan_path_of planned) records) \<and> Plan_validate plan = Inr ()"
    by (auto simp: finish_plan_def Let_def planned_def [symmetric])
  then show thesis using that [of "ReviewID (be_H en) identity" sealed] by blast
qed

text \<open>What the plan says of the records, when every record is planned and marked.\<close>

definition owned_hunk_ids :: "build_env \<Rightarrow> raw_path_record list \<Rightarrow> string list" where
  "owned_hunk_ids en records =
     concat (map (\<lambda>r. map (\<lambda>h. Public (hunk_of_plan en r h)) (filter (fits en r) (rp_Hunks r))) records)"

definition fitting_churn :: "build_env \<Rightarrow> raw_path_record list \<Rightarrow> int" where
  "fitting_churn en records = sum_list (map (\<lambda>r. sum_list (map hunk_churn (filter (fits en r) (rp_Hunks r)))) records)"

definition covered_as :: "build_env \<Rightarrow> raw_path_record \<Rightarrow> plan_path \<Rightarrow> bool" where
  "covered_as en r p \<longleftrightarrow> pp_PathID p = Public (PathID (be_H en) (sc_Digest (be_scope en)) r) \<and>
     pp_OldPath p = rp_OldPath r \<and> pp_NewPath p = rp_NewPath r \<and> pp_Status p = rp_Status r \<and>
     (rp_TextClass r = TextClassText \<and> rp_Hunks r \<noteq> [] \<longrightarrow>
        pp_Coverage p = (if list_all (fits en r) (rp_Hunks r) then PathCoverageFull else PathCoveragePartial))"

lemma reviewable_records:
  assumes "distinct (map recordPath records)"
  shows "map Public (reviewable_ids en records (map recordPath records)) = owned_hunk_ids en records"
proof -
  have "map Public (reviewable_ids en records (map recordPath rs)) = owned_hunk_ids en rs" if "set rs \<subseteq> set records" for rs
    using that record_of(1) [OF assms] by (induction rs) (auto simp: reviewable_ids_def owned_hunk_ids_def Let_def)
  then show ?thesis by blast
qed

lemma update_coverage_simps [simp]:
  "pq_record (update_coverage pp) = pq_record pp" "pq_pathID (update_coverage pp) = pq_pathID pp"
  "reviewability_of (update_coverage pp) h = reviewability_of pp h"
  by (simp_all add: update_coverage_def Let_def reviewability_of_def)

lemma marked_large:
  assumes "marked_as en True r pp" "h \<in> set (rp_Hunks r)"
  shows "reviewability_of pp h = HunkUnreviewableLargeText \<longleftrightarrow> \<not> fits en r h"
    "reviewability_of pp h = HunkReviewable \<longleftrightarrow> fits en r h"
  using assms by (simp_all add: marked_as_def)

lemma planned_path_covered:
  assumes "planned (recordPath r) = Some pp" "planned_ok en r pp" "marked_as en True r pp"
  shows "\<exists>q. plan_path_of (map_option update_coverage \<circ> planned) r = [q] \<and> covered_as en r q"
proof -
  have "pq_record pp = r" "pq_pathID pp = PathID (be_H en) (sc_Digest (be_scope en)) r" using assms(2) by (simp_all add: planned_ok_def)
  moreover have "list_ex (\<lambda>h. reviewability_of pp h = HunkUnreviewableLargeText) (rp_Hunks r) \<longleftrightarrow> \<not> list_all (fits en r) (rp_Hunks r)"
    using marked_large(1) [OF assms(3)] by (auto simp: list_ex_iff list_all_iff)
  ultimately show ?thesis using assms(1)
    by (simp add: plan_path_of_def covered_as_def) (simp add: update_coverage_def Let_def)
qed

lemma planned_entry:
  assumes "build_inv en records D planned" "recordPath ` set records \<subseteq> D" "r \<in> set records"
  obtains pp where "planned (recordPath r) = Some pp" "planned_ok en r pp" "marked_as en True r pp"
proof -
  have "recordPath r \<in> D" using assms(2,3) by blast
  with bspec [OF assms(1) [unfolded build_inv_def] assms(3)] that show thesis by auto
qed

lemma paths_covered:
  assumes "build_inv en records D planned" "recordPath ` set records \<subseteq> D"
  shows "list_all2 (covered_as en) records (concat (map (plan_path_of (map_option update_coverage \<circ> planned)) records))"
proof -
  have "list_all2 (covered_as en) rs (concat (map (plan_path_of (map_option update_coverage \<circ> planned)) rs))"
    if "set rs \<subseteq> set records" for rs
    using that
  proof (induction rs)
    case (Cons r rs)
    then have r: "r \<in> set records" by simp
    from planned_entry [OF assms r] obtain pp where "planned (recordPath r) = Some pp" "planned_ok en r pp" "marked_as en True r pp" .
    from planned_path_covered [where planned = planned, OF this] Cons show ?case by (auto simp: comp_def)
  qed simp
  then show ?thesis by blast
qed

lemma reviewable_churn:
  assumes inv: "build_inv en records D planned" "recordPath ` set records \<subseteq> D" and dist: "distinct (map recordPath records)"
  shows "reviewableChurn (planned_list (map recordPath records) (map_option update_coverage \<circ> planned)) = fitting_churn en records"
proof -
  let ?g = "\<lambda>r. sum_list (map hunk_churn (filter (fits en r) (rp_Hunks r)))"
  let ?f = "\<lambda>pp. sum_list (map hunk_churn (filter (\<lambda>h. reviewability_of pp h = HunkReviewable) (rp_Hunks (pq_record pp))))"
  let ?planned = "map_option update_coverage \<circ> planned"
  have one: "\<exists>pp. ?planned (recordPath r) = Some pp \<and> ?f pp = ?g r" if r: "r \<in> set records" for r
  proof -
    from planned_entry [OF inv r] obtain pp where pp: "planned (recordPath r) = Some pp" "planned_ok en r pp" "marked_as en True r pp" .
    have "filter (\<lambda>h. reviewability_of pp h = HunkReviewable) (rp_Hunks r) = filter (fits en r) (rp_Hunks r)"
      using marked_large(2) [OF pp(3)] by (intro filter_cong) simp_all
    with pp show ?thesis by (simp add: planned_ok_def)
  qed
  have sum: "reviewableChurn (List.map_filter ?planned (map recordPath rs)) = sum_list (map ?g rs)" if "set rs \<subseteq> set records" for rs
    using that
  proof (induction rs)
    case (Cons r rs)
    with one [of r] show ?case by (auto simp: reviewableChurn_def)
  qed (simp add: reviewableChurn_def)
  have by_path: "reviewableChurn (List.map_filter ?planned ps) =
      sum_mset (image_mset (\<lambda>p. case ?planned p of None \<Rightarrow> 0 | Some pp \<Rightarrow> ?f pp) (mset ps))" for ps
    by (induction ps) (auto simp: reviewableChurn_def split: option.splits)
  have "mset (sortedUniqueStrings (map recordPath records)) = mset (map recordPath records)"
    using dist sortedUniqueStrings_props [of "map recordPath records"] by (simp only: set_eq_iff_mset_eq_distinct)
  with sum [of records] show ?thesis by (simp add: planned_list_def fitting_churn_def by_path)
qed

lemma Build_valid: "Build H poll p cp view ev = Inr plan \<Longrightarrow> Plan_validate plan = Inr ()"
proof -
  assume "Build H poll p cp view ev = Inr plan"
  then obtain en records st pcs where "finish_plan en cp ev records st pcs = Inr plan" by (rule Build_phases)
  then show ?thesis by (rule finish_plan_parts) simp
qed

section \<open>Ownership\<close>

lemma identified_units:
  assumes "list_all2 (\<lambda>c uss. list_all2 (layer_packed en records) (fc_Layers c) uss) cs unitss"
    "mapS (identify_cohort en) ids (zip cs unitss) = Inr (ids', pcs)"
  shows "map (\<lambda>pc. map pkl_Units (pkc_Layers pc)) pcs = unitss"
proof (rule identify_all [OF assms(2)])
  show "list_all2 (\<lambda>c uss. length uss = length (fc_Layers c)) cs unitss"
    using assms(1) by (rule list_all2_mono) (simp add: list_all2_lengthD)
qed

lemma primary_hunk_ids:
  assumes "mapE (seal_unit cap i) (placed_units pps pcs) = Inr sealed"
    "map (\<lambda>pc. map pkl_Units (pkc_Layers pc)) pcs = unitss" "list_all (unit_ok H pt) (concat (concat unitss))"
  shows "concat (map unit_hunk_ids (map pu_Unit sealed)) = map Public (concat (map pu_HunkIDs (concat (concat unitss))))"
proof -
  have "map unit_hunk_ids (map pu_Unit sealed) = map (\<lambda>u. unit_hunk_ids (pu_Unit u)) (concat (concat unitss))"
    using sealed_hunk_ids [OF assms(1)] by (simp only: placed_hunk_ids assms(2))
  also have "\<dots> = map (\<lambda>u. map Public (pu_HunkIDs u)) (concat (concat unitss))"
  proof (intro map_cong refl)
    fix u assume "u \<in> set (concat (concat unitss))"
    with assms(3) have "unit_ok H pt u" by (simp only: list_all_iff)
    then show "unit_hunk_ids (pu_Unit u) = map Public (pu_HunkIDs u)" by (rule unit_ok_hunk_ids)
  qed
  finally show ?thesis by (simp only: map_concat) (simp add: comp_def)
qed

lemma Build_ok:
  assumes build: "Build H poll p cp view ev = Inr plan"
    and dist: "distinct (map recordPath (cp_Paths cp))" "\<forall>r\<in>set (cp_Paths cp). distinct (map rh_Ordinal (rp_Hunks r))"
  defines "en \<equiv> environment_of H poll p view cp" and "records \<equiv> build_records cp"
  shows "mset (concat (map unit_hunk_ids (pn_PrimaryUnits plan))) = mset (owned_hunk_ids en records)"
    "ps_ReviewableChurn (pn_Stats plan) = fitting_churn en records"
    "list_all2 (covered_as en) records (pn_ChangedPaths plan)"
proof -
  from Build_phases [OF build, folded en_def records_def] obtain st1 st2 unitss ids pcs where
    valid: "paths_validate [] (cp_Paths cp) = Inr ()" and
    planning: "foldE (plan_record en) (start_state p en) records = Inr st1" and
    packing: "mapS (pack_cohort en) st1 (planner_cohorts en (map recordPath records)) = Inr (st2, unitss)" and
    naming: "mapS (identify_cohort en) (bu_ids st2) (zip (planner_cohorts en (map recordPath records)) unitss) = Inr (ids, pcs)" and
    finish: "finish_plan en cp ev records (st2\<lparr>bu_ids := ids\<rparr>) pcs = Inr plan" .
  let ?cs = "planner_cohorts en (map recordPath records)"
  have perm: "mset records = mset (cp_Paths cp)" by (simp add: records_def build_records_def)
  then have set: "set records = set (cp_Paths cp)" by (rule mset_eq_setD)
  have "mset (map recordPath records) = mset (map recordPath (cp_Paths cp))" using perm by simp
  from mset_eq_imp_distinct_iff [OF this] dist(1) have d1: "distinct (map recordPath records)" by blast
  have d2: "\<forall>r\<in>set records. distinct (map rh_Ordinal (rp_Hunks r))" using dist(2) set by simp
  have named: "[] \<notin> set (map recordPath records)" using paths_validate_named [OF valid] set by simp
  have cover: "mset (concat (map cohort_paths ?cs)) = mset (map recordPath records)" by (rule cohorts_cover [OF named d1])
  have cov: "\<Union> (set ` cohort_paths ` set ?cs) = recordPath ` set records" using mset_eq_setD [OF cover] by simp
  have "build_inv en [] {} (bu_planned (start_state p en))" by (simp add: build_inv_def)
  from plan_records_inv [OF planning this] d1 d2 have inv1: "build_inv en records {} (bu_planned st1)" by simp
  from pack_cohorts_inv [OF d1 d2 inv1 _ packing] cov
  have inv2: "build_inv en records (recordPath ` set records) (bu_planned st2)"
    and units: "list_all2 (\<lambda>c uss. list_all2 (layer_packed en records) (fc_Layers c) uss) ?cs unitss" by simp_all
  from finish_plan_parts [OF finish] obtain rid :: stable_id and sealed where
    sealed: "mapE (seal_unit (mandatoryCap (be_planner en)) (Public rid))
      (placed_units (planned_list (map recordPath records) (bu_planned st2)) pcs) = Inr sealed"
      "pn_PrimaryUnits plan = map pu_Unit sealed"
    and churn: "ps_ReviewableChurn (pn_Stats plan) =
      reviewableChurn (planned_list (map recordPath records) (map_option update_coverage \<circ> bu_planned st2))"
    and paths: "pn_ChangedPaths plan = concat (map (plan_path_of (map_option update_coverage \<circ> bu_planned st2)) records)"
    by simp blast
  note ids = cohorts_ids [OF units]
  have "mset (concat (map unit_hunk_ids (pn_PrimaryUnits plan))) = mset (map Public (concat (map pu_HunkIDs (concat (concat unitss)))))"
    unfolding sealed(2) using primary_hunk_ids [OF sealed(1) identified_units [OF units naming]] ids by metis
  also have "\<dots> = mset (map Public (reviewable_ids en records (concat (map cohort_paths ?cs))))" using ids by (simp only: mset_map)
  also have "\<dots> = mset (map Public (reviewable_ids en records (map recordPath records)))"
    by (simp only: mset_map reviewable_ids_mset [OF cover])
  finally show "mset (concat (map unit_hunk_ids (pn_PrimaryUnits plan))) = mset (owned_hunk_ids en records)"
    by (simp only: reviewable_records [OF d1])
  show "ps_ReviewableChurn (pn_Stats plan) = fitting_churn en records"
    unfolding churn by (rule reviewable_churn [OF inv2 order_refl d1])
  show "list_all2 (covered_as en) records (pn_ChangedPaths plan)"
    unfolding paths by (rule paths_covered [OF inv2 order_refl])
qed

text \<open>C5: in a plan built from a capture every hunk whose unit fits the byte cap is owned by exactly one
  primary unit and no other hunk is; the reviewable churn counts exactly these hunks, and a changed
  text file is fully covered exactly when all of its hunks are owned.\<close>

theorem Build_owns_hunks:
  assumes "Build H poll p cp view ev = Inr plan"
    and "distinct (map recordPath (cp_Paths cp))" "\<forall>r\<in>set (cp_Paths cp). distinct (map rh_Ordinal (rp_Hunks r))"
  defines "en \<equiv> environment_of H poll p view cp" and "records \<equiv> sortedPathRecords (cp_Paths cp)"
  shows "mset (concat (map unit_hunk_ids (pn_PrimaryUnits plan))) = mset (owned_hunk_ids en records) \<and>
     ps_ReviewableChurn (pn_Stats plan) = fitting_churn en records \<and>
     list_all2 (covered_as en) records (pn_ChangedPaths plan)"
  using Build_ok [OF assms(1-3)] unfolding en_def records_def build_records_def by blast

end
