(* ===== verification/Registry.thy ===== *)
theory Registry
  imports Planner
begin

text \<open>
  The registry of identifiers that \<open>Planner.Build\<close> keeps (\<open>checkedIDSet\<close> in \<open>internal/review/plan.go\<close>)
  as an interface: what an insertion promises, and what a client that inserts a list may rely on.
  The second half is the calculus in which the success of \<open>Build\<close> is proved: an outcome is a result
  with a property, or the error of an identifier collision where one is possible.
\<close>

section \<open>The interface\<close>

locale id_registry =
  fixes insert :: "'s \<Rightarrow> stable_id \<Rightarrow> 's result" and find :: "'s \<Rightarrow> string \<rightharpoonup> stable_id"
  assumes insert_finds: "insert s i = Inr t \<Longrightarrow> \<exists>j. find t (Public i) = Some j \<and> Full j = Full i"
    and insert_keeps: "insert s i = Inr t \<Longrightarrow> find s p = Some j \<Longrightarrow> find t p = Some j"
begin

lemma inserts_keep: "foldE insert s is = Inr t \<Longrightarrow> find s p = Some j \<Longrightarrow> find t p = Some j"
proof (induction "is" arbitrary: s)
  case (Cons i "is")
  from Cons.prems(1) obtain u where "insert s i = Inr u" "foldE insert u is = Inr t" by auto
  with Cons.IH Cons.prems(2) insert_keeps show ?case by blast
qed simp

lemma inserts_find: "foldE insert s is = Inr t \<Longrightarrow> i \<in> set is \<Longrightarrow> \<exists>j. find t (Public i) = Some j \<and> Full j = Full i"
proof (induction "is" arbitrary: s)
  case (Cons k "is")
  from Cons.prems(1) obtain u where u: "insert s k = Inr u" "foldE insert u is = Inr t" by auto
  show ?case
  proof (cases "i \<in> set is")
    case True
    with Cons.IH u(2) show ?thesis by blast
  next
    case False
    with Cons.prems(2) insert_finds [OF u(1)] inserts_keep [OF u(2)] show ?thesis by auto
  qed
qed simp

text \<open>Identifiers that were all accepted are told apart by their public form.\<close>

lemma inserts_unambiguous:
  assumes "foldE insert s is = Inr t" "i \<in> set is" "j \<in> set is" "Public i = Public j"
  shows "Full i = Full j"
  using inserts_find [OF assms(1,2)] inserts_find [OF assms(1,3)] assms(4) by auto

end

section \<open>The checked set provides it\<close>

lemma ids_insert_Inr:
  "ids_insert s i = Inr t \<longleftrightarrow> (let candidate = (case ck_probe s of None \<Rightarrow> i | Some probe \<Rightarrow> probe i) in
     \<not> clashes (ck_byPublic s) i \<and> \<not> clashes (ck_probes s) candidate \<and>
     t = s\<lparr>ck_byPublic := put_new (ck_byPublic s) i, ck_probes := put_new (ck_probes s) candidate\<rparr>)"
  by (auto simp: ids_insert_def Let_def split: if_splits)

lemma put_new_finds: "\<not> clashes m i \<Longrightarrow> \<exists>j. put_new m i (Public i) = Some j \<and> Full j = Full i"
  by (auto simp: put_new_def clashes_def split: option.splits)

lemma put_new_keeps: "m p = Some j \<Longrightarrow> put_new m i p = Some j"
  by (auto simp: put_new_def)

lemma insert_id_Inr: "insert_id path s i = Inr t \<longleftrightarrow> ids_insert s i = Inr t"
  by (simp add: insert_id_def)

interpretation ids: id_registry ids_insert ck_byPublic
proof unfold_locales
  fix s t :: checked_ids and i :: stable_id assume "ids_insert s i = Inr t"
  then show "\<exists>j. ck_byPublic t (Public i) = Some j \<and> Full j = Full i"
    using put_new_finds by (auto simp: ids_insert_Inr Let_def)
next
  fix s t :: checked_ids and i j :: stable_id and p assume "ids_insert s i = Inr t" "ck_byPublic s p = Some j"
  then show "ck_byPublic t p = Some j" using put_new_keeps by (auto simp: ids_insert_Inr Let_def)
qed

interpretation named_ids: id_registry "insert_id path" ck_byPublic for path
  by unfold_locales (auto simp: insert_id_Inr intro: ids.insert_finds ids.insert_keeps)

text \<open>identifiers accepted one after the other by the checked set have distinct public forms unless
  their full digests agree: a collision of the shortened identifiers never goes unnoticed.\<close>

theorem ids_insert_unambiguous:
  assumes "foldE ids_insert s is = Inr t" "i \<in> set is" "j \<in> set is" "Public i = Public j"
  shows "Full i = Full j"
  by (rule ids.inserts_unambiguous [OF assms])

lemma ids_insert_unambiguous_witness:
  "\<exists>t. foldE ids_insert (newCheckedIDSet None) [public_id ''p_'' 1 16, public_id ''p_'' 1 16] = Inr t \<and>
     Full (public_id ''p_'' 1 16) = Full (public_id ''p_'' 1 16)"
proof -
  have "\<exists>t. foldE ids_insert (newCheckedIDSet None) [public_id ''p_'' 1 16, public_id ''p_'' 1 16] = Inr t"
    by (simp add: ids_insert_def newCheckedIDSet_def clashes_def put_new_def Let_def)
  then obtain t where t: "foldE ids_insert (newCheckedIDSet None) [public_id ''p_'' 1 16, public_id ''p_'' 1 16] = Inr t" ..
  from ids_insert_unambiguous [OF t, of "public_id ''p_'' 1 16" "public_id ''p_'' 1 16"] t show ?thesis by auto
qed

section \<open>When no collision is possible\<close>

text \<open>The identifiers of the planner: a prefix and the first bytes of a digest.\<close>

definition derived_id :: "stable_id \<Rightarrow> bool" where
  "derived_id i \<longleftrightarrow> (\<exists>d. i = public_id ReviewIDPrefixV1 d 20) \<or>
     (\<exists>prefix d. prefix \<in> {PathIDPrefixV1, HunkIDPrefixV1, UnitIDPrefixV1, CohortIDPrefixV1, LayerIDPrefixV1, TargetIDPrefixV1} \<and>
        i = public_id prefix d 16)"

text \<open>The digests of a set whose first 16 bytes tell them apart.\<close>

definition prefix_free :: "(bytes \<Rightarrow> digest) \<Rightarrow> bool" where
  "prefix_free H \<longleftrightarrow> (\<forall>x y. take 16 (digest_bytes (H x)) = take 16 (digest_bytes (H y)) \<longrightarrow> H x = H y)"

definition id_from :: "(bytes \<Rightarrow> digest) \<Rightarrow> stable_id \<Rightarrow> bool" where
  "id_from H i \<longleftrightarrow> derived_id i \<and> Full i \<in> range H"

lemma take_16_20: "take 20 xs = take 20 ys \<Longrightarrow> take 16 xs = take 16 (ys :: 'a list)"
  by (drule arg_cong [where f = "take 16"]) simp

lemma id_from_unambiguous:
  assumes "prefix_free H" "id_from H i" "id_from H j" "Public i = Public j"
  shows "Full i = Full j"
proof -
  have "take 16 (digest_bytes (Full i)) = take 16 (digest_bytes (Full j))"
    using assms(2-4) take_16_20 by (auto simp: id_from_def derived_id_def)
  then show ?thesis using assms(1-3) by (auto simp: prefix_free_def id_from_def)
qed

section \<open>Outcomes\<close>

definition collision_error :: "gerror \<Rightarrow> bool" where
  "collision_error e \<longleftrightarrow> (\<exists>path public. e = PlanError PlanErrorIdentity path (IDCollisionError public))"

text \<open>\<open>outcome c P m\<close>: a value with the property, or a collision, which only \<open>c\<close> allows.\<close>

definition outcome :: "bool \<Rightarrow> ('a \<Rightarrow> bool) \<Rightarrow> 'a result \<Rightarrow> bool" where
  "outcome c P m \<longleftrightarrow> (case m of Inl e \<Rightarrow> c \<and> collision_error e | Inr x \<Rightarrow> P x)"

lemma outcome_simps [simp]: "outcome c P (Inr x) = P x" "outcome c P (Inl e) = (c \<and> collision_error e)"
  by (simp_all add: outcome_def)

lemma outcome_bindE: "outcome c P m \<Longrightarrow> (\<And>x. m = Inr x \<Longrightarrow> P x \<Longrightarrow> outcome c Q (f x)) \<Longrightarrow> outcome c Q (bindE m f)"
  by (cases m) auto

lemma outcome_mono: "outcome c P m \<Longrightarrow> (\<And>x. m = Inr x \<Longrightarrow> P x \<Longrightarrow> Q x) \<Longrightarrow> outcome c Q m"
  by (cases m) auto

lemma outcome_conj: "outcome c P m \<Longrightarrow> (\<And>x. m = Inr x \<Longrightarrow> Q x) \<Longrightarrow> outcome c (\<lambda>x. P x \<and> Q x) m"
  by (cases m) auto

lemma outcome_foldE:
  "P s \<Longrightarrow> (\<And>s x. x \<in> set xs \<Longrightarrow> P s \<Longrightarrow> outcome c P (f s x)) \<Longrightarrow> outcome c P (foldE f s xs)"
proof (induction xs arbitrary: s)
  case (Cons x xs)
  have "outcome c P (f s x)" using Cons.prems by simp
  then show ?case using Cons by (auto intro: outcome_bindE)
qed simp

lemma outcome_mapS_acc:
  "P s zs \<Longrightarrow> (\<And>s zs x. x \<in> set xs \<Longrightarrow> P s zs \<Longrightarrow> outcome c (\<lambda>(t, y). P t (zs @ [y])) (f s x)) \<Longrightarrow>
   outcome c (\<lambda>(t, ys). P t (zs @ ys)) (mapS f s xs)"
proof (induction xs arbitrary: s zs)
  case (Cons x xs)
  have step: "outcome c (\<lambda>(t, y). P t (zs @ [y])) (f s x)" using Cons.prems by simp
  have "outcome c (\<lambda>(t, ys). P t (zs @ [y] @ ys)) (mapS f t xs)" if "P t (zs @ [y])" for t y
    using Cons.IH [OF that] Cons.prems(2) by simp
  then show ?case
    by (auto intro!: outcome_bindE [OF step] outcome_bindE elim!: outcome_mono)
qed simp

lemma outcome_mapS:
  assumes "P s []" "\<And>s zs x. x \<in> set xs \<Longrightarrow> P s zs \<Longrightarrow> outcome c (\<lambda>(t, y). P t (zs @ [y])) (f s x)"
  shows "outcome c (\<lambda>(t, ys). P t ys) (mapS f s xs)"
  using outcome_mapS_acc [of P s "[]" xs c f] assms by simp

section \<open>Insertions in the calculus\<close>

text \<open>Unless a collision is possible, the set holds identifiers of digests of \<open>H\<close> only, and no probe.\<close>

definition ids_inv :: "bool \<Rightarrow> (bytes \<Rightarrow> digest) \<Rightarrow> checked_ids \<Rightarrow> bool" where
  "ids_inv c H s \<longleftrightarrow> c \<or> prefix_free H \<and> ck_probe s = None \<and>
     (\<forall>p j. ck_byPublic s p = Some j \<or> ck_probes s p = Some j \<longrightarrow> Public j = p \<and> id_from H j)"

definition known :: "checked_ids \<Rightarrow> string \<Rightarrow> bool" where
  "known s p \<longleftrightarrow> ck_byPublic s p \<noteq> None"

lemma clashes_from:
  assumes "prefix_free H" "\<forall>p j. m p = Some j \<longrightarrow> Public j = p \<and> id_from H j" "id_from H i"
  shows "\<not> clashes m i"
  using id_from_unambiguous [OF assms(1) _ assms(3)] assms(2) by (auto simp: clashes_def split: option.splits)

lemma insert_id_outcome:
  assumes "ids_inv c H s" "id_from H i"
  shows "outcome c (\<lambda>t. ids_inv c H t \<and> known t (Public i) \<and> (\<forall>p. known s p \<longrightarrow> known t p)) (insert_id path s i)"
proof (cases "ids_insert s i")
  case (Inl e)
  have c: c
  proof (rule ccontr)
    assume "\<not> c"
    with assms(1) have "prefix_free H" "ck_probe s = None"
      "\<forall>p j. ck_byPublic s p = Some j \<longrightarrow> Public j = p \<and> id_from H j" "\<forall>p j. ck_probes s p = Some j \<longrightarrow> Public j = p \<and> id_from H j"
      by (auto simp: ids_inv_def)
    with clashes_from assms(2) Inl show False by (simp add: ids_insert_def)
  qed
  have "\<exists>public. e = IDCollisionError public" using Inl by (auto simp: ids_insert_def Let_def split: if_splits)
  with Inl c show ?thesis by (auto simp: insert_id_def wrapE_def collision_error_def)
next
  case (Inr t)
  have "ids_inv c H t" using assms Inr by (auto simp: ids_inv_def ids_insert_Inr Let_def put_new_def split: if_splits)
  with ids.insert_finds [OF Inr] ids.insert_keeps [OF Inr] Inr show ?thesis
    by (auto simp: insert_id_def wrapE_def known_def)
qed

lemma insert_ids_outcome:
  assumes "ids_inv c H s" "\<forall>i\<in>set is. id_from H i"
  shows "outcome c (\<lambda>t. ids_inv c H t \<and> (\<forall>i\<in>set is. known t (Public i)) \<and> (\<forall>p. known s p \<longrightarrow> known t p)) (insert_ids path s is)"
  using assms
proof (induction "is" arbitrary: s)
  case (Cons i "is")
  then have i: "id_from H i" by simp
  show ?case unfolding insert_ids_def foldE.simps
  proof (rule outcome_bindE [OF insert_id_outcome [OF Cons.prems(1) i]])
    fix t assume "ids_inv c H t \<and> known t (Public i) \<and> (\<forall>p. known s p \<longrightarrow> known t p)"
    with Cons.IH [of t] Cons.prems(2) show "outcome c (\<lambda>t. ids_inv c H t \<and> (\<forall>i\<in>set (i # is). known t (Public i)) \<and>
      (\<forall>p. known s p \<longrightarrow> known t p)) (foldE (insert_id path) t is)"
      by (auto simp: insert_ids_def elim: outcome_mono)
  qed
qed (simp add: insert_ids_def)

lemma ids_inv_new: "\<not> c \<longrightarrow> prefix_free H \<and> probe = None \<Longrightarrow> ids_inv c H (newCheckedIDSet probe)"
  by (auto simp: ids_inv_def newCheckedIDSet_def)

text \<open>Every identifier of the planner is derived from a digest.\<close>

lemma planner_ids [simp]:
  "id_from H (PathID H s r)" "id_from H (HunkID H s p h)" "id_from H (UnitID H k hs)" "id_from H (CohortID H s l us)"
  "id_from H (LayerID H c n us)" "id_from H (TargetID H t)" "id_from H (ReviewID H pi)"
  by (auto simp: id_from_def derived_id_def PathID_def HunkID_def UnitID_def CohortID_def LayerID_def TargetID_def
      ReviewID_def ReviewPlanDigest_def)

lemma lookups_known: "\<forall>p\<in>set ps. known s p \<Longrightarrow> \<exists>is. mapE (ids_lookup s) ps = Inr is"
  by (induction ps) (auto simp: known_def ids_lookup_def)

end
