(* ===== verification/Success.thy ===== *)
theory Success
  imports Ownership Registry
begin

text \<open>
  \<open>Planner.Build\<close> returns a plan.  For a capture whose records are named, have a status and non-empty
  payloads, and whose sources can be read, the only error left is a collision of identifiers; none
  of the invariant errors of \<open>internal/review/plan.go\<close> can occur.  The proof runs through the phases
  with the outcomes of \<open>Registry\<close>; that the packing keeps its books is shown in \<open>Ownership\<close>.
\<close>

section \<open>Captures\<close>

definition record_ok :: "head_view option \<Rightarrow> raw_path_record \<Rightarrow> bool" where
  "record_ok view r \<longleftrightarrow> recordPath r \<noteq> [] \<and> rp_Status r \<noteq> [] \<and> distinct (map rh_Ordinal (rp_Hunks r)) \<and>
     (\<forall>h\<in>set (rp_Hunks r). rh_Payload h \<noteq> []) \<and>
     (rp_TextClass r = TextClassText \<and> rp_Hunks r \<noteq> [] \<longrightarrow> (\<exists>sources. readPlanningSources view r = Inr sources))"

definition hunk_ids :: "build_env \<Rightarrow> raw_path_record list \<Rightarrow> string list" where
  "hunk_ids en records = concat (map (\<lambda>r. map (\<lambda>h. Public (hunk_of_plan en r h)) (rp_Hunks r)) records)"

section \<open>The records\<close>

definition entry_ids :: "planned_path \<Rightarrow> string set" where
  "entry_ids pp = insert (Public (pq_pathID pp))
     ((\<lambda>h. Public (hunk_id_of pp h)) ` set (rp_Hunks (pq_record pp)) \<union> (\<lambda>t. Public (tg_ID t)) ` set (pq_semantic pp))"

definition entry_ok :: "checked_ids \<Rightarrow> planned_path \<Rightarrow> bool" where
  "entry_ok ids pp \<longleftrightarrow> (\<forall>i\<in>entry_ids pp. known ids i) \<and> validReviewClass (pq_class pp) \<and> validPathCoverage (pq_coverage pp)"

definition entries_ok :: "checked_ids \<Rightarrow> planned \<Rightarrow> bool" where
  "entries_ok ids planned \<longleftrightarrow> (\<forall>p pp. planned p = Some pp \<longrightarrow> entry_ok ids pp)"

lemma entries_ok_more: "entries_ok ids planned \<Longrightarrow> \<forall>p. known ids p \<longrightarrow> known ids' p \<Longrightarrow> entries_ok ids' planned"
  by (auto simp: entries_ok_def entry_ok_def)

lemma classify_valid: "classifyPlanPath r roles = (class, coverage, reason) \<Longrightarrow> validReviewClass class \<and> validPathCoverage coverage"
  by (auto simp: classifyPlanPath_def Let_def validReviewClass_def validPathCoverage_def split: if_splits)

lemma planned_of_entry:
  fixes ids :: checked_ids
  assumes "known ids (Public (PathID (be_H en) (sc_Digest (be_scope en)) r))"
    "\<forall>h\<in>set (rp_Hunks r). known ids (Public (hunk_of_plan en r h))" "\<forall>t\<in>set sem. known ids (Public (tg_ID t))"
    "distinct (map rh_Ordinal (rp_Hunks r))" "map hm_Hunk ms = rp_Hunks r"
  shows "entry_ok ids (planned_of en r ms oms sem)"
proof -
  let ?roles = "if ff_Roles (factsOf (be_enrichment en) (recordPath r)) = [] then [RoleUnknown]
      else ff_Roles (factsOf (be_enrichment en) (recordPath r))"
  obtain c cov re where cl: "classifyPlanPath r ?roles = (c, cov, re)" by (cases "classifyPlanPath r ?roles")
  have pp: "pq_class (planned_of en r ms oms sem) = c" "pq_coverage (planned_of en r ms oms sem) = cov"
    "pq_semantic (planned_of en r ms oms sem) = sem"
    unfolding planned_of_def Let_def cl by simp_all
  show ?thesis using planned_of_ok(1) [OF assms(4,5), of en oms sem] assms(1-3) classify_valid [OF cl]
    by (auto simp: entry_ok_def entry_ids_def pp planned_ok_def)
qed

lemma dedupe_subset: "set (dedupeSemanticTargets ts) \<subseteq> set ts"
  by (induction ts rule: dedupeSemanticTargets.induct) auto

lemma semantic_ids: "t \<in> set (semanticTargets H pid ms) \<Longrightarrow> id_from H (tg_ID t)"
proof -
  assume "t \<in> set (semanticTargets H pid ms)"
  then have "\<exists>k base head. t \<in> set (mapping_targets H pid base head k)"
    using dedupe_subset by (fastforce simp: semanticTargets_def split: list.splits)
  then have "\<exists>k s p y. t = makeSemanticTarget H k s p y"
    by (auto simp: mapping_targets_def base_targets_def head_targets_def Let_def split: if_splits)
  then show ?thesis by (auto simp: makeSemanticTarget_def Let_def)
qed

lemma plan_record_outcome:
  assumes "ids_inv c (be_H en) (bu_ids st)" "entries_ok (bu_ids st) (bu_planned st)" "record_ok (be_view en) r"
  shows "outcome c (\<lambda>st'. ids_inv c (be_H en) (bu_ids st') \<and> entries_ok (bu_ids st') (bu_planned st')) (plan_record en st r)"
proof -
  let ?H = "be_H en" and ?d = "sc_Digest (be_scope en)"
  let ?pid = "PathID ?H ?d r"
  have ids: "\<forall>i\<in>set (?pid # map (HunkID ?H ?d (Full ?pid)) (rp_Hunks r)). id_from ?H i" by auto
  have sources: "\<exists>b h. (if rp_TextClass r = TextClassText \<and> rp_Hunks r \<noteq> []
      then wrapE (PlanError PlanErrorSource (recordPath r)) (readPlanningSources (be_view en) r) else Inr ([], [])) = Inr (b, h)"
    using assms(3) by (auto simp: record_ok_def)
  then obtain b h where bh: "(if rp_TextClass r = TextClassText \<and> rp_Hunks r \<noteq> []
      then wrapE (PlanError PlanErrorSource (recordPath r)) (readPlanningSources (be_view en) r) else Inr ([], [])) = Inr (b, h)" by blast
  obtain ms oms where map: "SymbolMapper_Map (py_SymbolMapper (be_planner en)) r b h = (ms, oms)" by fastforce
  have hunks: "map hm_Hunk ms = rp_Hunks r" using map_hunks [of "py_SymbolMapper (be_planner en)" r b h] map by simp
  let ?sem = "semanticTargets ?H ?pid ms"
  have sem: "\<forall>i\<in>set (map tg_ID ?sem). id_from ?H i" by (auto simp: semantic_ids)
  show ?thesis unfolding plan_record_def Let_def
  proof (rule outcome_bindE [OF insert_ids_outcome [OF assms(1) ids]])
    fix ids1 assume one: "ids_inv c ?H ids1 \<and> (\<forall>i\<in>set (?pid # map (HunkID ?H ?d (Full ?pid)) (rp_Hunks r)). known ids1 (Public i)) \<and>
      (\<forall>p. known (bu_ids st) p \<longrightarrow> known ids1 p)"
    show "outcome c (\<lambda>st'. ids_inv c ?H (bu_ids st') \<and> entries_ok (bu_ids st') (bu_planned st'))
      (bindE (if rp_TextClass r = TextClassText \<and> rp_Hunks r \<noteq> []
          then wrapE (PlanError PlanErrorSource (recordPath r)) (readPlanningSources (be_view en) r) else Inr ([], []))
        (\<lambda>(base, head). case SymbolMapper_Map (py_SymbolMapper (be_planner en)) r base head of (mappings, omissions) \<Rightarrow>
          bindE (insert_ids (recordPath r) ids1 (map tg_ID (semanticTargets ?H ?pid mappings)))
            (\<lambda>ids. Inr \<lparr>bu_ids = ids, bu_attention = bu_attention st @ pq_signals (planned_of en r mappings omissions (semanticTargets ?H ?pid mappings)),
              bu_planned = (bu_planned st)(recordPath r \<mapsto> planned_of en r mappings omissions (semanticTargets ?H ?pid mappings))\<rparr>)))"
      unfolding bh bindE_simps prod.case map
    proof (rule outcome_bindE [OF insert_ids_outcome [OF conjunct1 [OF one] sem]])
      fix ids2 assume two: "ids_inv c ?H ids2 \<and> (\<forall>i\<in>set (map tg_ID ?sem). known ids2 (Public i)) \<and> (\<forall>p. known ids1 p \<longrightarrow> known ids2 p)"
      have "entry_ok ids2 (planned_of en r ms oms ?sem)"
        using one two assms(3) hunks by (intro planned_of_entry) (auto simp: hunk_of_plan_def record_ok_def)
      moreover have "entries_ok ids2 (bu_planned st)" using entries_ok_more [OF assms(2)] one two by blast
      ultimately show "outcome c (\<lambda>st'. ids_inv c ?H (bu_ids st') \<and> entries_ok (bu_ids st') (bu_planned st'))
        (Inr \<lparr>bu_ids = ids2, bu_attention = bu_attention st @ pq_signals (planned_of en r ms oms ?sem),
           bu_planned = (bu_planned st)(recordPath r \<mapsto> planned_of en r ms oms ?sem)\<rparr>)"
        using two by (auto simp: entries_ok_def)
    qed
  qed
qed

lemma plan_records_outcome:
  assumes "ids_inv c (be_H en) (bu_ids st)" "bu_planned st = Map.empty" "\<forall>r\<in>set rs. record_ok (be_view en) r"
  shows "outcome c (\<lambda>st'. ids_inv c (be_H en) (bu_ids st') \<and> entries_ok (bu_ids st') (bu_planned st')) (foldE (plan_record en) st rs)"
  using assms plan_record_outcome by (intro outcome_foldE) (auto simp: entries_ok_def)

section \<open>The units of a layer\<close>

text \<open>The units of a partition are made of its hunks.\<close>

definition made_of :: "(bytes \<Rightarrow> digest) \<Rightarrow> partition \<Rightarrow> pack_hunk set \<Rightarrow> packed_unit \<Rightarrow> bool" where
  "made_of H pt S u \<longleftrightarrow> (\<exists>kind items. items \<noteq> [] \<and> set items \<subseteq> S \<and> u = makePackedUnit H pt kind items)"

definition packing_from :: "(bytes \<Rightarrow> digest) \<Rightarrow> partition \<Rightarrow> pack_hunk set \<Rightarrow> pack_state \<Rightarrow> bool" where
  "packing_from H pt S st \<longleftrightarrow> set (pk_current st) \<subseteq> S \<and> list_all (made_of H pt S) (pk_packed st)"

lemma flush_from: "packing_from H pt S st \<Longrightarrow> packing_from H pt S (pack_flush H pt kind st)"
  by (auto simp: packing_from_def pack_flush_def made_of_def)

lemma group_from: "packing_from H pt S st \<Longrightarrow> h \<in> S \<Longrightarrow> packing_from H pt S (pack_group H pt [h] st)"
  using flush_from [of H pt S st UnitKindNormal]
  by (auto simp: pack_group_def Let_def packing_from_def intro!: flush_from [unfolded packing_from_def, THEN conjunct1]
      flush_from [unfolded packing_from_def, THEN conjunct2])

lemma groups_from: "packing_from H pt S st \<Longrightarrow> set hs \<subseteq> S \<Longrightarrow> packing_from H pt S (fold (pack_group H pt) (packGroups hs) st)"
  by (induction hs arbitrary: st) (auto simp: packGroups_def group_from)

lemma units_made_of: "PackReviewPartition H pt hs = Inr (packed, large) \<Longrightarrow> list_all (made_of H pt (set hs)) packed"
proof -
  assume pack: "PackReviewPartition H pt hs = Inr (packed, large)"
  let ?st = "\<lparr>pk_packed = [], pk_large = [], pk_current = []\<rparr>"
  have "packing_from H pt (set hs) (pack_flush H pt UnitKindNormal (fold (pack_group H pt) (packGroups hs) ?st))"
    by (intro flush_from groups_from) (simp_all add: packing_from_def)
  with pack show ?thesis by (auto simp: PackReviewPartition_def Let_def packing_from_def split: if_splits)
qed

text \<open>A unit whose placeholders are still to be filled in, but which is valid otherwise and small enough.\<close>

definition unit_sound :: "build_env \<Rightarrow> packed_unit \<Rightarrow> bool" where
  "unit_sound en u \<longleftrightarrow> (let v = pu_Unit u; s = be_scope en in
     ru_Schema v = UnitSchemaV1 \<and> ru_UnitID v = Public (pu_UnitStable u) \<and> id_from (be_H en) (pu_UnitStable u) \<and>
     ru_ReviewID v = placeholderID ''rvw_'' 40 \<and> ru_CohortID v = placeholderID ''c_'' 32 \<and> ru_LayerID v = placeholderID ''l_'' 32 \<and>
     ru_ScopeKind v = sc_Kind s \<and> ru_ObjectFormat v = sc_ObjectFormat s \<and> ru_Base v = sc_Base s \<and> ru_Head v = sc_Head s \<and>
     ru_Hunks v \<noteq> [] \<and> (\<forall>h\<in>set (ru_Hunks v). \<forall>i n. unit_hunk_validate i n h = Inr ()) \<and>
     int (length (CanonicalMandatoryJSON v)) \<le> mandatoryCap (be_planner en))"

lemma b64_encode_ne: "bs \<noteq> [] \<Longrightarrow> b64_encode bs \<noteq> []"
  by (induction bs rule: b64_encode.induct) (auto simp: Let_def)

lemma unit_hunk_valid:
  assumes "Public (ph_HunkID i) \<noteq> []" "ph_PathID i \<noteq> []" "record_ok view (ph_Path i)" "ph_Hunk i \<in> set (rp_Hunks (ph_Path i))"
  shows "unit_hunk_validate j n (pack_unit_hunk H d i) = Inr ()"
proof -
  have "rh_Payload (ph_Hunk i) \<noteq> []" "recordPath (ph_Path i) \<noteq> []" "rp_Status (ph_Path i) \<noteq> []"
    using assms(3,4) by (auto simp: record_ok_def)
  then show ?thesis using assms(1,2) b64_encode_ne
    by (auto simp: unit_hunk_validate_def Let_def pack_unit_hunk_def pack_hunk_id_def pack_path_id_def recordPath_def split: if_splits)
qed

lemma unit_sound_made:
  assumes "made_of (be_H en) (layer_partition en) S u" "unit_ok (be_H en) (layer_partition en) u"
    "\<forall>i\<in>S. Public (ph_HunkID i) \<noteq> [] \<and> ph_PathID i \<noteq> [] \<and> record_ok view (ph_Path i) \<and> ph_Hunk i \<in> set (rp_Hunks (ph_Path i))"
  shows "unit_sound en u"
proof -
  from assms(1) obtain kind items where u: "items \<noteq> []" "set items \<subseteq> S" "u = makePackedUnit (be_H en) (layer_partition en) kind items"
    by (auto simp: made_of_def)
  have "\<forall>i\<in>set items. \<forall>j n d. unit_hunk_validate j n (pack_unit_hunk (be_H en) d i) = Inr ()"
    using unit_hunk_valid assms(3) u(2) by blast
  moreover have "int (length (CanonicalMandatoryJSON (pu_Unit u))) \<le> mandatoryCap (be_planner en)"
    using assms(2) by (auto simp: unit_ok_def unit_size_def layer_partition_def)
  ultimately show ?thesis using u(1)
    unfolding unit_sound_def Let_def u(3)
    by (simp add: makePackedUnit_def Let_def layer_partition_def fixedOrPlaceholder_def placeholderID_def)
qed

section \<open>Packing succeeds\<close>

lemma distinct_concatD:
  "distinct (concat (map f xs)) \<Longrightarrow> x \<in> set xs \<Longrightarrow> distinct (f x)"
  "distinct (concat (map f xs)) \<Longrightarrow> x \<in> set xs \<Longrightarrow> y \<in> set xs \<Longrightarrow> x \<noteq> y \<Longrightarrow> set (f x) \<inter> set (f y) = {}"
  by (induction xs) auto

lemma distinct_concatI:
  "distinct xs \<Longrightarrow> (\<And>x. x \<in> set xs \<Longrightarrow> distinct (f x)) \<Longrightarrow>
   (\<And>x y. x \<in> set xs \<Longrightarrow> y \<in> set xs \<Longrightarrow> x \<noteq> y \<Longrightarrow> set (f x) \<inter> set (f y) = {}) \<Longrightarrow> distinct (concat (map f xs))"
proof (induction xs)
  case (Cons a xs)
  have "set (f a) \<inter> set (f y) = {}" if "y \<in> set xs" for y using Cons.prems(1) that by (intro Cons.prems(3)) auto
  then have "set (f a) \<inter> set (concat (map f xs)) = {}" by auto
  with Cons show ?case by simp
qed simp

lemma layer_ids_distinct:
  assumes "distinct (map recordPath records)" "build_inv en records D planned" "set ps \<subseteq> recordPath ` set records" "distinct ps"
    and "distinct (hunk_ids en records)"
  shows "distinct (map (\<lambda>i. Public (ph_HunkID i)) (partitionPackHunks ps planned))"
proof -
  let ?rec = "record_of records" and ?f = "\<lambda>r. map (\<lambda>h. Public (hunk_of_plan en r h)) (rp_Hunks r)"
  have rec: "\<forall>p\<in>set ps. ?rec p \<in> set records \<and> recordPath (?rec p) = p" using record_of(2) [OF assms(1)] assms(3) by blast
  have dr: "distinct (map ?rec ps)" using assms(4) rec unfolding distinct_map inj_on_def by metis
  have "distinct (concat (map ?f (map ?rec ps)))"
  proof (rule distinct_concatI [OF dr])
    note parts = distinct_concatD [OF assms(5) [unfolded hunk_ids_def]]
    have sub: "r \<in> set records" if "r \<in> set (map ?rec ps)" for r using that rec by auto
    show "distinct (?f r)" if "r \<in> set (map ?rec ps)" for r by (rule parts(1) [OF sub [OF that]])
    show "set (?f r) \<inter> set (?f q) = {}" if "r \<in> set (map ?rec ps)" "q \<in> set (map ?rec ps)" "r \<noteq> q" for r q
      by (rule parts(2) [OF sub [OF that(1)] sub [OF that(2)] that(3)])
  qed
  moreover have "mset (map (\<lambda>i. Public (ph_HunkID i)) (partitionPackHunks ps planned)) = mset (concat (map ?f (map ?rec ps)))"
  proof -
    have g: "Public (ph_HunkID i) = (\<lambda>(r, p, h, d). Public d) (item_core i)" for i by (simp add: item_core_def)
    have "mset (map (\<lambda>i. Public (ph_HunkID i)) (partitionPackHunks ps planned)) = mset (map (\<lambda>i. Public (ph_HunkID i)) (items_of ps planned))"
      using partition_mset [of ps planned] by simp
    also have "map (\<lambda>i. Public (ph_HunkID i)) (items_of ps planned) = map (\<lambda>(r, p, h, d). Public d) (map item_core (items_of ps planned))"
      by (simp add: g)
    also have "\<dots> = map (\<lambda>i. Public (ph_HunkID i)) (layer_items en ?rec ps)"
      unfolding items_core [OF assms(2) rec] by (simp add: g)
    also have "\<dots> = concat (map ?f (map ?rec ps))"
      by (simp add: layer_items_def map_concat comp_def plain_item_def)
    finally show ?thesis .
  qed
  ultimately show ?thesis using mset_eq_imp_distinct_iff by blast
qed

lemma pack_layer_total:
  assumes ne: "\<forall>i\<in>set (partitionPackHunks (fl_Paths layer) (bu_planned st)). Public (ph_HunkID i) \<noteq> []"
    and dist: "distinct (map (\<lambda>i. Public (ph_HunkID i)) (partitionPackHunks (fl_Paths layer) (bu_planned st)))"
  shows "\<exists>st' units large. pack_layer en st layer = Inr (st', units) \<and>
    PackReviewPartition (be_H en) (layer_partition en) (partitionPackHunks (fl_Paths layer) (bu_planned st)) = Inr (units, large)"
proof -
  let ?pt = "layer_partition en" and ?items = "partitionPackHunks (fl_Paths layer) (bu_planned st)"
  let ?F = "\<lambda>i. unit_fits (be_H en) ?pt [i]"
  have caps: "pt_LineCap ?pt > 0" "pt_MandatoryCap ?pt > 0"
    by (simp_all add: layer_partition_def lineCap_def mandatoryCap_def)
  from PackReviewPartition_ok [OF caps, of "be_H en" ?items] obtain packed large where
    pack: "PackReviewPartition (be_H en) ?pt ?items = Inr (packed, large)"
    "concat (map pu_HunkIDs packed) = map (pack_hunk_id (be_H en) (pt_DefaultPathID ?pt)) (filter ?F ?items)"
    "large = map ph_Hunk (filter (\<lambda>h. \<not> ?F h) ?items)" by blast
  have "map (pack_hunk_id (be_H en) d) (filter ?F ?items) = map ph_HunkID (filter ?F ?items)" for d
    using ne by (auto simp: pack_hunk_id_def)
  with pack(2) have owned: "set (map Public (concat (map pu_HunkIDs packed))) = (\<lambda>i. Public (ph_HunkID i)) ` set (filter ?F ?items)"
    by (simp add: image_image)
  have "filter (\<lambda>i. Public (ph_HunkID i) \<notin> set (map Public (concat (map pu_HunkIDs packed)))) ?items = filter (\<lambda>i. \<not> ?F i) ?items"
    unfolding owned using dist by (intro filter_cong) (auto simp: distinct_map inj_on_def)
  with pack(1,3) show ?thesis by (simp add: pack_layer_def Let_def wrapE_def)
qed

lemma mark_ids [simp]: "bu_ids (mark_large en i st) = bu_ids st" "bu_ids (fold (mark_large en) is st) = bu_ids st"
proof -
  show *: "bu_ids (mark_large en i st) = bu_ids st" for i st by (simp add: mark_large_def Let_def split: option.splits)
  show "bu_ids (fold (mark_large en) is st) = bu_ids st" by (induction "is" arbitrary: st) (simp_all add: *)
qed

lemma mark_entries: "entries_ok ids (bu_planned st) \<Longrightarrow> entries_ok ids (bu_planned (fold (mark_large en) is st))"
proof (induction "is" arbitrary: st)
  case (Cons i "is")
  have "entries_ok ids (bu_planned (mark_large en i st))" using Cons.prems
    by (auto simp: mark_large_def Let_def entries_ok_def entry_ok_def entry_ids_def hunk_id_of_def split: option.splits)
  with Cons.IH show ?case by simp
qed simp

section \<open>All layers\<close>

text \<open>What packing needs to know of the state, and keeps.\<close>

definition packing_ready :: "build_env \<Rightarrow> raw_path_record list \<Rightarrow> checked_ids \<Rightarrow> build_state \<Rightarrow> bool" where
  "packing_ready en records ids st \<longleftrightarrow> bu_ids st = ids \<and> entries_ok ids (bu_planned st) \<and>
     (\<exists>D. build_inv en records D (bu_planned st))"

lemma pack_layer_outcome:
  assumes dist: "distinct (map recordPath records)" "\<forall>r\<in>set records. record_ok view r" "distinct (hunk_ids en records)"
    and ready: "packing_ready en records ids st" and ps: "set (fl_Paths layer) \<subseteq> recordPath ` set records" "distinct (fl_Paths layer)"
  shows "outcome c (\<lambda>(st', units). packing_ready en records ids st' \<and> list_all (unit_sound en) units) (pack_layer en st layer)"
proof -
  from ready obtain D where inv: "build_inv en records D (bu_planned st)" by (auto simp: packing_ready_def)
  let ?items = "partitionPackHunks (fl_Paths layer) (bu_planned st)"
  note named = layer_item_named [OF dist(1) inv ps(1)]
  from pack_layer_total [OF _ layer_ids_distinct [OF dist(1) inv ps dist(3)]] named(1) obtain st' units large where
    pack: "pack_layer en st layer = Inr (st', units)"
      "PackReviewPartition (be_H en) (layer_partition en) ?items = Inr (units, large)" by blast
  have ords: "\<forall>r\<in>set records. distinct (map rh_Ordinal (rp_Hunks r))" using dist(2) by (simp add: record_ok_def)
  note step = pack_layer_inv [OF dist(1) ords inv ps(1) pack(1)]
  have "unit_sound en u" if "u \<in> set units" for u
  proof (rule unit_sound_made)
    show "made_of (be_H en) (layer_partition en) (set ?items) u" using units_made_of [OF pack(2)] that by (simp add: list_all_iff)
    show "unit_ok (be_H en) (layer_partition en) u" using step that by (simp add: list_all_iff)
    show "\<forall>i\<in>set ?items. Public (ph_HunkID i) \<noteq> [] \<and> ph_PathID i \<noteq> [] \<and> record_ok view (ph_Path i) \<and> ph_Hunk i \<in> set (rp_Hunks (ph_Path i))"
      using named dist(2) by blast
  qed
  then have "list_all (unit_sound en) units" by (simp add: list_all_iff)
  moreover have "packing_ready en records ids st'"
  proof -
    from pack(1) obtain missed where "st' = fold (mark_large en) missed st"
      by (auto simp: pack_layer_def Let_def split: if_splits)
    then show ?thesis using ready step mark_entries [of ids st en missed] by (auto simp: packing_ready_def)
  qed
  ultimately show ?thesis using pack(1) by simp
qed

lemma pack_cohorts_outcome:
  assumes dist: "distinct (map recordPath records)" "\<forall>r\<in>set records. record_ok view r" "distinct (hunk_ids en records)"
    and ready: "packing_ready en records ids st"
    and cs: "\<forall>c\<in>set cs. \<forall>l\<in>set (fc_Layers c). set (fl_Paths l) \<subseteq> recordPath ` set records \<and> distinct (fl_Paths l)"
  shows "outcome e (\<lambda>(st', unitss). packing_ready en records ids st' \<and> list_all (list_all (list_all (unit_sound en))) unitss)
    (mapS (pack_cohort en) st cs)"
proof (rule outcome_mapS)
  show "packing_ready en records ids st \<and> list_all (list_all (list_all (unit_sound en))) []" using ready by simp
  fix s uss c assume c: "c \<in> set cs" "packing_ready en records ids s \<and> list_all (list_all (list_all (unit_sound en))) uss"
  have "outcome e (\<lambda>(t, us). packing_ready en records ids t \<and> list_all (list_all (unit_sound en)) us) (pack_cohort en s c)"
    unfolding pack_cohort_def
  proof (rule outcome_mapS)
    show "packing_ready en records ids s \<and> list_all (list_all (unit_sound en)) []" using c(2) by simp
    fix t us l assume l: "l \<in> set (fc_Layers c)" "packing_ready en records ids t \<and> list_all (list_all (unit_sound en)) us"
    from pack_layer_outcome [OF dist conjunct1 [OF l(2)]] cs c(1) l(1)
    have "outcome e (\<lambda>(st', units). packing_ready en records ids st' \<and> list_all (unit_sound en) units) (pack_layer en t l)" by blast
    with l(2) show "outcome e (\<lambda>(t, y). packing_ready en records ids t \<and> list_all (list_all (unit_sound en)) (us @ [y])) (pack_layer en t l)"
      by (auto elim!: outcome_mono)
  qed
  with c(2) show "outcome e (\<lambda>(t, y). packing_ready en records ids t \<and> list_all (list_all (list_all (unit_sound en))) (uss @ [y])) (pack_cohort en s c)"
    by (auto elim!: outcome_mono)
qed

section \<open>Naming cohorts, layers and units\<close>

definition cohort_sound :: "build_env \<Rightarrow> checked_ids \<Rightarrow> packed_cohort \<Rightarrow> bool" where
  "cohort_sound en ids pc \<longleftrightarrow> known ids (Public (pkc_ID pc)) \<and> id_from (be_H en) (pkc_ID pc) \<and> length (Public (pkc_ID pc)) = 34 \<and>
     safe_id (Public (pkc_ID pc)) \<and>
     (pkc_Layers pc \<noteq> []) \<and>
     list_all (\<lambda>l. length (Public (pkl_ID l)) = 34 \<and> safe_id (Public (pkl_ID l)) \<and>
       list_all (\<lambda>u. unit_sound en u \<and> known ids (Public (pu_UnitStable u))) (pkl_Units l)) (pkc_Layers pc)"

lemma cohort_sound_more: "cohort_sound en ids pc \<Longrightarrow> \<forall>p. known ids p \<longrightarrow> known ids' p \<Longrightarrow> cohort_sound en ids' pc"
  by (auto simp: cohort_sound_def list_all_iff)

lemma short_ids [simp]:
  "length (Public (CohortID H s l us)) = 34" "length (Public (LayerID H c n us)) = 34"
  "safe_id (Public (CohortID H s l us))" "safe_id (Public (LayerID H c n us))"
  by (simp_all add: safe_id_def CohortID_def LayerID_def hex_encode_safe ascii_safe_def quote_def backslash_def)

lemma identify_outcome:
  assumes "ids_inv c (be_H en) ids" "list_all (list_all (unit_sound en)) uss" "fc_Layers co \<noteq> []" "length uss = length (fc_Layers co)"
  shows "outcome c (\<lambda>(ids', pc). ids_inv c (be_H en) ids' \<and> (\<forall>p. known ids p \<longrightarrow> known ids' p) \<and> cohort_sound en ids' pc)
    (identify_cohort en ids (co, uss))"
proof -
  let ?us = "map pu_UnitStable (concat uss)"
  let ?cid = "CohortID (be_H en) (sc_Digest (be_scope en)) (fc_Key co) ?us"
  let ?ls = "map (\<lambda>(l, us). \<lparr>pkl_Layer = l, pkl_Units = us,
    pkl_ID = LayerID (be_H en) ?cid (of_nat (fl_Ordinal l)) (map pu_UnitStable us)\<rparr>) (zip (fc_Layers co) uss)"
  have units: "\<forall>us\<in>set uss. \<forall>u\<in>set us. unit_sound en u" using assms(2) by (simp add: list_all_iff)
  have ids: "\<forall>i\<in>set (?us @ [?cid] @ map pkl_ID ?ls). id_from (be_H en) i"
    using units by (auto simp: unit_sound_def Let_def)
  have ls: "?ls \<noteq> []" using assms(3,4) by (cases uss) (auto simp: neq_Nil_conv)
  have sound: "cohort_sound en ids' \<lparr>pkc_Cohort = co, pkc_ID = ?cid, pkc_Layers = ?ls\<rparr>"
    if "\<forall>i\<in>set (?us @ [?cid] @ map pkl_ID ?ls). known ids' (Public i)" for ids'
  proof -
    have "known ids' (Public (pu_UnitStable u))" if "us \<in> set uss" "u \<in> set us" for us u
      using \<open>\<forall>i\<in>_. known ids' _\<close> that by (auto simp: ball_Un)
    then show ?thesis using that units ls by (auto simp: cohort_sound_def list_all_iff dest!: set_zip_rightD)
  qed
  show ?thesis unfolding identify_cohort_def prod.case Let_def
  proof (rule outcome_bindE [OF insert_ids_outcome [OF assms(1) ids, of "[]"]])
    fix ids' assume ids': "ids_inv c (be_H en) ids' \<and> (\<forall>i\<in>set (?us @ [?cid] @ map pkl_ID ?ls). known ids' (Public i)) \<and>
      (\<forall>p. known ids p \<longrightarrow> known ids' p)"
    with sound [OF conjunct1 [OF conjunct2 [OF ids']]]
    show "outcome c (\<lambda>(ids', pc). ids_inv c (be_H en) ids' \<and> (\<forall>p. known ids p \<longrightarrow> known ids' p) \<and> cohort_sound en ids' pc)
      (Inr (ids', \<lparr>pkc_Cohort = co, pkc_ID = ?cid, pkc_Layers = ?ls\<rparr>))"
      unfolding outcome_simps prod.case by blast
  qed
qed

lemma identify_all_outcome:
  assumes "ids_inv c (be_H en) ids"
    "\<forall>(co, uss)\<in>set cus. list_all (list_all (unit_sound en)) uss \<and> fc_Layers co \<noteq> [] \<and> length uss = length (fc_Layers co)"
  shows "outcome c (\<lambda>(ids', pcs). ids_inv c (be_H en) ids' \<and> (\<forall>p. known ids p \<longrightarrow> known ids' p) \<and> list_all (cohort_sound en ids') pcs)
    (mapS (identify_cohort en) ids cus)"
proof (rule outcome_mapS)
  show "ids_inv c (be_H en) ids \<and> (\<forall>p. known ids p \<longrightarrow> known ids p) \<and> list_all (cohort_sound en ids) []" using assms(1) by simp
  fix s pcs cu
  assume cu: "cu \<in> set cus" "ids_inv c (be_H en) s \<and> (\<forall>p. known ids p \<longrightarrow> known s p) \<and> list_all (cohort_sound en s) pcs"
  obtain co uss where "cu = (co, uss)" by (cases cu)
  with assms(2) cu identify_outcome [of c en s uss co]
  have "outcome c (\<lambda>(t, pc). ids_inv c (be_H en) t \<and> (\<forall>p. known s p \<longrightarrow> known t p) \<and> cohort_sound en t pc) (identify_cohort en s cu)"
    by auto
  then show "outcome c (\<lambda>(t, pc). ids_inv c (be_H en) t \<and> (\<forall>p. known ids p \<longrightarrow> known t p) \<and> list_all (cohort_sound en t) (pcs @ [pc]))
    (identify_cohort en s cu)"
    using cu(2) cohort_sound_more [of en s _ _] by (elim outcome_mono) (auto simp: list_all_iff)
qed

section \<open>Sealing never fails\<close>

lemma placeholder_safe: "length (placeholderID p n) = length p + n" "safe_id p \<Longrightarrow> safe_id (placeholderID p n)"
proof -
  have "list_all ascii_safe (replicate n (CHR ''0''))"
    by (induction n) (simp_all add: ascii_safe_def quote_def backslash_def)
  then show "length (placeholderID p n) = length p + n" "safe_id p \<Longrightarrow> safe_id (placeholderID p n)"
    by (simp_all add: placeholderID_def safe_id_def)
qed

lemma in_enumerate: "(n, x) \<in> set (enumerate 0 xs) \<Longrightarrow> x \<in> set xs"
  by (auto simp: in_set_enumerate_eq)

lemma review_id_safe: "length (Public (ReviewID H i)) = 44" "safe_id (Public (ReviewID H i))"
  by (simp_all add: ReviewID_def safe_id_def hex_encode_safe ascii_safe_def quote_def backslash_def)

lemma sealed_size:
  assumes "unit_sound en u" "length c = 34" "safe_id c" "length l = 34" "safe_id l" "length r = 44" "safe_id r"
  shows "length (CanonicalMandatoryJSON ((pu_Unit u)\<lparr>ru_ReviewID := r, ru_CohortID := c, ru_LayerID := l\<rparr>)) =
    length (CanonicalMandatoryJSON (pu_Unit u))"
proof (rule length_CanonicalMandatoryJSON_ids)
  have "safe_id ''rvw_''" "safe_id ''c_''" "safe_id ''l_''"
    by (simp_all add: safe_id_def ascii_safe_def quote_def backslash_def)
  then show "safe_id (ru_ReviewID (pu_Unit u))" "safe_id (ru_CohortID (pu_Unit u))" "safe_id (ru_LayerID (pu_Unit u))"
    using assms(1) placeholder_safe(2) by (auto simp: unit_sound_def Let_def)
qed (use assms in \<open>auto simp: unit_sound_def Let_def placeholder_safe(1)\<close>)

lemma seal_placed:
  assumes sound: "unit_sound en u" and scope: "scope_validate (be_scope en) = Inr ()"
    and ids: "length (Public cid) = 34" "safe_id (Public cid)" "length (Public lid) = 34" "safe_id (Public lid)"
  shows "\<exists>v. seal_unit (mandatoryCap (be_planner en)) (Public (ReviewID H i)) (place_unit pps cid lid u) = Inr v \<and>
    Unit_validate (pu_Unit v) = Inr ()"
proof -
  let ?r = "Public (ReviewID H i)" and ?p = "placeholderID ''rvw_'' 40" and ?u = "pu_Unit u"
  let ?sealed = "?u\<lparr>ru_CohortID := Public cid, ru_LayerID := Public lid, ru_ReviewID := ?r\<rparr>"
  have p: "length ?p = 44" "safe_id ?p"
    using placeholder_safe [of "''rvw_''" 40] by (simp_all add: safe_id_def ascii_safe_def quote_def backslash_def)
  have rid: "ru_ReviewID ?u = ?p" using sound by (simp add: unit_sound_def Let_def)
  then have eq: "?u\<lparr>ru_CohortID := c, ru_LayerID := l\<rparr> = ?u\<lparr>ru_ReviewID := ?p, ru_CohortID := c, ru_LayerID := l\<rparr>" for c l
    by (cases ?u) simp
  have sealed: "?sealed = ?u\<lparr>ru_ReviewID := ?r, ru_CohortID := Public cid, ru_LayerID := Public lid\<rparr>" by (cases ?u) simp
  have "length (CanonicalMandatoryJSON (?u\<lparr>ru_CohortID := Public cid, ru_LayerID := Public lid\<rparr>)) = length (CanonicalMandatoryJSON ?u)"
    unfolding eq using sealed_size [OF sound ids p] by simp
  moreover have "length (CanonicalMandatoryJSON ?sealed) = length (CanonicalMandatoryJSON ?u)"
    unfolding sealed by (rule sealed_size [OF sound ids review_id_safe])
  moreover have "int (length (CanonicalMandatoryJSON ?u)) \<le> mandatoryCap (be_planner en)"
    using sound by (simp add: unit_sound_def Let_def)
  ultimately have "seal_unit (mandatoryCap (be_planner en)) ?r (place_unit pps cid lid u) = Inr ((place_unit pps cid lid u)\<lparr>pu_Unit := ?sealed\<rparr>)"
    by (simp add: seal_unit_def Let_def place_unit_def)
  moreover have "Unit_validate ?sealed = Inr ()"
  proof -
    have "Public cid \<noteq> []" "Public lid \<noteq> []" using ids by auto
    moreover have "ru_UnitID ?u \<noteq> []"
      using sound by (auto simp: unit_sound_def Let_def id_from_def derived_id_def)
    moreover have "validateScopeSides (ru_ScopeKind ?u) (ru_ObjectFormat ?u) (ru_Base ?u) (ru_Head ?u) ctx = Inr ()" for ctx
      using sound scope by (simp add: unit_sound_def Let_def scope_validate_def validateScopeSides_Inr)
    ultimately show ?thesis using sound validReviewID_ReviewID
      by (auto simp: Unit_validate_def unit_sound_def Let_def dest: in_enumerate)
  qed
  ultimately show ?thesis by auto
qed

lemma mapE_total: "\<forall>x\<in>set xs. \<exists>y. f x = Inr y \<and> Q y \<Longrightarrow> \<exists>ys. mapE f xs = Inr ys \<and> list_all Q ys"
  by (induction xs) auto

lemma seal_all:
  assumes "list_all (cohort_sound en ids) pcs" "scope_validate (be_scope en) = Inr ()"
  shows "\<exists>vs. mapE (seal_unit (mandatoryCap (be_planner en)) (Public (ReviewID H i))) (placed_units pps pcs) = Inr vs \<and>
    list_all (\<lambda>v. Unit_validate (pu_Unit v) = Inr ()) vs"
  using assms by (intro mapE_total) (auto simp: placed_units_def cohort_sound_def list_all_iff intro!: seal_placed)

lemma placed_known: "list_all (cohort_sound en ids) pcs \<Longrightarrow> u \<in> set (placed_units pps pcs) \<Longrightarrow> known ids (Public (pu_UnitStable u))"
  by (auto simp: placed_units_def cohort_sound_def list_all_iff place_unit_def)

section \<open>The audits\<close>

lemma audit_entry_ids: "e \<in> set (audit_entries pp) \<Longrightarrow> snd e \<in> entry_ids pp"
  by (auto simp: audit_entries_def entry_ids_def Let_def onlyIf_def split: if_splits)

lemma audits_known:
  assumes "\<forall>pp\<in>set pps. \<forall>i\<in>entry_ids pp. known ids i" "\<forall>c\<in>set cids. known ids (Public c)"
    "\<forall>u\<in>set units. known ids (Public (pu_UnitStable u))" "a \<in> set (buildAudits mode cids pps units)"
  shows "validAuditID (pa_AuditID a)" "\<forall>i\<in>set (pa_TargetIDs a). known ids i"
proof -
  obtain es where es: "es = concat (map audit_entries pps) @ map (\<lambda>c. (AuditIntegrationGapV1, Public c)) cids @
    map (\<lambda>u. (AuditTestMatrixV1, Public (pu_UnitStable u))) (filter (needs_test_matrix pps) units)" by blast
  have known: "\<forall>e\<in>set es. known ids (snd e)"
    unfolding es using assms(1-3) audit_entry_ids by fastforce
  obtain aid where a: "aid \<in> set RequiredAuditsV1"
    "a = \<lparr>pa_AuditID = aid, pa_TargetIDs = sortedUniqueStrings (map snd (filter (\<lambda>e. fst e = aid) es))\<rparr>"
    using assms(4) unfolding buildAudits_def Let_def es by (auto split: if_splits)
  with known show "validAuditID (pa_AuditID a)" "\<forall>i\<in>set (pa_TargetIDs a). known ids i"
    by (auto simp: validAuditID_def)
qed

lemma audits_complete: "mode = ModeStructured \<Longrightarrow> map pa_AuditID (buildAudits mode cids pps units) = RequiredAuditsV1"
  by (simp add: buildAudits_def Let_def comp_def)

lemma identity_total:
  assumes "\<forall>a\<in>set audits. \<forall>i\<in>set (pa_TargetIDs a). known ids i"
  shows "\<exists>pi. buildPlanIdentity en ev records planned units pcs audits ids = Inr pi"
proof -
  let ?f = "\<lambda>a. bindE (mapE (ids_lookup ids) (pa_TargetIDs a)) (\<lambda>ts. Inr \<lparr>pae_AuditID = pa_AuditID a, pae_TargetIDs = ts\<rparr>)"
  have "\<forall>a\<in>set audits. \<exists>y. ?f a = Inr y \<and> True"
  proof
    fix a assume "a \<in> set audits"
    with assms lookups_known [of "pa_TargetIDs a" ids] obtain ts where "mapE (ids_lookup ids) (pa_TargetIDs a) = Inr ts" by blast
    then show "\<exists>y. ?f a = Inr y \<and> True" by simp
  qed
  from mapE_total [OF this] show ?thesis by (auto simp: buildPlanIdentity_def)
qed

section \<open>The plan is valid\<close>

lemma update_coverage_entry: "entry_ok ids pp \<Longrightarrow> entry_ok ids (update_coverage pp)"
  by (auto simp: entry_ok_def entry_ids_def update_coverage_def Let_def hunk_id_of_def validPathCoverage_def)

lemma plan_path_valid:
  assumes "build_inv en records D planned" "entries_ok ids planned" "r \<in> set records" "record_ok view r"
  shows "\<exists>q. plan_path_of (map_option update_coverage \<circ> planned) r = [q] \<and> PlanPath_validate q = Inr ()"
proof -
  from assms(1,3) obtain pp where pp: "planned (recordPath r) = Some pp" "planned_ok en r pp" unfolding build_inv_def by blast
  have "entry_ok ids (update_coverage pp)" using assms(2) pp(1) update_coverage_entry by (auto simp: entries_ok_def)
  then have "validReviewClass (pq_class (update_coverage pp))" "validPathCoverage (pq_coverage (update_coverage pp))"
    by (simp_all add: entry_ok_def)
  moreover have "rp_NewPath r = [] \<longrightarrow> rp_OldPath r \<noteq> []" "rp_Status r \<noteq> []"
    using assms(4) by (auto simp: record_ok_def recordPath_def split: if_splits)
  moreover have "Public (pq_pathID pp) \<noteq> []" using pp(2) by (simp add: planned_ok_def PathID_def)
  ultimately show ?thesis using pp by (simp add: plan_path_of_def PlanPath_validate_def planned_ok_def)
qed

lemma plan_paths_valid:
  assumes "build_inv en records D planned" "entries_ok ids planned" "\<forall>r\<in>set records. record_ok view r" "records \<noteq> []"
  shows "concat (map (plan_path_of (map_option update_coverage \<circ> planned)) records) \<noteq> []"
    "\<forall>q\<in>set (concat (map (plan_path_of (map_option update_coverage \<circ> planned)) records)). PlanPath_validate q = Inr ()"
proof -
  note one = plan_path_valid [OF assms(1,2)]
  obtain r rs where r: "records = r # rs" using assms(4) by (cases records) auto
  with one [of r view] assms(3) show "concat (map (plan_path_of (map_option update_coverage \<circ> planned)) records) \<noteq> []" by auto
  show "\<forall>q\<in>set (concat (map (plan_path_of (map_option update_coverage \<circ> planned)) records)). PlanPath_validate q = Inr ()"
    using one [of _ view] assms(3) by fastforce
qed

lemma cohorts_valid:
  assumes "list_all (cohort_sound en ids) pcs" "c \<in> set (materializePlanCohorts pcs)"
  shows "PlanCohort_validate c = Inr ()"
proof -
  from assms(2) obtain pc where pc: "pc \<in> set pcs" "pc_CohortID c = Public (pkc_ID pc)"
    "map pl_LayerID (pc_Layers c) = map (\<lambda>l. Public (pkl_ID l)) (pkc_Layers pc)"
    by (auto simp: materializePlanCohorts_def comp_def)
  from assms(1) pc(1) have sound: "length (Public (pkc_ID pc)) = 34" "pkc_Layers pc \<noteq> []"
    "\<forall>l\<in>set (pkc_Layers pc). length (Public (pkl_ID l)) = 34" by (auto simp: cohort_sound_def list_all_iff)
  have "pl_LayerID l \<noteq> []" if "l \<in> set (pc_Layers c)" for l
  proof -
    from that have "pl_LayerID l \<in> set (map pl_LayerID (pc_Layers c))" by simp
    with pc(3) sound(3) have "length (pl_LayerID l) = 34" by auto
    then show ?thesis by auto
  qed
  moreover have "pc_Layers c \<noteq> []" using pc(3) sound(2) by (metis map_is_Nil_conv)
  ultimately show ?thesis using sound(1) pc(2) by (auto simp: PlanCohort_validate_def)
qed

lemma finish_plan_outcome:
  assumes inv: "build_inv en records D (bu_planned st)" "entries_ok (bu_ids st) (bu_planned st)" "ids_inv c (be_H en) (bu_ids st)"
    and cohorts: "list_all (cohort_sound en (bu_ids st)) pcs" "pcs \<noteq> []"
    and records: "\<forall>r\<in>set records. record_ok view r" "records \<noteq> []" and scope: "scope_validate (be_scope en) = Inr ()"
  shows "outcome c (\<lambda>_. True) (finish_plan en cp ev records st pcs)"
proof -
  let ?planned = "map_option update_coverage \<circ> bu_planned st"
  let ?paths = "map recordPath records"
  let ?pps = "planned_list ?paths ?planned" and ?units = "placed_units (planned_list ?paths (bu_planned st)) pcs"
  obtain mode required where mode: "ModeForChurn (cp_RawChurn cp) (py_ForceStructured (be_planner en) \<or> ee_ForceStructured ev) = (mode, required)"
    by fastforce
  let ?audits = "buildAudits mode (map pkc_ID pcs) ?pps ?units"
  have entries: "\<forall>pp\<in>set ?pps. \<forall>i\<in>entry_ids pp. known (bu_ids st) i"
  proof (intro ballI)
    fix pp i assume pp: "pp \<in> set ?pps" "i \<in> entry_ids pp"
    then obtain p qq where "bu_planned st p = Some qq" "pp = update_coverage qq"
      by (auto simp: planned_list_def map_filter_def)
    with inv(2) have "entry_ok (bu_ids st) pp" by (auto simp: entries_ok_def intro: update_coverage_entry)
    with pp(2) show "known (bu_ids st) i" by (simp add: entry_ok_def)
  qed
  have cids: "\<forall>x\<in>set (map pkc_ID pcs). known (bu_ids st) (Public x)" using cohorts(1) by (auto simp: cohort_sound_def list_all_iff)
  have units: "\<forall>u\<in>set ?units. known (bu_ids st) (Public (pu_UnitStable u))" using placed_known [OF cohorts(1)] by blast
  note audits = audits_known [OF entries cids units, of _ mode]
  obtain pi where pi: "buildPlanIdentity en ev records ?planned ?units pcs ?audits (bu_ids st) = Inr pi"
    using identity_total [of ?audits "bu_ids st"] audits(2) by blast
  obtain vs where vs: "mapE (seal_unit (mandatoryCap (be_planner en)) (Public (ReviewID (be_H en) pi))) ?units = Inr vs"
    "list_all (\<lambda>v. Unit_validate (pu_Unit v) = Inr ()) vs" using seal_all [OF cohorts(1) scope] by blast
  have mode': "mode = ModeStructured \<or> mode = ModeDirect \<and> \<not> required" using mode by (auto simp: ModeForChurn_def Let_def split: if_splits)
  have mat: "materializePlanCohorts pcs \<noteq> []" using cohorts(2) by (simp add: materializePlanCohorts_def)
  have hex: "isCanonicalDigestHex (hex_encode (digest_bytes d))" for d by (simp add: isCanonicalDigestHex_def)
  have commands: "nextCommands i m us \<noteq> []" for i m us by (simp add: nextCommands_def Let_def)
  note paths = plan_paths_valid [OF inv(1,2) records]
  have valid: "Plan_validate \<lparr>pn_Schema = PlanSchemaV1, pn_ReviewID = Public (ReviewID (be_H en) pi), pn_PlanDigest = hex_encode (digest_bytes dg),
      pn_Mode = mode, pn_StructuredRequired = required, pn_Scope = be_scope en, pn_Stats = stats,
      pn_ChangedPaths = concat (map (plan_path_of ?planned) records), pn_AttentionSignals = signals,
      pn_Cohorts = (if mode = ModeStructured then materializePlanCohorts pcs else []), pn_PrimaryUnits = map pu_Unit vs,
      pn_RequiredAudits = (if mode = ModeStructured then ?audits else []),
      pn_NextCommands = nextCommands (Public (ReviewID (be_H en) pi)) mode (map pu_Unit vs)\<rparr> = Inr ()" for dg stats signals
  proof -
    have "set (map pa_AuditID ?audits) = set RequiredAuditsV1" if "mode = ModeStructured" using audits_complete [OF that] by metis
    then show ?thesis
      unfolding Plan_validate_def allOf_append using paths scope vs(2) validReviewID_ReviewID hex mode' mat cohorts_valid [OF cohorts(1)] audits(1) commands
      by (auto simp: list_all_iff simp del: map_map)
  qed
  have wrap: "wrapE w (Inr x) = Inr x" for w and x :: 'x by (simp add: wrapE_def)
  show ?thesis unfolding finish_plan_def Let_def mode prod.case pi wrap bindE_simps
  proof (rule outcome_bindE [OF insert_id_outcome [OF inv(3) planner_ids(7)]], goal_cases)
    case (1 ids)
    show ?case unfolding vs(1) bindE_simps valid wrap by simp
  qed
qed

section \<open>Build\<close>

text \<open>What the hash and the probe must satisfy for no collision to be possible.\<close>

definition collision_possible :: "(bytes \<Rightarrow> digest) \<Rightarrow> planner \<Rightarrow> bool" where
  "collision_possible H p \<longleftrightarrow> \<not> prefix_free H \<or> py_IDCollisionProbe p \<noteq> None"

lemma layer_paths:
  assumes "[] \<notin> set paths" "distinct paths" "c \<in> set (planner_cohorts en paths)"
  shows "fc_Layers c \<noteq> []" "\<forall>l\<in>set (fc_Layers c). set (fl_Paths l) \<subseteq> set paths \<and> distinct (fl_Paths l)"
proof -
  from BuildFileCohorts_ok [OF assms(1), of "be_enrichment en"] obtain cs where
    cs: "BuildFileCohorts paths (be_enrichment en) = Some cs" "set (concat (map fc_Files cs)) = set paths"
      "\<forall>c\<in>set cs. fc_Files c \<noteq> [] \<and> cohort_of (be_enrichment en) (fc_Files c) c" by blast
  have c: "c \<in> set cs" using assms(3) cs(1) by (simp add: planner_cohorts_def)
  with cs(3) have lay: "layering (fc_Files c) (dependency_edges (fc_Files c) (factsOf (be_enrichment en))) (factsOf (be_enrichment en)) (fc_Layers c)"
    "fc_Files c \<noteq> []" by (simp_all add: cohort_of_def)
  then have parts: "set (concat (map fl_Paths (fc_Layers c))) = set (fc_Files c)" "distinct (concat (map fl_Paths (fc_Layers c)))"
    by (simp_all add: layering_def)
  show "fc_Layers c \<noteq> []" using parts(1) lay(2) by auto
  have sub: "set (fc_Files c) \<subseteq> set paths" using c cs(2) by auto
  show "\<forall>l\<in>set (fc_Layers c). set (fl_Paths l) \<subseteq> set paths \<and> distinct (fl_Paths l)"
  proof
    fix l assume l: "l \<in> set (fc_Layers c)"
    then have "set (fl_Paths l) \<subseteq> set (concat (map fl_Paths (fc_Layers c)))" by auto
    with parts(1) sub have "set (fl_Paths l) \<subseteq> set paths" by blast
    then show "set (fl_Paths l) \<subseteq> set paths \<and> distinct (fl_Paths l)" using distinct_concatD(1) [OF parts(2) l] by blast
  qed
qed

text \<open>The prepared inputs of the phases.\<close>

definition inputs_ok :: "build_env \<Rightarrow> raw_path_record list \<Rightarrow> bool" where
  "inputs_ok en records \<longleftrightarrow> records \<noteq> [] \<and> distinct (map recordPath records) \<and> (\<forall>r\<in>set records. record_ok (be_view en) r) \<and>
     distinct (hunk_ids en records) \<and> scope_validate (be_scope en) = Inr ()"

lemma inputs_okD:
  assumes "inputs_ok en records"
  shows "records \<noteq> []" "distinct (map recordPath records)" "\<forall>r\<in>set records. record_ok (be_view en) r"
    "\<forall>r\<in>set records. distinct (map rh_Ordinal (rp_Hunks r))" "distinct (hunk_ids en records)"
    "scope_validate (be_scope en) = Inr ()" "[] \<notin> set (map recordPath records)"
  using assms by (auto simp: inputs_ok_def record_ok_def)

lemma naming_outcome:
  assumes inputs: "inputs_ok en records" and cs: "cs = planner_cohorts en (map recordPath records)"
    and st: "ids_inv c (be_H en) (bu_ids st)" "build_inv en records {} (bu_planned st)"
    and packed: "mapS (pack_cohort en) st cs = Inr (st2, unitss)" "packing_ready en records (bu_ids st) st2"
      "list_all (list_all (list_all (unit_sound en))) unitss"
  shows "outcome c (\<lambda>_. True) (bindE (mapS (identify_cohort en) (bu_ids st2) (zip cs unitss))
    (\<lambda>(ids, pcs). finish_plan en cp ev records (st2\<lparr>bu_ids := ids\<rparr>) pcs))"
proof -
  note ok = inputs_okD [OF inputs]
  note lay = layer_paths [OF ok(7,2), of _ en, folded cs]
  have cover: "mset (concat (map cohort_paths cs)) = mset (map recordPath records)" unfolding cs by (rule cohorts_cover [OF ok(7,2)])
  then have sub: "\<Union> (set ` cohort_paths ` set cs) \<subseteq> recordPath ` set records" using mset_eq_setD [OF cover] by auto
  have units: "list_all2 (\<lambda>c uss. list_all2 (layer_packed en records) (fc_Layers c) uss) cs unitss"
    using pack_cohorts_inv [OF ok(2,4) st(2) sub packed(1)] by blast
  then have lens: "length cs = length unitss" "\<forall>i<length cs. length (fc_Layers (cs ! i)) = length (unitss ! i)"
    by (auto simp: list_all2_conv_all_nth)
  have cus: "\<forall>(co, uss)\<in>set (zip cs unitss). list_all (list_all (unit_sound en)) uss \<and> fc_Layers co \<noteq> [] \<and> length uss = length (fc_Layers co)"
    using packed(3) lay(1) lens by (auto simp: set_zip list_all_length)
  have ids: "ids_inv c (be_H en) (bu_ids st2)" using st(1) packed(2) by (simp add: packing_ready_def)
  have "cs \<noteq> []" using cover ok(1) by auto
  show ?thesis
  proof (rule outcome_bindE [OF identify_all_outcome [OF ids cus]], clarify)
    fix ids' pcs
    assume named: "mapS (identify_cohort en) (bu_ids st2) (zip cs unitss) = Inr (ids', pcs)" "ids_inv c (be_H en) ids'"
      "\<forall>p. known (bu_ids st2) p \<longrightarrow> known ids' p" "list_all (cohort_sound en ids') pcs"
    have "pcs \<noteq> []" using identified_units [OF units named(1)] \<open>cs \<noteq> []\<close> lens(1) by auto
    moreover from packed(2) obtain D where "build_inv en records D (bu_planned st2)" "entries_ok (bu_ids st2) (bu_planned st2)"
      by (auto simp: packing_ready_def)
    ultimately show "outcome c (\<lambda>_. True) (finish_plan en cp ev records (st2\<lparr>bu_ids := ids'\<rparr>) pcs)"
      using named entries_ok_more [of "bu_ids st2" "bu_planned st2" ids'] ok by (intro finish_plan_outcome) simp_all
  qed
qed

lemma packing_outcome:
  assumes inputs: "inputs_ok en records" and cs: "cs = planner_cohorts en (map recordPath records)"
    and st: "ids_inv c (be_H en) (bu_ids st)" "entries_ok (bu_ids st) (bu_planned st)" "build_inv en records {} (bu_planned st)"
  shows "outcome c (\<lambda>_. True) (bindE (mapS (pack_cohort en) st cs) (\<lambda>(st, units).
    bindE (mapS (identify_cohort en) (bu_ids st) (zip cs units)) (\<lambda>(ids, pcs). finish_plan en cp ev records (st\<lparr>bu_ids := ids\<rparr>) pcs)))"
proof -
  note ok = inputs_okD [OF inputs]
  have "packing_ready en records (bu_ids st) st" using st by (auto simp: packing_ready_def)
  from pack_cohorts_outcome [OF ok(2,3,5) this, of cs c] layer_paths(2) [OF ok(7,2), of _ en, folded cs]
  have pack: "outcome c (\<lambda>(st', unitss). packing_ready en records (bu_ids st) st' \<and> list_all (list_all (list_all (unit_sound en))) unitss)
    (mapS (pack_cohort en) st cs)" by simp
  show ?thesis by (rule outcome_bindE [OF pack], clarify) (rule naming_outcome [OF inputs cs st(1,3)])
qed

lemma phases_outcome:
  assumes inputs: "inputs_ok en records" and cs: "cs = planner_cohorts en (map recordPath records)"
    and st: "ids_inv c (be_H en) (bu_ids st)" "bu_planned st = Map.empty"
  shows "outcome c (\<lambda>_. True) (bindE (foldE (plan_record en) st records) (\<lambda>st. bindE (mapS (pack_cohort en) st cs) (\<lambda>(st, units).
    bindE (mapS (identify_cohort en) (bu_ids st) (zip cs units)) (\<lambda>(ids, pcs). finish_plan en cp ev records (st\<lparr>bu_ids := ids\<rparr>) pcs))))"
proof (rule outcome_bindE [OF plan_records_outcome [OF st inputs_okD(3) [OF inputs]]])
  fix st1 assume "foldE (plan_record en) st records = Inr st1"
    "ids_inv c (be_H en) (bu_ids st1) \<and> entries_ok (bu_ids st1) (bu_planned st1)"
  moreover from this have "build_inv en records {} (bu_planned st1)"
    using plan_records_inv [of en st records st1 "[]"] inputs_okD(2,4) [OF inputs] by (simp add: build_inv_def)
  ultimately show "outcome c (\<lambda>_. True) (bindE (mapS (pack_cohort en) st1 cs) (\<lambda>(st, units).
    bindE (mapS (identify_cohort en) (bu_ids st) (zip cs units)) (\<lambda>(ids, pcs). finish_plan en cp ev records (st\<lparr>bu_ids := ids\<rparr>) pcs)))"
    by (intro packing_outcome [OF inputs cs]) simp_all
qed

lemma Build_outcome:
  assumes start: "poll 0 = None" "validatePlannerCapture cp = Inr ()"
    and records: "distinct (map recordPath (cp_Paths cp))" "\<forall>r\<in>set (cp_Paths cp). record_ok view r"
    and ids: "distinct (hunk_ids (environment_of H poll p view cp) (cp_Paths cp))"
  shows "outcome (collision_possible H p) (\<lambda>_. True) (Build H poll p cp view ev)"
proof -
  let ?en = "environment_of H poll p view cp" and ?rs = "build_records cp" and ?c = "collision_possible H p"
  let ?cs = "planner_cohorts ?en (map recordPath ?rs)"
  have perm: "mset ?rs = mset (cp_Paths cp)" by (simp add: build_records_def)
  have set: "set ?rs = set (cp_Paths cp)" using mset_eq_setD [OF perm] .
  have "mset (map recordPath ?rs) = mset (map recordPath (cp_Paths cp))" using perm by simp
  from mset_eq_imp_distinct_iff [OF this] records(1) have d1: "distinct (map recordPath ?rs)" by blast
  have "mset (hunk_ids ?en ?rs) = mset (hunk_ids ?en (cp_Paths cp))" unfolding hunk_ids_def by (rule mset_concat_map [OF perm])
  from mset_eq_imp_distinct_iff [OF this] ids have d3: "distinct (hunk_ids ?en ?rs)" by blast
  have valid: "?rs \<noteq> []" "scope_validate (cp_Scope cp) = Inr ()"
    using start(2) set by (auto simp: validatePlannerCapture_def)
  have "be_view ?en = view" and scope: "scope_validate (be_scope ?en) = Inr ()"
    using valid(2) by (auto simp: environment_of_def build_environment_def Let_def scope_validate_def)
  then have inputs: "inputs_ok ?en ?rs" using valid(1) d1 d3 records(2) set by (simp add: inputs_ok_def)
  have new: "ids_inv ?c (be_H ?en) (bu_ids (start_state p ?en))" "bu_planned (start_state p ?en) = Map.empty"
    by (simp_all add: start_state_def ids_inv_new collision_possible_def)
  have "Build H poll p cp view ev =
      bindE (foldE (plan_record ?en) (start_state p ?en) ?rs) (\<lambda>st. bindE (mapS (pack_cohort ?en) st ?cs) (\<lambda>(st, units).
      bindE (mapS (identify_cohort ?en) (bu_ids st) (zip ?cs units)) (\<lambda>(ids, pcs). finish_plan ?en cp ev ?rs (st\<lparr>bu_ids := ids\<rparr>) pcs)))"
    using start by (simp add: Build_def Let_def wrapE_def build_records_def environment_of_def start_state_def)
      (simp add: build_environment_def Let_def)
  with phases_outcome [OF inputs refl new, of cp ev] show ?thesis by simp
qed

text \<open>C1: for a capture whose records are named, distinct and readable and whose hunks have distinct identifiers, \<open>Build\<close> returns a plan unless two
  identifiers collide: no invariant, size or source error is reachable.  Where shortened digests of the
  hash are unambiguous and no probe is installed, it returns a plan.\<close>

theorem Build_returns:
  assumes "poll 0 = None" "validatePlannerCapture cp = Inr ()"
    and "distinct (map recordPath (cp_Paths cp))" "\<forall>r\<in>set (cp_Paths cp). record_ok view r"
    and "distinct (hunk_ids (environment_of H poll p view cp) (cp_Paths cp))"
  shows "case Build H poll p cp view ev of Inr plan \<Rightarrow> Plan_validate plan = Inr ()
    | Inl e \<Rightarrow> collision_possible H p \<and> collision_error e"
proof (cases "Build H poll p cp view ev")
  case (Inl e)
  with Build_outcome [OF assms, of ev] show ?thesis by simp
next
  case (Inr plan)
  with Build_valid show ?thesis by simp
qed

section \<open>Hunks are told apart by their public identifiers\<close>

definition registered :: "checked_ids \<Rightarrow> stable_id \<Rightarrow> bool" where
  "registered ids i \<longleftrightarrow> (\<exists>j. ck_byPublic ids (Public i) = Some j \<and> Full j = Full i)"

lemma registered_unique: "registered ids i \<Longrightarrow> registered ids j \<Longrightarrow> Public i = Public j \<Longrightarrow> Full i = Full j"
  by (auto simp: registered_def)

lemma insert_ids_registered:
  assumes "insert_ids path s is = Inr t"
  shows "i \<in> set is \<Longrightarrow> registered t i" "registered s i \<Longrightarrow> registered t i"
  using named_ids.inserts_find named_ids.inserts_keep assms unfolding insert_ids_def registered_def by blast+

lemma plan_record_registered:
  assumes "plan_record en st r = Inr st'"
  shows "\<forall>h\<in>set (rp_Hunks r). registered (bu_ids st') (hunk_of_plan en r h)" "registered (bu_ids st) i \<Longrightarrow> registered (bu_ids st') i"
proof -
  from assms obtain ids ids' p sem where ins: "insert_ids (recordPath r) (bu_ids st)
      (p # map (HunkID (be_H en) (sc_Digest (be_scope en)) (Full (PathID (be_H en) (sc_Digest (be_scope en)) r))) (rp_Hunks r)) = Inr ids"
    "insert_ids (recordPath r) ids sem = Inr ids'" "bu_ids st' = ids'"
    by (auto simp: plan_record_def Let_def case_prod_unfold)
  show "\<forall>h\<in>set (rp_Hunks r). registered (bu_ids st') (hunk_of_plan en r h)"
    using insert_ids_registered(1) [OF ins(1)] insert_ids_registered(2) [OF ins(2)] by (auto simp: ins(3) hunk_of_plan_def)
  show "registered (bu_ids st) i \<Longrightarrow> registered (bu_ids st') i"
    using insert_ids_registered(2) [OF ins(1)] insert_ids_registered(2) [OF ins(2)] by (simp add: ins(3))
qed

lemma plan_records_registered:
  "foldE (plan_record en) st rs = Inr st' \<Longrightarrow>
     (\<forall>r\<in>set rs. \<forall>h\<in>set (rp_Hunks r). registered (bu_ids st') (hunk_of_plan en r h)) \<and> (\<forall>i. registered (bu_ids st) i \<longrightarrow> registered (bu_ids st') i)"
proof (induction rs arbitrary: st)
  case (Cons r rs)
  from Cons.prems obtain st1 where st1: "plan_record en st r = Inr st1" "foldE (plan_record en) st1 rs = Inr st'" by auto
  from Cons.IH [OF st1(2)] plan_record_registered [OF st1(1)] show ?case by auto
qed simp

lemma set_build_records: "set (build_records cp) = set (cp_Paths cp)"
  by (rule mset_eq_setD) (simp add: build_records_def)

text \<open>C10: two hunks of a planned capture never share a public identifier unless their full identities agree.\<close>

theorem Build_hunks_unambiguous:
  assumes build: "Build H poll p cp view ev = Inr plan"
    and hunks: "r \<in> set (cp_Paths cp)" "h \<in> set (rp_Hunks r)" "s \<in> set (cp_Paths cp)" "k \<in> set (rp_Hunks s)"
    and same: "Public (hunk_of_plan (environment_of H poll p view cp) r h) = Public (hunk_of_plan (environment_of H poll p view cp) s k)"
  shows "Full (hunk_of_plan (environment_of H poll p view cp) r h) = Full (hunk_of_plan (environment_of H poll p view cp) s k)"
proof -
  from Build_phases [OF build] obtain st where
    "foldE (plan_record (environment_of H poll p view cp)) (start_state p (environment_of H poll p view cp)) (build_records cp) = Inr st" .
  from plan_records_registered [OF this] hunks registered_unique [OF _ _ same] show ?thesis by (auto simp: set_build_records)
qed

section \<open>A concrete capture\<close>

definition sample_mapper0 :: symbol_mapper where "sample_mapper0 = \<lparr>sm_Detect = Some (\<lambda>_ _. []), sm_For = (\<lambda>_. None)\<rparr>"

definition sample_planner :: planner where
  "sample_planner = \<lparr>py_Graph = None, py_SymbolMapper = sample_mapper0, py_ForceStructured = False, py_PlannerVersion = [],
     py_MaxChangedLines = 0, py_MaxMandatoryBytes = 0, py_IDCollisionProbe = None\<rparr>"

definition sample_capture :: capture where
  "sample_capture = \<lparr>cp_Scope = sample_scope, cp_Paths = [sample_record], cp_RawAdditions = 1, cp_RawDeletions = 0,
     cp_RawChurn = 1, cp_ReviewableChurn = 0, cp_ChangedPaths = 1, cp_CanonicalPatch = 0\<rparr>"

definition sample_view :: head_view where
  "sample_view = \<lparr>hv_Query = \<lparr>Clusters = Inr [], FileRelations = (\<lambda>p. Inr (zero_relations p)), BlastSummarize = (\<lambda>p. Inr (zero_blast p)),
     EntrypointsFor = (\<lambda>p. Inr (zero_entrypoints p)), TestsFor = (\<lambda>p. Inr (zero_tests p))\<rparr>, hv_Sources = Some (\<lambda>_ _. Inr (True, []))\<rparr>"

definition sample_evidence :: evidence where
  "sample_evidence = \<lparr>ee_IndexSchema = [], ee_IndexVersion = [], ee_HeadIndexSignature = [], ee_TrustedLocal = [],
     ee_UntrustedPolicy = [], ee_ForceStructured = False\<rparr>"

definition zero_hash :: "bytes \<Rightarrow> digest" where "zero_hash bs = 0"

lemma sample_capture_ok:
  "validatePlannerCapture sample_capture = Inr ()" "distinct (map recordPath (cp_Paths sample_capture))"
  "\<forall>r\<in>set (cp_Paths sample_capture). record_ok (Some sample_view) r" "distinct (hunk_ids en (cp_Paths sample_capture))"
  "\<not> collision_possible zero_hash sample_planner"
proof -
  show "validatePlannerCapture sample_capture = Inr ()"
    using sample_scope_valid by (simp add: validatePlannerCapture_def sample_capture_def recordPath_def sample_record_def Let_def)
  show "distinct (map recordPath (cp_Paths sample_capture))" "distinct (hunk_ids en (cp_Paths sample_capture))"
    by (simp_all add: sample_capture_def hunk_ids_def sample_record_def)
  show "\<forall>r\<in>set (cp_Paths sample_capture). record_ok (Some sample_view) r"
    by (simp add: sample_capture_def record_ok_def recordPath_def sample_record_def sample_hunk_def readPlanningSources_def
        sample_view_def read_source_def wrapE_def)
  show "\<not> collision_possible zero_hash sample_planner"
    by (simp add: collision_possible_def prefix_free_def zero_hash_def sample_planner_def)
qed

lemma Build_returns_witness:
  "\<exists>plan. Build zero_hash (\<lambda>_. None) sample_planner sample_capture (Some sample_view) sample_evidence = Inr plan \<and> Plan_validate plan = Inr ()"
  using Build_returns [of "\<lambda>_. None" sample_capture "Some sample_view" zero_hash sample_planner sample_evidence,
      OF refl sample_capture_ok(1-4)] sample_capture_ok(5)
  by (auto split: sum.splits)

lemma sample_plan:
  obtains plan where "Build zero_hash (\<lambda>_. None) sample_planner sample_capture (Some sample_view) sample_evidence = Inr plan"
  using Build_outcome [of "\<lambda>_. None" sample_capture "Some sample_view" zero_hash sample_planner sample_evidence,
      OF refl sample_capture_ok(1-4)] sample_capture_ok(5)
  by (auto simp: outcome_def split: sum.splits)

lemma Build_hunks_unambiguous_witness:
  "\<exists>plan. Build zero_hash (\<lambda>_. None) sample_planner sample_capture (Some sample_view) sample_evidence = Inr plan \<and>
     Full (hunk_of_plan (environment_of zero_hash (\<lambda>_. None) sample_planner (Some sample_view) sample_capture) sample_record sample_hunk) =
     Full (hunk_of_plan (environment_of zero_hash (\<lambda>_. None) sample_planner (Some sample_view) sample_capture) sample_record sample_hunk)"
proof -
  obtain plan where plan: "Build zero_hash (\<lambda>_. None) sample_planner sample_capture (Some sample_view) sample_evidence = Inr plan"
    by (rule sample_plan)
  have "sample_record \<in> set (cp_Paths sample_capture)" "sample_hunk \<in> set (rp_Hunks sample_record)"
    by (simp_all add: sample_capture_def sample_record_def)
  with Build_hunks_unambiguous [OF plan this this refl] plan show ?thesis by blast
qed

lemma Build_owns_hunks_witness:
  "\<exists>plan. Build zero_hash (\<lambda>_. None) sample_planner sample_capture (Some sample_view) sample_evidence = Inr plan \<and>
     list_all2 (covered_as (environment_of zero_hash (\<lambda>_. None) sample_planner (Some sample_view) sample_capture))
       [sample_record] (pn_ChangedPaths plan)"
proof -
  obtain plan where plan: "Build zero_hash (\<lambda>_. None) sample_planner sample_capture (Some sample_view) sample_evidence = Inr plan"
    by (rule sample_plan)
  have "\<forall>r\<in>set (cp_Paths sample_capture). distinct (map rh_Ordinal (rp_Hunks r))"
    using sample_capture_ok(3) by (simp add: record_ok_def)
  from Build_owns_hunks [OF plan sample_capture_ok(2) this] plan show ?thesis
    by (auto simp: sample_capture_def sortedPathRecords_def)
qed

end
