(* ===== verification/Artifacts.thy ===== *)
theory Artifacts
  imports Planner
begin

text \<open>
  The checks that \<open>internal/review/persist.go\<close> runs on a plan and everything persisted with it, when
  it is saved, when it is loaded, and once more when a report is checked: the identity records hash
  to their identifiers, the records are exactly those the plan refers to, and the structured
  identity whose hash is the review identifier describes exactly this plan.

  A Go map that the code ranges over (citations, unit candidates, mandatory units) is the list of its
  entries; Go's order is unspecified, and it decides only which of several errors comes first.  The
  contents of unit candidates are never inspected here, so their type is a parameter.
\<close>

section \<open>Data\<close>

definition ErrIDRegistry :: gerror where
  "ErrIDRegistry = err ''review: identity registry does not match the plan''"
definition ErrManifestCorrupt :: gerror where
  "ErrManifestCorrupt = err ''review: review manifest is corrupt''"
definition ErrPlanIdentityMismatch :: gerror where
  "ErrPlanIdentityMismatch = err ''review: plan identity is inconsistent''"
definition ErrWorkspaceFingerprint :: gerror where
  "ErrWorkspaceFingerprint = err ''review: workspace fingerprint invariant violated''"

text \<open>\<open>fmt.Errorf("%w: ...", sentinel, args...)\<close>\<close>

definition wrapped :: "gerror \<Rightarrow> string \<Rightarrow> garg list \<Rightarrow> gerror" where
  "wrapped sentinel format args = Err (''%w: '' @ format) (AWrap sentinel # args)"

record citation_proof =
  cpr_ID :: string
  cpr_Side :: string
  cpr_Path :: string
  cpr_ContentHash :: string
  cpr_Start :: int
  cpr_End :: int

record id_record =
  ir_Kind :: string
  ir_Public :: string
  ir_Full :: digest
  ir_Canonical :: bytes

record 'c plan_artifacts =
  art_Plan :: plan
  art_UnitCandidates :: "(string \<times> 'c list) list"
  art_MandatoryUnits :: "(string \<times> bytes) list"
  art_Citations :: "(string \<times> citation_proof) list"
  art_PublishedIndexSignature :: string
  art_PlanIdentityBytes :: bytes
  art_PlanIdentity :: plan_identity
  art_IDRecords :: "id_record list"
  art_WorkspaceFingerprint :: string
  art_WorkspaceCaptureFingerprint :: string

definition contentIDKinds :: "string list" where
  "contentIDKinds = [PathIDPrefixV1, HunkIDPrefixV1, UnitIDPrefixV1, CohortIDPrefixV1, LayerIDPrefixV1, TargetIDPrefixV1]"

section \<open>Plan identity and workspace fingerprints\<close>

definition verifyPlanIdentity :: "(bytes \<Rightarrow> digest) \<Rightarrow> plan \<Rightarrow> bytes \<Rightarrow> digest result" where
  "verifyPlanIdentity H p identityBytes = (let full = H identityBytes in
     if identityBytes = [] then Inl (wrapped ErrPlanIdentityMismatch ''missing canonical plan identity bytes'' [])
     else if hex_encode (digest_bytes full) \<noteq> pn_PlanDigest p then
       Inl (wrapped ErrPlanIdentityMismatch ''recomputed digest does not match plan digest'' [])
     else if Public (public_id ReviewIDPrefixV1 full PublicIDReviewBytesV1) \<noteq> pn_ReviewID p then
       Inl (wrapped ErrPlanIdentityMismatch ''review id %q does not match plan digest'' [AStr (pn_ReviewID p)])
     else Inr full)"

definition verifyWorkspaceFingerprint :: "plan \<Rightarrow> string \<Rightarrow> unit result" where
  "verifyWorkspaceFingerprint p fingerprint =
     (if sc_Kind (pn_Scope p) = ScopeWorkspace then allOf [
        failIf (fingerprint = []) (wrapped ErrWorkspaceFingerprint ''workspace plan missing fingerprint'' []),
        failIf (side_Kind (sc_Head (pn_Scope p)) \<noteq> SideWorkspaceSHA256 \<or>
                fingerprint \<noteq> hex_encode (side_Value (sc_Head (pn_Scope p))))
          (wrapped ErrWorkspaceFingerprint ''fingerprint not bound to the workspace head'' [])]
      else failIf (fingerprint \<noteq> [])
        (wrapped ErrWorkspaceFingerprint ''committed/range plan must not carry a workspace fingerprint'' []))"

definition verifyWorkspaceCaptureFingerprint :: "plan \<Rightarrow> string \<Rightarrow> unit result" where
  "verifyWorkspaceCaptureFingerprint p fingerprint =
     (if sc_Kind (pn_Scope p) = ScopeWorkspace then
        failIf (\<not> isCanonicalDigestHex fingerprint)
          (wrapped ErrWorkspaceFingerprint ''workspace capture fingerprint is not canonical SHA-256'' [])
      else failIf (fingerprint \<noteq> [])
        (wrapped ErrWorkspaceFingerprint ''committed/range plan must not carry a workspace capture fingerprint'' []))"

section \<open>The identity registry\<close>

text \<open>\<open>registerID\<close>: a registry maps public identifiers to full digests.\<close>

definition registerID :: "(string \<rightharpoonup> digest) \<Rightarrow> string \<times> digest \<Rightarrow> (string \<rightharpoonup> digest) result" where
  "registerID registry entry = (case entry of (public, full) \<Rightarrow>
     (case registry public of
        Some existing \<Rightarrow> if existing \<noteq> full then Inl (wrapped ErrIDCollision ''%s'' [AStr public]) else Inr registry
      | None \<Rightarrow> Inr (registry(public \<mapsto> full))))"

text \<open>\<open>verifyRecords\<close>: the entries of \<open>byPublic\<close> in the order of the records.\<close>

definition verify_record ::
    "(bytes \<Rightarrow> digest) \<Rightarrow> (string \<times> digest) list \<Rightarrow> id_record \<Rightarrow> (string \<times> digest) list result" where
  "verify_record H byPublic r =
     (if ir_Kind r \<notin> set contentIDKinds then
        Inl (wrapped ErrIDRegistry ''unknown identity kind %q'' [AStr (ir_Kind r)])
      else if H (ir_Canonical r) \<noteq> ir_Full r then
        Inl (wrapped ErrIDRegistry ''record %s full digest does not match its canonical input'' [AStr (ir_Public r)])
      else if Public (public_id (ir_Kind r) (ir_Full r) PublicIDContentBytesV1) \<noteq> ir_Public r then
        Inl (wrapped ErrIDRegistry ''record %s public prefix does not match its full digest'' [AStr (ir_Public r)])
      else case map_of byPublic (ir_Public r) of
        Some existing \<Rightarrow>
          if existing \<noteq> ir_Full r then Inl (wrapped ErrIDCollision ''%s'' [AStr (ir_Public r)])
          else Inl (wrapped ErrIDRegistry ''duplicate identity record %s'' [AStr (ir_Public r)])
      | None \<Rightarrow> Inr (byPublic @ [(ir_Public r, ir_Full r)]))"

definition verifyRecords :: "(bytes \<Rightarrow> digest) \<Rightarrow> id_record list \<Rightarrow> (string \<times> digest) list result" where
  "verifyRecords H records = foldE (verify_record H) [] records"

text \<open>\<open>contentKindOf\<close>: the kinds are no prefixes of one another, so the order of the Go map is immaterial.\<close>

definition contentKindOf :: "string \<Rightarrow> string option" where
  "contentKindOf i = find (\<lambda>kind. has_prefix i kind \<and>
     isLowerHex (drop (length kind) i) (2 * PublicIDContentBytesV1)) contentIDKinds"

text \<open>\<open>collectPlanIDs\<close>: what each reference must be (\<open>addKind\<close>, \<open>addOneOf\<close>, \<open>addContent\<close>).\<close>

datatype id_use = OfKind string | OneOf "string list" | AnyContent

definition use_ok :: "string \<Rightarrow> id_use \<Rightarrow> string result" where
  "use_ok i u = (case contentKindOf i of
     None \<Rightarrow> Inl (wrapped ErrIDRegistry ''malformed content id %q'' [AStr i])
   | Some k \<Rightarrow> (case u of
       OfKind kind \<Rightarrow> if k \<noteq> kind
         then Inl (wrapped ErrIDRegistry ''id %q is kind %q, expected %q'' [AStr i, AStr k, AStr kind]) else Inr i
     | OneOf kinds \<Rightarrow> if k \<notin> set kinds
         then Inl (wrapped ErrIDRegistry ''id %q is kind %q, not one of %v''
           [AStr i, AStr k, AStr (''['' @ join '' '' kinds @ '']'')]) else Inr i
     | AnyContent \<Rightarrow> Inr i))"

definition audit_target_kinds :: "string list" where
  "audit_target_kinds = [HunkIDPrefixV1, PathIDPrefixV1, CohortIDPrefixV1, UnitIDPrefixV1, TargetIDPrefixV1]"

definition plan_uses ::
    "plan \<Rightarrow> (string \<times> citation_proof) list \<Rightarrow> string list \<Rightarrow> string list \<Rightarrow> (string \<times> id_use) list" where
  "plan_uses p citations candidateUnits mandatoryUnits =
     map (\<lambda>c. (pp_PathID c, OfKind PathIDPrefixV1)) (pn_ChangedPaths p)
   @ concat (map (\<lambda>c. (pc_CohortID c, OfKind CohortIDPrefixV1)
        # map (\<lambda>u. (u, OfKind UnitIDPrefixV1)) (pc_UnitIDs c)
        @ concat (map (\<lambda>l. (pl_LayerID l, OfKind LayerIDPrefixV1)
            # map (\<lambda>u. (u, OfKind UnitIDPrefixV1)) (pl_UnitIDs l)) (pc_Layers c))) (pn_Cohorts p))
   @ concat (map (\<lambda>u. [(ru_UnitID u, OfKind UnitIDPrefixV1), (ru_CohortID u, OfKind CohortIDPrefixV1),
          (ru_LayerID u, OfKind LayerIDPrefixV1)]
        @ map (\<lambda>h. (uh_PathID h, OfKind PathIDPrefixV1)) (ru_Hunks u)) (pn_PrimaryUnits p))
   @ concat (map (\<lambda>a. map (\<lambda>t. (t, OneOf audit_target_kinds)) (pa_TargetIDs a)) (pn_RequiredAudits p))
   @ concat (map (\<lambda>(key, c). [(key, AnyContent), (cpr_ID c, AnyContent)]) citations)
   @ map (\<lambda>u. (u, OfKind UnitIDPrefixV1)) candidateUnits
   @ map (\<lambda>u. (u, OfKind UnitIDPrefixV1)) mandatoryUnits"

definition collectPlanIDs ::
    "plan \<Rightarrow> (string \<times> citation_proof) list \<Rightarrow> string list \<Rightarrow> string list \<Rightarrow> string list result" where
  "collectPlanIDs p citations candidateUnits mandatoryUnits =
     bindE (mapE (\<lambda>(i, u). use_ok i u) (plan_uses p citations candidateUnits mandatoryUnits))
       (\<lambda>ids. Inr (remdups ids))"

definition addPlanToRegistry ::
    "(string \<rightharpoonup> digest) \<Rightarrow> (bytes \<Rightarrow> digest) \<Rightarrow> plan \<Rightarrow> (string \<times> citation_proof) list \<Rightarrow> string list \<Rightarrow>
     string list \<Rightarrow> id_record list \<Rightarrow> digest \<Rightarrow> (string \<rightharpoonup> digest) result" where
  "addPlanToRegistry registry H p citations candidateUnits mandatoryUnits records reviewFull =
     bindE (verifyRecords H records) (\<lambda>byPublic.
     bindE (collectPlanIDs p citations candidateUnits mandatoryUnits) (\<lambda>enumerated.
     seqE (allE (\<lambda>i. failIf (i \<notin> set (map fst byPublic))
             (wrapped ErrIDRegistry ''plan references %s with no identity record'' [AStr i])) enumerated)
    (seqE (allE (\<lambda>i. failIf (i \<notin> set enumerated)
             (wrapped ErrIDRegistry ''identity record %s is not referenced by the plan'' [AStr i])) (map fst byPublic))
    (bindE (registerID registry (pn_ReviewID p, reviewFull)) (\<lambda>registry.
     foldE registerID registry byPublic)))))"

section \<open>The identity describes the plan\<close>

text \<open>The map \<open>byPublic\<close> of \<open>verifyIdentityBinding\<close>, and its lookups.\<close>

definition record_index :: "id_record list \<Rightarrow> string \<rightharpoonup> id_record" where
  "record_index records = map_of (rev (map (\<lambda>r. (ir_Public r, r)) records))"

definition fullOf :: "id_record list \<Rightarrow> string \<Rightarrow> digest result" where
  "fullOf records public = (case record_index records public of
     None \<Rightarrow> Inl (wrapped ErrIDRegistry ''plan references %s with no identity record'' [AStr public])
   | Some r \<Rightarrow> Inr (ir_Full r))"

definition wantFull :: "id_record list \<Rightarrow> stable_id \<Rightarrow> string \<Rightarrow> unit result" where
  "wantFull records i public = bindE (fullOf records public) (\<lambda>want.
     failIf (Full i \<noteq> want)
       (wrapped ErrPlanIdentityMismatch ''identity digest for %s disagrees with its record'' [AStr public]))"

definition same_count :: "nat \<Rightarrow> nat \<Rightarrow> string \<Rightarrow> unit result" where
  "same_count n m format = failIf (n \<noteq> m) (wrapped ErrPlanIdentityMismatch format [AInt (int n), AInt (int m)])"

text \<open>One changed path: the loop body, returning its \<open>patchRow\<close>.\<close>

definition canonicalOf :: "id_record list \<Rightarrow> string \<Rightarrow> bytes" where
  "canonicalOf records public = (case record_index records public of None \<Rightarrow> [] | Some r \<Rightarrow> ir_Canonical r)"

definition bind_path ::
    "id_record list \<Rightarrow> digest \<Rightarrow> plan_path_entry \<times> plan_path \<Rightarrow> ((string \<times> string \<times> string) \<times> bytes) result" where
  "bind_path records scope pair = (case pair of (e, cp) \<Rightarrow>
     seqE (wantFull records (ppe_PathID e) (pp_PathID cp))
    (seqE (failIf (ppe_ReviewClass e \<noteq> pp_ReviewClass cp \<or> ppe_Coverage e \<noteq> pp_Coverage cp \<or>
                   ppe_Reason e \<noteq> pp_Reason cp \<or> ppe_RoleIDs e \<noteq> pp_Roles cp)
       (wrapped ErrPlanIdentityMismatch ''changed path %s class/coverage/reason/roles disagree with the identity''
         [AStr (pp_PathID cp)]))
    (bindE (wrapE (\<lambda>e. wrapped ErrPlanIdentityMismatch ''undecodable path record %s: %v'' [AStr (pp_PathID cp), AErr e])
       (decodeFramedFields (canonicalOf records (pp_PathID cp)))) (\<lambda>rf.
     bindE (wrapE (\<lambda>e. wrapped ErrPlanIdentityMismatch ''undecodable path record body %s: %v'' [AStr (pp_PathID cp), AErr e])
       (decodeFramedFields (fieldOf rf ''record''))) (\<lambda>rec.
     seqE (failIf (fieldOf rec ''new_path'' \<noteq> pp_NewPath cp \<or> fieldOf rec ''old_path'' \<noteq> pp_OldPath cp \<or>
                   fieldOf rec ''status'' \<noteq> pp_Status cp)
       (wrapped ErrPlanIdentityMismatch ''changed path %s disagrees with its identity record'' [AStr (pp_PathID cp)]))
    (seqE (failIf (fieldOf rf ''scope'' \<noteq> digest_bytes scope)
       (wrapped ErrPlanIdentityMismatch ''changed path %s binds a different scope than the identity'' [AStr (pp_PathID cp)]))
    (Inr ((fieldOf rec ''new_path'', fieldOf rec ''old_path'', fieldOf rec ''status''), fieldOf rf ''record''))))))))"

text \<open>The scope digest recomputed from the plan's scope and the sorted record frames.\<close>

definition rowsScopeDigest ::
    "(bytes \<Rightarrow> digest) \<Rightarrow> scope \<Rightarrow> ((string \<times> string \<times> string) \<times> bytes) list \<Rightarrow> digest" where
  "rowsScopeDigest H s rows =
     ScopeDigest H (sc_ObjectFormat s) (sc_Base s) (sc_Head s) (sc_Kind s)
       (H (FrameList (map snd (sort_key fst rows))))"

text \<open>One hunk of a primary unit.\<close>

definition raw_of_unit_hunk :: "unit_hunk \<Rightarrow> bytes \<Rightarrow> raw_hunk" where
  "raw_of_unit_hunk uh payload = \<lparr>rh_Ordinal = word_of_int (uh_Ordinal uh),
     rh_OldStart = word_of_int (uh_OldStart uh), rh_OldLines = word_of_int (uh_OldCount uh),
     rh_NewStart = word_of_int (uh_NewStart uh), rh_NewLines = word_of_int (uh_NewCount uh),
     rh_NoFinalNewlineOld = uh_NoFinalNewlineOld uh, rh_NoFinalNewlineNew = uh_NoFinalNewlineNew uh,
     rh_Payload = payload\<rparr>"

definition bind_unit_hunk ::
    "(bytes \<Rightarrow> digest) \<Rightarrow> id_record list \<Rightarrow> digest \<Rightarrow> string \<Rightarrow> nat \<Rightarrow> stable_id \<times> unit_hunk \<Rightarrow> unit result" where
  "bind_unit_hunk H records scope unitID j pair = (case pair of (hid, uh) \<Rightarrow>
     bindE (fullOf records (uh_PathID uh)) (\<lambda>pathFull.
     bindE (wrapE (\<lambda>_. wrapped ErrPlanIdentityMismatch ''unit %s hunk %d patch is not valid base64'' [AStr unitID, AInt (int j)])
       (b64_decode (uh_PatchBase64 uh))) (\<lambda>payload. allOf [
       failIf (Full (HunkID H scope pathFull (raw_of_unit_hunk uh payload)) \<noteq> Full hid)
         (wrapped ErrPlanIdentityMismatch ''unit %s hunk %d identity disagrees with its patch bytes'' [AStr unitID, AInt (int j)]),
       failIf (uh_HunkID uh \<noteq> Public hid)
         (wrapped ErrPlanIdentityMismatch ''unit %s hunk %d exposes hunk_id %s, want %s''
           [AStr unitID, AInt (int j), AStr (uh_HunkID uh), AStr (Public hid)]),
       wantFull records hid (uh_HunkID uh)])))"

definition bind_unit ::
    "(bytes \<Rightarrow> digest) \<Rightarrow> id_record list \<Rightarrow> digest \<Rightarrow> plan_unit_entry \<times> review_unit \<Rightarrow> unit result" where
  "bind_unit H records scope pair = (case pair of (e, u) \<Rightarrow> allOf [
     wantFull records (pue_UnitID e) (ru_UnitID u),
     failIf (length (pue_HunkIDs e) \<noteq> length (ru_Hunks u))
       (wrapped ErrPlanIdentityMismatch ''identity unit %s has %d hunks, plan has %d''
         [AStr (ru_UnitID u), AInt (int (length (pue_HunkIDs e))), AInt (int (length (ru_Hunks u)))]),
     allE (\<lambda>(j, pair). bind_unit_hunk H records scope (ru_UnitID u) j pair)
       (enumerate 0 (zip (pue_HunkIDs e) (ru_Hunks u)))])"

text \<open>Structured plans: the displayed matrix of cohorts and layers, flattened.\<close>

definition flat_cohorts :: "plan \<Rightarrow> (string \<times> string \<times> string list) list" where
  "flat_cohorts p = concat (map (\<lambda>c. map (\<lambda>l. (pc_CohortID c, pl_LayerID l, pl_UnitIDs l)) (pc_Layers c)) (pn_Cohorts p))"

definition bind_cohort_row ::
    "id_record list \<Rightarrow> nat \<times> plan_cohort_entry \<times> (string \<times> string \<times> string list) \<Rightarrow> unit result" where
  "bind_cohort_row records row = (case row of (i, e, (cohort, layer, units)) \<Rightarrow> allOf [
     wantFull records (pce_CohortID e) cohort,
     wantFull records (pce_LayerID e) layer,
     failIf (length (pce_UnitIDs e) \<noteq> length units)
       (wrapped ErrPlanIdentityMismatch ''identity cohort %d member count disagrees with the plan'' [AInt (int i)]),
     allE (\<lambda>(u, public). wantFull records u public) (zip (pce_UnitIDs e) units)])"

text \<open>Direct plans: the rows partition the primary units in order.\<close>

definition hasRecord :: "id_record list \<Rightarrow> string \<Rightarrow> digest \<Rightarrow> bool" where
  "hasRecord records kind full = list_ex (\<lambda>r. ir_Kind r = kind \<and> ir_Full r = full) records"

definition bind_row_unit ::
    "id_record list \<Rightarrow> review_unit list \<Rightarrow> nat \<Rightarrow> plan_cohort_entry \<Rightarrow> nat \<Rightarrow> stable_id \<Rightarrow> nat result" where
  "bind_row_unit records primary rowIndex row unitIndex unitID =
     (if unitIndex \<ge> length primary then
        Inl (wrapped ErrPlanIdentityMismatch ''direct identity has more partitioned units than the plan'' [])
      else let u = primary ! unitIndex in
        seqE (wantFull records unitID (ru_UnitID u))
       (bindE (fullOf records (ru_CohortID u)) (\<lambda>cohort.
        bindE (fullOf records (ru_LayerID u)) (\<lambda>layer.
        seqE (failIf (cohort \<noteq> Full (pce_CohortID row) \<or> layer \<noteq> Full (pce_LayerID row))
          (wrapped ErrPlanIdentityMismatch ''direct unit %s cohort/layer disagrees with identity row %d''
            [AStr (ru_UnitID u), AInt (int rowIndex)]))
        (Inr (unitIndex + 1))))))"

definition bind_direct_row ::
    "id_record list \<Rightarrow> review_unit list \<Rightarrow> (digest \<times> digest) list \<times> nat \<Rightarrow> nat \<times> plan_cohort_entry \<Rightarrow>
     ((digest \<times> digest) list \<times> nat) result" where
  "bind_direct_row records primary state row = (case (state, row) of ((seen, unitIndex), (rowIndex, e)) \<Rightarrow>
     let key = (Full (pce_CohortID e), Full (pce_LayerID e)) in
     if key \<in> set seen then
       Inl (wrapped ErrPlanIdentityMismatch ''direct identity repeats cohort/layer row %d'' [AInt (int rowIndex)])
     else if \<not> hasRecord records CohortIDPrefixV1 (fst key) \<or> \<not> hasRecord records LayerIDPrefixV1 (snd key) then
       Inl (wrapped ErrPlanIdentityMismatch ''direct identity cohort row %d has no matching cohort/layer records'' [AInt (int rowIndex)])
     else bindE (foldE (bind_row_unit records primary rowIndex e) unitIndex (pce_UnitIDs e)) (\<lambda>unitIndex.
       Inr (key # seen, unitIndex)))"

definition verifyDirectIdentityCohorts ::
    "id_record list \<Rightarrow> review_unit list \<Rightarrow> plan_cohort_entry list \<Rightarrow> unit result" where
  "verifyDirectIdentityCohorts records primary rows =
     bindE (foldE (bind_direct_row records primary) ([], 0) (enumerate 0 rows)) (\<lambda>(seen, unitIndex).
       failIf (unitIndex \<noteq> length primary)
         (wrapped ErrPlanIdentityMismatch ''direct identity partitions %d units, plan has %d''
           [AInt (int unitIndex), AInt (int (length primary))]))"

definition bind_audit ::
    "id_record list \<Rightarrow> nat \<times> plan_audit_entry \<times> plan_audit \<Rightarrow> unit result" where
  "bind_audit records row = (case row of (i, e, a) \<Rightarrow> allOf [
     failIf (pae_AuditID e \<noteq> pa_AuditID a)
       (wrapped ErrPlanIdentityMismatch ''identity audit %d id disagrees with the plan'' [AInt (int i)]),
     failIf (length (pae_TargetIDs e) \<noteq> length (pa_TargetIDs a))
       (wrapped ErrPlanIdentityMismatch ''identity audit %d target count disagrees with the plan'' [AInt (int i)]),
     allE (\<lambda>(t, public). wantFull records t public) (zip (pae_TargetIDs e) (pa_TargetIDs a))])"

text \<open>The content digests that the identity embeds.\<close>

definition embedded_digests :: "plan_identity \<Rightarrow> digest list" where
  "embedded_digests pi =
     map (\<lambda>e. Full (ppe_PathID e)) (pi_Paths pi) @ map (\<lambda>e. Full (phe_HunkID e)) (pi_Hunks pi)
   @ map (\<lambda>e. Full (pue_UnitID e)) (pi_Units pi)
   @ concat (map (\<lambda>e. [Full (pce_CohortID e), Full (pce_LayerID e)]) (pi_Cohorts pi))
   @ concat (map (\<lambda>e. map Full (pae_TargetIDs e)) (pi_Audits pi))"

definition bind_digests :: "id_record list \<Rightarrow> plan_identity \<Rightarrow> unit result" where
  "bind_digests records pi = allOf [
     failIf (length (remdups (embedded_digests pi)) \<noteq> length (remdups (map ir_Full records)))
       (wrapped ErrPlanIdentityMismatch ''identity embeds %d content ids, records carry %d''
         [AInt (int (length (remdups (embedded_digests pi)))), AInt (int (length (remdups (map ir_Full records))))]),
     allE (\<lambda>d. failIf (d \<notin> set (embedded_digests pi))
         (wrapped ErrPlanIdentityMismatch ''a record digest is absent from the identity'' []))
       (remdups (map ir_Full records))]"

definition bind_cohorts :: "plan \<Rightarrow> id_record list \<Rightarrow> plan_identity \<Rightarrow> unit result" where
  "bind_cohorts p records pi =
     (if pn_Mode p = ModeDirect then verifyDirectIdentityCohorts records (pn_PrimaryUnits p) (pi_Cohorts pi)
      else allOf [
        same_count (length (pi_Cohorts pi)) (length (flat_cohorts p)) ''identity has %d cohort rows, plan flattens to %d'',
        allE (bind_cohort_row records) (enumerate 0 (zip (pi_Cohorts pi) (flat_cohorts p)))])"

definition verifyIdentityBinding ::
    "(bytes \<Rightarrow> digest) \<Rightarrow> plan \<Rightarrow> id_record list \<Rightarrow> plan_identity \<Rightarrow> bytes \<Rightarrow> unit result" where
  "verifyIdentityBinding H p records pi identityBytes =
     seqE (failIf (ReviewPlanIdentityV1 pi \<noteq> identityBytes)
       (wrapped ErrPlanIdentityMismatch ''identity bytes are not the canonical encoding of the identity struct'' []))
    (seqE (same_count (length (pi_Paths pi)) (length (pn_ChangedPaths p)) ''identity has %d paths, plan has %d'')
    (bindE (mapE (bind_path records (pi_ScopeDigest pi)) (zip (pi_Paths pi) (pn_ChangedPaths p))) (\<lambda>rows. allOf [
       failIf (rowsScopeDigest H (pn_Scope p) rows \<noteq> pi_ScopeDigest pi)
         (wrapped ErrPlanIdentityMismatch ''identity scope digest disagrees with the plan scope and canonical patch'' []),
       same_count (length (pi_Units pi)) (length (pn_PrimaryUnits p)) ''identity has %d units, plan has %d'',
       allE (bind_unit H records (pi_ScopeDigest pi)) (zip (pi_Units pi) (pn_PrimaryUnits p)),
       bind_cohorts p records pi,
       same_count (length (pi_Audits pi)) (length (pn_RequiredAudits p)) ''identity has %d audits, plan has %d'',
       allE (bind_audit records) (enumerate 0 (zip (pi_Audits pi) (pn_RequiredAudits p))),
       bind_digests records pi])))"

section \<open>Mandatory units and the whole check\<close>

text \<open>The Go map from unit identifiers to units: the last unit of an identifier wins.\<close>

definition primary_index :: "plan \<Rightarrow> string \<rightharpoonup> review_unit" where
  "primary_index p = map_of (rev (map (\<lambda>u. (ru_UnitID u, u)) (pn_PrimaryUnits p)))"

definition check_mandatory :: "plan \<Rightarrow> (string \<times> bytes) list \<Rightarrow> string \<Rightarrow> unit result" where
  "check_mandatory p mandatory i = (case map_of mandatory i of
     None \<Rightarrow> Inl (wrapped ErrManifestCorrupt ''primary unit %s has no mandatory object'' [AStr i])
   | Some raw \<Rightarrow> failIf (Some raw \<noteq> map_option CanonicalMandatoryJSON (primary_index p i))
       (wrapped ErrManifestCorrupt ''mandatory unit %s is not byte-equal to its primary unit canonical form'' [AStr i]))"

definition validateMandatoryUnits :: "plan \<Rightarrow> (string \<times> bytes) list \<Rightarrow> unit result" where
  "validateMandatoryUnits p mandatory =
     (let ids = remdups (map ru_UnitID (pn_PrimaryUnits p)) in allOf [
       failIf (length mandatory \<noteq> length ids)
         (wrapped ErrManifestCorrupt ''%d mandatory units for %d primary units''
           [AInt (int (length mandatory)), AInt (int (length ids))]),
       allE (check_mandatory p mandatory) ids])"

definition verifyArtifactIntegrity ::
    "(bytes \<Rightarrow> digest) \<Rightarrow> plan \<Rightarrow> id_record list \<Rightarrow> plan_identity \<Rightarrow> bytes \<Rightarrow> string \<Rightarrow> (string \<times> bytes) list \<Rightarrow> unit result" where
  "verifyArtifactIntegrity H p records pi identityBytes publishedIndexSignature mandatory = allOf [
     verifyIdentityBinding H p records pi identityBytes,
     failIf (pi_HeadIndexSignature pi \<noteq> publishedIndexSignature)
       (wrapped ErrPlanIdentityMismatch ''published index signature disagrees with the identity head index signature'' []),
     validateMandatoryUnits p mandatory]"

end
