(* ===== verification/Captures.thy ===== *)
theory Captures
  imports Planner
begin

text \<open>
  The comparison of captures in \<open>internal/review/service.go\<close>: when two captures of a work tree are the
  same, the fingerprint under which a capture is stored with its plan, and the accounting of the
  files a snapshot had to leave out.
\<close>

section \<open>Sides and errors\<close>

definition sameSide :: "side_identity \<Rightarrow> side_identity \<Rightarrow> bool" where
  "sameSide a b \<longleftrightarrow> side_Kind a = side_Kind b \<and> side_Value a = side_Value b"

definition ErrConcurrentModification :: gerror where
  "ErrConcurrentModification = err ''review: workspace entry changed during capture''"
definition ErrHeadMoved :: gerror where
  "ErrHeadMoved = err ''review: workspace HEAD moved from the resolved scope base''"

definition isCaptureMismatch :: "gerror \<Rightarrow> bool" where
  "isCaptureMismatch e \<longleftrightarrow> errors_is e ErrConcurrentModification \<or> errors_is e ErrHeadMoved"

lemma sameSide_eq [simp]: "sameSide a b \<longleftrightarrow> a = b"
  by (cases a; cases b) (simp add: sameSide_def)

section \<open>Comparing captures\<close>

definition sameCapture :: "(bytes \<Rightarrow> digest) \<Rightarrow> capture \<Rightarrow> capture \<Rightarrow> bool" where
  "sameCapture H a b \<longleftrightarrow>
     sc_Kind (cp_Scope a) = sc_Kind (cp_Scope b) \<and> sc_ObjectFormat (cp_Scope a) = sc_ObjectFormat (cp_Scope b) \<and>
     sc_Digest (cp_Scope a) = sc_Digest (cp_Scope b) \<and> cp_CanonicalPatch a = cp_CanonicalPatch b \<and>
     cp_RawAdditions a = cp_RawAdditions b \<and> cp_RawDeletions a = cp_RawDeletions b \<and>
     cp_RawChurn a = cp_RawChurn b \<and> cp_ChangedPaths a = cp_ChangedPaths b \<and>
     cp_ReviewableChurn a = cp_ReviewableChurn b \<and> sameSide (sc_Base (cp_Scope a)) (sc_Base (cp_Scope b)) \<and>
     sameSide (sc_Head (cp_Scope a)) (sc_Head (cp_Scope b)) \<and>
     CanonicalPatchV1 H (cp_Paths a) = CanonicalPatchV1 H (cp_Paths b)"

definition capture_fields :: "(bytes \<Rightarrow> digest) \<Rightarrow> capture \<Rightarrow> field list" where
  "capture_fields H c = [
     (''scope'', digest_bytes (sc_Digest (cp_Scope c))),
     (''canonical_patch'', digest_bytes (cp_CanonicalPatch c)),
     (''paths'', CanonicalPatchV1 H (cp_Paths c)),
     (''raw_additions'', u64_bytes (word_of_int (cp_RawAdditions c))),
     (''raw_deletions'', u64_bytes (word_of_int (cp_RawDeletions c))),
     (''raw_churn'', u64_bytes (word_of_int (cp_RawChurn c))),
     (''reviewable_churn'', u64_bytes (word_of_int (cp_ReviewableChurn c))),
     (''changed_paths'', u64_bytes (word_of_int (cp_ChangedPaths c)))]"

definition canonicalCaptureFingerprint :: "(bytes \<Rightarrow> digest) \<Rightarrow> capture \<Rightarrow> string" where
  "canonicalCaptureFingerprint H c = hex_encode (digest_bytes (H (frame (capture_fields H c))))"

section \<open>Omissions of a snapshot\<close>

text \<open>Paths are slash-separated, as \<open>filepath.ToSlash\<close> leaves them on the platforms the review runs on.\<close>

record omission =
  om_Path :: string
  om_Side :: string
  om_Reason :: string

definition changed_on :: "omission \<Rightarrow> plan_path \<Rightarrow> string" where
  "changed_on om p = (if om_Side om = SideBase then pp_OldPath p
     else if om_Side om = SideHead then pp_NewPath p else [])"

definition relevantSnapshotOmissions :: "plan \<Rightarrow> omission list \<Rightarrow> omission list" where
  "relevantSnapshotOmissions p oms = filter (\<lambda>om. list_ex (\<lambda>c.
     changed_on om c \<noteq> [] \<and> changed_on om c = om_Path om) (pn_ChangedPaths p)) oms"

definition plan_path_name :: "plan_path \<Rightarrow> string" where
  "plan_path_name p = (if pp_NewPath p = [] then pp_OldPath p else pp_NewPath p)"

definition validateSnapshotOmissions :: "plan \<Rightarrow> omission list \<Rightarrow> unit result" where
  "validateSnapshotOmissions p oms = allE (\<lambda>om.
     case find (\<lambda>c. plan_path_name c = om_Path om) (pn_ChangedPaths p) of
       None \<Rightarrow> Inl (Err ''review: snapshot omission %s is absent from changed paths'' [AStr (om_Path om)])
     | Some c \<Rightarrow> failIf (pp_ReviewClass c \<noteq> ReviewClassUnreviewable \<or> pp_Coverage c \<noteq> PathCoverageNone)
         (Err ''review: snapshot omission %s is not accounted as unreviewable'' [AStr (om_Path om)])) oms"

lemma capture_fields_ok: "list_all (\<lambda>f. name_ok (fst f)) (capture_fields H c)"
  by (simp add: capture_fields_def name_ok_simp)

text \<open>What a fingerprint binds, if the hash does not collide on the two encodings.\<close>

lemma fingerprint_binds:
  assumes "canonicalCaptureFingerprint H a = canonicalCaptureFingerprint H b"
    and "inj_on H {frame (capture_fields H a), frame (capture_fields H b)}"
    and "length (frame (capture_fields H a)) < 2 ^ 64"
  shows "capture_fields H a = capture_fields H b"
proof -
  have "H (frame (capture_fields H a)) = H (frame (capture_fields H b))"
    using assms(1) by (simp add: canonicalCaptureFingerprint_def)
  then have "frame (capture_fields H a) = frame (capture_fields H b)"
    by (rule inj_onD [OF assms(2)]) blast+
  then show ?thesis by (rule frame_values_inject [OF capture_fields_ok capture_fields_ok assms(3)])
qed

end
