(* ===== verification/Ranges.thy ===== *)
theory Ranges
  imports Prelude
begin

text \<open>
  The line ranges of \<open>internal/review/check.go\<close>: the ranges that hunks change on one side of a path are
  sorted and merged once (\<open>normalizeDiffRanges\<close>), and a location is then looked up by binary search
  (\<open>sort.Search\<close>, in \<open>locationInsideDiff\<close>).  Line numbers are Go \<open>int\<close>s, and the one addition on them wraps at
  64 bits.
\<close>

section \<open>Integers of 64 bits\<close>

definition i64 :: "int \<Rightarrow> int" where
  "i64 n = (n + 2 ^ 63) mod 2 ^ 64 - 2 ^ 63"

lemma i64_id [simp]: "- (2 ^ 63) \<le> n \<Longrightarrow> n < 2 ^ 63 \<Longrightarrow> i64 n = n"
  unfolding i64_def by (subst mod_pos_pos_trivial) simp_all

section \<open>Binary search\<close>

text \<open>\<open>sort.Search\<close> of Go's standard library: the least index with the property, by bisection.\<close>

function search_between :: "(nat \<Rightarrow> bool) \<Rightarrow> nat \<Rightarrow> nat \<Rightarrow> nat" where
  "search_between f i j =
     (if i < j then let h = (i + j) div 2 in
        if \<not> f h then search_between f (h + 1) j else search_between f i h
      else i)"
  by pat_completeness auto
termination
  by (relation "measure (\<lambda>(f, i, j). j - i)") auto

declare search_between.simps [simp del]

definition sort_Search :: "nat \<Rightarrow> (nat \<Rightarrow> bool) \<Rightarrow> nat" where
  "sort_Search n f = search_between f 0 n"

lemma search_between_least:
  assumes mono: "\<And>a b. a \<le> b \<Longrightarrow> b < n \<Longrightarrow> f a \<Longrightarrow> f b"
    and "i \<le> j" "j \<le> n" "\<forall>k<i. \<not> f k" "j < n \<longrightarrow> f j"
  shows "\<exists>m. search_between f i j = m \<and> (\<forall>k<m. \<not> f k) \<and> m \<le> n \<and> (m < n \<longrightarrow> f m)"
  using assms(2-)
proof (induction "j - i" arbitrary: i j rule: less_induct)
  case less
  show ?case
  proof (cases "i < j")
    case False
    then show ?thesis using less.prems by (simp add: search_between.simps)
  next
    case True
    obtain h where h: "h = (i + j) div 2" "i \<le> h" "h < j" using True by simp
    have step: "search_between f i j = (if f h then search_between f i h else search_between f (h + 1) j)"
      using True by (simp add: search_between.simps [of f i j] h(1) Let_def)
    show ?thesis
    proof (cases "f h")
      case True
      then show ?thesis using less.hyps [of h i] h less.prems unfolding step by simp
    next
      case False
      have "\<forall>k<h + 1. \<not> f k"
        using mono [of _ h] h less.prems(2) False by (metis Suc_eq_plus1 less_Suc_eq_le order_less_le_trans)
      then show ?thesis using less.hyps [of j "h + 1"] h less.prems False unfolding step by simp
    qed
  qed
qed

lemma sort_Search_least:
  assumes "\<And>a b. a \<le> b \<Longrightarrow> b < n \<Longrightarrow> f a \<Longrightarrow> f b"
  shows "(\<forall>k < sort_Search n f. \<not> f k) \<and> (sort_Search n f < n \<longrightarrow> f (sort_Search n f))"
  using search_between_least [of n f 0 n, OF assms] unfolding sort_Search_def by auto

section \<open>Merging ranges\<close>

record line_range =
  lr_start :: int
  lr_end :: int

text \<open>One round of the merging loop; the merged ranges have the last one first.\<close>

fun merge_range :: "line_range list \<Rightarrow> line_range \<Rightarrow> line_range list" where
  "merge_range [] current = [current]"
| "merge_range (m # ms) current =
     (if lr_start current > i64 (lr_end m + 1) then current # m # ms
      else if lr_end current > lr_end m then m\<lparr>lr_end := lr_end current\<rparr> # ms
      else m # ms)"

definition normalizeRanges :: "line_range list \<Rightarrow> line_range list" where
  "normalizeRanges ranges =
     rev (foldl merge_range [] (sort_key (\<lambda>r. (lr_start r, lr_end r)) ranges))"

definition rangeHit :: "line_range list \<Rightarrow> int \<Rightarrow> int \<Rightarrow> bool" where
  "rangeHit ranges start stop =
     (let index = sort_Search (length ranges) (\<lambda>i. lr_end (ranges ! i) \<ge> start)
      in index < length ranges \<and> lr_start (ranges ! index) \<le> stop)"

text \<open>A proper range is not empty, and its last line has a successor in 64 bits.\<close>

definition proper_range :: "line_range \<Rightarrow> bool" where
  "proper_range r \<longleftrightarrow> 0 \<le> lr_start r \<and> lr_start r \<le> lr_end r \<and> lr_end r < 2 ^ 63 - 1"

definition covers :: "line_range \<Rightarrow> int \<Rightarrow> bool" where
  "covers r x \<longleftrightarrow> lr_start r \<le> x \<and> x \<le> lr_end r"

definition merged :: "line_range list \<Rightarrow> bool" where
  "merged ms \<longleftrightarrow> list_all proper_range ms \<and> sorted_wrt (\<lambda>a b. lr_end b < lr_start a) ms"

lemma merge_range_ok:
  assumes "merged ms" "proper_range c" "\<forall>m\<in>set ms. lr_start m \<le> lr_start c"
  shows "merged (merge_range ms c)"
    and "(\<exists>m\<in>set (merge_range ms c). covers m x) \<longleftrightarrow> covers c x \<or> (\<exists>m\<in>set ms. covers m x)"
    and "\<forall>m\<in>set (merge_range ms c). lr_start m \<le> lr_start c"
  using assms by (cases ms; auto simp: merged_def proper_range_def covers_def)+

lemma merge_ranges_ok:
  assumes "merged ms" "list_all proper_range rs" "sorted (map lr_start rs)"
    and "\<forall>m\<in>set ms. \<forall>r\<in>set rs. lr_start m \<le> lr_start r"
  shows "merged (foldl merge_range ms rs) \<and>
    (\<forall>x. (\<exists>m\<in>set (foldl merge_range ms rs). covers m x) \<longleftrightarrow>
         (\<exists>r\<in>set rs. covers r x) \<or> (\<exists>m\<in>set ms. covers m x))"
  using assms
proof (induction rs arbitrary: ms)
  case (Cons c rs)
  have c: "proper_range c" "\<forall>m\<in>set ms. lr_start m \<le> lr_start c" using Cons.prems by auto
  note ok = merge_range_ok [OF Cons.prems(1) c]
  have "\<forall>m\<in>set (merge_range ms c). \<forall>r\<in>set rs. lr_start m \<le> lr_start r"
    using ok(3) Cons.prems(3) by fastforce
  with ok(1) Cons show ?case by (simp add: ok(2)) blast
qed simp

lemma sorted_starts: "sorted (map lr_start (sort_key (\<lambda>r. (lr_start r, lr_end r)) rs))"
proof -
  have "sorted (map (\<lambda>r. (lr_start r, lr_end r)) (sort_key (\<lambda>r. (lr_start r, lr_end r)) rs))" by simp
  then show ?thesis unfolding sorted_map by (rule sorted_wrt_mono_rel [rotated]) auto
qed

lemma normalizeRanges_ok:
  assumes "list_all proper_range rs"
  shows "list_all proper_range (normalizeRanges rs)"
    and "sorted_wrt (\<lambda>a b. lr_end a < lr_start b) (normalizeRanges rs)"
    and "(\<exists>m\<in>set (normalizeRanges rs). covers m x) \<longleftrightarrow> (\<exists>r\<in>set rs. covers r x)"
  using merge_ranges_ok [OF _ _ sorted_starts, of "[]" rs] assms
  by (auto simp: normalizeRanges_def merged_def list_all_iff sorted_wrt_rev)

text \<open>
  The lookup in merged ranges is exact: a location is found exactly when one of the ranges that
  were merged meets it.
\<close>

lemma meets_iff:
  assumes "list_all proper_range rs" "start \<le> stop"
  shows "(\<exists>r\<in>set rs. lr_start r \<le> stop \<and> start \<le> lr_end r) \<longleftrightarrow>
    (\<exists>x. start \<le> x \<and> x \<le> stop \<and> (\<exists>r\<in>set rs. covers r x))" (is "?l \<longleftrightarrow> ?r")
proof
  assume ?l
  then obtain r where "r \<in> set rs" "lr_start r \<le> stop" "start \<le> lr_end r" by blast
  moreover have "lr_start r \<le> lr_end r" using \<open>r \<in> set rs\<close> assms(1) by (auto simp: list_all_iff proper_range_def)
  ultimately have "covers r (max start (lr_start r))" "start \<le> max start (lr_start r)"
    "max start (lr_start r) \<le> stop" using assms(2) by (auto simp: covers_def)
  then show ?r using \<open>r \<in> set rs\<close> by blast
next
  assume ?r
  then obtain x r where "start \<le> x" "x \<le> stop" "r \<in> set rs" "covers r x" by blast
  then show ?l by (intro bexI [of _ r]) (auto simp: covers_def)
qed

lemma rangeHit_sorted:
  assumes p: "list_all proper_range ms" and s: "sorted_wrt (\<lambda>a b. lr_end a < lr_start b) ms"
  shows "rangeHit ms start stop \<longleftrightarrow> (\<exists>m\<in>set ms. lr_start m \<le> stop \<and> start \<le> lr_end m)"
proof -
  have order: "lr_start (ms ! a) \<le> lr_start (ms ! b) \<and> lr_end (ms ! a) \<le> lr_end (ms ! b)"
    if "a \<le> b" "b < length ms" for a b
  proof (cases "a = b")
    case False
    then have "lr_end (ms ! a) < lr_start (ms ! b)" using that s by (simp add: sorted_wrt_iff_nth_less)
    moreover have "proper_range (ms ! a)" "proper_range (ms ! b)"
      using that p by (simp_all add: list_all_iff)
    ultimately show ?thesis by (auto simp: proper_range_def)
  qed simp
  obtain k where k: "k = sort_Search (length ms) (\<lambda>i. lr_end (ms ! i) \<ge> start)" by blast
  have least: "\<forall>i<k. \<not> start \<le> lr_end (ms ! i)" "k < length ms \<longrightarrow> start \<le> lr_end (ms ! k)"
    using sort_Search_least [of "length ms" "\<lambda>i. lr_end (ms ! i) \<ge> start"] order
    unfolding k by (metis (lifting) order_trans)+
  have "k < length ms \<and> lr_start (ms ! k) \<le> stop" if "i < length ms" "lr_start (ms ! i) \<le> stop" "start \<le> lr_end (ms ! i)" for i
  proof -
    have "k \<le> i" using least(1) that(3) leI by blast
    then show ?thesis using order [of k i] that by auto
  qed
  then have "(\<exists>m\<in>set ms. lr_start m \<le> stop \<and> start \<le> lr_end m) \<longleftrightarrow> k < length ms \<and> lr_start (ms ! k) \<le> stop"
    using least(2) by (metis in_set_conv_nth)
  then show ?thesis by (simp add: rangeHit_def Let_def k)
qed

lemma rangeHit_normalized:
  assumes "list_all proper_range rs" "start \<le> stop"
  shows "rangeHit (normalizeRanges rs) start stop \<longleftrightarrow>
    (\<exists>r\<in>set rs. lr_start r \<le> stop \<and> start \<le> lr_end r)"
  using normalizeRanges_ok [OF assms(1)] meets_iff [OF _ assms(2)] assms(1)
  by (simp add: rangeHit_sorted)

end
