(* ===== verification/Validator.thy ===== *)
theory Validator
  imports Artifacts Captures Ranges
begin

text \<open>
  The first half of \<open>internal/review/check.go\<close>: the \<open>reportValidator\<close>, a set of indexes over the
  persisted artifacts of a plan (which identifiers exist, which hunks a unit owns, which lines a hunk changes,
  what an audit target stands for), and the checks of findings that use them: causes, citations with their
  proofs, locations.

  The reader of source files (\<open>SourceResolver.Read\<close>, which runs Git or reads the work tree) is the
  parameter \<open>read\<close>; its byte limit is the same constant in every call and is left out.  The context is never
  cancelled.  Go's sets of strings are HOL sets; the one set the code ranges over, the audit
  targets, is the list of its elements in the order of the plan.
\<close>

section \<open>Data\<close>

record source_entry =
  se_Present :: bool
  se_Mode :: u32
  se_Kind :: string
  se_OID :: string
  se_Bytes :: bytes
  se_TextClass :: string

type_synonym source_reader = "string \<Rightarrow> string \<Rightarrow> source_entry result"

record checked_hunk =
  ch_id :: string
  ch_unitID :: string
  ch_pathID :: string
  ch_side :: string
  ch_path :: string
  ch_start :: int
  ch_end :: int
  ch_patchSum :: string
  ch_oldPath :: string
  ch_oldStart :: int
  ch_oldCount :: int
  ch_newPath :: string
  ch_newStart :: int
  ch_newCount :: int

record causal_ownership =
  co_hunks :: "string set"
  co_paths :: "string set"
  co_units :: "string set"

record report_validator =
  rv_citations :: "(string \<times> citation_proof) list"
  rv_paths :: "string \<rightharpoonup> plan_path"
  rv_units :: "string \<rightharpoonup> string set"
  rv_auditTargets :: "string list"
  rv_auditOwnership :: "string \<rightharpoonup> causal_ownership"
  rv_targetPaths :: "string \<rightharpoonup> string"
  rv_planIDs :: "string set"
  rv_hunks :: "string \<rightharpoonup> checked_hunk"
  rv_hunkProofs :: "string set"
  rv_pathHasHunk :: "string set"
  rv_pathSides :: "string \<rightharpoonup> side_identity"
  rv_changedSides :: "string set"
  rv_diffRanges :: "string \<Rightarrow> line_range list"

text \<open>\<open>checkIssue\<close>; the problem is the format of its text with the arguments.\<close>

record check_issue =
  is_status :: string
  is_reason :: string
  is_problem :: gerror

definition invalid_issue :: "string \<Rightarrow> string \<Rightarrow> garg list \<Rightarrow> check_issue" where
  "invalid_issue reason format args =
     \<lparr>is_status = CheckInvalid, is_reason = reason, is_problem = Err (reason @ '': '' @ format) args\<rparr>"

definition incomplete_issue :: "string \<Rightarrow> string \<Rightarrow> garg list \<Rightarrow> check_issue" where
  "incomplete_issue reason format args =
     \<lparr>is_status = CheckIncomplete, is_reason = reason, is_problem = Err (reason @ '': '' @ format) args\<rparr>"

definition nul :: char where "nul = CHR 0x00"

definition sourceKey :: "string \<Rightarrow> string \<Rightarrow> string" where
  "sourceKey side path = side @ nul # path"

definition proofKey :: "string \<Rightarrow> string \<Rightarrow> int \<Rightarrow> int \<Rightarrow> string \<Rightarrow> string" where
  "proofKey side path start stop contentHash = join [nul] [side, path, itoa start, itoa stop, contentHash]"

definition hash_hex :: "(bytes \<Rightarrow> digest) \<Rightarrow> bytes \<Rightarrow> string" where
  "hash_hex H b = hex_encode (digest_bytes (H b))"

section \<open>Hunks\<close>

text \<open>The side, path, start and end by which a hunk is cited: its new lines, or the old ones if it only removes.\<close>

definition cited_range ::
    "string \<Rightarrow> int \<Rightarrow> int \<Rightarrow> string \<Rightarrow> int \<Rightarrow> int \<Rightarrow> string \<times> string \<times> int \<times> int" where
  "cited_range oldPath oldStart oldCount newPath newStart newCount =
     (let (side, path, start, count) =
            (if newCount = 0 then (SideBase, oldPath, oldStart, oldCount) else (SideHead, newPath, newStart, newCount));
          count = (if count < 1 then 1 else count)
      in (side, path, start, i64 (start + count - 1)))"

definition make_checked_hunk ::
    "string \<Rightarrow> string \<Rightarrow> string \<Rightarrow> string \<Rightarrow> string \<Rightarrow> int \<Rightarrow> int \<Rightarrow> string \<Rightarrow> int \<Rightarrow> int \<Rightarrow> checked_hunk" where
  "make_checked_hunk i unitID pathID patchSum oldPath oldStart oldCount newPath newStart newCount =
     (let (side, path, start, stop) = cited_range oldPath oldStart oldCount newPath newStart newCount
      in \<lparr>ch_id = i, ch_unitID = unitID, ch_pathID = pathID, ch_side = side, ch_path = path,
          ch_start = start, ch_end = stop, ch_patchSum = patchSum,
          ch_oldPath = oldPath, ch_oldStart = oldStart, ch_oldCount = oldCount,
          ch_newPath = newPath, ch_newStart = newStart, ch_newCount = newCount\<rparr>)"

definition checkedHunkFrom :: "(bytes \<Rightarrow> digest) \<Rightarrow> string \<Rightarrow> string \<Rightarrow> unit_hunk \<Rightarrow> checked_hunk result" where
  "checkedHunkFrom H unitID hunkID h =
     bindE (wrapE (\<lambda>e. Err ''unit %s hunk %s patch: %w'' [AStr unitID, AStr hunkID, AWrap e])
       (b64_decode (uh_PatchBase64 h))) (\<lambda>payload.
     Inr (make_checked_hunk hunkID unitID (uh_PathID h) (hash_hex H payload)
       (uh_OldPath h) (uh_OldStart h) (uh_OldCount h) (uh_NewPath h) (uh_NewStart h) (uh_NewCount h)))"

definition checkUint64 :: "bytes \<Rightarrow> int result" where
  "checkUint64 b = (if length b \<noteq> 8 then Inl (Err ''want 8 bytes, got %d'' [AInt (int (length b))])
     else Inr (be_val b))"

text \<open>The zero value of \<open>PlanPath\<close>, which reading a missing key of the map gives.\<close>

definition no_path :: plan_path where
  "no_path = \<lparr>pp_PathID = [], pp_OldPath = [], pp_NewPath = [], pp_Status = [], pp_ReviewClass = [],
     pp_Coverage = [], pp_Roles = [], pp_Reason = []\<rparr>"

definition checkedHunkFromRecord ::
    "(bytes \<Rightarrow> digest) \<Rightarrow> id_record \<Rightarrow> (string \<rightharpoonup> string) \<Rightarrow> (string \<rightharpoonup> plan_path) \<Rightarrow> checked_hunk result" where
  "checkedHunkFromRecord H r fullPaths paths = (let i = AStr (ir_Public r) in
     bindE (wrapE (\<lambda>e. Err ''hunk %s canonical: %w'' [i, AWrap e]) (decodeFramedFields (ir_Canonical r))) (\<lambda>fields.
     case fullPaths (hex_encode (fieldOf fields ''path'')) of
       None \<Rightarrow> Inl (Err ''hunk %s has unknown full path digest'' [i])
     | Some pathID \<Rightarrow>
     bindE (wrapE (\<lambda>e. Err ''hunk %s record: %w'' [i, AWrap e]) (decodeFramedFields (fieldOf fields ''hunk''))) (\<lambda>hf.
     bindE (wrapE (\<lambda>e. Err ''hunk %s old_start: %w'' [i, AWrap e]) (checkUint64 (fieldOf hf ''old_start''))) (\<lambda>oldStart.
     bindE (wrapE (\<lambda>e. Err ''hunk %s old_lines: %w'' [i, AWrap e]) (checkUint64 (fieldOf hf ''old_lines''))) (\<lambda>oldLines.
     bindE (wrapE (\<lambda>e. Err ''hunk %s new_start: %w'' [i, AWrap e]) (checkUint64 (fieldOf hf ''new_start''))) (\<lambda>newStart.
     bindE (wrapE (\<lambda>e. Err ''hunk %s new_lines: %w'' [i, AWrap e]) (checkUint64 (fieldOf hf ''new_lines''))) (\<lambda>newLines.
     if oldStart > 2 ^ 63 - 1 \<or> oldLines > 2 ^ 63 - 1 \<or> newStart > 2 ^ 63 - 1 \<or> newLines > 2 ^ 63 - 1
     then Inl (Err ''hunk %s coordinates overflow int'' [i])
     else let p = (case paths pathID of None \<Rightarrow> no_path | Some p \<Rightarrow> p) in
       Inr (make_checked_hunk (ir_Public r) [] pathID (hash_hex H (fieldOf hf ''payload''))
         (pp_OldPath p) oldStart oldLines (pp_NewPath p) newStart newLines))))))))"

section \<open>Indexes\<close>

definition add_range :: "string \<Rightarrow> line_range \<Rightarrow> report_validator \<Rightarrow> report_validator" where
  "add_range key r v = v\<lparr>rv_diffRanges := (rv_diffRanges v)(key := rv_diffRanges v key @ [r])\<rparr>"

definition indexHunk :: "checked_hunk \<Rightarrow> report_validator \<Rightarrow> report_validator" where
  "indexHunk h v =
     (let v = v\<lparr>rv_hunks := (rv_hunks v)(ch_id h \<mapsto> h), rv_pathHasHunk := insert (ch_pathID h) (rv_pathHasHunk v),
            rv_hunkProofs := insert (proofKey (ch_side h) (ch_path h) (ch_start h) (ch_end h) (ch_patchSum h)) (rv_hunkProofs v)\<rparr>;
          v = (if ch_oldCount h > 0 \<and> ch_oldPath h \<noteq> []
               then add_range (sourceKey SideBase (ch_oldPath h))
                 \<lparr>lr_start = ch_oldStart h, lr_end = i64 (ch_oldStart h + ch_oldCount h - 1)\<rparr> v else v)
      in if ch_newCount h > 0 \<and> ch_newPath h \<noteq> []
         then add_range (sourceKey SideHead (ch_newPath h))
           \<lparr>lr_start = ch_newStart h, lr_end = i64 (ch_newStart h + ch_newCount h - 1)\<rparr> v else v)"

definition normalizeDiffRanges :: "report_validator \<Rightarrow> report_validator" where
  "normalizeDiffRanges v = v\<lparr>rv_diffRanges := normalizeRanges \<circ> rv_diffRanges v\<rparr>"

definition decodeCheckSideIdentity :: "bytes \<Rightarrow> side_identity result" where
  "decodeCheckSideIdentity data = bindE (decodeFramedFields data) (\<lambda>fields.
     let side = \<lparr>side_Kind = fieldOf fields ''kind'', side_Value = fieldOf fields ''value''\<rparr> in
     bindE (side_validate side) (\<lambda>_. Inr side))"

definition index_side ::
    "id_record \<Rightarrow> (string \<rightharpoonup> bytes) \<Rightarrow> report_validator \<Rightarrow> string \<times> string \<times> string \<Rightarrow> report_validator result" where
  "index_side r raw v row = (case row of (name, path, side) \<Rightarrow>
     if path = [] then Inr v
     else bindE (wrapE (\<lambda>e. Err ''path %s %s: %w'' [AStr (ir_Public r), AStr name, AWrap e])
       (decodeCheckSideIdentity (fieldOf raw name))) (\<lambda>identity.
     Inr (v\<lparr>rv_pathSides := (rv_pathSides v)(sourceKey side path \<mapsto> identity)\<rparr>)))"

definition indexPathSides :: "report_validator \<Rightarrow> id_record \<Rightarrow> report_validator result" where
  "indexPathSides v r = (case rv_paths v (ir_Public r) of
     None \<Rightarrow> Inl (Err ''path record %s has no plan path'' [AStr (ir_Public r)])
   | Some path \<Rightarrow>
     bindE (wrapE (\<lambda>e. Err ''path %s canonical: %w'' [AStr (ir_Public r), AWrap e])
       (decodeFramedFields (ir_Canonical r))) (\<lambda>outer.
     bindE (wrapE (\<lambda>e. Err ''path %s record: %w'' [AStr (ir_Public r), AWrap e])
       (decodeFramedFields (fieldOf outer ''record''))) (\<lambda>raw.
     foldE (index_side r raw) v [(''old_side'', pp_OldPath path, SideBase), (''new_side'', pp_NewPath path, SideHead)])))"

definition full_paths :: "plan_identity \<Rightarrow> string \<rightharpoonup> string" where
  "full_paths pi = map_of (rev (map (\<lambda>e. (hex_encode (digest_bytes (Full (ppe_PathID e))), Public (ppe_PathID e))) (pi_Paths pi)))"

text \<open>The loop over the identity records.\<close>

definition index_record ::
    "(bytes \<Rightarrow> digest) \<Rightarrow> (string \<rightharpoonup> string) \<Rightarrow> report_validator \<Rightarrow> id_record \<Rightarrow> report_validator result" where
  "index_record H fullPaths v r =
     (if ir_Kind r = PathIDPrefixV1 then indexPathSides v r
      else if ir_Kind r = HunkIDPrefixV1 then
        bindE (checkedHunkFromRecord H r fullPaths (rv_paths v)) (\<lambda>h. Inr (indexHunk h v))
      else if ir_Kind r = TargetIDPrefixV1 then
        bindE (wrapE (\<lambda>e. Err ''target %s canonical: %w'' [AStr (ir_Public r), AWrap e])
          (decodeFramedFields (ir_Canonical r))) (\<lambda>fields.
        case fullPaths (hex_encode (fieldOf fields ''path'')) of
          None \<Rightarrow> Inr v
        | Some pathID \<Rightarrow> Inr (v\<lparr>rv_targetPaths := (rv_targetPaths v)(ir_Public r \<mapsto> pathID)\<rparr>))
      else Inr v)"

text \<open>The loop over the primary units: the identity says which hunks a unit owns.\<close>

definition unit_identity :: "plan_identity \<Rightarrow> string \<Rightarrow> stable_id list" where
  "unit_identity pi unitID =
     (case map_of (rev (map (\<lambda>e. (Public (pue_UnitID e), pue_HunkIDs e)) (pi_Units pi))) unitID of
        None \<Rightarrow> [] | Some ids \<Rightarrow> ids)"

definition index_unit ::
    "(bytes \<Rightarrow> digest) \<Rightarrow> plan_identity \<Rightarrow> report_validator \<Rightarrow> review_unit \<Rightarrow> report_validator result" where
  "index_unit H pi v u = (let ids = unit_identity pi (ru_UnitID u) in
     bindE (foldE (\<lambda>v (hid, h). bindE (checkedHunkFrom H (ru_UnitID u) (Public hid) h) (\<lambda>h. Inr (indexHunk h v)))
       v (zip ids (ru_Hunks u))) (\<lambda>v.
     Inr (v\<lparr>rv_units := (rv_units v)(ru_UnitID u \<mapsto> set (map Public ids))\<rparr>)))"

definition plan_ids :: "'c plan_artifacts \<Rightarrow> string list" where
  "plan_ids a = (let p = art_Plan a; pi = art_PlanIdentity a in
     map ir_Public (art_IDRecords a) @ map pp_PathID (pn_ChangedPaths p)
   @ concat (map (\<lambda>e. Public (pue_UnitID e) # map Public (pue_HunkIDs e)) (pi_Units pi))
   @ map (\<lambda>e. Public (phe_HunkID e)) (pi_Hunks pi)
   @ concat (map pa_TargetIDs (pn_RequiredAudits p)) @ map ru_UnitID (pn_PrimaryUnits p))"

definition path_sides :: "plan_path \<Rightarrow> string list" where
  "path_sides p = (if pp_OldPath p \<noteq> [] then [sourceKey SideBase (pp_OldPath p)] else [])
     @ (if pp_NewPath p \<noteq> [] then [sourceKey SideHead (pp_NewPath p)] else [])"

definition cohort_units :: "plan_identity \<Rightarrow> string \<rightharpoonup> string set" where
  "cohort_units pi c = (let rows = filter (\<lambda>e. Public (pce_CohortID e) = c) (pi_Cohorts pi) in
     if rows = [] then None else Some (set (concat (map (\<lambda>e. map Public (pce_UnitIDs e)) rows))))"

definition start_validator :: "'c plan_artifacts \<Rightarrow> report_validator" where
  "start_validator a = (let p = art_Plan a in
     \<lparr>rv_citations = art_Citations a,
      rv_paths = map_of (map (\<lambda>c. (pp_PathID c, c)) (pn_ChangedPaths p)),
      rv_units = Map.empty, rv_auditTargets = remdups (concat (map pa_TargetIDs (pn_RequiredAudits p))),
      rv_auditOwnership = Map.empty, rv_targetPaths = Map.empty, rv_planIDs = set (plan_ids a),
      rv_hunks = Map.empty, rv_hunkProofs = {}, rv_pathHasHunk = {}, rv_pathSides = Map.empty,
      rv_changedSides = set (concat (map path_sides (pn_ChangedPaths p))), rv_diffRanges = (\<lambda>_. [])\<rparr>)"

text \<open>The map of changed paths is built first and rejects a repeated identifier.\<close>

fun check_path_ids :: "string list \<Rightarrow> plan_path list \<Rightarrow> unit result" where
  "check_path_ids seen [] = Inr ()"
| "check_path_ids seen (p # ps) =
     (if pp_PathID p \<in> set seen then Inl (Err ''duplicate changed path id %s'' [AStr (pp_PathID p)])
      else check_path_ids (pp_PathID p # seen) ps)"

definition target_ownership ::
    "report_validator \<Rightarrow> (string \<rightharpoonup> string set) \<Rightarrow> string \<Rightarrow> causal_ownership result" where
  "target_ownership v cohortUnits target = (let none = \<lparr>co_hunks = {}, co_paths = {}, co_units = {}\<rparr> in
     if has_prefix target HunkIDPrefixV1 then
       (if rv_hunks v target = None then Inl (Err ''audit target %s has no owned hunk'' [AStr target])
        else Inr (none\<lparr>co_hunks := {target}\<rparr>))
     else if has_prefix target PathIDPrefixV1 then
       (if rv_paths v target = None then Inl (Err ''audit target %s has no owned path'' [AStr target])
        else Inr (none\<lparr>co_paths := {target}\<rparr>))
     else if has_prefix target UnitIDPrefixV1 then
       (if rv_units v target = None then Inl (Err ''audit target %s has no owned unit'' [AStr target])
        else Inr (none\<lparr>co_units := {target}\<rparr>))
     else if has_prefix target CohortIDPrefixV1 then (case cohortUnits target of
         None \<Rightarrow> Inl (Err ''audit target %s has no owned cohort'' [AStr target])
       | Some units \<Rightarrow> Inr (none\<lparr>co_units := units\<rparr>))
     else if has_prefix target TargetIDPrefixV1 then (case rv_targetPaths v target of
         None \<Rightarrow> Inl (Err ''audit target %s has no owned path'' [AStr target])
       | Some pathID \<Rightarrow> Inr (none\<lparr>co_paths := {pathID}\<rparr>))
     else Inl (Err ''audit target %s has unsupported kind'' [AStr target]))"

definition indexAuditOwnership ::
    "report_validator \<Rightarrow> (string \<rightharpoonup> string set) \<Rightarrow> report_validator result" where
  "indexAuditOwnership v cohortUnits =
     foldE (\<lambda>w target. bindE (target_ownership v cohortUnits target) (\<lambda>o'.
         Inr (w\<lparr>rv_auditOwnership := (rv_auditOwnership w)(target \<mapsto> o')\<rparr>))) v (rv_auditTargets v)"

definition newReportValidator :: "(bytes \<Rightarrow> digest) \<Rightarrow> 'c plan_artifacts \<Rightarrow> report_validator result" where
  "newReportValidator H a = (let p = art_Plan a; pi = art_PlanIdentity a in
     case oidWidthFor (sc_ObjectFormat (pn_Scope p)) of
       None \<Rightarrow> Inl (Err ''invalid object format %q'' [AStr (sc_ObjectFormat (pn_Scope p))])
     | Some width \<Rightarrow>
       seqE (check_path_ids [] (pn_ChangedPaths p))
      (bindE (foldE (index_record H (full_paths pi)) (start_validator a) (art_IDRecords a)) (\<lambda>v.
       bindE (foldE (index_unit H pi) v (pn_PrimaryUnits p)) (\<lambda>v.
       indexAuditOwnership (normalizeDiffRanges v) (cohort_units pi)))))"

section \<open>Citations\<close>

type_synonym checked = "check_issue + unit"

definition citation_key :: "citation \<Rightarrow> string" where
  "citation_key c = (if ci_ID c = [] then ''path:'' @ ci_Path c else ci_ID c)"

text \<open>\<open>lookupCitationProof\<close>: by identifier, or by a path that exactly one proof is about.\<close>

definition lookupCitationProof :: "report_validator \<Rightarrow> citation \<Rightarrow> citation_proof option" where
  "lookupCitationProof v c =
     (if ci_ID c \<noteq> [] then
        if ci_ID c \<notin> rv_planIDs v then None
        else case map_of (rv_citations v) (ci_ID c) of
          None \<Rightarrow> None | Some proof \<Rightarrow> if cpr_ID proof = ci_ID c then Some proof else None
      else case filter (\<lambda>proof. cpr_Path proof = ci_Path c) (map snd (rv_citations v)) of
          [proof] \<Rightarrow> Some proof | _ \<Rightarrow> None)"

definition proofMatchesHunk :: "citation_proof \<Rightarrow> checked_hunk \<Rightarrow> bool" where
  "proofMatchesHunk proof h \<longleftrightarrow> cpr_Side proof = ch_side h \<and> cpr_Path proof = ch_path h \<and>
     cpr_Start proof = ch_start h \<and> cpr_End proof = ch_end h \<and> cpr_ContentHash proof = ch_patchSum h"

definition lineCount :: "bytes \<Rightarrow> int" where
  "lineCount content =
     (if content = [] then 1
      else let n = int (length (filter (\<lambda>c. c = newline) content));
               n = (if last content \<noteq> newline then n + 1 else n)
           in if n < 1 then 1 else n)"

definition proofIssue :: "string \<Rightarrow> string \<Rightarrow> garg list \<Rightarrow> check_issue" where
  "proofIssue key detail args = invalid_issue ''citation_proof'' (''%s '' @ detail) (AStr key # args)"

definition validateCitationProof ::
    "(bytes \<Rightarrow> digest) \<Rightarrow> source_reader \<Rightarrow> report_validator \<Rightarrow> string \<Rightarrow> citation_proof \<Rightarrow> checked" where
  "validateCitationProof H read v key proof =
     (if cpr_Side proof \<noteq> SideBase \<and> cpr_Side proof \<noteq> SideHead then
        Inl (proofIssue key ''wrong side %q'' [AStr (cpr_Side proof)])
      else if cpr_Path proof = [] \<or> \<not> isCanonicalDigestHex (cpr_ContentHash proof) \<or>
          cpr_Start proof < 1 \<or> cpr_End proof < cpr_Start proof then
        Inl (proofIssue key ''malformed path, digest, or range'' [])
      else case rv_hunks v (cpr_ID proof) of
        Some h \<Rightarrow> failIf (\<not> proofMatchesHunk proof h)
          (proofIssue key ''wrong side, path, range, or content for owned hunk'' [])
      | None \<Rightarrow>
        if proofKey (cpr_Side proof) (cpr_Path proof) (cpr_Start proof) (cpr_End proof) (cpr_ContentHash proof)
           \<in> rv_hunkProofs v then Inr ()
        else case read (cpr_Side proof) (cpr_Path proof) of
          Inl e \<Rightarrow> Inl (proofIssue key ''%s'' [AErr e])
        | Inr entry \<Rightarrow>
          if \<not> se_Present entry then Inl (proofIssue key ''path is absent'' [])
          else if cpr_ContentHash proof \<noteq> hash_hex H (se_Bytes entry) then
            Inl (proofIssue key ''content digest is stale'' [])
          else failIf (cpr_Start proof \<noteq> 1 \<or> cpr_End proof \<noteq> lineCount (se_Bytes entry))
            (proofIssue key ''wrong range %d-%d; canonical content range is 1-%d''
              [AInt (cpr_Start proof), AInt (cpr_End proof), AInt (lineCount (se_Bytes entry))]))"

definition check_citation ::
    "(bytes \<Rightarrow> digest) \<Rightarrow> source_reader \<Rightarrow> report_validator \<Rightarrow> string \<Rightarrow> string list \<Rightarrow> citation \<Rightarrow>
     check_issue + string list" where
  "check_citation H read v label seen c = (let key = citation_key c in
     if ci_ID c \<noteq> [] \<and> ci_Path c \<noteq> [] then
       Inl (invalid_issue ''citation'' ''%s citation must not mix id and path'' [AStr label])
     else if key \<in> set seen then
       Inl (invalid_issue ''duplicate_citation'' ''%s repeats %s'' [AStr label, AStr key])
     else case lookupCitationProof v c of
       None \<Rightarrow> Inl (invalid_issue ''citation'' ''%s references evidence %s absent from persisted plan'' [AStr label, AStr key])
     | Some proof \<Rightarrow> bindE (validateCitationProof H read v key proof) (\<lambda>_. Inr (key # seen)))"

definition validateCitationSet ::
    "(bytes \<Rightarrow> digest) \<Rightarrow> source_reader \<Rightarrow> report_validator \<Rightarrow> string \<Rightarrow> citation list \<Rightarrow> checked" where
  "validateCitationSet H read v label citations =
     bindE (foldE (check_citation H read v label) [] citations) (\<lambda>_. Inr ())"

section \<open>Causes\<close>

definition validCause :: "report_validator \<Rightarrow> cause \<Rightarrow> bool" where
  "validCause v c \<longleftrightarrow>
     (if ca_Kind c = CausePrimaryUnit then rv_units v (ca_ID c) \<noteq> None
      else if ca_Kind c = CauseChangedPath then rv_paths v (ca_ID c) \<noteq> None
      else if ca_Kind c = CauseAuditTarget then ca_ID c \<in> set (rv_auditTargets v)
      else False)"

definition supports_cause :: "report_validator \<Rightarrow> cause \<Rightarrow> citation \<Rightarrow> bool" where
  "supports_cause v c citation = (let i = ci_ID citation in
     if ca_Kind c = CausePrimaryUnit then
       (case rv_units v (ca_ID c) of None \<Rightarrow> False | Some owned \<Rightarrow> i \<in> owned)
     else if ca_Kind c = CauseChangedPath then
       i = ca_ID c \<and> ca_ID c \<notin> rv_pathHasHunk v \<or>
       (case rv_hunks v i of None \<Rightarrow> False | Some h \<Rightarrow> ch_pathID h = ca_ID c)
     else if ca_Kind c = CauseAuditTarget then
       (let own = (case rv_auditOwnership v (ca_ID c) of
            None \<Rightarrow> \<lparr>co_hunks = {}, co_paths = {}, co_units = {}\<rparr> | Some own \<Rightarrow> own)
        in i \<in> co_hunks own \<or> i \<in> co_paths own \<and> i \<notin> rv_pathHasHunk v \<or>
           (case rv_hunks v i of None \<Rightarrow> False
            | Some h \<Rightarrow> ch_pathID h \<in> co_paths own \<or> ch_unitID h \<in> co_units own))
     else False)"

definition citationsSupportCause :: "report_validator \<Rightarrow> cause \<Rightarrow> citation list \<Rightarrow> bool" where
  "citationsSupportCause v c citations = list_ex (supports_cause v c) citations"

definition cause_key :: "cause \<Rightarrow> string" where
  "cause_key c = ca_Kind c @ '':'' @ ca_ID c"

definition check_cause :: "report_validator \<Rightarrow> string \<Rightarrow> string list \<Rightarrow> cause \<Rightarrow> check_issue + string list" where
  "check_cause v findingID seen c =
     (if cause_key c \<in> set seen then
        Inl (invalid_issue ''duplicate_cause'' ''finding %s repeats %s'' [AStr findingID, AStr (cause_key c)])
      else if \<not> validCause v c then
        Inl (invalid_issue ''cause'' ''finding %s references foreign %s %s'' [AStr findingID, AStr (ca_Kind c), AStr (ca_ID c)])
      else Inr (cause_key c # seen))"

section \<open>Locations\<close>

definition locationInsideDiff :: "report_validator \<Rightarrow> location \<Rightarrow> bool" where
  "locationInsideDiff v l = (let key = sourceKey (lo_Side l) (lo_Path l) in
     if lo_Kind l = LocationPath then key \<in> rv_changedSides v
     else rangeHit (rv_diffRanges v key) (lo_Start l) (lo_End l))"

definition locationSideIdentity :: "report_validator \<Rightarrow> location \<Rightarrow> source_entry \<Rightarrow> side_identity option" where
  "locationSideIdentity v l entry =
     (if se_OID entry \<noteq> [] then (case hex_decode (se_OID entry) of
        Inl _ \<Rightarrow> None | Inr value \<Rightarrow> Some \<lparr>side_Kind = SideGitOID, side_Value = value\<rparr>)
      else rv_pathSides v (sourceKey (lo_Side l) (lo_Path l)))"

definition location_proof ::
    "(bytes \<Rightarrow> digest) \<Rightarrow> report_validator \<Rightarrow> string \<Rightarrow> int \<Rightarrow> location \<Rightarrow> source_entry \<Rightarrow> checked" where
  "location_proof H v findingID index l entry =
     (let issue = (\<lambda>format args. invalid_issue ''location'' (''finding %s location %d '' @ format) (AStr findingID # AInt index # args)) in
      if lo_ContentHash l \<noteq> [] then
        if lo_ContentHash l \<noteq> hash_hex H (se_Bytes entry) then
          Inl (issue ''content digest does not match %s %s'' [AStr (lo_Path l), AStr (lo_Side l)])
        else if lo_Kind l = LocationRange then
          if se_TextClass entry \<noteq> TextClassText then Inl (issue ''range requires text'' [])
          else failIf (lo_End l > lineCount (se_Bytes entry))
            (issue ''range %d-%d exceeds %s %s line count %d''
              [AInt (lo_Start l), AInt (lo_End l), AStr (lo_Path l), AStr (lo_Side l), AInt (lineCount (se_Bytes entry))])
        else Inr ()
      else if se_Kind entry \<noteq> lo_EntryType l \<or> se_Mode entry \<noteq> lo_Mode l then
        Inl (issue ''non-content type/mode does not match'' [])
      else failIf (\<not> (case (locationSideIdentity v l entry, lo_Identity l) of
             (Some expected, Some given) \<Rightarrow> sameSide given expected | _ \<Rightarrow> False))
        (issue ''non-content identity does not match'' []))"

definition validateLocation ::
    "(bytes \<Rightarrow> digest) \<Rightarrow> source_reader \<Rightarrow> report_validator \<Rightarrow> string \<Rightarrow> int \<Rightarrow> location \<Rightarrow> check_issue + bool" where
  "validateLocation H read v findingID index l =
     (case read (lo_Side l) (lo_Path l) of
        Inl e \<Rightarrow> Inl (invalid_issue ''location'' ''finding %s location %d cannot resolve: %v'' [AStr findingID, AInt index, AErr e])
      | Inr entry \<Rightarrow>
        if \<not> se_Present entry then
          Inl (invalid_issue ''location'' ''finding %s location %d path %s is absent on %s''
            [AStr findingID, AInt index, AStr (lo_Path l), AStr (lo_Side l)])
        else bindE (location_proof H v findingID index l entry) (\<lambda>_. Inr (locationInsideDiff v l)))"

definition locationKey :: "location \<Rightarrow> string" where
  "locationKey l = join '':'' [lo_Kind l, lo_Side l, lo_Path l, itoa (lo_Start l), itoa (lo_End l)]"

definition displayLocation :: "location \<Rightarrow> string" where
  "displayLocation l = (if lo_Kind l = LocationRange
     then lo_Path l @ '':'' @ itoa (lo_Start l) @ ''-'' @ itoa (lo_End l) else lo_Path l)"

definition check_location ::
    "(bytes \<Rightarrow> digest) \<Rightarrow> source_reader \<Rightarrow> report_validator \<Rightarrow> finding \<Rightarrow> string list \<Rightarrow> nat \<times> location \<Rightarrow>
     check_issue + string list" where
  "check_location H read v f seen row = (case row of (index, l) \<Rightarrow>
     if locationKey l \<in> set seen then
       Inl (invalid_issue ''duplicate_location'' ''finding %s repeats %s'' [AStr (fi_ID f), AStr (locationKey l)])
     else bindE (validateLocation H read v (fi_ID f) (int index) l) (\<lambda>inside.
       if inside then Inr (locationKey l # seen)
       else bindE (allE (\<lambda>c. failIf (\<not> citationsSupportCause v c (fi_Citations f))
           (invalid_issue ''outside_diff_support'' ''finding %s location %s has no plan-owned causal citation''
             [AStr (fi_ID f), AStr (displayLocation l)])) (fi_Causes f)) (\<lambda>_.
         Inr (locationKey l # seen))))"

section \<open>Findings\<close>

text \<open>The body of the loop over findings; the keys of the locations seen run through the whole report.\<close>

definition check_finding ::
    "(bytes \<Rightarrow> digest) \<Rightarrow> source_reader \<Rightarrow> report_validator \<Rightarrow> string list \<Rightarrow> finding \<Rightarrow> check_issue + string list" where
  "check_finding H read v seenLocations f =
     (if fi_Citations f = [] then
        Inl (invalid_issue ''citation'' ''finding %s has no supporting citation'' [AStr (fi_ID f)])
      else if fi_VerifierEvidence f = [] then
        Inl (invalid_issue ''verifier_evidence'' ''finding %s has no verifier evidence citation'' [AStr (fi_ID f)])
      else
        bindE (foldE (check_cause v (fi_ID f)) [] (fi_Causes f)) (\<lambda>_.
        seqE (validateCitationSet H read v (''finding '' @ fi_ID f @ '' supporting'') (fi_Citations f))
       (seqE (validateCitationSet H read v (''finding '' @ fi_ID f @ '' verifier'') (fi_VerifierEvidence f))
       (foldE (check_location H read v f) seenLocations (enumerate 0 (fi_Locations f))))))"

definition validateFindings ::
    "(bytes \<Rightarrow> digest) \<Rightarrow> source_reader \<Rightarrow> report_validator \<Rightarrow> finding list \<Rightarrow> checked" where
  "validateFindings H read v findings =
     bindE (foldE (check_finding H read v) [] findings) (\<lambda>_. Inr ())"

end
