(* ===== verification/Checker.thy ===== *)
theory Checker
  imports Validator
begin

text \<open>
  The second half of \<open>internal/review/check.go\<close>: the size limits that come before everything else, the
  coverage of a structured plan by the receipts of a report, the recommendation, and \<open>Service.Check\<close>,
  which composes all checks into a verdict.

  What surrounds the checks is a record of parameters: the review store (a lock, a loaded plan, or an
  error), the capture of the work tree, the reader of sources, and \<open>sprint\<close>, the text that Go's \<open>fmt\<close>
  makes of a format and its arguments, on which no decision depends.  \<open>ce_read\<close> is one function of
  side and path: the sources are those of one state of the files, the one between the two captures of
  \<open>Check\<close>, so a file that changes between two reads of one check is not in the model.
\<close>

section \<open>Size limits\<close>

definition maxCheckFindingsV1 :: int where [simp]: "maxCheckFindingsV1 = 100000"
definition maxCheckReceiptsV1 :: int where [simp]: "maxCheckReceiptsV1 = 100000"
definition maxCheckItemsPerFindingV1 :: int where [simp]: "maxCheckItemsPerFindingV1 = 100000"
definition maxCheckItemsPerReceiptV1 :: int where [simp]: "maxCheckItemsPerReceiptV1 = 100000"
definition maxCheckPlanItemsV1 :: int where [simp]: "maxCheckPlanItemsV1 = 500000"
definition maxCheckTotalReferencesV1 :: int where [simp]: "maxCheckTotalReferencesV1 = 1000000"

text \<open>\<open>charge\<close> of \<open>preflightArtifactBounds\<close>: the running total of references.\<close>

definition charge_plan :: "int \<Rightarrow> string \<times> int \<Rightarrow> int result" where
  "charge_plan running item = (case item of (name, n) \<Rightarrow>
     if n > maxCheckPlanItemsV1 then
       Inl (Err ''review: plan %s count %d exceeds %d'' [AStr name, AInt n, AInt maxCheckPlanItemsV1])
     else if running > maxCheckTotalReferencesV1 - n then
       Inl (Err ''review: plan references exceed %d'' [AInt maxCheckTotalReferencesV1])
     else Inr (running + n))"

abbreviation count :: "'a list \<Rightarrow> int" where
  "count xs \<equiv> int (length xs)"

definition artifact_sizes :: "'c plan_artifacts \<Rightarrow> (string \<times> int) list" where
  "artifact_sizes a = (let p = art_Plan a; pi = art_PlanIdentity a in
    [(''changed paths'', count (pn_ChangedPaths p)), (''primary units'', count (pn_PrimaryUnits p)),
     (''required audits'', count (pn_RequiredAudits p)), (''identity paths'', count (pi_Paths pi)),
     (''identity hunks'', count (pi_Hunks pi)), (''identity units'', count (pi_Units pi)),
     (''identity cohorts'', count (pi_Cohorts pi)), (''identity audits'', count (pi_Audits pi)),
     (''identity records'', count (art_IDRecords a)), (''citation proofs'', count (art_Citations a)),
     (''unit candidates'', count (art_UnitCandidates a)), (''mandatory units'', count (art_MandatoryUnits a))]
   @ map (\<lambda>u. (''unit hunks'', count (ru_Hunks u))) (pn_PrimaryUnits p)
   @ map (\<lambda>e. (''identity unit hunks'', count (pue_HunkIDs e))) (pi_Units pi)
   @ map (\<lambda>r. (''audit targets'', count (pa_TargetIDs r))) (pn_RequiredAudits p)
   @ map (\<lambda>(_, cs). (''unit candidate entries'', count cs)) (art_UnitCandidates a))"

definition preflightArtifactBounds :: "'c plan_artifacts \<Rightarrow> unit result" where
  "preflightArtifactBounds a = bindE (foldE charge_plan 0 (artifact_sizes a)) (\<lambda>_. Inr ())"

text \<open>
  The loops of \<open>preflightReportBounds\<close>: each entry is an owner's label and the sizes of its nested
  collections.  The test inside \<open>charge\<close> cannot fire, because its callers test the same limit first.
\<close>

definition charge_report :: "int \<Rightarrow> int \<Rightarrow> int result" where
  "charge_report running n =
     (if n > maxCheckItemsPerFindingV1 \<and> n > maxCheckItemsPerReceiptV1 then
        Inl (Err ''review: nested collection count %d exceeds %d'' [AInt n, AInt maxCheckItemsPerFindingV1])
      else if running > maxCheckTotalReferencesV1 - n then
        Inl (Err ''review: report references exceed %d'' [AInt maxCheckTotalReferencesV1])
      else Inr (running + n))"

definition charge_owner :: "int \<Rightarrow> (string \<times> string \<times> int) \<times> int list \<Rightarrow> int result" where
  "charge_owner running row = (case row of ((kind, owner, limit), sizes) \<Rightarrow>
     foldE (\<lambda>running n.
       if n > limit then Inl (Err (''review: '' @ kind @ '' %s collection count %d exceeds %d'') [AStr owner, AInt n, AInt limit])
       else charge_report running n) running sizes)"

definition report_sizes :: "report \<Rightarrow> ((string \<times> string \<times> int) \<times> int list) list" where
  "report_sizes r =
     map (\<lambda>f. ((''finding'', fi_ID f, maxCheckItemsPerFindingV1),
       [count (fi_Causes f), count (fi_Locations f), count (fi_Citations f), count (fi_VerifierEvidence f)])) (re_Findings r)
   @ map (\<lambda>x. ((''primary receipt'', pr_UnitID x, maxCheckItemsPerReceiptV1),
       [count (pr_AcknowledgedPrimaryHunkIDs x), count (pr_ContextCitations x), count (pr_FindingIDs x),
        count (pr_Uncertainties x)])) (re_PrimaryReceipts r)
   @ map (\<lambda>x. ((''audit receipt'', ar_AuditID x, maxCheckItemsPerReceiptV1),
       [count (ar_AcknowledgedAuditTargetIDs x), count (ar_ContextCitations x), count (ar_FindingIDs x),
        count (ar_Uncertainties x)])) (re_AuditReceipts r)"

definition preflightReportBounds :: "report \<Rightarrow> unit result" where
  "preflightReportBounds r = allOf [
     failIf (count (re_Findings r) > maxCheckFindingsV1)
       (Err ''review: findings count %d exceeds %d'' [AInt (count (re_Findings r)), AInt maxCheckFindingsV1]),
     failIf (count (re_PrimaryReceipts r) > maxCheckReceiptsV1)
       (Err ''review: primary receipt count %d exceeds %d'' [AInt (count (re_PrimaryReceipts r)), AInt maxCheckReceiptsV1]),
     failIf (count (re_AuditReceipts r) > maxCheckReceiptsV1)
       (Err ''review: audit receipt count %d exceeds %d'' [AInt (count (re_AuditReceipts r)), AInt maxCheckReceiptsV1]),
     bindE (foldE charge_owner 0 (report_sizes r)) (\<lambda>_. Inr ())]"

section \<open>The plan that is checked against\<close>

fun check_targets :: "string \<Rightarrow> string list \<Rightarrow> string list \<Rightarrow> unit result" where
  "check_targets audit seen [] = Inr ()"
| "check_targets audit seen (t # ts) =
     (if t \<in> set seen then Inl (Err ''review: audit %s repeats target %s'' [AStr audit, AStr t])
      else check_targets audit (t # seen) ts)"

fun check_audits :: "string list \<Rightarrow> plan_audit list \<Rightarrow> unit result" where
  "check_audits seen [] = Inr ()"
| "check_audits seen (a # as) =
     (if pa_AuditID a \<notin> set RequiredAuditsV1 then
        Inl (Err ''review: structured plan has foreign audit %s'' [AStr (pa_AuditID a)])
      else if pa_AuditID a \<in> set seen then
        Inl (Err ''review: structured plan repeats audit %s'' [AStr (pa_AuditID a)])
      else seqE (check_targets (pa_AuditID a) [] (pa_TargetIDs a)) (check_audits (pa_AuditID a # seen) as))"

definition validatePlanAuditManifest :: "plan \<Rightarrow> unit result" where
  "validatePlanAuditManifest p =
     (if pn_Mode p \<noteq> ModeStructured then Inr ()
      else allOf [
        failIf (length (pn_RequiredAudits p) \<noteq> length RequiredAuditsV1)
          (Err ''review: structured plan must contain exactly %d required audits'' [AInt (int (length RequiredAuditsV1))]),
        check_audits [] (pn_RequiredAudits p)])"

definition verifyLoadedCheckArtifacts :: "(bytes \<Rightarrow> digest) \<Rightarrow> 'c plan_artifacts \<Rightarrow> unit result" where
  "verifyLoadedCheckArtifacts H a = (let p = art_Plan a; canonical = ReviewPlanIdentityV1 (art_PlanIdentity a);
       digestHex = hash_hex H canonical; wantReviewID = ''rvw_'' @ hex_encode (take 20 (digest_bytes (H canonical))) in
     allOf [
       Plan_validate p,
       validatePlanAuditManifest p,
       failIf (canonical \<noteq> art_PlanIdentityBytes a) (err ''canonical plan identity bytes differ''),
       failIf (pn_PlanDigest p \<noteq> digestHex)
         (Err ''full plan digest mismatch: got %s want %s'' [AStr (pn_PlanDigest p), AStr digestHex]),
       failIf (pn_ReviewID p \<noteq> wantReviewID)
         (Err ''review id mismatch: got %s want %s'' [AStr (pn_ReviewID p), AStr wantReviewID]),
       verifyArtifactIntegrity H p (art_IDRecords a) (art_PlanIdentity a) (art_PlanIdentityBytes a)
         (art_PublishedIndexSignature a) (art_MandatoryUnits a),
       bindE (addPlanToRegistry Map.empty H p (art_Citations a) (map fst (art_UnitCandidates a))
           (map fst (art_MandatoryUnits a)) (art_IDRecords a) (H canonical)) (\<lambda>_. Inr ())])"

text \<open>\<open>validateReportShapeForCheck\<close>: \<open>Report.Validate\<close> without the recommendation.\<close>

definition validateReportShapeForCheck :: "report \<Rightarrow> unit result" where
  "validateReportShapeForCheck r = allOf (report_header_checks r @ [
     findings_validate [] (re_Findings r),
     allE PrimaryReceipt_validate (re_PrimaryReceipts r),
     allE AuditReceipt_validate (re_AuditReceipts r)])"

section \<open>Coverage\<close>

text \<open>\<open>exactAcknowledgement\<close>: the expected set, each element once; the least missing one is reported.\<close>

fun check_acknowledged :: "string \<Rightarrow> string \<Rightarrow> string \<Rightarrow> string set \<Rightarrow> string list \<Rightarrow> string list \<Rightarrow> checked" where
  "check_acknowledged reason owner item expected seen [] = Inr ()"
| "check_acknowledged reason owner item expected seen (i # is) =
     (if i \<in> set seen then Inl (invalid_issue reason ''%s repeats %s %s'' [AStr owner, AStr item, AStr i])
      else if i \<notin> expected then Inl (invalid_issue reason ''%s acknowledges foreign %s %s'' [AStr owner, AStr item, AStr i])
      else check_acknowledged reason owner item expected (i # seen) is)"

definition exactAcknowledgement ::
    "string \<Rightarrow> string \<Rightarrow> string \<Rightarrow> string set \<Rightarrow> string list \<Rightarrow> checked" where
  "exactAcknowledgement reason owner item expected acknowledged =
     seqE (check_acknowledged reason owner item expected [] acknowledged)
       (case sorted_list_of_set (expected - set acknowledged) of
          [] \<Rightarrow> Inr ()
        | i # _ \<Rightarrow> Inl (incomplete_issue reason ''%s missing %s %s'' [AStr owner, AStr item, AStr i]))"

fun check_finding_ids :: "string \<Rightarrow> string set \<Rightarrow> string list \<Rightarrow> string list \<Rightarrow> checked" where
  "check_finding_ids owner findings seen [] = Inr ()"
| "check_finding_ids owner findings seen (i # is) =
     (if i \<in> set seen then Inl (invalid_issue ''receipt_finding'' ''%s repeats finding %s'' [AStr owner, AStr i])
      else if i \<notin> findings then
        Inl (invalid_issue ''receipt_finding'' ''%s references foreign finding %s'' [AStr owner, AStr i])
      else check_finding_ids owner findings (i # seen) is)"

definition validateReceiptFindingIDs :: "string \<Rightarrow> string list \<Rightarrow> string set \<Rightarrow> checked" where
  "validateReceiptFindingIDs owner ids findings = check_finding_ids owner findings [] ids"

definition no_blocking :: "string \<Rightarrow> string \<Rightarrow> uncertainty list \<Rightarrow> checked" where
  "no_blocking kind owner uncertainties = allE (\<lambda>u. failIf (un_Blocking u)
     (incomplete_issue ''blocking_uncertainty'' (kind @ '' %s: %s'') [AStr owner, AStr (un_Summary u)])) uncertainties"

text \<open>The receipts by the identifier they are for; an unknown or a second one is refused.\<close>

fun index_receipts ::
    "string \<Rightarrow> string \<Rightarrow> ('r \<Rightarrow> string) \<Rightarrow> (string \<Rightarrow> bool) \<Rightarrow> (string \<rightharpoonup> 'r) \<Rightarrow> 'r list \<Rightarrow> check_issue + (string \<rightharpoonup> 'r)" where
  "index_receipts reason kind key known m [] = Inr m"
| "index_receipts reason kind key known m (r # rs) =
     (if \<not> known (key r) then Inl (invalid_issue reason (''foreign '' @ kind @ '' %s'') [AStr (key r)])
      else if m (key r) \<noteq> None then
        Inl (invalid_issue reason (''duplicate receipt for '' @ kind @ '' %s'') [AStr (key r)])
      else index_receipts reason kind key known (m(key r \<mapsto> r)) rs)"

definition cover_unit ::
    "(bytes \<Rightarrow> digest) \<Rightarrow> source_reader \<Rightarrow> report_validator \<Rightarrow> string set \<Rightarrow> (string \<rightharpoonup> primary_receipt) \<Rightarrow> string \<Rightarrow> checked" where
  "cover_unit H read v findings receipts unit = (case receipts unit of
     None \<Rightarrow> Inl (incomplete_issue ''primary_coverage'' ''missing receipt for unit %s'' [AStr unit])
   | Some r \<Rightarrow> allOf [
       exactAcknowledgement ''primary_coverage'' (''unit '' @ unit) ''hunk''
         (case rv_units v unit of None \<Rightarrow> {} | Some owned \<Rightarrow> owned) (pr_AcknowledgedPrimaryHunkIDs r),
       validateReceiptFindingIDs (''primary receipt '' @ unit) (pr_FindingIDs r) findings,
       validateCitationSet H read v (''primary receipt '' @ unit @ '' context'') (pr_ContextCitations r),
       no_blocking ''primary unit'' unit (pr_Uncertainties r)])"

text \<open>The Go map from audit identifiers to their targets: the last audit of an identifier wins.\<close>

definition expected_audits :: "plan \<Rightarrow> string \<rightharpoonup> string set" where
  "expected_audits p = map_of (rev (map (\<lambda>a. (pa_AuditID a, set (pa_TargetIDs a))) (pn_RequiredAudits p)))"

definition cover_audit ::
    "(bytes \<Rightarrow> digest) \<Rightarrow> source_reader \<Rightarrow> report_validator \<Rightarrow> plan \<Rightarrow> string set \<Rightarrow> (string \<rightharpoonup> audit_receipt) \<Rightarrow> string \<Rightarrow> checked" where
  "cover_audit H read v p findings receipts audit = (case receipts audit of
     None \<Rightarrow> Inl (incomplete_issue ''audit_coverage'' ''missing receipt for audit %s'' [AStr audit])
   | Some r \<Rightarrow> allOf [
       exactAcknowledgement ''audit_coverage'' (''audit '' @ audit) ''target''
         (case expected_audits p audit of None \<Rightarrow> {} | Some targets \<Rightarrow> targets) (ar_AcknowledgedAuditTargetIDs r),
       validateReceiptFindingIDs (''audit receipt '' @ audit) (ar_FindingIDs r) findings,
       validateCitationSet H read v (''audit receipt '' @ audit @ '' context'') (ar_ContextCitations r),
       no_blocking ''audit'' audit (ar_Uncertainties r)])"

definition validateStructuredCoverage ::
    "(bytes \<Rightarrow> digest) \<Rightarrow> source_reader \<Rightarrow> report_validator \<Rightarrow> plan \<Rightarrow> report \<Rightarrow> checked" where
  "validateStructuredCoverage H read v p r = (let findings = set (map fi_ID (re_Findings r)) in
     bindE (index_receipts ''primary_receipt'' ''unit'' pr_UnitID (\<lambda>i. rv_units v i \<noteq> None) Map.empty (re_PrimaryReceipts r)) (\<lambda>primary.
     seqE (allE (cover_unit H read v findings primary) (map ru_UnitID (pn_PrimaryUnits p)))
    (bindE (index_receipts ''audit_receipt'' ''audit'' ar_AuditID (\<lambda>i. expected_audits p i \<noteq> None) Map.empty (re_AuditReceipts r)) (\<lambda>audits.
     allE (cover_audit H read v p findings audits) (map pa_AuditID (pn_RequiredAudits p))))))"

section \<open>The recommendation\<close>

text \<open>The loop keeps the last finding of each class.\<close>

definition last_id :: "(finding \<Rightarrow> bool) \<Rightarrow> finding list \<Rightarrow> string" where
  "last_id P fs = (case rev (filter P fs) of [] \<Rightarrow> [] | f # _ \<Rightarrow> fi_ID f)"

definition accepted :: "string \<Rightarrow> finding \<Rightarrow> bool" where
  "accepted severity f \<longleftrightarrow> fi_Verifier f \<in> set [DispositionConfirmed, DispositionPlausible] \<and> fi_Severity f = severity"

definition validateRecommendationForCheck :: "report \<Rightarrow> checked" where
  "validateRecommendationForCheck r =
     (let unverified = last_id (\<lambda>f. fi_Verifier f = DispositionUnverified) (re_Findings r);
          critical = last_id (accepted SeverityCritical) (re_Findings r);
          major = last_id (accepted SeverityMajor) (re_Findings r) in
      if re_Recommendation r = RecommendIncomplete then
        Inl (incomplete_issue ''recommendation_incomplete'' ''report declares incomplete review'' [])
      else if unverified \<noteq> [] then
        Inl (incomplete_issue ''unverified_finding'' ''finding %s remains unverified'' [AStr unverified])
      else if critical \<noteq> [] \<and> re_Recommendation r \<noteq> RecommendRequestChanges then
        Inl (invalid_issue ''recommendation'' ''finding %s requires request_changes'' [AStr critical])
      else if re_Recommendation r = RecommendApprove \<and> major \<noteq> [] then
        Inl (invalid_issue ''recommendation'' ''approve forbidden by unrejected critical/major finding %s'' [AStr major])
      else Inr ())"

section \<open>Check\<close>

record 'c check_env =
  ce_root :: string
  ce_configured :: bool
  ce_sprint :: "gerror \<Rightarrow> string"
  ce_acquire :: "gerror option"
  ce_close :: "gerror option"
  ce_lock :: "string \<Rightarrow> gerror option"
  ce_load :: "string \<Rightarrow> 'c plan_artifacts result"
  ce_capture :: "nat \<Rightarrow> scope \<Rightarrow> capture result"
  ce_read :: source_reader

text \<open>
  The error of a check: a \<open>CheckError\<close>, any other error, or what \<open>errors.Join\<close> makes of it and the error of closing
  the store.
\<close>

record check_error =
  cx_Status :: string
  cx_Reason :: string
  cx_Problems :: "string list"

datatype check_failure = CheckFailed check_error | Failed gerror | Joined "check_failure list"

definition join_errors :: "check_failure option \<Rightarrow> gerror option \<Rightarrow> check_failure option" where
  "join_errors e closing =
     (case (e, closing) of
        (None, None) \<Rightarrow> None
      | (Some f, None) \<Rightarrow> Some (Joined [f])
      | (None, Some c) \<Rightarrow> Some (Joined [Failed c])
      | (Some f, Some c) \<Rightarrow> Some (Joined [f, Failed c]))"

type_synonym check_return = "check_result \<times> check_failure option"

definition no_result :: check_result where
  "no_result = \<lparr>cr_Schema = [], cr_ReviewID = [], cr_Mode = [], cr_Status = [], cr_Coverage = [],
     cr_Recommendation = [], cr_Problems = []\<rparr>"

definition baseCheckResult :: "plan \<Rightarrow> string \<Rightarrow> check_result" where
  "baseCheckResult p recommendation = \<lparr>cr_Schema = CheckSchemaV1, cr_ReviewID = pn_ReviewID p, cr_Mode = pn_Mode p,
     cr_Status = CheckInvalid,
     cr_Coverage = (if pn_Mode p = ModeStructured then CoverageIncomplete else CoverageNotRequiredDirect),
     cr_Recommendation = recommendation, cr_Problems = []\<rparr>"

definition bareInvalidResult ::
    "(gerror \<Rightarrow> string) \<Rightarrow> string \<Rightarrow> report \<Rightarrow> string \<Rightarrow> gerror \<Rightarrow> check_return" where
  "bareInvalidResult sprint reviewID r reason e =
     (let problems = [reason @ '': '' @ sprint e] in
      (\<lparr>cr_Schema = CheckSchemaV1, cr_ReviewID = (if validReviewID reviewID then reviewID else re_ReviewID r),
         cr_Mode = ModeDirect, cr_Status = CheckInvalid, cr_Coverage = CoverageNotRequiredDirect,
         cr_Recommendation = RecommendIncomplete, cr_Problems = problems\<rparr>,
       Some (CheckFailed \<lparr>cx_Status = CheckInvalid, cx_Reason = reason, cx_Problems = problems\<rparr>)))"

definition nonComplete :: "check_result \<Rightarrow> string \<Rightarrow> string \<Rightarrow> string \<Rightarrow> check_return" where
  "nonComplete result status reason problem =
     (result\<lparr>cr_Status := status, cr_Recommendation := RecommendIncomplete,
        cr_Coverage := (if cr_Mode result = ModeStructured then CoverageIncomplete else CoverageNotRequiredDirect),
        cr_Problems := [problem]\<rparr>,
      Some (CheckFailed \<lparr>cx_Status = status, cx_Reason = reason, cx_Problems = [problem]\<rparr>))"

text \<open>\<open>checkWorkspaceFreshness\<close>: the reason why the plan is stale, empty if it is not; the \<open>n\<close>-th capture.\<close>

definition checkWorkspaceFreshness ::
    "(bytes \<Rightarrow> digest) \<Rightarrow> 'c check_env \<Rightarrow> nat \<Rightarrow> 'c plan_artifacts \<Rightarrow> string result" where
  "checkWorkspaceFreshness H en n a =
     (if sc_Kind (pn_Scope (art_Plan a)) \<noteq> ScopeWorkspace then Inr []
      else case ce_capture en n (pn_Scope (art_Plan a)) of
        Inl e \<Rightarrow> if isCaptureMismatch e then Inr (ce_sprint en e) else Inl e
      | Inr c \<Rightarrow>
          if canonicalCaptureFingerprint H c \<noteq> art_WorkspaceCaptureFingerprint a
          then Inr ''canonical workspace capture changed''
          else if hex_encode (side_Value (sc_Head (cp_Scope c))) \<noteq> art_WorkspaceFingerprint a
          then Inr ''workspace tree fingerprint changed''
          else Inr [])"

text \<open>What stops a check: a problem of the report or plan, or an error of the environment.\<close>

datatype stop = Problem check_issue | Abort gerror

definition problem :: "check_issue + 'a \<Rightarrow> stop + 'a" where
  "problem m = (case m of Inl i \<Rightarrow> Inl (Problem i) | Inr x \<Rightarrow> Inr x)"

definition plan_identity_problem :: "'a result \<Rightarrow> stop + 'a" where
  "plan_identity_problem m = (case m of Inl e \<Rightarrow> Inl (Problem (invalid_issue ''plan_identity'' ''%s'' [AErr e])) | Inr x \<Rightarrow> Inr x)"

definition fresh :: "string result \<Rightarrow> stop + unit" where
  "fresh m = (case m of
     Inl e \<Rightarrow> Inl (Abort e)
   | Inr staleReason \<Rightarrow> failIf (staleReason \<noteq> [])
       (Problem \<lparr>is_status = CheckStale, is_reason = ''workspace_stale'',
          is_problem = Err ''workspace_stale: %s'' [AStr staleReason]\<rparr>))"

definition report_checks ::
    "(bytes \<Rightarrow> digest) \<Rightarrow> source_reader \<Rightarrow> 'c plan_artifacts \<Rightarrow> report \<Rightarrow> stop + unit" where
  "report_checks H read a r =
     bindE (plan_identity_problem (newReportValidator H a)) (\<lambda>v. allOf [
       problem (validateFindings H read v (re_Findings r)),
       (if pn_Mode (art_Plan a) = ModeStructured
        then problem (validateStructuredCoverage H read v (art_Plan a) r) else Inr ()),
       problem (validateRecommendationForCheck r)])"

definition check_steps ::
    "(bytes \<Rightarrow> digest) \<Rightarrow> 'c check_env \<Rightarrow> string \<Rightarrow> report \<Rightarrow> 'c plan_artifacts \<Rightarrow> stop + unit" where
  "check_steps H en reviewID r a = (let p = art_Plan a in allOf [
     plan_identity_problem (preflightArtifactBounds a),
     failIf (pn_ReviewID p \<noteq> reviewID) (Problem \<lparr>is_status = CheckInvalid, is_reason = ''review_id'',
       is_problem = Err ''persisted_review_id: got %s want %s'' [AStr (pn_ReviewID p), AStr reviewID]\<rparr>),
     plan_identity_problem (verifyLoadedCheckArtifacts H a),
     problem (case validateReportShapeForCheck r of Inl e \<Rightarrow> Inl (invalid_issue ''report_shape'' ''%s'' [AErr e]) | Inr _ \<Rightarrow> Inr ()),
     failIf (re_ReviewID r \<noteq> reviewID)
       (Problem (invalid_issue ''review_id'' ''report %s does not match requested %s'' [AStr (re_ReviewID r), AStr reviewID])),
     failIf (re_PlanDigest r \<noteq> pn_PlanDigest p)
       (Problem (invalid_issue ''plan_digest'' ''report %s does not match persisted %s'' [AStr (re_PlanDigest r), AStr (pn_PlanDigest p)])),
     failIf (\<not> sameSide (re_Base r) (sc_Base (pn_Scope p)))
       (Problem (invalid_issue ''base_identity'' ''report does not match persisted plan'' [])),
     failIf (\<not> sameSide (re_Head r) (sc_Head (pn_Scope p)))
       (Problem (invalid_issue ''head_identity'' ''report does not match persisted plan'' [])),
     fresh (checkWorkspaceFreshness H en 0 a),
     report_checks H (ce_read en) a r,
     fresh (checkWorkspaceFreshness H en 1 a)])"

definition check_loaded ::
    "(bytes \<Rightarrow> digest) \<Rightarrow> 'c check_env \<Rightarrow> string \<Rightarrow> report \<Rightarrow> 'c plan_artifacts \<Rightarrow> check_return" where
  "check_loaded H en reviewID r a = (let result = baseCheckResult (art_Plan a) (re_Recommendation r) in
     case check_steps H en reviewID r a of
       Inl (Problem i) \<Rightarrow> nonComplete result (is_status i) (is_reason i) (ce_sprint en (is_problem i))
     | Inl (Abort e) \<Rightarrow> (no_result, Some (Failed e))
     | Inr _ \<Rightarrow> (result\<lparr>cr_Status := CheckComplete, cr_Problems := [],
         cr_Coverage := (if cr_Mode result = ModeStructured then CoverageComplete else cr_Coverage result)\<rparr>, None))"

definition check_locked ::
    "(bytes \<Rightarrow> digest) \<Rightarrow> 'c check_env \<Rightarrow> string \<Rightarrow> report \<Rightarrow> check_return" where
  "check_locked H en reviewID r =
     (case ce_lock en reviewID of
        Some e \<Rightarrow> (no_result, Some (Failed e))
      | None \<Rightarrow> (case ce_load en reviewID of
          Inl e \<Rightarrow> (no_result, Some (Failed e))
        | Inr a \<Rightarrow> check_loaded H en reviewID r a))"

definition Check :: "(bytes \<Rightarrow> digest) \<Rightarrow> 'c check_env \<Rightarrow> string \<Rightarrow> report \<Rightarrow> check_return" where
  "Check H en reviewID r =
     (if TrimSpace (ce_root en) = [] \<or> \<not> ce_configured en then
        (no_result, Some (Failed (err ''review: service is incompletely configured for check'')))
      else case preflightReportBounds r of
        Inl e \<Rightarrow> bareInvalidResult (ce_sprint en) reviewID r ''report_bounds'' e
      | Inr _ \<Rightarrow>
        if \<not> validReviewID reviewID then
          bareInvalidResult (ce_sprint en) (re_ReviewID r) r ''review_id''
            (Err ''review: malformed requested review id %q'' [AStr reviewID])
        else case ce_acquire en of
          Some e \<Rightarrow> (no_result, Some (Failed e))
        | None \<Rightarrow> (let (result, e) = check_locked H en reviewID r in (result, join_errors e (ce_close en))))"

end
