(* ===== verification/Binding.thy ===== *)
theory Binding
  imports Artifacts
begin

text \<open>
  What the checks of \<open>Artifacts\<close> establish.  Accepted records are named by their contents; accepted plans
  refer to recorded identifiers only, and each kind of field to its own kind of identifier; and an accepted
  identity fixes the plan it describes: two accepted plans with the same identity have the same scope, the
  same changed paths, the same hunks in the same units, and the same audits.
\<close>

section \<open>Records\<close>

definition record_sound :: "(bytes \<Rightarrow> digest) \<Rightarrow> id_record \<Rightarrow> bool" where
  "record_sound H r \<longleftrightarrow> ir_Kind r \<in> set contentIDKinds \<and> H (ir_Canonical r) = ir_Full r \<and>
     ir_Public r = Public (public_id (ir_Kind r) (ir_Full r) 16)"

lemma verify_record_Inr:
  "verify_record H bp r = Inr bp' \<longleftrightarrow>
     record_sound H r \<and> ir_Public r \<notin> set (map fst bp) \<and> bp' = bp @ [(ir_Public r, ir_Full r)]"
  by (auto simp: verify_record_def record_sound_def map_of_eq_None_iff split: option.splits if_splits)
    (auto simp: rev_image_eqI dest: map_of_SomeD)

lemma verify_records_fold:
  "foldE (verify_record H) bp rs = Inr bp' \<longleftrightarrow>
     list_all (record_sound H) rs \<and> distinct (map ir_Public rs) \<and>
     set (map ir_Public rs) \<inter> set (map fst bp) = {} \<and> bp' = bp @ map (\<lambda>r. (ir_Public r, ir_Full r)) rs"
  by (induction rs arbitrary: bp) (auto simp: verify_record_Inr)

lemma verifyRecords_Inr:
  "verifyRecords H rs = Inr bp \<longleftrightarrow>
     list_all (record_sound H) rs \<and> distinct (map ir_Public rs) \<and> bp = map (\<lambda>r. (ir_Public r, ir_Full r)) rs"
  by (simp add: verifyRecords_def verify_records_fold)

lemma record_index_Some:
  assumes "distinct (map ir_Public rs)"
  shows "record_index rs i = Some r \<longleftrightarrow> r \<in> set rs \<and> ir_Public r = i"
proof -
  have "distinct (map fst (rev (map (\<lambda>r. (ir_Public r, r)) rs)))"
    using assms by (simp add: rev_map [symmetric] comp_def)
  from map_of_eq_Some_iff [OF this] show ?thesis by (auto simp: record_index_def)
qed

text \<open>The kind of an identifier can be read off its public form.\<close>

lemma contentKindOf_public:
  assumes "kind \<in> set contentIDKinds"
  shows "contentKindOf (Public (public_id kind full 16)) = Some kind"
  using assms by (auto simp: contentIDKinds_def contentKindOf_def has_prefix_def)

lemma record_kind:
  assumes "record_sound H r" "contentKindOf (ir_Public r) = Some kind"
  shows "ir_Kind r = kind"
  using assms contentKindOf_public [of "ir_Kind r" "ir_Full r"] by (simp add: record_sound_def)

section \<open>References\<close>

lemma use_ok_Inr:
  "use_ok i u = Inr j \<longleftrightarrow> j = i \<and> (\<exists>k. contentKindOf i = Some k \<and>
     (case u of OfKind kind \<Rightarrow> k = kind | OneOf kinds \<Rightarrow> k \<in> set kinds | AnyContent \<Rightarrow> True))"
  by (auto simp: use_ok_def split: option.splits id_use.splits if_splits)

lemma mapE_same: "mapE f xs = Inr ys \<longleftrightarrow> length ys = length xs \<and> (\<forall>(x, y)\<in>set (zip xs ys). f x = Inr y)"
  by (auto simp: mapE_eq_Inr list_all2_iff)

lemma collectPlanIDs_Inr:
  "collectPlanIDs p cs us ms = Inr ids \<longleftrightarrow>
     (\<forall>(i, u)\<in>set (plan_uses p cs us ms). use_ok i u = Inr i) \<and> ids = remdups (map fst (plan_uses p cs us ms))"
proof -
  have "mapE (\<lambda>(i, u). use_ok i u) xs = Inr ys \<longleftrightarrow>
      (\<forall>(i, u)\<in>set xs. use_ok i u = Inr i) \<and> ys = map fst xs" for xs ys
    by (induction xs arbitrary: ys) (auto simp: use_ok_Inr)
  then show ?thesis by (auto simp: collectPlanIDs_def)
qed

text \<open>A plan that was added to a registry: sound records, and the references are exactly the records.\<close>

definition uses_recorded ::
    "(bytes \<Rightarrow> digest) \<Rightarrow> plan \<Rightarrow> (string \<times> citation_proof) list \<Rightarrow> string list \<Rightarrow> string list \<Rightarrow> id_record list \<Rightarrow> bool" where
  "uses_recorded H p cs us ms rs \<longleftrightarrow>
     list_all (record_sound H) rs \<and> distinct (map ir_Public rs) \<and>
     (\<forall>(i, u)\<in>set (plan_uses p cs us ms). use_ok i u = Inr i) \<and>
     set (map fst (plan_uses p cs us ms)) = set (map ir_Public rs)"

lemma addPlanToRegistry_Inr:
  assumes "addPlanToRegistry registry H p cs us ms rs full = Inr registry'"
  shows "uses_recorded H p cs us ms rs"
  using assms
  by (auto simp: addPlanToRegistry_def verifyRecords_Inr collectPlanIDs_Inr uses_recorded_def comp_def)

text \<open>Registering keeps what is registered, and afterwards every identifier of the plan has its full digest.\<close>

lemma registerID_Inr:
  "registerID registry (i, full) = Inr registry' \<longleftrightarrow>
     registry i \<in> {None, Some full} \<and> registry' = registry(i \<mapsto> full)"
  by (auto simp: registerID_def fun_upd_idem split: option.splits if_splits)

lemma registerIDs_Inr:
  "foldE registerID registry entries = Inr registry' \<Longrightarrow>
     registry \<subseteq>\<^sub>m registry' \<and> (\<forall>(i, full)\<in>set entries. registry' i = Some full)"
proof (induction entries arbitrary: registry)
  case (Cons e entries)
  obtain i full where e: "e = (i, full)" by (cases e)
  from Cons.prems have r: "registry i \<in> {None, Some full}"
    and rest: "foldE registerID (registry(i \<mapsto> full)) entries = Inr registry'"
    by (auto simp: e registerID_Inr)
  from Cons.IH [OF rest] r show ?case
    by (auto simp: e map_le_def dom_def)
qed simp

lemma addPlanToRegistry_registers:
  assumes "addPlanToRegistry registry H p cs us ms rs full = Inr registry'"
  shows "registry \<subseteq>\<^sub>m registry' \<and> registry' (pn_ReviewID p) = Some full \<and>
    (\<forall>r\<in>set rs. registry' (ir_Public r) = Some (ir_Full r))"
proof -
  obtain bp where "verifyRecords H rs = Inr bp"
    and "foldE registerID registry ((pn_ReviewID p, full) # bp) = Inr registry'"
    using assms by (auto simp: addPlanToRegistry_def)
  with registerIDs_Inr [OF this(2)] show ?thesis by (auto simp: verifyRecords_Inr)
qed

text \<open>The identity's digest for a reference that must have a given kind names that reference.\<close>

lemma wantFull_Inr:
  assumes "distinct (map ir_Public rs)"
  shows "wantFull rs i public = Inr u \<longleftrightarrow> (\<exists>r\<in>set rs. ir_Public r = public \<and> ir_Full r = Full i)"
proof (cases "record_index rs public")
  case None
  then have "\<not> (\<exists>r\<in>set rs. ir_Public r = public)"
    using record_index_Some [OF assms, of public] by simp
  with None show ?thesis by (auto simp: wantFull_def fullOf_def)
next
  case (Some r)
  then have "s \<in> set rs \<and> ir_Public s = public \<longleftrightarrow> s = r" for s
    using record_index_Some [OF assms, of public s] by auto
  then have "(\<exists>s\<in>set rs. ir_Public s = public \<and> ir_Full s = Full i) \<longleftrightarrow> Full i = ir_Full r" by metis
  with Some show ?thesis by (simp add: wantFull_def fullOf_def)
qed

lemma wantFull_public:
  assumes "uses_recorded H p cs us ms rs" "(public, OfKind kind) \<in> set (plan_uses p cs us ms)"
    and "wantFull rs i public = Inr u"
  shows "public = Public (public_id kind (Full i) 16)"
proof -
  have d: "distinct (map ir_Public rs)" using assms(1) by (simp add: uses_recorded_def)
  obtain r where r: "r \<in> set rs" "ir_Public r = public" "ir_Full r = Full i"
    using assms(3) unfolding wantFull_Inr [OF d] by blast
  have s: "record_sound H r" using assms(1) r(1) by (auto simp: uses_recorded_def list_all_iff)
  have "contentKindOf public = Some kind"
    using assms(1,2) by (fastforce simp: uses_recorded_def use_ok_Inr)
  then have "ir_Kind r = kind" using record_kind [OF s] r(2) by simp
  then show ?thesis using s r by (simp add: record_sound_def)
qed

section \<open>The identity fixes the plan\<close>

text \<open>Entries in the same positions with the same view have the same counterpart.\<close>

lemma zip_determined:
  assumes "map v xs = map v xs'" "length ys = length xs" "length ys' = length xs'"
    and "\<And>x y x' y'. (x, y) \<in> set (zip xs ys) \<Longrightarrow> (x', y') \<in> set (zip xs' ys') \<Longrightarrow> v x = v x' \<Longrightarrow> w y = w y'"
  shows "map w ys = map w ys'"
proof (rule nth_equalityI)
  have len: "length xs = length xs'" using assms(1) by (rule map_eq_imp_length_eq)
  then show "length (map w ys) = length (map w ys')" using assms(2,3) by simp
  fix i assume "i < length (map w ys)"
  then have i: "i < length xs" "i < length xs'" "i < length ys" "i < length ys'" using len assms(2,3) by simp_all
  then have "v (xs ! i) = v (xs' ! i)" using assms(1) by (metis nth_map)
  moreover have "(xs ! i, ys ! i) \<in> set (zip xs ys)" "(xs' ! i, ys' ! i) \<in> set (zip xs' ys')"
    using i by (auto simp: set_zip)
  ultimately show "map w ys ! i = map w ys' ! i" using assms(4) i by simp
qed

lemma enumerated: "x \<in> set xs \<Longrightarrow> \<exists>i. (i, x) \<in> set (enumerate 0 xs)"
  unfolding in_set_enumerate_eq by (auto simp: in_set_conv_nth)

text \<open>The inputs that are hashed on the way from the plan to its identity.\<close>

definition hunk_input ::
    "(bytes \<Rightarrow> digest) \<Rightarrow> id_record list \<Rightarrow> digest \<Rightarrow> unit_hunk \<Rightarrow> bytes" where
  "hunk_input H rs scope uh = (case (fullOf rs (uh_PathID uh), b64_decode (uh_PatchBase64 uh)) of
     (Inr pathFull, Inr payload) \<Rightarrow> frame (HunkID_fields H scope pathFull (raw_of_unit_hunk uh payload))
   | _ \<Rightarrow> [])"

definition path_rows :: "'c plan_artifacts \<Rightarrow> ((string \<times> string \<times> string) \<times> bytes) list" where
  "path_rows a = (case mapE (bind_path (art_IDRecords a) (pi_ScopeDigest (art_PlanIdentity a)))
       (zip (pi_Paths (art_PlanIdentity a)) (pn_ChangedPaths (art_Plan a))) of Inr rows \<Rightarrow> rows | Inl _ \<Rightarrow> [])"

definition scope_input :: "(bytes \<Rightarrow> digest) \<Rightarrow> scope \<Rightarrow> ((string \<times> string \<times> string) \<times> bytes) list \<Rightarrow> bytes" where
  "scope_input H s rows = ScopeIdentityV1 (sc_ObjectFormat s) (sc_Base s) (sc_Head s) (sc_Kind s)
     (H (FrameList (map snd (sort_key fst rows))))"

definition hashed_inputs :: "(bytes \<Rightarrow> digest) \<Rightarrow> 'c plan_artifacts \<Rightarrow> bytes list" where
  "hashed_inputs H a = (let p = art_Plan a; pi = art_PlanIdentity a; rs = art_IDRecords a in
     ReviewPlanIdentityV1 pi # scope_input H (pn_Scope p) (path_rows a) # map ir_Canonical rs
   @ concat (map (\<lambda>u. map (hunk_input H rs (pi_ScopeDigest pi)) (ru_Hunks u)) (pn_PrimaryUnits p)))"

text \<open>Artifacts whose binding and references were accepted.\<close>

definition bound :: "(bytes \<Rightarrow> digest) \<Rightarrow> 'c plan_artifacts \<Rightarrow> bool" where
  "bound H a \<longleftrightarrow>
     verifyIdentityBinding H (art_Plan a) (art_IDRecords a) (art_PlanIdentity a) (art_PlanIdentityBytes a) = Inr () \<and>
     uses_recorded H (art_Plan a) (art_Citations a) (map fst (art_UnitCandidates a)) (map fst (art_MandatoryUnits a))
       (art_IDRecords a)"

lemma bind_path_Inr:
  "bind_path rs scope (e, cp) = Inr row \<Longrightarrow>
     wantFull rs (ppe_PathID e) (pp_PathID cp) = Inr () \<and>
     ppe_ReviewClass e = pp_ReviewClass cp \<and> ppe_Coverage e = pp_Coverage cp \<and> ppe_Reason e = pp_Reason cp \<and>
     ppe_RoleIDs e = pp_Roles cp \<and>
     (\<exists>rf rec. decodeFramedFields (canonicalOf rs (pp_PathID cp)) = Inr rf \<and>
        decodeFramedFields (fieldOf rf ''record'') = Inr rec \<and> pp_NewPath cp = fieldOf rec ''new_path'' \<and>
        pp_OldPath cp = fieldOf rec ''old_path'' \<and> pp_Status cp = fieldOf rec ''status'' \<and>
        row = ((fieldOf rec ''new_path'', fieldOf rec ''old_path'', fieldOf rec ''status''), fieldOf rf ''record''))"
  by (auto simp: bind_path_def)

lemma bound_paths:
  assumes "bound H a"
  shows "length (pn_ChangedPaths (art_Plan a)) = length (pi_Paths (art_PlanIdentity a))"
    and "list_all2 (\<lambda>x row. bind_path (art_IDRecords a) (pi_ScopeDigest (art_PlanIdentity a)) x = Inr row)
      (zip (pi_Paths (art_PlanIdentity a)) (pn_ChangedPaths (art_Plan a))) (path_rows a)"
    and "H (scope_input H (pn_Scope (art_Plan a)) (path_rows a)) = pi_ScopeDigest (art_PlanIdentity a)"
proof -
  obtain rows where m: "mapE (bind_path (art_IDRecords a) (pi_ScopeDigest (art_PlanIdentity a)))
      (zip (pi_Paths (art_PlanIdentity a)) (pn_ChangedPaths (art_Plan a))) = Inr rows"
    and len: "length (pi_Paths (art_PlanIdentity a)) = length (pn_ChangedPaths (art_Plan a))"
    and d: "rowsScopeDigest H (pn_Scope (art_Plan a)) rows = pi_ScopeDigest (art_PlanIdentity a)"
    using assms by (auto simp: bound_def verifyIdentityBinding_def same_count_def)
  have rows: "path_rows a = rows" by (simp add: path_rows_def m)
  show "length (pn_ChangedPaths (art_Plan a)) = length (pi_Paths (art_PlanIdentity a))" using len ..
  show "list_all2 (\<lambda>x row. bind_path (art_IDRecords a) (pi_ScopeDigest (art_PlanIdentity a)) x = Inr row)
      (zip (pi_Paths (art_PlanIdentity a)) (pn_ChangedPaths (art_Plan a))) (path_rows a)"
    unfolding rows using m by (simp only: mapE_eq_Inr)
  show "H (scope_input H (pn_Scope (art_Plan a)) (path_rows a)) = pi_ScopeDigest (art_PlanIdentity a)"
    using d by (simp add: rows rowsScopeDigest_def ScopeDigest_def scope_input_def)
qed

lemma bound_units:
  assumes "bound H a"
  shows "length (pn_PrimaryUnits (art_Plan a)) = length (pi_Units (art_PlanIdentity a))"
    and "\<forall>x\<in>set (zip (pi_Units (art_PlanIdentity a)) (pn_PrimaryUnits (art_Plan a))).
      bind_unit H (art_IDRecords a) (pi_ScopeDigest (art_PlanIdentity a)) x = Inr ()"
  using assms by (auto simp: bound_def verifyIdentityBinding_def same_count_def)

lemma bound_rest:
  assumes "bound H a"
  shows "length (pn_RequiredAudits (art_Plan a)) = length (pi_Audits (art_PlanIdentity a))"
    and "\<forall>x\<in>set (zip (pi_Audits (art_PlanIdentity a)) (pn_RequiredAudits (art_Plan a))). \<exists>i.
      bind_audit (art_IDRecords a) (i, x) = Inr ()"
    and "pn_Mode (art_Plan a) \<noteq> ModeDirect \<Longrightarrow> length (flat_cohorts (art_Plan a)) = length (pi_Cohorts (art_PlanIdentity a)) \<and>
      (\<forall>x\<in>set (zip (pi_Cohorts (art_PlanIdentity a)) (flat_cohorts (art_Plan a))). \<exists>i.
        bind_cohort_row (art_IDRecords a) (i, x) = Inr ())"
    and "art_PlanIdentityBytes a = ReviewPlanIdentityV1 (art_PlanIdentity a)"
proof -
  have enum: "(\<forall>y\<in>set (enumerate 0 zs). P y) \<Longrightarrow> x \<in> set zs \<Longrightarrow> \<exists>i. P (i, x)" for P :: "nat \<times> 'x \<Rightarrow> bool" and zs x
    using enumerated by fastforce
  from assms have v: "verifyIdentityBinding H (art_Plan a) (art_IDRecords a) (art_PlanIdentity a) (art_PlanIdentityBytes a) = Inr ()"
    by (simp add: bound_def)
  show "length (pn_RequiredAudits (art_Plan a)) = length (pi_Audits (art_PlanIdentity a))"
    "art_PlanIdentityBytes a = ReviewPlanIdentityV1 (art_PlanIdentity a)"
    using v by (auto simp: verifyIdentityBinding_def same_count_def)
  have "\<forall>y\<in>set (enumerate 0 (zip (pi_Audits (art_PlanIdentity a)) (pn_RequiredAudits (art_Plan a)))).
      bind_audit (art_IDRecords a) y = Inr ()"
    using v by (auto simp: verifyIdentityBinding_def)
  then show "\<forall>x\<in>set (zip (pi_Audits (art_PlanIdentity a)) (pn_RequiredAudits (art_Plan a))). \<exists>i.
      bind_audit (art_IDRecords a) (i, x) = Inr ()"
    using enum [of _ "\<lambda>y. bind_audit (art_IDRecords a) y = Inr ()"] by blast
  assume "pn_Mode (art_Plan a) \<noteq> ModeDirect"
  then have "length (flat_cohorts (art_Plan a)) = length (pi_Cohorts (art_PlanIdentity a))"
    "\<forall>y\<in>set (enumerate 0 (zip (pi_Cohorts (art_PlanIdentity a)) (flat_cohorts (art_Plan a)))).
      bind_cohort_row (art_IDRecords a) y = Inr ()"
    using v by (auto simp: verifyIdentityBinding_def bind_cohorts_def same_count_def)
  then show "length (flat_cohorts (art_Plan a)) = length (pi_Cohorts (art_PlanIdentity a)) \<and>
      (\<forall>x\<in>set (zip (pi_Cohorts (art_PlanIdentity a)) (flat_cohorts (art_Plan a))). \<exists>i.
        bind_cohort_row (art_IDRecords a) (i, x) = Inr ())"
    using enum [of _ "\<lambda>y. bind_cohort_row (art_IDRecords a) y = Inr ()"] by blast
qed

text \<open>Two bound artifacts with the same identity, and a hash that does not collide on what they hash.\<close>

definition same_identity :: "(bytes \<Rightarrow> digest) \<Rightarrow> 'c plan_artifacts \<Rightarrow> 'd plan_artifacts \<Rightarrow> bool" where
  "same_identity H a b \<longleftrightarrow> bound H a \<and> bound H b \<and>
     H (ReviewPlanIdentityV1 (art_PlanIdentity a)) = H (ReviewPlanIdentityV1 (art_PlanIdentity b)) \<and>
     inj_on H (set (hashed_inputs H a) \<union> set (hashed_inputs H b)) \<and>
     (\<forall>x\<in>set (hashed_inputs H a). length x < 2 ^ 64)"

lemma same_identity_hash:
  assumes "same_identity H a b" "x \<in> set (hashed_inputs H a)" "y \<in> set (hashed_inputs H b)" "H x = H y"
  shows "x = y"
  using assms by (auto simp: same_identity_def inj_on_def)

lemma same_identity_views:
  assumes "same_identity H a b"
  shows "identity_view (art_PlanIdentity a) = identity_view (art_PlanIdentity b)"
proof -
  have "ReviewPlanIdentityV1 (art_PlanIdentity a) = ReviewPlanIdentityV1 (art_PlanIdentity b)"
    using assms by (intro same_identity_hash [OF assms]) (auto simp: hashed_inputs_def Let_def same_identity_def)
  moreover have "length (ReviewPlanIdentityV1 (art_PlanIdentity a)) < 2 ^ 64"
    using assms by (simp add: same_identity_def hashed_inputs_def Let_def)
  ultimately show ?thesis by (intro ReviewPlanIdentityV1_view)
qed

lemma bound_uses:
  "bound H a \<Longrightarrow> uses_recorded H (art_Plan a) (art_Citations a) (map fst (art_UnitCandidates a))
     (map fst (art_MandatoryUnits a)) (art_IDRecords a)"
  by (simp add: bound_def)

lemma wantFull_record:
  assumes "uses_recorded H p cs us ms rs" "wantFull rs i public = Inr u"
  shows "\<exists>r\<in>set rs. ir_Public r = public \<and> canonicalOf rs public = ir_Canonical r \<and> H (ir_Canonical r) = Full i"
proof -
  have d: "distinct (map ir_Public rs)" using assms(1) by (simp add: uses_recorded_def)
  obtain r where r: "r \<in> set rs" "ir_Public r = public" "ir_Full r = Full i"
    using assms(2) unfolding wantFull_Inr [OF d] by blast
  moreover have "record_index rs public = Some r" using r record_index_Some [OF d] by simp
  moreover have "record_sound H r" using assms(1) r(1) by (auto simp: uses_recorded_def list_all_iff)
  ultimately show ?thesis by (intro bexI [of _ r]) (auto simp: canonicalOf_def record_sound_def)
qed

lemma path_use: "cp \<in> set (pn_ChangedPaths p) \<Longrightarrow> (pp_PathID cp, OfKind PathIDPrefixV1) \<in> set (plan_uses p cs us ms)"
  by (simp add: plan_uses_def)

lemma unit_use: "u \<in> set (pn_PrimaryUnits p) \<Longrightarrow> (ru_UnitID u, OfKind UnitIDPrefixV1) \<in> set (plan_uses p cs us ms)"
  by (force simp: plan_uses_def)

lemma unit_path_use:
  "u \<in> set (pn_PrimaryUnits p) \<Longrightarrow> h \<in> set (ru_Hunks u) \<Longrightarrow>
     (uh_PathID h, OfKind PathIDPrefixV1) \<in> set (plan_uses p cs us ms)"
  by (force simp: plan_uses_def)

lemma cohort_use:
  "(c, l, us') \<in> set (flat_cohorts p) \<Longrightarrow> (c, OfKind CohortIDPrefixV1) \<in> set (plan_uses p cs us ms) \<and>
     (l, OfKind LayerIDPrefixV1) \<in> set (plan_uses p cs us ms) \<and>
     (\<forall>u\<in>set us'. (u, OfKind UnitIDPrefixV1) \<in> set (plan_uses p cs us ms))"
  unfolding plan_uses_def flat_cohorts_def by (intro conjI ballI) force+

text \<open>One changed path and its entry, on both sides.\<close>

lemma same_path:
  assumes s: "same_identity H a b"
    and a: "(e, cp) \<in> set (zip (pi_Paths (art_PlanIdentity a)) (pn_ChangedPaths (art_Plan a)))"
      "bind_path (art_IDRecords a) scope (e, cp) = Inr row"
    and b: "(e', cp') \<in> set (zip (pi_Paths (art_PlanIdentity b)) (pn_ChangedPaths (art_Plan b)))"
      "bind_path (art_IDRecords b) scope' (e', cp') = Inr row'"
    and v: "path_view e = path_view e'"
  shows "cp = cp' \<and> row = row'"
proof -
  have ub: "bound H a" "bound H b" using s by (simp_all add: same_identity_def)
  note ua = bound_uses [OF ub(1)] and ubb = bound_uses [OF ub(2)]
  note pa = bind_path_Inr [OF a(2)] and pb = bind_path_Inr [OF b(2)]
  have mem: "cp \<in> set (pn_ChangedPaths (art_Plan a))" "cp' \<in> set (pn_ChangedPaths (art_Plan b))"
    using a(1) b(1) by (auto dest: set_zip_rightD)
  have "pp_PathID cp = pp_PathID cp'"
    using wantFull_public [OF ua path_use [OF mem(1)] conjunct1 [OF pa]]
      wantFull_public [OF ubb path_use [OF mem(2)] conjunct1 [OF pb]] v
    by (simp add: path_view_def)
  moreover obtain r r' where r: "r \<in> set (art_IDRecords a)" "canonicalOf (art_IDRecords a) (pp_PathID cp) = ir_Canonical r"
      "H (ir_Canonical r) = Full (ppe_PathID e)"
    and r': "r' \<in> set (art_IDRecords b)" "canonicalOf (art_IDRecords b) (pp_PathID cp') = ir_Canonical r'"
      "H (ir_Canonical r') = Full (ppe_PathID e')"
    using wantFull_record [OF ua] wantFull_record [OF ubb] pa pb by blast
  moreover have "ir_Canonical r = ir_Canonical r'"
    using r r' v by (intro same_identity_hash [OF s]) (auto simp: hashed_inputs_def Let_def path_view_def)
  ultimately show ?thesis using pa pb v by (auto simp: path_view_def)
qed

text \<open>One hunk of a unit: its path and the hunk that its identifier is computed from.\<close>

definition hunk_content :: "unit_hunk \<Rightarrow> string \<times> raw_hunk option" where
  "hunk_content uh = (uh_PathID uh, case b64_decode (uh_PatchBase64 uh) of
     Inl _ \<Rightarrow> None | Inr payload \<Rightarrow> Some (raw_of_unit_hunk uh payload))"

lemma bind_unit_hunk_Inr:
  assumes "bind_unit_hunk H rs scope i j (hid, uh) = Inr ()"
  shows "\<exists>pathFull payload. fullOf rs (uh_PathID uh) = Inr pathFull \<and> b64_decode (uh_PatchBase64 uh) = Inr payload \<and>
    hunk_input H rs scope uh = frame (HunkID_fields H scope pathFull (raw_of_unit_hunk uh payload)) \<and>
    H (hunk_input H rs scope uh) = Full hid \<and> uh_HunkID uh = Public hid"
  using assms by (auto simp: bind_unit_hunk_def hunk_input_def HunkID_def)

lemma fullOf_public:
  assumes "uses_recorded H p cs us ms rs" "(public, OfKind kind) \<in> set (plan_uses p cs us ms)"
    and "fullOf rs public = Inr full"
  shows "public = Public (public_id kind full 16)"
  using wantFull_public [OF assms(1,2), of "\<lparr>Public = [], Full = full\<rparr>" "()"] assms(3)
  by (simp add: wantFull_def)

lemma same_hunk:
  assumes s: "same_identity H a b"
    and u: "u \<in> set (pn_PrimaryUnits (art_Plan a))" "uh \<in> set (ru_Hunks u)"
      "u' \<in> set (pn_PrimaryUnits (art_Plan b))" "uh' \<in> set (ru_Hunks u')"
    and h: "bind_unit_hunk H (art_IDRecords a) (pi_ScopeDigest (art_PlanIdentity a)) i j (hid, uh) = Inr ()"
      "bind_unit_hunk H (art_IDRecords b) (pi_ScopeDigest (art_PlanIdentity b)) i' j' (hid', uh') = Inr ()"
    and eq: "Full hid = Full hid'"
  shows "hunk_content uh = hunk_content uh'"
proof -
  obtain f p where a: "fullOf (art_IDRecords a) (uh_PathID uh) = Inr f" "b64_decode (uh_PatchBase64 uh) = Inr p"
    "hunk_input H (art_IDRecords a) (pi_ScopeDigest (art_PlanIdentity a)) uh =
       frame (HunkID_fields H (pi_ScopeDigest (art_PlanIdentity a)) f (raw_of_unit_hunk uh p))"
    "H (hunk_input H (art_IDRecords a) (pi_ScopeDigest (art_PlanIdentity a)) uh) = Full hid"
    using bind_unit_hunk_Inr [OF h(1)] by blast
  obtain f' p' where b: "fullOf (art_IDRecords b) (uh_PathID uh') = Inr f'" "b64_decode (uh_PatchBase64 uh') = Inr p'"
    "hunk_input H (art_IDRecords b) (pi_ScopeDigest (art_PlanIdentity b)) uh' =
       frame (HunkID_fields H (pi_ScopeDigest (art_PlanIdentity b)) f' (raw_of_unit_hunk uh' p'))"
    "H (hunk_input H (art_IDRecords b) (pi_ScopeDigest (art_PlanIdentity b)) uh') = Full hid'"
    using bind_unit_hunk_Inr [OF h(2)] by blast
  have mem: "hunk_input H (art_IDRecords a) (pi_ScopeDigest (art_PlanIdentity a)) uh \<in> set (hashed_inputs H a)"
    "hunk_input H (art_IDRecords b) (pi_ScopeDigest (art_PlanIdentity b)) uh' \<in> set (hashed_inputs H b)"
    using u by (auto simp: hashed_inputs_def Let_def)
  have "length (hunk_input H (art_IDRecords a) (pi_ScopeDigest (art_PlanIdentity a)) uh) < 2 ^ 64"
    using s mem(1) by (simp add: same_identity_def)
  moreover have "hunk_input H (art_IDRecords a) (pi_ScopeDigest (art_PlanIdentity a)) uh =
      hunk_input H (art_IDRecords b) (pi_ScopeDigest (art_PlanIdentity b)) uh'"
    using same_identity_hash [OF s mem] a(4) b(4) eq by simp
  ultimately have "f = f' \<and> raw_of_unit_hunk uh p = raw_of_unit_hunk uh' p'"
    unfolding a(3) b(3) using HunkID_fields_inject by blast
  moreover have "bound H a" "bound H b" using s by (simp_all add: same_identity_def)
  then have "uh_PathID uh = Public (public_id PathIDPrefixV1 f 16)" "uh_PathID uh' = Public (public_id PathIDPrefixV1 f' 16)"
    using fullOf_public [OF bound_uses unit_path_use [OF u(1,2)] a(1)]
      fullOf_public [OF bound_uses unit_path_use [OF u(3,4)] b(1)] by blast+
  ultimately show ?thesis using a(2) b(2) by (simp add: hunk_content_def)
qed

lemma bind_unit_Inr:
  assumes "bind_unit H rs scope (e, u) = Inr ()"
  shows "wantFull rs (pue_UnitID e) (ru_UnitID u) = Inr ()" "length (ru_Hunks u) = length (pue_HunkIDs e)"
    and "(hid, uh) \<in> set (zip (pue_HunkIDs e) (ru_Hunks u)) \<Longrightarrow>
      \<exists>j. bind_unit_hunk H rs scope (ru_UnitID u) j (hid, uh) = Inr ()"
proof -
  show "wantFull rs (pue_UnitID e) (ru_UnitID u) = Inr ()" "length (ru_Hunks u) = length (pue_HunkIDs e)"
    using assms by (auto simp: bind_unit_def)
  assume "(hid, uh) \<in> set (zip (pue_HunkIDs e) (ru_Hunks u))"
  from enumerated [OF this] obtain j where "(j, hid, uh) \<in> set (enumerate 0 (zip (pue_HunkIDs e) (ru_Hunks u)))"
    by (elim exE)
  moreover have "\<forall>(j, y)\<in>set (enumerate 0 (zip (pue_HunkIDs e) (ru_Hunks u))).
      bind_unit_hunk H rs scope (ru_UnitID u) j y = Inr ()"
    using assms by (auto simp: bind_unit_def)
  ultimately show "\<exists>j. bind_unit_hunk H rs scope (ru_UnitID u) j (hid, uh) = Inr ()" by blast
qed

lemma same_unit:
  assumes s: "same_identity H a b"
    and a: "(e, u) \<in> set (zip (pi_Units (art_PlanIdentity a)) (pn_PrimaryUnits (art_Plan a)))"
    and b: "(e', u') \<in> set (zip (pi_Units (art_PlanIdentity b)) (pn_PrimaryUnits (art_Plan b)))"
    and v: "unit_view e = unit_view e'"
  shows "(ru_UnitID u, map hunk_content (ru_Hunks u)) = (ru_UnitID u', map hunk_content (ru_Hunks u'))"
proof -
  have ub: "bound H a" "bound H b" using s by (simp_all add: same_identity_def)
  have ok: "bind_unit H (art_IDRecords a) (pi_ScopeDigest (art_PlanIdentity a)) (e, u) = Inr ()"
    "bind_unit H (art_IDRecords b) (pi_ScopeDigest (art_PlanIdentity b)) (e', u') = Inr ()"
    using bound_units(2) [OF ub(1)] bound_units(2) [OF ub(2)] a b by blast+
  have mem: "u \<in> set (pn_PrimaryUnits (art_Plan a))" "u' \<in> set (pn_PrimaryUnits (art_Plan b))"
    using a b by (auto dest: set_zip_rightD)
  have "ru_UnitID u = ru_UnitID u'"
    using wantFull_public [OF bound_uses [OF ub(1)] unit_use [OF mem(1)] bind_unit_Inr(1) [OF ok(1)]]
      wantFull_public [OF bound_uses [OF ub(2)] unit_use [OF mem(2)] bind_unit_Inr(1) [OF ok(2)]] v
    by (simp add: unit_view_def)
  moreover have "map hunk_content (ru_Hunks u) = map hunk_content (ru_Hunks u')"
  proof (rule zip_determined)
    show "map Full (pue_HunkIDs e) = map Full (pue_HunkIDs e')" using v by (simp add: unit_view_def)
    show "length (ru_Hunks u) = length (pue_HunkIDs e)" "length (ru_Hunks u') = length (pue_HunkIDs e')"
      using bind_unit_Inr(2) [OF ok(1)] bind_unit_Inr(2) [OF ok(2)] by blast+
    fix hid uh hid' uh'
    assume z: "(hid, uh) \<in> set (zip (pue_HunkIDs e) (ru_Hunks u))"
      "(hid', uh') \<in> set (zip (pue_HunkIDs e') (ru_Hunks u'))" and f: "Full hid = Full hid'"
    obtain j j' where "bind_unit_hunk H (art_IDRecords a) (pi_ScopeDigest (art_PlanIdentity a)) (ru_UnitID u) j (hid, uh) = Inr ()"
      "bind_unit_hunk H (art_IDRecords b) (pi_ScopeDigest (art_PlanIdentity b)) (ru_UnitID u') j' (hid', uh') = Inr ()"
      using bind_unit_Inr(3) [OF ok(1) z(1)] bind_unit_Inr(3) [OF ok(2) z(2)] by blast
    with s mem f show "hunk_content uh = hunk_content uh'"
      using set_zip_rightD [OF z(1)] set_zip_rightD [OF z(2)] same_hunk by blast
  qed
  ultimately show ?thesis by simp
qed

text \<open>Audit targets: the digest part of the identifier, behind its two-character kind.\<close>

lemma target_digest:
  assumes "bound H a" "wantFull (art_IDRecords a) t public = Inr ()"
  shows "drop 2 public = hex_encode (take 16 (digest_bytes (Full t)))"
proof -
  have u: "uses_recorded H (art_Plan a) (art_Citations a) (map fst (art_UnitCandidates a))
     (map fst (art_MandatoryUnits a)) (art_IDRecords a)" using assms(1) by (rule bound_uses)
  obtain r where r: "r \<in> set (art_IDRecords a)" "ir_Public r = public" "H (ir_Canonical r) = Full t"
    using wantFull_record [OF u assms(2)] by blast
  moreover have "record_sound H r" using u r(1) by (auto simp: uses_recorded_def list_all_iff)
  ultimately show ?thesis by (auto simp: record_sound_def contentIDKinds_def)
qed

definition audit_content :: "plan_audit \<Rightarrow> string \<times> string list" where
  "audit_content x = (pa_AuditID x, map (drop 2) (pa_TargetIDs x))"

lemma same_audit:
  assumes s: "same_identity H a b"
    and a: "(e, x) \<in> set (zip (pi_Audits (art_PlanIdentity a)) (pn_RequiredAudits (art_Plan a)))"
    and b: "(e', x') \<in> set (zip (pi_Audits (art_PlanIdentity b)) (pn_RequiredAudits (art_Plan b)))"
    and v: "audit_view e = audit_view e'"
  shows "audit_content x = audit_content x'"
proof -
  have ub: "bound H a" "bound H b" using s by (simp_all add: same_identity_def)
  obtain i i' where ok: "bind_audit (art_IDRecords a) (i, e, x) = Inr ()" "bind_audit (art_IDRecords b) (i', e', x') = Inr ()"
    using bound_rest(2) [OF ub(1)] bound_rest(2) [OF ub(2)] a b by blast
  have "map (drop 2) (pa_TargetIDs x) = map (drop 2) (pa_TargetIDs x')"
  proof (rule zip_determined)
    show "map Full (pae_TargetIDs e) = map Full (pae_TargetIDs e')" using v by (simp add: audit_view_def)
    show "length (pa_TargetIDs x) = length (pae_TargetIDs e)" "length (pa_TargetIDs x') = length (pae_TargetIDs e')"
      using ok by (auto simp: bind_audit_def)
    show "drop 2 p = drop 2 p'" if "(t, p) \<in> set (zip (pae_TargetIDs e) (pa_TargetIDs x))"
      "(t', p') \<in> set (zip (pae_TargetIDs e') (pa_TargetIDs x'))" "Full t = Full t'" for t p t' p'
    proof -
      have "wantFull (art_IDRecords a) t p = Inr ()" "wantFull (art_IDRecords b) t' p' = Inr ()"
        using that ok by (fastforce simp: bind_audit_def)+
      from target_digest [OF ub(1) this(1)] target_digest [OF ub(2) this(2)] show ?thesis using that(3) by simp
    qed
  qed
  with ok v show ?thesis by (auto simp: audit_content_def bind_audit_def audit_view_def)
qed

text \<open>One row of the displayed matrix of a structured plan.\<close>

lemma same_cohort_row:
  assumes s: "same_identity H a b"
    and m: "pn_Mode (art_Plan a) \<noteq> ModeDirect" "pn_Mode (art_Plan b) \<noteq> ModeDirect"
    and a: "(e, x) \<in> set (zip (pi_Cohorts (art_PlanIdentity a)) (flat_cohorts (art_Plan a)))"
    and b: "(e', x') \<in> set (zip (pi_Cohorts (art_PlanIdentity b)) (flat_cohorts (art_Plan b)))"
    and v: "cohort_view e = cohort_view e'"
  shows "x = x'"
proof -
  have ub: "bound H a" "bound H b" using s by (simp_all add: same_identity_def)
  note use = wantFull_public [OF bound_uses [OF ub(1)]] wantFull_public [OF bound_uses [OF ub(2)]]
  obtain c l us c' l' us' where x: "x = (c, l, us)" "x' = (c', l', us')" by (cases x; cases x') auto
  obtain i i' where "bind_cohort_row (art_IDRecords a) (i, e, c, l, us) = Inr ()"
    "bind_cohort_row (art_IDRecords b) (i', e', c', l', us') = Inr ()"
    using bound_rest(3) [OF ub(1) m(1)] bound_rest(3) [OF ub(2) m(2)] a b unfolding x by blast
  then have w: "wantFull (art_IDRecords a) (pce_CohortID e) c = Inr ()" "wantFull (art_IDRecords a) (pce_LayerID e) l = Inr ()"
    "wantFull (art_IDRecords b) (pce_CohortID e') c' = Inr ()" "wantFull (art_IDRecords b) (pce_LayerID e') l' = Inr ()"
    and len: "length us = length (pce_UnitIDs e)" "length us' = length (pce_UnitIDs e')"
    and wu: "\<forall>(u, p)\<in>set (zip (pce_UnitIDs e) us). wantFull (art_IDRecords a) u p = Inr ()"
      "\<forall>(u, p)\<in>set (zip (pce_UnitIDs e') us'). wantFull (art_IDRecords b) u p = Inr ()"
    by (auto simp: bind_cohort_row_def)
  note mem = set_zip_rightD [OF a [unfolded x]] set_zip_rightD [OF b [unfolded x]]
  note ua = cohort_use [OF mem(1)] and ub' = cohort_use [OF mem(2)]
  have "c = c'" using use(1) [OF conjunct1 [OF ua] w(1)] use(2) [OF conjunct1 [OF ub'] w(3)] v by (simp add: cohort_view_def)
  moreover have "l = l'"
    using use(1) [OF conjunct1 [OF conjunct2 [OF ua]] w(2)] use(2) [OF conjunct1 [OF conjunct2 [OF ub']] w(4)] v
    by (simp add: cohort_view_def)
  moreover have "map id us = map id us'"
  proof (rule zip_determined [OF _ len])
    show "map Full (pce_UnitIDs e) = map Full (pce_UnitIDs e')" using v by (simp add: cohort_view_def)
    fix u p u' p'
    assume z: "(u, p) \<in> set (zip (pce_UnitIDs e) us)" "(u', p') \<in> set (zip (pce_UnitIDs e') us')" and f: "Full u = Full u'"
    have "wantFull (art_IDRecords a) u p = Inr ()" "wantFull (art_IDRecords b) u' p' = Inr ()" using wu z by blast+
    moreover have "p \<in> set us" "p' \<in> set us'" using z by (auto dest: set_zip_rightD)
    ultimately show "id p = id p'"
      using use(1) [OF bspec [OF conjunct2 [OF conjunct2 [OF ua]]]] use(2) [OF bspec [OF conjunct2 [OF conjunct2 [OF ub']]]] f
      by metis
  qed
  ultimately show ?thesis by (simp add: x)
qed

text \<open>What the identity fixes of a plan.\<close>

definition scope_content :: "scope \<Rightarrow> string \<times> string \<times> side_identity \<times> side_identity" where
  "scope_content s = (sc_Kind s, sc_ObjectFormat s, sc_Base s, sc_Head s)"

definition plan_content where
  "plan_content p = (scope_content (pn_Scope p), pn_ChangedPaths p,
     map (\<lambda>u. (ru_UnitID u, map hunk_content (ru_Hunks u))) (pn_PrimaryUnits p),
     map audit_content (pn_RequiredAudits p))"

lemma bound_path_row:
  assumes "bound H a"
  shows "(e, cp) \<in> set (zip (pi_Paths (art_PlanIdentity a)) (pn_ChangedPaths (art_Plan a))) \<Longrightarrow>
      \<exists>row. bind_path (art_IDRecords a) (pi_ScopeDigest (art_PlanIdentity a)) (e, cp) = Inr row"
    and "(e, row) \<in> set (zip (pi_Paths (art_PlanIdentity a)) (path_rows a)) \<Longrightarrow>
      \<exists>cp. (e, cp) \<in> set (zip (pi_Paths (art_PlanIdentity a)) (pn_ChangedPaths (art_Plan a))) \<and>
        bind_path (art_IDRecords a) (pi_ScopeDigest (art_PlanIdentity a)) (e, cp) = Inr row"
    and "length (path_rows a) = length (pi_Paths (art_PlanIdentity a))"
proof -
  note p = bound_paths [OF assms]
  show len: "length (path_rows a) = length (pi_Paths (art_PlanIdentity a))"
    using list_all2_lengthD [OF p(2)] p(1) by simp
  show "\<exists>row. bind_path (art_IDRecords a) (pi_ScopeDigest (art_PlanIdentity a)) (e, cp) = Inr row"
    if z: "(e, cp) \<in> set (zip (pi_Paths (art_PlanIdentity a)) (pn_ChangedPaths (art_Plan a)))"
  proof -
    obtain i where "i < length (zip (pi_Paths (art_PlanIdentity a)) (pn_ChangedPaths (art_Plan a)))"
      "zip (pi_Paths (art_PlanIdentity a)) (pn_ChangedPaths (art_Plan a)) ! i = (e, cp)"
      using z by (auto simp: in_set_conv_nth)
    with list_all2_nthD [OF p(2) this(1)] show ?thesis by auto
  qed
  assume "(e, row) \<in> set (zip (pi_Paths (art_PlanIdentity a)) (path_rows a))"
  then obtain i where i: "i < length (pi_Paths (art_PlanIdentity a))" "i < length (path_rows a)"
    "e = pi_Paths (art_PlanIdentity a) ! i" "row = path_rows a ! i" by (auto simp: set_zip)
  then have "i < length (zip (pi_Paths (art_PlanIdentity a)) (pn_ChangedPaths (art_Plan a)))" using p(1) by simp
  from list_all2_nthD [OF p(2) this] nth_mem [OF this]
  show "\<exists>cp. (e, cp) \<in> set (zip (pi_Paths (art_PlanIdentity a)) (pn_ChangedPaths (art_Plan a))) \<and>
        bind_path (art_IDRecords a) (pi_ScopeDigest (art_PlanIdentity a)) (e, cp) = Inr row"
    using i p(1) by (intro exI [of _ "pn_ChangedPaths (art_Plan a) ! i"]) simp
qed

lemma same_paths_rows:
  assumes s: "same_identity H a b"
  shows "pn_ChangedPaths (art_Plan a) = pn_ChangedPaths (art_Plan b)" "path_rows a = path_rows b"
proof -
  have ub: "bound H a" "bound H b" using s by (simp_all add: same_identity_def)
  note ra = bound_path_row [OF ub(1)] and rb = bound_path_row [OF ub(2)]
  have views: "map path_view (pi_Paths (art_PlanIdentity a)) = map path_view (pi_Paths (art_PlanIdentity b))"
    using same_identity_views [OF s] by (simp add: identity_view_def)
  have "map id (pn_ChangedPaths (art_Plan a)) = map id (pn_ChangedPaths (art_Plan b))"
    using zip_determined [OF views bound_paths(1) [OF ub(1)] bound_paths(1) [OF ub(2)]]
      same_path [OF s] ra(1) rb(1) by (metis id_apply)
  then show "pn_ChangedPaths (art_Plan a) = pn_ChangedPaths (art_Plan b)" by simp
  have "map id (path_rows a) = map id (path_rows b)"
    using zip_determined [OF views ra(3) rb(3)] same_path [OF s] ra(2) rb(2) by (metis id_apply)
  then show "path_rows a = path_rows b" by simp
qed

lemma same_identity_plan:
  assumes s: "same_identity H a b"
  shows "plan_content (art_Plan a) = plan_content (art_Plan b)"
    and "pn_Mode (art_Plan a) \<noteq> ModeDirect \<Longrightarrow> pn_Mode (art_Plan b) \<noteq> ModeDirect \<Longrightarrow>
      flat_cohorts (art_Plan a) = flat_cohorts (art_Plan b)"
proof -
  have ub: "bound H a" "bound H b" using s by (simp_all add: same_identity_def)
  have v: "pi_ScopeDigest (art_PlanIdentity a) = pi_ScopeDigest (art_PlanIdentity b)"
    "map unit_view (pi_Units (art_PlanIdentity a)) = map unit_view (pi_Units (art_PlanIdentity b))"
    "map audit_view (pi_Audits (art_PlanIdentity a)) = map audit_view (pi_Audits (art_PlanIdentity b))"
    "map cohort_view (pi_Cohorts (art_PlanIdentity a)) = map cohort_view (pi_Cohorts (art_PlanIdentity b))"
    using same_identity_views [OF s] by (simp_all add: identity_view_def)
  have "scope_input H (pn_Scope (art_Plan a)) (path_rows a) = scope_input H (pn_Scope (art_Plan b)) (path_rows b)"
    using bound_paths(3) [OF ub(1)] bound_paths(3) [OF ub(2)] v(1)
    by (intro same_identity_hash [OF s]) (simp_all add: hashed_inputs_def Let_def)
  moreover have "length (scope_input H (pn_Scope (art_Plan a)) (path_rows a)) < 2 ^ 64"
    using s by (simp add: same_identity_def hashed_inputs_def Let_def)
  ultimately have "scope_content (pn_Scope (art_Plan a)) = scope_content (pn_Scope (art_Plan b))"
    unfolding scope_input_def scope_content_def using ScopeIdentityV1_inject by blast
  moreover have "map (\<lambda>u. (ru_UnitID u, map hunk_content (ru_Hunks u))) (pn_PrimaryUnits (art_Plan a)) =
      map (\<lambda>u. (ru_UnitID u, map hunk_content (ru_Hunks u))) (pn_PrimaryUnits (art_Plan b))"
    by (rule zip_determined [OF v(2) bound_units(1) [OF ub(1)] bound_units(1) [OF ub(2)] same_unit [OF s]])
  moreover have "map audit_content (pn_RequiredAudits (art_Plan a)) = map audit_content (pn_RequiredAudits (art_Plan b))"
    by (rule zip_determined [OF v(3) bound_rest(1) [OF ub(1)] bound_rest(1) [OF ub(2)] same_audit [OF s]])
  ultimately show "plan_content (art_Plan a) = plan_content (art_Plan b)"
    using same_paths_rows(1) [OF s] by (simp add: plan_content_def)
  assume m: "pn_Mode (art_Plan a) \<noteq> ModeDirect" "pn_Mode (art_Plan b) \<noteq> ModeDirect"
  have "map id (flat_cohorts (art_Plan a)) = map id (flat_cohorts (art_Plan b))"
    using zip_determined [OF v(4) conjunct1 [OF bound_rest(3) [OF ub(1) m(1)]] conjunct1 [OF bound_rest(3) [OF ub(2) m(2)]]]
      same_cohort_row [OF s m] by (metis id_apply)
  then show "flat_cohorts (art_Plan a) = flat_cohorts (art_Plan b)" by simp
qed

end
