(* ===== verification/Verdict.thy ===== *)
theory Verdict
  imports Checker Binding
begin

text \<open>
  What the verdict of \<open>Service.Check\<close> means: the receipts of a complete structured review acknowledge
  exactly the hunks and audit targets of the plan, its recommendation follows from its findings, and
  every result with its error is consistent.
\<close>

section \<open>Exact acknowledgement\<close>

lemma check_acknowledged_Inr:
  "check_acknowledged reason owner item expected seen is = Inr u \<longleftrightarrow>
     distinct is \<and> set is \<inter> set seen = {} \<and> set is \<subseteq> expected"
  by (induction "is" arbitrary: seen) auto

lemma check_acknowledged_Inl:
  assumes "check_acknowledged reason owner item expected seen is = Inl i"
  shows "is_status i = CheckInvalid \<and> is_reason i = reason"
  using assms by (induction "is" arbitrary: seen) (auto simp: invalid_issue_def split: if_splits)

lemma sorted_list_Nil: "finite S \<Longrightarrow> sorted_list_of_set S = [] \<longleftrightarrow> S = {}"
  by simp

lemma exactAcknowledgement_Inr:
  assumes "finite expected"
  shows "exactAcknowledgement reason owner item expected acknowledged = Inr u \<longleftrightarrow>
    distinct acknowledged \<and> set acknowledged = expected"
proof (cases "expected \<subseteq> set acknowledged")
  case True
  then have "expected - set acknowledged = {}" by blast
  with True show ?thesis by (auto simp: exactAcknowledgement_def check_acknowledged_Inr)
next
  case False
  then obtain i js where "sorted_list_of_set (expected - set acknowledged) = i # js"
    using sorted_list_Nil [of "expected - set acknowledged"] assms by (metis Diff_eq_empty_iff finite_Diff list.exhaust)
  with False show ?thesis by (auto simp: exactAcknowledgement_def)
qed

lemma check_finding_ids_Inr:
  "check_finding_ids owner findings seen is = Inr u \<longleftrightarrow>
     distinct is \<and> set is \<inter> set seen = {} \<and> set is \<subseteq> findings"
  by (induction "is" arbitrary: seen) auto

lemma no_blocking_Inr: "no_blocking kind owner us = Inr u \<longleftrightarrow> (\<forall>x\<in>set us. \<not> un_Blocking x)"
  by (simp add: no_blocking_def)

lemma index_receipts_Inr:
  "index_receipts reason kind key known m rs = Inr m' \<Longrightarrow>
     distinct (map key rs) \<and> (\<forall>r\<in>set rs. known (key r) \<and> m (key r) = None) \<and>
     m' = m ++ map_of (map (\<lambda>r. (key r, r)) rs)"
proof (induction rs arbitrary: m)
  case (Cons r rs)
  from Cons.prems have k: "known (key r)" "m (key r) = None"
    and rest: "index_receipts reason kind key known (m(key r \<mapsto> r)) rs = Inr m'"
    by (auto split: if_splits)
  from Cons.IH [OF rest] have ih: "distinct (map key rs)"
    "\<forall>x\<in>set rs. known (key x) \<and> (m(key r \<mapsto> r)) (key x) = None"
    "m' = m(key r \<mapsto> r) ++ map_of (map (\<lambda>r. (key r, r)) rs)" by blast+
  have new: "key r \<notin> key ` set rs" using ih(2) by force
  then have dist: "distinct (map key (r # rs))" using ih(1) by simp
  from new have "map_of (map (\<lambda>r. (key r, r)) rs) (key r) = None" by (force simp: map_of_eq_None_iff)
  then have "m' = m ++ map_of (map (\<lambda>r. (key r, r)) (r # rs))"
    unfolding ih(3) by (auto simp: fun_eq_iff map_add_def split: option.splits)
  moreover have "\<forall>x\<in>set (r # rs). known (key x) \<and> m (key x) = None"
    using ih(2) k by (auto split: if_splits)
  ultimately show ?case using dist by blast
qed simp

lemma indexed_receipt:
  assumes "index_receipts reason kind key known Map.empty rs = Inr m"
  shows "m i = Some r \<longleftrightarrow> r \<in> set rs \<and> key r = i"
proof -
  have m: "distinct (map key rs)" "m = map_of (map (\<lambda>r. (key r, r)) rs)"
    using index_receipts_Inr [OF assms] by simp_all
  have "distinct (map fst (map (\<lambda>r. (key r, r)) rs))" using m(1) by (simp add: comp_def)
  from map_of_eq_Some_iff [OF this] show ?thesis unfolding m(2) by auto
qed

section \<open>Coverage\<close>

text \<open>What a covered unit or audit has: one receipt, which acknowledges exactly what is expected.\<close>

definition unit_covered :: "report \<Rightarrow> string \<Rightarrow> string set \<Rightarrow> bool" where
  "unit_covered r unit expected \<longleftrightarrow> (\<exists>x. filter (\<lambda>x. pr_UnitID x = unit) (re_PrimaryReceipts r) = [x] \<and>
     distinct (pr_AcknowledgedPrimaryHunkIDs x) \<and> set (pr_AcknowledgedPrimaryHunkIDs x) = expected \<and>
     set (pr_FindingIDs x) \<subseteq> set (map fi_ID (re_Findings r)) \<and> (\<forall>u\<in>set (pr_Uncertainties x). \<not> un_Blocking u))"

definition audit_covered :: "report \<Rightarrow> string \<Rightarrow> string set \<Rightarrow> bool" where
  "audit_covered r audit expected \<longleftrightarrow> (\<exists>x. filter (\<lambda>x. ar_AuditID x = audit) (re_AuditReceipts r) = [x] \<and>
     distinct (ar_AcknowledgedAuditTargetIDs x) \<and> set (ar_AcknowledgedAuditTargetIDs x) = expected \<and>
     set (ar_FindingIDs x) \<subseteq> set (map fi_ID (re_Findings r)) \<and> (\<forall>u\<in>set (ar_Uncertainties x). \<not> un_Blocking u))"

lemma filter_unique:
  assumes "distinct (map key rs)" "r \<in> set rs"
  shows "filter (\<lambda>x. key x = key r) rs = [r]"
  using assms by (induction rs) (auto simp: filter_empty_conv intro: rev_image_eqI dest: sym)

lemma validateStructuredCoverage_Inr:
  assumes "validateStructuredCoverage H read v p r = Inr u"
    and fin: "\<forall>s\<in>ran (rv_units v). finite s"
  shows "\<forall>x\<in>set (pn_PrimaryUnits p). unit_covered r (ru_UnitID x) (case rv_units v (ru_UnitID x) of None \<Rightarrow> {} | Some s \<Rightarrow> s)"
    and "\<forall>x\<in>set (pn_RequiredAudits p). audit_covered r (pa_AuditID x)
      (case expected_audits p (pa_AuditID x) of None \<Rightarrow> {} | Some s \<Rightarrow> s)"
proof -
  let ?F = "set (map fi_ID (re_Findings r))"
  obtain primary audits where pr: "index_receipts ''primary_receipt'' ''unit'' pr_UnitID (\<lambda>i. rv_units v i \<noteq> None)
        Map.empty (re_PrimaryReceipts r) = Inr primary"
    and cu: "\<forall>x\<in>set (pn_PrimaryUnits p). cover_unit H read v ?F primary (ru_UnitID x) = Inr ()"
    and au: "index_receipts ''audit_receipt'' ''audit'' ar_AuditID (\<lambda>i. expected_audits p i \<noteq> None)
        Map.empty (re_AuditReceipts r) = Inr audits"
    and ca: "\<forall>x\<in>set (pn_RequiredAudits p). cover_audit H read v p ?F audits (pa_AuditID x) = Inr ()"
    using assms(1) by (auto simp: validateStructuredCoverage_def Let_def)
  show "\<forall>x\<in>set (pn_PrimaryUnits p). unit_covered r (ru_UnitID x) (case rv_units v (ru_UnitID x) of None \<Rightarrow> {} | Some s \<Rightarrow> s)"
  proof
    fix x assume "x \<in> set (pn_PrimaryUnits p)"
    with cu have c: "cover_unit H read v ?F primary (ru_UnitID x) = Inr ()" by blast
    then obtain y where y: "primary (ru_UnitID x) = Some y" by (auto simp: cover_unit_def split: option.splits)
    then have mem: "y \<in> set (re_PrimaryReceipts r)" "pr_UnitID y = ru_UnitID x"
      using indexed_receipt [OF pr] by auto
    have "filter (\<lambda>z. pr_UnitID z = ru_UnitID x) (re_PrimaryReceipts r) = [y]"
      using filter_unique [of pr_UnitID _ y] index_receipts_Inr [OF pr] mem by auto
    moreover have "finite (case rv_units v (ru_UnitID x) of None \<Rightarrow> {} | Some s \<Rightarrow> s)"
      using fin by (auto simp: ran_def split: option.splits)
    ultimately show "unit_covered r (ru_UnitID x) (case rv_units v (ru_UnitID x) of None \<Rightarrow> {} | Some s \<Rightarrow> s)"
      using c unfolding unit_covered_def cover_unit_def y
      by (auto simp: exactAcknowledgement_Inr validateReceiptFindingIDs_def check_finding_ids_Inr no_blocking_Inr)
  qed
  show "\<forall>x\<in>set (pn_RequiredAudits p). audit_covered r (pa_AuditID x)
      (case expected_audits p (pa_AuditID x) of None \<Rightarrow> {} | Some s \<Rightarrow> s)"
  proof
    fix x assume "x \<in> set (pn_RequiredAudits p)"
    with ca have c: "cover_audit H read v p ?F audits (pa_AuditID x) = Inr ()" by blast
    then obtain y where y: "audits (pa_AuditID x) = Some y" by (auto simp: cover_audit_def split: option.splits)
    then have mem: "y \<in> set (re_AuditReceipts r)" "ar_AuditID y = pa_AuditID x"
      using indexed_receipt [OF au] by auto
    have "filter (\<lambda>z. ar_AuditID z = pa_AuditID x) (re_AuditReceipts r) = [y]"
      using filter_unique [of ar_AuditID _ y] index_receipts_Inr [OF au] mem by auto
    moreover have "finite (case expected_audits p (pa_AuditID x) of None \<Rightarrow> {} | Some s \<Rightarrow> s)"
      by (auto simp: expected_audits_def split: option.splits dest: map_of_SomeD)
    ultimately show "audit_covered r (pa_AuditID x) (case expected_audits p (pa_AuditID x) of None \<Rightarrow> {} | Some s \<Rightarrow> s)"
      using c unfolding audit_covered_def cover_audit_def y
      by (auto simp: exactAcknowledgement_Inr validateReceiptFindingIDs_def check_finding_ids_Inr no_blocking_Inr)
  qed
qed

section \<open>The validator of accepted artifacts\<close>

text \<open>The part of a validator that \<open>indexHunk\<close> changes.\<close>

definition hunk_part where
  "hunk_part v = (rv_hunks v, rv_hunkProofs v, rv_pathHasHunk v, rv_diffRanges v)"

lemma indexHunk_keeps [simp]:
  "rv_units (indexHunk h v) = rv_units v" "rv_paths (indexHunk h v) = rv_paths v"
  "rv_citations (indexHunk h v) = rv_citations v" "rv_planIDs (indexHunk h v) = rv_planIDs v"
  "rv_auditTargets (indexHunk h v) = rv_auditTargets v" "rv_changedSides (indexHunk h v) = rv_changedSides v"
  by (simp_all add: indexHunk_def add_range_def Let_def)

lemma hunk_part_indexHunk: "hunk_part v = hunk_part w \<Longrightarrow> hunk_part (indexHunk h v) = hunk_part (indexHunk h w)"
  by (simp add: hunk_part_def indexHunk_def add_range_def Let_def)

text \<open>Everything else that a step may change is none of the constant part.\<close>

definition fixed_part where
  "fixed_part v = (rv_paths v, rv_citations v, rv_planIDs v, rv_auditTargets v, rv_changedSides v)"

lemma fixed_part_indexHunk [simp]: "fixed_part (indexHunk h v) = fixed_part v"
  by (simp add: fixed_part_def)

text \<open>The hunks that the two loops index, in order.\<close>

definition record_hunk ::
    "(bytes \<Rightarrow> digest) \<Rightarrow> 'c plan_artifacts \<Rightarrow> id_record \<Rightarrow> checked_hunk list" where
  "record_hunk H a r =
     (if ir_Kind r = HunkIDPrefixV1 then
        (case checkedHunkFromRecord H r (full_paths (art_PlanIdentity a)) (rv_paths (start_validator a)) of
           Inr h \<Rightarrow> [h] | Inl _ \<Rightarrow> [])
      else [])"

definition unit_hunks_of ::
    "(bytes \<Rightarrow> digest) \<Rightarrow> 'c plan_artifacts \<Rightarrow> review_unit \<Rightarrow> checked_hunk list" where
  "unit_hunks_of H a u = concat (map (\<lambda>(hid, h).
     case checkedHunkFrom H (ru_UnitID u) (Public hid) h of Inr h \<Rightarrow> [h] | Inl _ \<Rightarrow> [])
     (zip (unit_identity (art_PlanIdentity a) (ru_UnitID u)) (ru_Hunks u)))"

definition indexed_hunks :: "(bytes \<Rightarrow> digest) \<Rightarrow> 'c plan_artifacts \<Rightarrow> checked_hunk list" where
  "indexed_hunks H a = concat (map (record_hunk H a) (art_IDRecords a))
     @ concat (map (unit_hunks_of H a) (pn_PrimaryUnits (art_Plan a)))"

lemma index_side_keeps:
  "index_side r raw v row = Inr v' \<Longrightarrow> hunk_part v' = hunk_part v \<and> fixed_part v' = fixed_part v \<and> rv_units v' = rv_units v"
  by (cases row) (auto simp: index_side_def hunk_part_def fixed_part_def split: if_splits)

lemma indexPathSides_keeps:
  assumes "indexPathSides v r = Inr v'"
  shows "hunk_part v' = hunk_part v \<and> fixed_part v' = fixed_part v \<and> rv_units v' = rv_units v"
proof -
  obtain raw and path :: plan_path where "foldE (index_side r raw) v
      [(''old_side'', pp_OldPath path, SideBase), (''new_side'', pp_NewPath path, SideHead)] = Inr v'"
    using assms unfolding indexPathSides_def by (auto simp del: foldE.simps split: option.splits)
  then show ?thesis
    by (rule foldE_invariant) (auto dest: index_side_keeps)
qed

lemma index_record_step:
  assumes "index_record H (full_paths (art_PlanIdentity a)) v r = Inr v'"
    and "fixed_part v = fixed_part (start_validator a)"
  shows "fixed_part v' = fixed_part v \<and> rv_units v' = rv_units v \<and>
    hunk_part v' = hunk_part (fold indexHunk (record_hunk H a r) v)"
proof -
  have paths: "rv_paths v = rv_paths (start_validator a)" using assms(2) by (simp add: fixed_part_def)
  consider "ir_Kind r = PathIDPrefixV1" | "ir_Kind r = HunkIDPrefixV1"
    | "ir_Kind r \<noteq> PathIDPrefixV1" "ir_Kind r \<noteq> HunkIDPrefixV1" by blast
  then show ?thesis
  proof cases
    case 1
    then show ?thesis using assms(1) indexPathSides_keeps [of v r v'] by (simp add: index_record_def record_hunk_def)
  next
    case 2
    then show ?thesis using assms(1) paths by (auto simp: index_record_def record_hunk_def)
  next
    case 3
    then show ?thesis using assms(1)
      by (auto simp: index_record_def record_hunk_def hunk_part_def fixed_part_def split: if_splits option.splits)
  qed
qed

lemma hunk_part_fold: "hunk_part v = hunk_part w \<Longrightarrow> hunk_part (fold indexHunk hs v) = hunk_part (fold indexHunk hs w)"
proof (induction hs arbitrary: v w)
  case (Cons h hs)
  from Cons.IH [OF hunk_part_indexHunk [OF Cons.prems]] show ?case by simp
qed simp

lemma fixed_part_fold [simp]: "fixed_part (fold indexHunk hs v) = fixed_part v"
  and units_fold [simp]: "rv_units (fold indexHunk hs v) = rv_units v"
  by (induction hs arbitrary: v) simp_all

lemma index_records:
  assumes "foldE (index_record H (full_paths (art_PlanIdentity a))) v rs = Inr v'"
    and "fixed_part v = fixed_part (start_validator a)"
  shows "fixed_part v' = fixed_part v \<and> rv_units v' = rv_units v \<and>
    hunk_part v' = hunk_part (fold indexHunk (concat (map (record_hunk H a) rs)) v)"
  using assms
proof (induction rs arbitrary: v)
  case (Cons r rs)
  then obtain w where w: "index_record H (full_paths (art_PlanIdentity a)) v r = Inr w"
    "foldE (index_record H (full_paths (art_PlanIdentity a))) w rs = Inr v'" by auto
  note step = index_record_step [OF w(1) Cons.prems(2)]
  have "fixed_part w = fixed_part (start_validator a)" using step Cons.prems(2) by simp
  from Cons.IH [OF w(2) this] step hunk_part_fold [of w "fold indexHunk (record_hunk H a r) v"]
  show ?case by simp
qed simp

lemma index_unit_step:
  assumes "index_unit H (art_PlanIdentity a) v u = Inr v'"
  shows "fixed_part v' = fixed_part v \<and> hunk_part v' = hunk_part (fold indexHunk (unit_hunks_of H a u) v) \<and>
    rv_units v' = (rv_units v)(ru_UnitID u \<mapsto> set (map Public (unit_identity (art_PlanIdentity a) (ru_UnitID u))))"
proof -
  let ?step = "\<lambda>v (hid, h). bindE (checkedHunkFrom H (ru_UnitID u) (Public hid) h) (\<lambda>h. Inr (indexHunk h v))"
  let ?f = "\<lambda>(hid, h). case checkedHunkFrom H (ru_UnitID u) (Public hid) h of Inr h \<Rightarrow> [h] | Inl _ \<Rightarrow> []"
  have fold: "foldE ?step v ps = Inr w \<Longrightarrow> w = fold indexHunk (concat (map ?f ps)) v" for v ps w
    by (induction ps arbitrary: v) auto
  obtain w where "foldE ?step v (zip (unit_identity (art_PlanIdentity a) (ru_UnitID u)) (ru_Hunks u)) = Inr w"
    "v' = w\<lparr>rv_units := (rv_units w)(ru_UnitID u \<mapsto> set (map Public (unit_identity (art_PlanIdentity a) (ru_UnitID u))))\<rparr>"
    using assms by (auto simp: index_unit_def Let_def)
  moreover from fold [OF this(1)] have "w = fold indexHunk (unit_hunks_of H a u) v" by (simp add: unit_hunks_of_def)
  ultimately show ?thesis
    using fixed_part_fold [of "unit_hunks_of H a u" v] by (simp add: hunk_part_def fixed_part_def)
qed

lemma index_units:
  assumes "foldE (index_unit H (art_PlanIdentity a)) v us = Inr v'"
  shows "fixed_part v' = fixed_part v \<and>
    hunk_part v' = hunk_part (fold indexHunk (concat (map (unit_hunks_of H a) us)) v) \<and>
    rv_units v' = (\<lambda>i. if i \<in> set (map ru_UnitID us)
      then Some (set (map Public (unit_identity (art_PlanIdentity a) i))) else rv_units v i)"
  using assms
proof (induction us arbitrary: v)
  case (Cons u us)
  then obtain w where w: "index_unit H (art_PlanIdentity a) v u = Inr w"
    "foldE (index_unit H (art_PlanIdentity a)) w us = Inr v'" by auto
  note step = index_unit_step [OF w(1)] and ih = Cons.IH [OF w(2)]
  have "hunk_part v' = hunk_part (fold indexHunk (concat (map (unit_hunks_of H a) (u # us))) v)"
    using ih step hunk_part_fold [of w "fold indexHunk (unit_hunks_of H a u) v"] by simp
  then show ?case using ih step by (auto simp: fun_eq_iff)
qed simp

lemma indexAuditOwnership_keeps:
  assumes "indexAuditOwnership v cohortUnits = Inr v'"
  shows "hunk_part v' = hunk_part v \<and> fixed_part v' = fixed_part v \<and> rv_units v' = rv_units v"
  using assms unfolding indexAuditOwnership_def
  by (rule foldE_invariant) (auto simp: hunk_part_def fixed_part_def)

text \<open>What every validator holds.\<close>

lemma newReportValidator_Inr:
  assumes "newReportValidator H a = Inr v"
  shows "rv_units v = (\<lambda>i. if i \<in> set (map ru_UnitID (pn_PrimaryUnits (art_Plan a)))
      then Some (set (map Public (unit_identity (art_PlanIdentity a) i))) else None)"
    and "fixed_part v = fixed_part (start_validator a)"
    and "hunk_part v = hunk_part (normalizeDiffRanges (fold indexHunk (indexed_hunks H a) (start_validator a)))"
proof -
  obtain x y where x: "foldE (index_record H (full_paths (art_PlanIdentity a))) (start_validator a) (art_IDRecords a) = Inr x"
    and y: "foldE (index_unit H (art_PlanIdentity a)) x (pn_PrimaryUnits (art_Plan a)) = Inr y"
    and v: "indexAuditOwnership (normalizeDiffRanges y) (cohort_units (art_PlanIdentity a)) = Inr v"
    using assms by (auto simp: newReportValidator_def Let_def split: option.splits)
  note r = index_records [OF x refl] and u = index_units [OF y] and o' = indexAuditOwnership_keeps [OF v]
  have "hunk_part y = hunk_part (fold indexHunk (indexed_hunks H a) (start_validator a))"
    using r u hunk_part_fold [of x "fold indexHunk (concat (map (record_hunk H a) (art_IDRecords a))) (start_validator a)"]
    by (simp add: indexed_hunks_def)
  then show "hunk_part v = hunk_part (normalizeDiffRanges (fold indexHunk (indexed_hunks H a) (start_validator a)))"
    using o' by (simp add: hunk_part_def normalizeDiffRanges_def)
  show "fixed_part v = fixed_part (start_validator a)"
    using r u o' by (simp add: fixed_part_def normalizeDiffRanges_def)
  show "rv_units v = (\<lambda>i. if i \<in> set (map ru_UnitID (pn_PrimaryUnits (art_Plan a)))
      then Some (set (map Public (unit_identity (art_PlanIdentity a) i))) else None)"
    using r u o' by (simp add: normalizeDiffRanges_def start_validator_def Let_def fun_eq_iff)
qed

section \<open>Locations inside the diff\<close>

text \<open>The lines that a hunk changes on one side of a path.\<close>

definition hunk_ranges :: "string \<Rightarrow> checked_hunk \<Rightarrow> line_range list" where
  "hunk_ranges key h =
     (if ch_oldCount h > 0 \<and> ch_oldPath h \<noteq> [] \<and> sourceKey SideBase (ch_oldPath h) = key
      then [\<lparr>lr_start = ch_oldStart h, lr_end = i64 (ch_oldStart h + ch_oldCount h - 1)\<rparr>] else [])
   @ (if ch_newCount h > 0 \<and> ch_newPath h \<noteq> [] \<and> sourceKey SideHead (ch_newPath h) = key
      then [\<lparr>lr_start = ch_newStart h, lr_end = i64 (ch_newStart h + ch_newCount h - 1)\<rparr>] else [])"

definition changes_line :: "checked_hunk \<Rightarrow> string \<Rightarrow> string \<Rightarrow> int \<Rightarrow> bool" where
  "changes_line h side path x \<longleftrightarrow>
     (side = SideBase \<and> path = ch_oldPath h \<and> ch_oldStart h \<le> x \<and> x < ch_oldStart h + ch_oldCount h \<or>
      side = SideHead \<and> path = ch_newPath h \<and> ch_newStart h \<le> x \<and> x < ch_newStart h + ch_newCount h)"

text \<open>Line numbers and counts that fit in 64 bits with room for the line after the hunk.\<close>

definition hunk_fits :: "checked_hunk \<Rightarrow> bool" where
  "hunk_fits h \<longleftrightarrow> 0 \<le> ch_oldStart h \<and> 0 \<le> ch_newStart h \<and>
     ch_oldStart h + ch_oldCount h < 2 ^ 63 \<and> ch_newStart h + ch_newCount h < 2 ^ 63"

lemma diffRanges_fold:
  "rv_diffRanges (fold indexHunk hs v) key = rv_diffRanges v key @ concat (map (hunk_ranges key) hs)"
  by (induction hs arbitrary: v) (auto simp: indexHunk_def add_range_def Let_def hunk_ranges_def)

lemma sourceKey_inject:
  assumes "s \<in> {SideBase, SideHead}" "s' \<in> {SideBase, SideHead}"
  shows "sourceKey s p = sourceKey s' p' \<longleftrightarrow> s = s' \<and> p = p'"
  using assms by (auto simp: sourceKey_def)

lemma hunk_ranges_changes:
  assumes "hunk_fits h" "side \<in> {SideBase, SideHead}" "path \<noteq> []"
  shows "list_all proper_range (hunk_ranges (sourceKey side path) h)"
    and "(\<exists>r\<in>set (hunk_ranges (sourceKey side path) h). covers r x) \<longleftrightarrow> changes_line h side path x"
  using assms
  by (auto simp: hunk_ranges_def hunk_fits_def proper_range_def covers_def changes_line_def sourceKey_inject)

lemma changedSides_iff:
  assumes "side \<in> {SideBase, SideHead}" "path \<noteq> []"
  shows "sourceKey side path \<in> rv_changedSides (start_validator a) \<longleftrightarrow>
    (\<exists>c\<in>set (pn_ChangedPaths (art_Plan a)). path = (if side = SideBase then pp_OldPath c else pp_NewPath c))"
proof -
  have key: "s \<in> {SideBase, SideHead} \<Longrightarrow> sourceKey side path = sourceKey s p \<longleftrightarrow> side = s \<and> path = p" for s p
    using sourceKey_inject [OF assms(1)] by blast
  have "sourceKey side path \<in> set (path_sides c) \<longleftrightarrow> path = (if side = SideBase then pp_OldPath c else pp_NewPath c)" for c
    using assms by (auto simp: path_sides_def key)
  then show ?thesis by (simp add: start_validator_def Let_def)
qed

lemma insideDiff_lines:
  assumes v: "newReportValidator H a = Inr v" and fits: "\<forall>h\<in>set (indexed_hunks H a). hunk_fits h"
    and l: "lo_Side l \<in> {SideBase, SideHead}" "lo_Path l \<noteq> []" "lo_Kind l \<noteq> LocationPath" "lo_Start l \<le> lo_End l"
  shows "locationInsideDiff v l \<longleftrightarrow>
    (\<exists>h\<in>set (indexed_hunks H a). \<exists>x. lo_Start l \<le> x \<and> x \<le> lo_End l \<and> changes_line h (lo_Side l) (lo_Path l) x)"
proof -
  let ?rs = "concat (map (hunk_ranges (sourceKey (lo_Side l) (lo_Path l))) (indexed_hunks H a))"
  have "rv_diffRanges v = rv_diffRanges (normalizeDiffRanges (fold indexHunk (indexed_hunks H a) (start_validator a)))"
    using newReportValidator_Inr(3) [OF v] by (simp add: hunk_part_def)
  then have "rv_diffRanges v (sourceKey (lo_Side l) (lo_Path l)) = normalizeRanges ?rs"
    by (simp add: normalizeDiffRanges_def diffRanges_fold start_validator_def Let_def)
  then have hit: "locationInsideDiff v l \<longleftrightarrow> rangeHit (normalizeRanges ?rs) (lo_Start l) (lo_End l)"
    using l(3) by (simp add: locationInsideDiff_def Let_def)
  have proper: "list_all proper_range ?rs"
    using fits hunk_ranges_changes(1) [OF _ l(1,2)] by (auto simp: list_all_iff)
  have "(\<exists>r\<in>set ?rs. covers r x) \<longleftrightarrow> (\<exists>h\<in>set (indexed_hunks H a). changes_line h (lo_Side l) (lo_Path l) x)" for x
    using fits hunk_ranges_changes(2) [OF _ l(1,2)] by auto
  then show ?thesis unfolding hit rangeHit_normalized [OF proper l(4)] meets_iff [OF proper l(4)] by blast
qed

section \<open>Complete checks\<close>

lemma problem_Inr [simp]: "problem m = Inr u \<longleftrightarrow> m = Inr u"
  by (auto simp: problem_def split: sum.splits)

lemma plan_identity_problem_Inr [simp]: "plan_identity_problem m = Inr x \<longleftrightarrow> m = Inr x"
  by (auto simp: plan_identity_problem_def split: sum.splits)

lemma fresh_Inr [simp]: "fresh m = Inr u \<longleftrightarrow> m = Inr []"
  by (auto simp: fresh_def split: sum.splits)

text \<open>The recommendation that the findings leave open.\<close>

definition recommendation_follows :: "report \<Rightarrow> bool" where
  "recommendation_follows r \<longleftrightarrow> re_Recommendation r \<noteq> RecommendIncomplete \<and>
     (\<forall>f\<in>set (re_Findings r). fi_Verifier f \<noteq> DispositionUnverified \<and>
       (accepted SeverityCritical f \<longrightarrow> re_Recommendation r = RecommendRequestChanges) \<and>
       (accepted SeverityMajor f \<longrightarrow> re_Recommendation r \<noteq> RecommendApprove))"

lemma last_id_Nil:
  assumes "\<forall>f\<in>set fs. fi_ID f \<noteq> []"
  shows "last_id P fs = [] \<longleftrightarrow> (\<forall>f\<in>set fs. \<not> P f)"
proof (cases "rev (filter P fs)")
  case Nil
  then show ?thesis by (simp add: last_id_def filter_empty_conv)
next
  case (Cons f gs)
  then have "f \<in> set (filter P fs)" by (metis list.set_intros(1) set_rev)
  then show ?thesis using assms Cons by (auto simp: last_id_def)
qed

lemma Finding_validate_id: "Finding_validate f = Inr u \<Longrightarrow> fi_ID f \<noteq> []"
  unfolding Finding_validate_def Let_def allOf_append by simp

lemma validateReportShapeForCheck_Inr:
  assumes "validateReportShapeForCheck r = Inr u"
  shows "distinct (map fi_ID (re_Findings r))" "\<forall>f\<in>set (re_Findings r). Finding_validate f = Inr ()"
    "validRecommendation (re_Recommendation r)" "validReviewID (re_ReviewID r)"
  using assms by (auto simp: validateReportShapeForCheck_def report_header_checks_def findings_validate_Inr)

lemma validateRecommendationForCheck_Inr:
  assumes "\<forall>f\<in>set (re_Findings r). fi_ID f \<noteq> []"
  shows "validateRecommendationForCheck r = Inr u \<longleftrightarrow> recommendation_follows r"
  using last_id_Nil [OF assms]
  by (auto simp: validateRecommendationForCheck_def recommendation_follows_def Let_def)

text \<open>The steps that led to a complete verdict.\<close>

definition complete_steps ::
    "(bytes \<Rightarrow> digest) \<Rightarrow> 'c check_env \<Rightarrow> string \<Rightarrow> report \<Rightarrow> 'c plan_artifacts \<Rightarrow> bool" where
  "complete_steps H en reviewID r a \<longleftrightarrow>
     validReviewID reviewID \<and> ce_load en reviewID = Inr a \<and> check_steps H en reviewID r a = Inr ()"

lemma check_steps_Inr:
  assumes "check_steps H en reviewID r a = Inr u"
  shows "pn_ReviewID (art_Plan a) = reviewID" "re_ReviewID r = reviewID" "re_PlanDigest r = pn_PlanDigest (art_Plan a)"
    "re_Base r = sc_Base (pn_Scope (art_Plan a))" "re_Head r = sc_Head (pn_Scope (art_Plan a))"
    "verifyLoadedCheckArtifacts H a = Inr ()" "validateReportShapeForCheck r = Inr ()"
    "checkWorkspaceFreshness H en 0 a = Inr []" "checkWorkspaceFreshness H en 1 a = Inr []"
    "report_checks H (ce_read en) a r = Inr ()" "preflightArtifactBounds a = Inr ()"
  using assms by (auto simp: check_steps_def Let_def split: sum.splits)

lemma check_loaded_complete:
  "cr_Status (fst (check_loaded H en reviewID r a)) = CheckComplete \<Longrightarrow>
     check_steps H en reviewID r a = Inr () \<or>
     (\<exists>i. check_steps H en reviewID r a = Inl (Problem i) \<and> is_status i = CheckComplete)"
  by (auto simp: check_loaded_def Let_def nonComplete_def no_result_def split: sum.splits stop.splits)

section \<open>The status of an issue\<close>

text \<open>No check reports a problem with the status of a complete verdict.\<close>

definition issue_ok :: "check_issue \<Rightarrow> bool" where
  "issue_ok i \<longleftrightarrow> is_status i \<in> {CheckIncomplete, CheckInvalid, CheckStale}"

definition issues_ok :: "check_issue + 'a \<Rightarrow> bool" where
  "issues_ok m \<longleftrightarrow> (\<forall>i. m = Inl i \<longrightarrow> issue_ok i)"

lemma issue_ok_made [simp]: "issue_ok (invalid_issue reason format args)" "issue_ok (incomplete_issue reason format args)"
  "issue_ok (proofIssue key detail args)"
  by (simp_all add: issue_ok_def invalid_issue_def incomplete_issue_def proofIssue_def)

lemma issues_ok_simps [simp]: "issues_ok (Inr x)" "issues_ok (Inl i) \<longleftrightarrow> issue_ok i"
  "issues_ok (failIf bad i) \<longleftrightarrow> (bad \<longrightarrow> issue_ok i)"
  by (auto simp: issues_ok_def failIf_def)

lemma issues_ok_bindE [intro]: "issues_ok m \<Longrightarrow> (\<And>x. issues_ok (f x)) \<Longrightarrow> issues_ok (bindE m f)"
  by (cases m) (simp_all add: issues_ok_def)

lemma issues_ok_allE [intro]: "(\<And>x. issues_ok (f x)) \<Longrightarrow> issues_ok (allE f xs)"
  by (induction xs) (auto intro: issues_ok_bindE)

lemma issues_ok_foldE [intro]: "(\<And>s x. issues_ok (f s x)) \<Longrightarrow> issues_ok (foldE f s xs)"
  by (induction xs arbitrary: s) (auto intro: issues_ok_bindE)

lemma issues_ok_allOf [simp]: "issues_ok (allOf [])" "issues_ok m \<Longrightarrow> issues_ok (allOf ms) \<Longrightarrow> issues_ok (allOf (m # ms))"
  by (auto simp: allOf_def)

lemma issues_ok_citations [simp]: "issues_ok (validateCitationSet H read v label cs)"
  unfolding validateCitationSet_def check_citation_def validateCitationProof_def Let_def
  by (intro issues_ok_bindE issues_ok_foldE) (auto split: option.splits sum.splits intro!: issues_ok_bindE)

lemma issues_ok_locations: "issues_ok (check_location H read v f seen row)"
  unfolding check_location_def validateLocation_def location_proof_def Let_def
  by (auto split: sum.splits prod.splits intro!: issues_ok_bindE issues_ok_allE)

lemma issues_ok_findings [simp]: "issues_ok (validateFindings H read v fs)"
  unfolding validateFindings_def check_finding_def check_cause_def
  by (intro issues_ok_bindE issues_ok_foldE) (auto intro!: issues_ok_bindE issues_ok_foldE issues_ok_locations)

lemma issues_ok_acknowledged: "issues_ok (check_acknowledged reason owner item expected seen is)"
  by (induction "is" arbitrary: seen) auto

lemma issues_ok_finding_ids: "issues_ok (check_finding_ids owner fs seen is)"
  by (induction "is" arbitrary: seen) auto

lemma issues_ok_receipts: "issues_ok (index_receipts reason kind key known m rs)"
  by (induction rs arbitrary: m) auto

lemma issues_ok_exact: "issues_ok (exactAcknowledgement reason owner item expected acknowledged)"
  unfolding exactAcknowledgement_def
  by (intro issues_ok_bindE issues_ok_acknowledged) (simp split: list.splits)

lemma issues_ok_coverage [simp]: "issues_ok (validateStructuredCoverage H read v p r)"
  unfolding validateStructuredCoverage_def cover_unit_def cover_audit_def no_blocking_def validateReceiptFindingIDs_def Let_def
  by (intro issues_ok_bindE issues_ok_allE issues_ok_receipts)
    (auto split: option.splits intro!: issues_ok_allOf issues_ok_allE issues_ok_exact issues_ok_finding_ids)

lemma issues_ok_recommendation [simp]: "issues_ok (validateRecommendationForCheck r)"
  by (simp add: validateRecommendationForCheck_def Let_def)

lemma allOf_Inl: "allOf ms = Inl e \<Longrightarrow> Inl e \<in> set ms"
  by (auto simp: allOf_def dest: allE_eq_Inl)

lemma problem_Inl: "problem m = Inl (Problem i) \<longleftrightarrow> m = Inl i"
  by (auto simp: problem_def split: sum.splits)

lemma plan_identity_problem_Inl: "plan_identity_problem m = Inl (Problem i) \<Longrightarrow> issue_ok i"
  by (auto simp: plan_identity_problem_def split: sum.splits)

lemma report_checks_issue:
  assumes "report_checks H read a r = Inl (Problem i)"
  shows "issue_ok i"
proof (cases "newReportValidator H a")
  case (Inl e)
  with assms show ?thesis by (auto simp: report_checks_def plan_identity_problem_def)
next
  case (Inr v)
  then have "Inl (Problem i) \<in> set [problem (validateFindings H read v (re_Findings r)),
      if pn_Mode (art_Plan a) = ModeStructured then problem (validateStructuredCoverage H read v (art_Plan a) r) else Inr (),
      problem (validateRecommendationForCheck r)]"
    using assms by (intro allOf_Inl) (simp add: report_checks_def plan_identity_problem_def)
  then consider "validateFindings H read v (re_Findings r) = Inl i"
    | "validateStructuredCoverage H read v (art_Plan a) r = Inl i" | "validateRecommendationForCheck r = Inl i"
    by (auto simp: problem_Inl [THEN iffD1] eq_commute [of "Inl _"] split: if_splits)
  then show ?thesis
    using issues_ok_findings issues_ok_coverage issues_ok_recommendation unfolding issues_ok_def by cases blast+
qed

lemma fresh_issue: "fresh m = Inl (Problem i) \<Longrightarrow> issue_ok i"
  by (auto simp: fresh_def issue_ok_def split: sum.splits)

lemma shape_issue:
  "problem (case m of Inl e \<Rightarrow> Inl (invalid_issue reason format (args e)) | Inr _ \<Rightarrow> Inr ()) = Inl (Problem i) \<Longrightarrow> issue_ok i"
  by (cases m) (auto simp: problem_def)

lemma check_steps_issue:
  assumes "check_steps H en reviewID r a = Inl (Problem i)"
  shows "issue_ok i"
proof -
  note allOf_Inl [OF assms [unfolded check_steps_def Let_def], unfolded list.set insert_iff empty_iff]
  then show ?thesis
    by - (elim disjE FalseE; drule sym; auto dest: plan_identity_problem_Inl fresh_issue shape_issue report_checks_issue
      simp: issue_ok_def invalid_issue_def)
qed

section \<open>The hunks of a unit\<close>

text \<open>
  The validator reads the hunks of a unit from the persisted identity, under the public name that
  stands there.  These names are not hashed; they are truthful if each is the one of its digest.
\<close>

definition truthful :: "'c plan_artifacts \<Rightarrow> bool" where
  "truthful a \<longleftrightarrow> (\<forall>e\<in>set (pi_Units (art_PlanIdentity a)).
       Public (pue_UnitID e) = Public (public_id UnitIDPrefixV1 (Full (pue_UnitID e)) PublicIDContentBytesV1)) \<and>
     distinct (map ru_UnitID (pn_PrimaryUnits (art_Plan a)))"

lemma truthful_unit:
  assumes b: "bound H a" and t: "truthful a"
    and z: "(e, u) \<in> set (zip (pi_Units (art_PlanIdentity a)) (pn_PrimaryUnits (art_Plan a)))"
  shows "Public (pue_UnitID e) = ru_UnitID u" "map Public (pue_HunkIDs e) = map uh_HunkID (ru_Hunks u)"
proof -
  have ok: "bind_unit H (art_IDRecords a) (pi_ScopeDigest (art_PlanIdentity a)) (e, u) = Inr ()"
    using bound_units(2) [OF b] z by blast
  have "ru_UnitID u = Public (public_id UnitIDPrefixV1 (Full (pue_UnitID e)) 16)"
    using z by (intro wantFull_public [OF bound_uses [OF b] unit_use bind_unit_Inr(1) [OF ok]]) (auto dest: set_zip_rightD)
  then show "Public (pue_UnitID e) = ru_UnitID u"
    using t z by (auto simp: truthful_def dest: set_zip_leftD)
  show "map Public (pue_HunkIDs e) = map uh_HunkID (ru_Hunks u)"
  proof (rule nth_equalityI)
    show len: "length (map Public (pue_HunkIDs e)) = length (map uh_HunkID (ru_Hunks u))"
      using bind_unit_Inr(2) [OF ok] by simp
    fix i assume "i < length (map Public (pue_HunkIDs e))"
    then have i: "i < length (pue_HunkIDs e)" "i < length (ru_Hunks u)" using len by simp_all
    then have "(pue_HunkIDs e ! i, ru_Hunks u ! i) \<in> set (zip (pue_HunkIDs e) (ru_Hunks u))" by (auto simp: set_zip)
    from bind_unit_Inr(3) [OF ok this] bind_unit_hunk_Inr
    show "map Public (pue_HunkIDs e) ! i = map uh_HunkID (ru_Hunks u) ! i" using i by fastforce
  qed
qed

lemma unit_identity_truthful:
  assumes b: "bound H a" and t: "truthful a" and u: "u \<in> set (pn_PrimaryUnits (art_Plan a))"
  shows "map Public (unit_identity (art_PlanIdentity a) (ru_UnitID u)) = map uh_HunkID (ru_Hunks u)"
proof -
  let ?es = "pi_Units (art_PlanIdentity a)" and ?us = "pn_PrimaryUnits (art_Plan a)"
  have len: "length ?us = length ?es" by (rule bound_units(1) [OF b])
  have "map (\<lambda>e. Public (pue_UnitID e)) ?es = map ru_UnitID ?us"
  proof (rule nth_equalityI)
    fix i assume "i < length (map (\<lambda>e. Public (pue_UnitID e)) ?es)"
    then have "i < length ?es" "i < length ?us" using len by simp_all
    moreover from this have "(?es ! i, ?us ! i) \<in> set (zip ?es ?us)" by (auto simp: set_zip)
    ultimately show "map (\<lambda>e. Public (pue_UnitID e)) ?es ! i = map ru_UnitID ?us ! i"
      using truthful_unit(1) [OF b t] by simp
  qed (simp add: len)
  then have d: "distinct (map fst (rev (map (\<lambda>e. (Public (pue_UnitID e), pue_HunkIDs e)) ?es)))"
    using t by (simp add: truthful_def comp_def rev_map [symmetric])
  obtain i where i: "i < length ?us" "u = ?us ! i" using u by (auto simp: in_set_conv_nth)
  then have z: "(?es ! i, u) \<in> set (zip ?es ?us)" using len by (auto simp: set_zip)
  have "(ru_UnitID u, pue_HunkIDs (?es ! i)) \<in> set (rev (map (\<lambda>e. (Public (pue_UnitID e), pue_HunkIDs e)) ?es))"
    unfolding set_rev set_map by (rule image_eqI [of _ _ "?es ! i"]) (use truthful_unit(1) [OF b t z] i len in auto)
  then have "unit_identity (art_PlanIdentity a) (ru_UnitID u) = pue_HunkIDs (?es ! i)"
    by (simp add: unit_identity_def map_of_is_SomeI [OF d])
  then show ?thesis using truthful_unit(2) [OF b t z] by simp
qed

lemma verified_bound:
  assumes "verifyLoadedCheckArtifacts H a = Inr u"
  shows "bound H a" "Plan_validate (art_Plan a) = Inr ()" "validatePlanAuditManifest (art_Plan a) = Inr ()"
    "pn_PlanDigest (art_Plan a) = hash_hex H (ReviewPlanIdentityV1 (art_PlanIdentity a))"
proof -
  obtain reg where "addPlanToRegistry Map.empty H (art_Plan a) (art_Citations a) (map fst (art_UnitCandidates a))
      (map fst (art_MandatoryUnits a)) (art_IDRecords a) (H (ReviewPlanIdentityV1 (art_PlanIdentity a))) = Inr reg"
    using assms by (auto simp: verifyLoadedCheckArtifacts_def Let_def)
  from addPlanToRegistry_Inr [OF this] show "bound H a"
    using assms by (simp add: verifyLoadedCheckArtifacts_def Let_def verifyArtifactIntegrity_def bound_def)
qed (use assms in \<open>auto simp: verifyLoadedCheckArtifacts_def Let_def\<close>)

lemma check_audits_Inr:
  "check_audits seen as = Inr u \<Longrightarrow> distinct (map pa_AuditID as) \<and> set (map pa_AuditID as) \<inter> set seen = {}"
proof (induction as arbitrary: seen)
  case (Cons a as)
  then have "pa_AuditID a \<notin> set seen" "check_audits (pa_AuditID a # seen) as = Inr u" by (auto split: if_splits)
  with Cons.IH [OF this(2)] show ?case by auto
qed simp

lemma expected_audits_of:
  assumes "validatePlanAuditManifest p = Inr u" "pn_Mode p = ModeStructured" "x \<in> set (pn_RequiredAudits p)"
  shows "expected_audits p (pa_AuditID x) = Some (set (pa_TargetIDs x))"
proof -
  have "distinct (map pa_AuditID (pn_RequiredAudits p))"
    using assms(1,2) check_audits_Inr by (auto simp: validatePlanAuditManifest_def)
  then have d: "distinct (map fst (rev (map (\<lambda>a. (pa_AuditID a, set (pa_TargetIDs a))) (pn_RequiredAudits p))))"
    by (simp add: comp_def rev_map [symmetric])
  show ?thesis unfolding expected_audits_def map_of_eq_Some_iff [OF d] using assms(3) by auto
qed

section \<open>Findings\<close>

definition finding_supported :: "report_validator \<Rightarrow> finding \<Rightarrow> bool" where
  "finding_supported v f \<longleftrightarrow> fi_Citations f \<noteq> [] \<and> fi_VerifierEvidence f \<noteq> [] \<and>
     (\<forall>c\<in>set (fi_Causes f). validCause v c) \<and>
     (\<forall>c\<in>set (fi_Citations f) \<union> set (fi_VerifierEvidence f). lookupCitationProof v c \<noteq> None) \<and>
     (\<forall>l\<in>set (fi_Locations f). locationInsideDiff v l \<or>
        (\<forall>c\<in>set (fi_Causes f). citationsSupportCause v c (fi_Citations f)))"

lemma foldE_each:
  assumes "foldE f s xs = Inr t" "x \<in> set xs"
  shows "\<exists>s t. f s x = Inr t"
  using assms by (induction xs arbitrary: s) auto

lemma validateCitationSet_Inr:
  assumes "validateCitationSet H read v label cs = Inr u" "c \<in> set cs"
  shows "lookupCitationProof v c \<noteq> None"
proof -
  obtain t where "foldE (check_citation H read v label) [] cs = Inr t"
    using assms(1) by (auto simp: validateCitationSet_def)
  from foldE_each [OF this assms(2)] obtain s t where "check_citation H read v label s c = Inr t" by blast
  then show ?thesis by (auto simp: check_citation_def Let_def split: if_splits option.splits)
qed

lemma check_finding_Inr:
  assumes "check_finding H read v seen f = Inr seen'"
  shows "finding_supported v f"
proof -
  have ne: "fi_Citations f \<noteq> []" "fi_VerifierEvidence f \<noteq> []"
    using assms by (auto simp: check_finding_def split: if_splits)
  obtain t where causes: "foldE (check_cause v (fi_ID f)) [] (fi_Causes f) = Inr t"
    and cs: "validateCitationSet H read v (''finding '' @ fi_ID f @ '' supporting'') (fi_Citations f) = Inr ()"
    and vs: "validateCitationSet H read v (''finding '' @ fi_ID f @ '' verifier'') (fi_VerifierEvidence f) = Inr ()"
    and ls: "foldE (check_location H read v f) seen (enumerate 0 (fi_Locations f)) = Inr seen'"
    using assms ne by (auto simp: check_finding_def)
  have "validCause v c" if "c \<in> set (fi_Causes f)" for c
    using foldE_each [OF causes that] by (auto simp: check_cause_def split: if_splits)
  moreover have "locationInsideDiff v l \<or> (\<forall>c\<in>set (fi_Causes f). citationsSupportCause v c (fi_Citations f))"
    if l: "l \<in> set (fi_Locations f)" for l
  proof -
    obtain i where "(i, l) \<in> set (enumerate 0 (fi_Locations f))" using enumerated [OF l] by blast
    from foldE_each [OF ls this] obtain s t where "check_location H read v f s (i, l) = Inr t" by blast
    then show ?thesis
      by (auto simp: check_location_def validateLocation_def split: if_splits sum.splits)
  qed
  ultimately show ?thesis
    using ne validateCitationSet_Inr [OF cs] validateCitationSet_Inr [OF vs] unfolding finding_supported_def by blast
qed

lemma validateFindings_Inr:
  assumes "validateFindings H read v fs = Inr u" "f \<in> set fs"
  shows "finding_supported v f"
proof -
  obtain t where "foldE (check_finding H read v) [] fs = Inr t" using assms(1) by (auto simp: validateFindings_def)
  from foldE_each [OF this assms(2)] show ?thesis using check_finding_Inr by blast
qed

end
