(* ===== verification/Demo.thy ===== *)
theory Demo
  imports Verdict
begin

text \<open>
  A plan with everything a structured plan has (a path, a hunk, a unit, a cohort, a layer, four
  audits), persisted as the code persists it and reviewed by a complete report, for an arbitrary hash
  function.  It shows that the hypotheses of the theorems about checks can hold.
\<close>

section \<open>Identities\<close>

definition demo_digest :: "(bytes \<Rightarrow> digest) \<Rightarrow> digest" where
  "demo_digest H = ScopeDigest H (sc_ObjectFormat sample_scope) (sc_Base sample_scope) (sc_Head sample_scope)
     (sc_Kind sample_scope) (H (FrameList [record_frame H sample_record]))"

definition demo_path :: "(bytes \<Rightarrow> digest) \<Rightarrow> stable_id" where
  "demo_path H = PathID H (demo_digest H) sample_record"
definition demo_hunk :: "(bytes \<Rightarrow> digest) \<Rightarrow> stable_id" where
  "demo_hunk H = HunkID H (demo_digest H) (Full (demo_path H)) sample_hunk"
definition demo_unit :: "(bytes \<Rightarrow> digest) \<Rightarrow> stable_id" where
  "demo_unit H = UnitID H ''hunks'' [demo_hunk H]"
definition demo_cohort :: "(bytes \<Rightarrow> digest) \<Rightarrow> stable_id" where
  "demo_cohort H = CohortID H (demo_digest H) ''x'' [demo_unit H]"
definition demo_layer :: "(bytes \<Rightarrow> digest) \<Rightarrow> stable_id" where
  "demo_layer H = LayerID H (demo_cohort H) 0 [demo_unit H]"

definition demo_audit_targets :: "(bytes \<Rightarrow> digest) \<Rightarrow> (string \<times> stable_id list) list" where
  "demo_audit_targets H = zip RequiredAuditsV1 [[demo_hunk H], [demo_path H], [demo_unit H, demo_hunk H], [demo_cohort H]]"

definition demo_identity :: "(bytes \<Rightarrow> digest) \<Rightarrow> plan_identity" where
  "demo_identity H = \<lparr>pi_PlannerVersion = ''v1'', pi_ScopeDigest = demo_digest H, pi_IndexSchema = [],
     pi_IndexVersion = [], pi_HeadIndexSignature = [],
     pi_Paths = [\<lparr>ppe_PathID = demo_path H, ppe_ReviewClass = ''full'', ppe_Coverage = ''full'', ppe_Reason = [], ppe_RoleIDs = []\<rparr>],
     pi_Hunks = [\<lparr>phe_HunkID = demo_hunk H, phe_Reviewability = ''full'', phe_Reason = []\<rparr>],
     pi_Units = [\<lparr>pue_UnitID = demo_unit H, pue_Kind = ''hunks'', pue_HunkIDs = [demo_hunk H], pue_AttentionSignalIDs = []\<rparr>],
     pi_Cohorts = [\<lparr>pce_CohortID = demo_cohort H, pce_LayerID = demo_layer H, pce_UnitIDs = [demo_unit H]\<rparr>],
     pi_Audits = map (\<lambda>(aid, ts). \<lparr>pae_AuditID = aid, pae_TargetIDs = ts\<rparr>) (demo_audit_targets H),
     pi_TrustedEvidence = [], pi_UntrustedEvidence = [],
     pi_Constants = \<lparr>pc_StructuredThreshold = 200, pc_UnitLineCap = 400, pc_MandatoryJSONCap = 65536,
       pc_TextClassifierVersion = [], pc_ContextRankerVersion = []\<rparr>\<rparr>"

definition demo_review_id :: "(bytes \<Rightarrow> digest) \<Rightarrow> string" where
  "demo_review_id H = ''rvw_'' @ hex_encode (take 20 (digest_bytes (H (ReviewPlanIdentityV1 (demo_identity H)))))"

section \<open>The plan\<close>

definition demo_review_unit :: "(bytes \<Rightarrow> digest) \<Rightarrow> review_unit" where
  "demo_review_unit H = \<lparr>ru_Schema = UnitSchemaV1, ru_ReviewID = demo_review_id H, ru_UnitID = Public (demo_unit H),
     ru_CohortID = Public (demo_cohort H), ru_LayerID = Public (demo_layer H), ru_ScopeKind = sc_Kind sample_scope,
     ru_ObjectFormat = sc_ObjectFormat sample_scope, ru_Base = sc_Base sample_scope, ru_Head = sc_Head sample_scope,
     ru_Hunks = [\<lparr>uh_HunkID = Public (demo_hunk H), uh_PathID = Public (demo_path H), uh_OldPath = [], uh_NewPath = ''x'',
       uh_Status = ''A'', uh_Ordinal = 0, uh_OldStart = 1, uh_OldCount = 0, uh_NewStart = 1, uh_NewCount = 1,
       uh_NoFinalNewlineOld = False, uh_NoFinalNewlineNew = False, uh_PatchBase64 = b64_encode ''+a''\<rparr>]\<rparr>"

definition demo_plan :: "(bytes \<Rightarrow> digest) \<Rightarrow> plan" where
  "demo_plan H = \<lparr>pn_Schema = PlanSchemaV1, pn_ReviewID = demo_review_id H,
     pn_PlanDigest = hash_hex H (ReviewPlanIdentityV1 (demo_identity H)), pn_Mode = ModeStructured, pn_StructuredRequired = True,
     pn_Scope = sample_scope,
     pn_Stats = \<lparr>ps_RawAdditions = 1, ps_RawDeletions = 0, ps_RawChurn = 1, ps_ReviewableChurn = 1, ps_ChangedPaths = 1\<rparr>,
     pn_ChangedPaths = [\<lparr>pp_PathID = Public (demo_path H), pp_OldPath = [], pp_NewPath = ''x'', pp_Status = ''A'',
       pp_ReviewClass = ''full'', pp_Coverage = ''full'', pp_Roles = [], pp_Reason = []\<rparr>],
     pn_AttentionSignals = [],
     pn_Cohorts = [\<lparr>pc_CohortID = Public (demo_cohort H), pc_Label = ''x'',
       pc_Layers = [\<lparr>pl_LayerID = Public (demo_layer H), pl_Ordinal = 0, pl_UnitIDs = [Public (demo_unit H)]\<rparr>],
       pc_UnitIDs = [Public (demo_unit H)]\<rparr>],
     pn_PrimaryUnits = [demo_review_unit H],
     pn_RequiredAudits = map (\<lambda>(aid, ts). \<lparr>pa_AuditID = aid, pa_TargetIDs = map Public ts\<rparr>) (demo_audit_targets H),
     pn_NextCommands = [\<lparr>nc_Label = ''n'', nc_Command = ''c''\<rparr>]\<rparr>"

definition demo_record :: "string \<Rightarrow> stable_id \<Rightarrow> field list \<Rightarrow> id_record" where
  "demo_record kind i fs = \<lparr>ir_Kind = kind, ir_Public = Public i, ir_Full = Full i, ir_Canonical = frame fs\<rparr>"

definition demo_records :: "(bytes \<Rightarrow> digest) \<Rightarrow> id_record list" where
  "demo_records H = [
     demo_record PathIDPrefixV1 (demo_path H) (PathID_fields H (demo_digest H) sample_record),
     demo_record HunkIDPrefixV1 (demo_hunk H) (HunkID_fields H (demo_digest H) (Full (demo_path H)) sample_hunk),
     demo_record UnitIDPrefixV1 (demo_unit H) (UnitID_fields ''hunks'' [demo_hunk H]),
     demo_record CohortIDPrefixV1 (demo_cohort H) (CohortID_fields (demo_digest H) ''x'' [demo_unit H]),
     demo_record LayerIDPrefixV1 (demo_layer H) (LayerID_fields (demo_cohort H) 0 [demo_unit H])]"

definition demo_artifacts :: "(bytes \<Rightarrow> digest) \<Rightarrow> unit plan_artifacts" where
  "demo_artifacts H = \<lparr>art_Plan = demo_plan H, art_UnitCandidates = [(Public (demo_unit H), [])],
     art_MandatoryUnits = [(Public (demo_unit H), CanonicalMandatoryJSON (demo_review_unit H))],
     art_Citations = map (\<lambda>i. (Public i, \<lparr>cpr_ID = Public i, cpr_Side = ''head'', cpr_Path = ''x'',
       cpr_ContentHash = hash_hex H ''+a'', cpr_Start = 1, cpr_End = 1\<rparr>)) [demo_path H, demo_hunk H],
     art_PublishedIndexSignature = [], art_PlanIdentityBytes = ReviewPlanIdentityV1 (demo_identity H),
     art_PlanIdentity = demo_identity H, art_IDRecords = demo_records H,
     art_WorkspaceFingerprint = [], art_WorkspaceCaptureFingerprint = []\<rparr>"

section \<open>The artifacts are accepted\<close>

lemma demo_public:
  "Public (demo_path H) = ''p_'' @ hex_encode (take 16 (digest_bytes (Full (demo_path H))))"
  "Public (demo_hunk H) = ''h_'' @ hex_encode (take 16 (digest_bytes (Full (demo_hunk H))))"
  "Public (demo_unit H) = ''u_'' @ hex_encode (take 16 (digest_bytes (Full (demo_unit H))))"
  "Public (demo_cohort H) = ''c_'' @ hex_encode (take 16 (digest_bytes (Full (demo_cohort H))))"
  "Public (demo_layer H) = ''l_'' @ hex_encode (take 16 (digest_bytes (Full (demo_layer H))))"
  by (simp_all add: demo_path_def demo_hunk_def demo_unit_def demo_cohort_def demo_layer_def
      PathID_def HunkID_def UnitID_def CohortID_def LayerID_def)

lemma demo_full:
  "H (frame (PathID_fields H (demo_digest H) sample_record)) = Full (demo_path H)"
  "H (frame (HunkID_fields H (demo_digest H) (Full (demo_path H)) sample_hunk)) = Full (demo_hunk H)"
  "H (frame (UnitID_fields ''hunks'' [demo_hunk H])) = Full (demo_unit H)"
  "H (frame (CohortID_fields (demo_digest H) ''x'' [demo_unit H])) = Full (demo_cohort H)"
  "H (frame (LayerID_fields (demo_cohort H) 0 [demo_unit H])) = Full (demo_layer H)"
  by (simp_all add: demo_path_def demo_hunk_def demo_unit_def demo_cohort_def demo_layer_def
      PathID_def HunkID_def UnitID_def CohortID_def LayerID_def)

lemma demo_distinct [simp]:
  "Public (demo_path H) \<noteq> Public (demo_hunk H)" "Public (demo_path H) \<noteq> Public (demo_unit H)"
  "Public (demo_path H) \<noteq> Public (demo_cohort H)" "Public (demo_path H) \<noteq> Public (demo_layer H)"
  "Public (demo_hunk H) \<noteq> Public (demo_unit H)" "Public (demo_hunk H) \<noteq> Public (demo_cohort H)"
  "Public (demo_hunk H) \<noteq> Public (demo_layer H)" "Public (demo_unit H) \<noteq> Public (demo_cohort H)"
  "Public (demo_unit H) \<noteq> Public (demo_layer H)" "Public (demo_cohort H) \<noteq> Public (demo_layer H)"
  by (simp_all add: demo_public)

lemmas demo_different [simp] = demo_distinct [symmetric]

lemma demo_kinds [simp]:
  "contentKindOf (Public (demo_path H)) = Some PathIDPrefixV1" "contentKindOf (Public (demo_hunk H)) = Some HunkIDPrefixV1"
  "contentKindOf (Public (demo_unit H)) = Some UnitIDPrefixV1" "contentKindOf (Public (demo_cohort H)) = Some CohortIDPrefixV1"
  "contentKindOf (Public (demo_layer H)) = Some LayerIDPrefixV1"
proof -
  have k: "k \<in> set contentIDKinds \<Longrightarrow> contentKindOf (k @ hex_encode (take 16 (digest_bytes d))) = Some k" for k d
    using contentKindOf_public [of k d] by simp
  show "contentKindOf (Public (demo_path H)) = Some PathIDPrefixV1" "contentKindOf (Public (demo_hunk H)) = Some HunkIDPrefixV1"
    "contentKindOf (Public (demo_unit H)) = Some UnitIDPrefixV1" "contentKindOf (Public (demo_cohort H)) = Some CohortIDPrefixV1"
    "contentKindOf (Public (demo_layer H)) = Some LayerIDPrefixV1"
    unfolding demo_public by (subst k; simp add: contentIDKinds_def)+
qed

lemma demo_records_index [simp]:
  "record_index (demo_records H) (Public (demo_path H)) =
     Some (demo_record PathIDPrefixV1 (demo_path H) (PathID_fields H (demo_digest H) sample_record))"
  "record_index (demo_records H) (Public (demo_hunk H)) =
     Some (demo_record HunkIDPrefixV1 (demo_hunk H) (HunkID_fields H (demo_digest H) (Full (demo_path H)) sample_hunk))"
  "record_index (demo_records H) (Public (demo_unit H)) =
     Some (demo_record UnitIDPrefixV1 (demo_unit H) (UnitID_fields ''hunks'' [demo_hunk H]))"
  "record_index (demo_records H) (Public (demo_cohort H)) =
     Some (demo_record CohortIDPrefixV1 (demo_cohort H) (CohortID_fields (demo_digest H) ''x'' [demo_unit H]))"
  "record_index (demo_records H) (Public (demo_layer H)) =
     Some (demo_record LayerIDPrefixV1 (demo_layer H) (LayerID_fields (demo_cohort H) 0 [demo_unit H]))"
  by (simp_all add: record_index_def demo_records_def demo_record_def)

lemma demo_wanted [simp]:
  "wantFull (demo_records H) (demo_path H) (Public (demo_path H)) = Inr ()"
  "wantFull (demo_records H) (demo_hunk H) (Public (demo_hunk H)) = Inr ()"
  "wantFull (demo_records H) (demo_unit H) (Public (demo_unit H)) = Inr ()"
  "wantFull (demo_records H) (demo_cohort H) (Public (demo_cohort H)) = Inr ()"
  "wantFull (demo_records H) (demo_layer H) (Public (demo_layer H)) = Inr ()"
  by (simp_all add: wantFull_def fullOf_def demo_record_def)

lemma demo_small:
  "list_all field_ok (PathID_fields H s sample_record)" "list_all field_ok (record_fields H sample_record)"
  "list_all field_ok (HunkID_fields H s p sample_hunk)" "list_all field_ok (hunk_fields H sample_hunk)"
proof -
  have r: "length (record_frame H sample_record) = 648" and h: "length (hunk_frame H sample_hunk) = 270"
    using sample_lengths [where w = "''x''"] sample_lengths [where w = "''+a''"] sample_updates by simp_all
  have "length (frame (PathID_fields H s sample_record)) < 2 ^ 64" "length (frame (HunkID_fields H s p sample_hunk)) < 2 ^ 64"
    by (simp_all add: PathID_fields_def HunkID_fields_def codec_simps r h u64_bytes_def)
  then show "list_all field_ok (PathID_fields H s sample_record)" "list_all field_ok (record_fields H sample_record)"
    "list_all field_ok (HunkID_fields H s p sample_hunk)" "list_all field_ok (hunk_fields H sample_hunk)"
    using r h by (auto intro!: frame_small_ok id_fields_ok record_fields_ok hunk_fields_ok simp: record_frame_def hunk_frame_def)
qed

lemma demo_decoded:
  "decodeFramedFields (frame (PathID_fields H s sample_record)) = Inr (map_of (rev (PathID_fields H s sample_record)))"
  "decodeFramedFields (record_frame H sample_record) = Inr (map_of (rev (record_fields H sample_record)))"
  "decodeFramedFields (frame (HunkID_fields H s p sample_hunk)) = Inr (map_of (rev (HunkID_fields H s p sample_hunk)))"
  "decodeFramedFields (hunk_frame H sample_hunk) = Inr (map_of (rev (hunk_fields H sample_hunk)))"
  unfolding record_frame_def hunk_frame_def by (rule decodeFramedFields_frame demo_small)+

lemma demo_verified_records:
  "verifyRecords H (demo_records H) = Inr (map (\<lambda>i. (Public i, Full i)) [demo_path H, demo_hunk H, demo_unit H, demo_cohort H, demo_layer H])"
  by (simp add: verifyRecords_def demo_records_def verify_record_def demo_record_def contentIDKinds_def demo_full)
    (simp add: demo_public)

lemma demo_registered:
  "\<exists>reg. addPlanToRegistry Map.empty H (demo_plan H) (art_Citations (demo_artifacts H)) [Public (demo_unit H)]
     [Public (demo_unit H)] (demo_records H) d = Inr reg"
proof -
  let ?ids = "[demo_path H, demo_hunk H, demo_unit H, demo_cohort H, demo_layer H]"
  obtain ids where ids: "collectPlanIDs (demo_plan H) (art_Citations (demo_artifacts H)) [Public (demo_unit H)]
      [Public (demo_unit H)] = Inr ids" "set ids = set (map Public ?ids)"
  proof -
    have "collectPlanIDs (demo_plan H) (art_Citations (demo_artifacts H)) [Public (demo_unit H)] [Public (demo_unit H)] =
      Inr (remdups (map fst (plan_uses (demo_plan H) (art_Citations (demo_artifacts H)) [Public (demo_unit H)] [Public (demo_unit H)])))"
      by (simp add: collectPlanIDs_def plan_uses_def demo_plan_def demo_review_unit_def demo_artifacts_def
          demo_audit_targets_def RequiredAuditsV1_def use_ok_def audit_target_kinds_def)
    moreover have "set (map fst (plan_uses (demo_plan H) (art_Citations (demo_artifacts H)) [Public (demo_unit H)] [Public (demo_unit H)]))
      = set (map Public ?ids)"
      by (auto simp add: plan_uses_def demo_plan_def demo_review_unit_def demo_artifacts_def
          demo_audit_targets_def RequiredAuditsV1_def)
    ultimately show ?thesis using that by simp
  qed
  have "demo_review_id H \<noteq> Public (demo_path H)" "demo_review_id H \<noteq> Public (demo_hunk H)" "demo_review_id H \<noteq> Public (demo_unit H)"
    "demo_review_id H \<noteq> Public (demo_cohort H)" "demo_review_id H \<noteq> Public (demo_layer H)"
    by (simp_all add: demo_review_id_def demo_public)
  then have reg: "\<exists>reg. foldE registerID (Map.empty(demo_review_id H \<mapsto> d)) (map (\<lambda>i. (Public i, Full i)) ?ids) = Inr reg"
    by (simp add: registerID_def)
  have names: "map fst (map (\<lambda>i. (Public i, Full i)) ?ids) = map Public ?ids" by simp
  have start: "registerID Map.empty (pn_ReviewID (demo_plan H), d) = Inr (Map.empty(demo_review_id H \<mapsto> d))"
    by (simp add: registerID_def demo_plan_def)
  have known: "allE (\<lambda>i. failIf (i \<notin> set (map fst (map (\<lambda>i. (Public i, Full i)) ?ids)))
      (wrapped ErrIDRegistry ''plan references %s with no identity record'' [AStr i])) ids = Inr ()"
    "allE (\<lambda>i. failIf (i \<notin> set ids) (wrapped ErrIDRegistry ''identity record %s is not referenced by the plan'' [AStr i]))
      (map fst (map (\<lambda>i. (Public i, Full i)) ?ids)) = Inr ()"
    unfolding names by (simp_all only: allE_eq_Inr failIf_eq_Inr ids(2)) blast+
  show ?thesis
    unfolding addPlanToRegistry_def demo_verified_records ids(1) bindE_simps known start using reg .
qed

lemma demo_bound_path:
  "bind_path (demo_records H) (demo_digest H) (pi_Paths (demo_identity H) ! 0, pn_ChangedPaths (demo_plan H) ! 0) =
     Inr ((''x'', [], ''A''), record_frame H sample_record)"
  by (simp add: bind_path_def demo_identity_def demo_plan_def canonicalOf_def demo_record_def demo_decoded)
    (simp add: fieldOf_def PathID_fields_def record_fields_def sample_record_def demo_decoded [unfolded sample_record_def])

lemma demo_bound_hunk:
  "bind_unit_hunk H (demo_records H) (demo_digest H) i j (demo_hunk H, ru_Hunks (demo_review_unit H) ! 0) = Inr ()"
proof -
  let ?h = "ru_Hunks (demo_review_unit H) ! 0"
  have h: "uh_PathID ?h = Public (demo_path H)" "uh_PatchBase64 ?h = b64_encode ''+a''" "uh_HunkID ?h = Public (demo_hunk H)"
    "raw_of_unit_hunk ?h ''+a'' = sample_hunk"
    by (simp_all add: raw_of_unit_hunk_def demo_review_unit_def sample_hunk_def)
  have "HunkID H (demo_digest H) (Full (demo_path H)) sample_hunk = demo_hunk H" by (simp add: demo_hunk_def)
  moreover have "fullOf (demo_records H) (Public (demo_path H)) = Inr (Full (demo_path H))"
    by (simp add: fullOf_def demo_record_def)
  ultimately show ?thesis
    by (simp add: bind_unit_hunk_def h del: b64_encode.simps)
qed

lemma demo_embedded: "set (embedded_digests (demo_identity H)) = set (map ir_Full (demo_records H))"
  by (auto simp: embedded_digests_def demo_identity_def demo_records_def demo_record_def demo_audit_targets_def RequiredAuditsV1_def)

lemma demo_bound: "verifyIdentityBinding H (demo_plan H) (demo_records H) (demo_identity H) (ReviewPlanIdentityV1 (demo_identity H)) = Inr ()"
proof -
  have scope: "rowsScopeDigest H (pn_Scope (demo_plan H)) [((''x'', [], ''A''), record_frame H sample_record)] = demo_digest H"
    by (simp add: rowsScopeDigest_def demo_plan_def demo_digest_def)
  have paths: "mapE (bind_path (demo_records H) (pi_ScopeDigest (demo_identity H))) (zip (pi_Paths (demo_identity H)) (pn_ChangedPaths (demo_plan H)))
      = Inr [((''x'', [], ''A''), record_frame H sample_record)]"
    using demo_bound_path [of H] by (simp add: demo_identity_def demo_plan_def)
  have units: "allE (bind_unit H (demo_records H) (pi_ScopeDigest (demo_identity H)))
      (zip (pi_Units (demo_identity H)) (pn_PrimaryUnits (demo_plan H))) = Inr ()"
    using demo_bound_hunk [of H] by (simp add: demo_identity_def demo_plan_def bind_unit_def demo_review_unit_def)
  have cohorts: "bind_cohorts (demo_plan H) (demo_records H) (demo_identity H) = Inr ()"
    by (simp add: bind_cohorts_def demo_plan_def demo_identity_def flat_cohorts_def same_count_def bind_cohort_row_def)
  have audits: "allE (bind_audit (demo_records H)) (enumerate 0 (zip (pi_Audits (demo_identity H)) (pn_RequiredAudits (demo_plan H)))) = Inr ()"
    by (simp add: demo_identity_def demo_plan_def demo_audit_targets_def RequiredAuditsV1_def bind_audit_def)
  have digests: "bind_digests (demo_records H) (demo_identity H) = Inr ()"
    using demo_embedded [of H] by (simp add: bind_digests_def length_remdups_card_conv allE_eq_Inr)
  show ?thesis
    by (simp add: verifyIdentityBinding_def paths units cohorts audits digests same_count_def scope)
      (simp add: demo_identity_def demo_plan_def scope [unfolded demo_plan_def, simplified])
qed

lemma demo_valid: "Plan_validate (demo_plan H) = Inr ()"
proof -
  have r: "validReviewID (demo_review_id H)"
    by (simp add: validReviewID_def demo_review_id_def)
  have u: "Unit_validate (demo_review_unit H) = Inr ()"
    using sample_scope_valid
    by (simp add: Unit_validate_def demo_review_unit_def unit_hunk_validate_def scope_validate_def r demo_public
        sample_scope_def validateScopeSides_Inr)
  show ?thesis
    using r u sample_scope_valid
    by (simp add: Plan_validate_def demo_plan_def PlanPath_validate_def validReviewClass_def validPathCoverage_def
        hash_hex_def isCanonicalDigestHex_def demo_public PlanCohort_validate_def demo_audit_targets_def
        RequiredAuditsV1_def validAuditID_def)
qed

lemma demo_integrity:
  "verifyArtifactIntegrity H (demo_plan H) (demo_records H) (demo_identity H) (ReviewPlanIdentityV1 (demo_identity H)) []
     [(Public (demo_unit H), CanonicalMandatoryJSON (demo_review_unit H))] = Inr ()"
proof -
  have "validateMandatoryUnits (demo_plan H) [(Public (demo_unit H), CanonicalMandatoryJSON (demo_review_unit H))] = Inr ()"
    by (simp add: validateMandatoryUnits_def check_mandatory_def primary_index_def demo_plan_def)
      (simp add: demo_review_unit_def)
  then show ?thesis using demo_bound [of H] by (simp add: verifyArtifactIntegrity_def) (simp add: demo_identity_def)
qed

lemma demo_accepted: "verifyLoadedCheckArtifacts H (demo_artifacts H) = Inr ()"
proof -
  have audits: "validatePlanAuditManifest (demo_plan H) = Inr ()"
    by (simp add: validatePlanAuditManifest_def demo_plan_def demo_audit_targets_def RequiredAuditsV1_def)
  have ids: "pn_PlanDigest (demo_plan H) = hash_hex H (ReviewPlanIdentityV1 (demo_identity H))"
    "pn_ReviewID (demo_plan H) = ''rvw_'' @ hex_encode (take 20 (digest_bytes (H (ReviewPlanIdentityV1 (demo_identity H)))))"
    by (simp_all add: demo_plan_def demo_review_id_def)
  obtain reg where "addPlanToRegistry Map.empty H (demo_plan H) (art_Citations (demo_artifacts H)) [Public (demo_unit H)]
     [Public (demo_unit H)] (demo_records H) (H (ReviewPlanIdentityV1 (demo_identity H))) = Inr reg"
    using demo_registered by blast
  then show ?thesis
    unfolding verifyLoadedCheckArtifacts_def Let_def
    by (simp add: demo_artifacts_def demo_valid audits demo_integrity ids)
qed

section \<open>A complete report\<close>

definition demo_report :: "(bytes \<Rightarrow> digest) \<Rightarrow> report" where
  "demo_report H = \<lparr>re_Schema = ReportSchemaV1, re_ReviewID = demo_review_id H, re_PlanDigest = pn_PlanDigest (demo_plan H),
     re_Base = sc_Base sample_scope, re_Head = sc_Head sample_scope, re_Recommendation = RecommendApprove, re_Findings = [],
     re_PrimaryReceipts = [\<lparr>pr_UnitID = Public (demo_unit H), pr_AcknowledgedPrimaryHunkIDs = [Public (demo_hunk H)],
       pr_ContextCitations = [], pr_FindingIDs = [], pr_Uncertainties = [], pr_Reviewer = ''a''\<rparr>],
     re_AuditReceipts = map (\<lambda>(aid, ts). \<lparr>ar_AuditID = aid, ar_AcknowledgedAuditTargetIDs = map Public ts, ar_ContextCitations = [],
       ar_FindingIDs = [], ar_Uncertainties = [], ar_Reviewer = ''a''\<rparr>) (demo_audit_targets H), re_Notes = []\<rparr>"

definition demo_env :: "(bytes \<Rightarrow> digest) \<Rightarrow> unit check_env" where
  "demo_env H = \<lparr>ce_root = ''/'', ce_configured = True, ce_sprint = (\<lambda>_. ''e''), ce_acquire = None, ce_close = None,
     ce_lock = (\<lambda>_. None), ce_load = (\<lambda>i. if i = demo_review_id H then Inr (demo_artifacts H) else Inl (err ''unknown'')),
     ce_capture = (\<lambda>_ _. Inl (err ''no capture'')), ce_read = (\<lambda>_ _. Inl (err ''no file''))\<rparr>"

lemma demo_path_indexed:
  assumes "rv_paths v (Public (demo_path H)) = Some (hd (pn_ChangedPaths (demo_plan H)))"
  shows "\<exists>sides. indexPathSides v (hd (demo_records H)) = Inr (v\<lparr>rv_pathSides := sides\<rparr>)"
proof -
  have side: "decodeFramedFields (side_frame AbsentSide) = Inr (map_of (rev (side_frame_fields AbsentSide)))"
    unfolding side_frame_def
    by (rule decodeFramedFields_frame) (simp add: field_ok_def side_frame_fields_def AbsentSide_def name_ok_simp)
  have "decodeCheckSideIdentity (side_frame AbsentSide) = Inr AbsentSide"
    by (simp add: decodeCheckSideIdentity_def side) (simp add: fieldOf_def side_frame_fields_def AbsentSide_def side_validate_def)
  then have "decodeCheckSideIdentity (fieldOf (map_of (rev (record_fields H sample_record))) ''new_side'') = Inr AbsentSide"
    by (simp add: fieldOf_def record_fields_def sample_record_def)
  moreover have "fieldOf (map_of (rev (PathID_fields H (demo_digest H) sample_record))) ''record'' = record_frame H sample_record"
    by (simp add: fieldOf_def PathID_fields_def)
  ultimately show ?thesis
    using assms
    by (simp add: indexPathSides_def demo_records_def demo_record_def demo_plan_def demo_decoded index_side_def)
      (rule exI, rule refl)
qed

lemma demo_hunk_read:
  assumes "rv_paths v (Public (demo_path H)) = Some (hd (pn_ChangedPaths (demo_plan H)))"
  shows "checkedHunkFromRecord H (demo_records H ! 1) (full_paths (demo_identity H)) (rv_paths v) =
    Inr (make_checked_hunk (Public (demo_hunk H)) [] (Public (demo_path H)) (hash_hex H ''+a'') [] 1 0 ''x'' 1 1)"
proof -
  have "fieldOf (map_of (rev (HunkID_fields H (demo_digest H) (Full (demo_path H)) sample_hunk))) ''path'' = digest_bytes (Full (demo_path H))"
    "fieldOf (map_of (rev (HunkID_fields H (demo_digest H) (Full (demo_path H)) sample_hunk))) ''hunk'' = hunk_frame H sample_hunk"
    by (simp_all add: fieldOf_def HunkID_fields_def)
  moreover have "full_paths (demo_identity H) (hex_encode (digest_bytes (Full (demo_path H)))) = Some (Public (demo_path H))"
    by (simp add: full_paths_def demo_identity_def)
  moreover have "checkUint64 (fieldOf (map_of (rev (hunk_fields H sample_hunk))) ''old_start'') = Inr 1"
    "checkUint64 (fieldOf (map_of (rev (hunk_fields H sample_hunk))) ''old_lines'') = Inr 0"
    "checkUint64 (fieldOf (map_of (rev (hunk_fields H sample_hunk))) ''new_start'') = Inr 1"
    "checkUint64 (fieldOf (map_of (rev (hunk_fields H sample_hunk))) ''new_lines'') = Inr 1"
    "fieldOf (map_of (rev (hunk_fields H sample_hunk))) ''payload'' = ''+a''"
    by (simp_all add: fieldOf_def hunk_fields_def sample_hunk_def checkUint64_def u64_bytes_def be_val_be_bytes)
  ultimately show ?thesis
    using assms
    by (simp add: checkedHunkFromRecord_def demo_records_def demo_record_def demo_decoded demo_plan_def Let_def wrapE_def)
qed

lemma demo_validator: "\<exists>v. newReportValidator H (demo_artifacts H) = Inr v"
proof -
  let ?a = "demo_artifacts H"
  have p: "rv_paths (start_validator ?a) (Public (demo_path H)) = Some (hd (pn_ChangedPaths (demo_plan H)))"
    by (simp add: start_validator_def demo_artifacts_def demo_plan_def)
  obtain sides where sides: "indexPathSides (start_validator ?a) (hd (demo_records H)) = Inr (start_validator ?a\<lparr>rv_pathSides := sides\<rparr>)"
    using demo_path_indexed [OF p] by blast
  let ?v = "start_validator ?a\<lparr>rv_pathSides := sides\<rparr>"
  let ?h = "make_checked_hunk (Public (demo_hunk H)) [] (Public (demo_path H)) (hash_hex H ''+a'') [] 1 0 ''x'' 1 1"
  let ?k = "make_checked_hunk (Public (demo_hunk H)) (Public (demo_unit H)) (Public (demo_path H)) (hash_hex H ''+a'') [] 1 0 ''x'' 1 1"
  have "index_record H (full_paths (demo_identity H)) (start_validator ?a) (demo_records H ! 0) = Inr ?v"
  proof -
    have "ir_Kind (demo_records H ! 0) = PathIDPrefixV1" "hd (demo_records H) = demo_records H ! 0"
      by (simp_all add: demo_records_def demo_record_def)
    then show ?thesis using sides unfolding index_record_def by simp
  qed
  moreover have "index_record H (full_paths (demo_identity H)) ?v (demo_records H ! 1) = Inr (indexHunk ?h ?v)"
  proof -
    have "checkedHunkFromRecord H (demo_records H ! 1) (full_paths (demo_identity H)) (rv_paths ?v) = Inr ?h"
      by (rule demo_hunk_read) (simp add: p)
    moreover have "ir_Kind (demo_records H ! 1) = HunkIDPrefixV1" by (simp add: demo_records_def demo_record_def)
    ultimately show ?thesis unfolding index_record_def by simp
  qed
  moreover have "index_record H (full_paths (demo_identity H)) w (demo_records H ! i) = Inr w" if "i \<in> {2, 3, 4}" for w i
    using that by (auto simp: index_record_def demo_records_def demo_record_def)
  ultimately have rs: "foldE (index_record H (full_paths (demo_identity H))) (start_validator ?a)
      [demo_records H ! 0, demo_records H ! 1, demo_records H ! 2, demo_records H ! 3, demo_records H ! 4] = Inr (indexHunk ?h ?v)"
    by simp
  have records: "[demo_records H ! 0, demo_records H ! 1, demo_records H ! 2, demo_records H ! 3, demo_records H ! 4] = demo_records H"
    by (simp add: demo_records_def)
  let ?w = "indexHunk ?k (indexHunk ?h ?v)"
  have none: "rv_units (start_validator ?a) = Map.empty" by (simp add: start_validator_def Let_def)
  have us: "foldE (index_unit H (demo_identity H)) (indexHunk ?h ?v) (pn_PrimaryUnits (demo_plan H)) =
      Inr (?w\<lparr>rv_units := [Public (demo_unit H) \<mapsto> {Public (demo_hunk H)}]\<rparr>)"
    by (simp add: index_unit_def demo_plan_def unit_identity_def demo_identity_def)
      (simp add: demo_review_unit_def checkedHunkFrom_def none del: b64_encode.simps)
  have targets: "rv_auditTargets (start_validator ?a) = [Public (demo_path H), Public (demo_unit H), Public (demo_hunk H), Public (demo_cohort H)]"
    by (simp add: start_validator_def demo_artifacts_def demo_plan_def demo_audit_targets_def RequiredAuditsV1_def)
  let ?u = "normalizeDiffRanges (?w\<lparr>rv_units := [Public (demo_unit H) \<mapsto> {Public (demo_hunk H)}]\<rparr>)"
  have fields: "rv_hunks ?u (Public (demo_hunk H)) \<noteq> None" "rv_paths ?u (Public (demo_path H)) \<noteq> None"
    "rv_units ?u (Public (demo_unit H)) \<noteq> None" "cohort_units (demo_identity H) (Public (demo_cohort H)) \<noteq> None"
    "rv_auditTargets ?u = rv_auditTargets (start_validator ?a)"
    using p by (simp_all add: normalizeDiffRanges_def indexHunk_def add_range_def make_checked_hunk_def cited_range_def
        cohort_units_def demo_identity_def)
  have ok: "\<exists>o'. target_ownership ?u (cohort_units (demo_identity H)) t = Inr o'"
    if "t \<in> set (rv_auditTargets (start_validator ?a))" for t
    using that fields(1-4) unfolding targets
    by (auto simp: target_ownership_def demo_public has_prefix_def Let_def)
  have "\<exists>v. indexAuditOwnership ?u (cohort_units (demo_identity H)) = Inr v"
  proof -
    have each: "\<exists>v. foldE (\<lambda>w target. bindE (target_ownership ?u (cohort_units (demo_identity H)) target) (\<lambda>o'.
         Inr (w\<lparr>rv_auditOwnership := (rv_auditOwnership w)(target \<mapsto> o')\<rparr>))) w ts = Inr v"
      if "set ts \<subseteq> set (rv_auditTargets (start_validator ?a))" for w ts
      using that ok by (induction ts arbitrary: w) fastforce+
    show ?thesis unfolding indexAuditOwnership_def fields(5) by (rule each [OF subset_refl])
  qed
  then show ?thesis
    using rs us unfolding records
    by (simp add: newReportValidator_def demo_artifacts_def Let_def)
      (simp add: demo_plan_def sample_scope_def oidWidthFor_def)
qed

lemma demo_truthful: "truthful (demo_artifacts H)"
  by (simp add: truthful_def demo_artifacts_def demo_identity_def demo_plan_def) (simp add: demo_public)

lemma demo_shape: "validateReportShapeForCheck (demo_report H) = Inr ()"
proof -
  have ids: "validReviewID (demo_review_id H)" "isCanonicalDigestHex (pn_PlanDigest (demo_plan H))"
    using Plan_validate_common(1,2) [OF demo_valid [of H]] by (simp_all add: demo_plan_def)
  have sides: "side_validate (sc_Base sample_scope) = Inr ()" "side_validate (sc_Head sample_scope) = Inr ()"
    using scope_validate_sides [OF sample_scope_valid] by simp_all
  show ?thesis
    using ids sides
    by (simp add: validateReportShapeForCheck_def report_header_checks_def demo_report_def validRecommendation_def
        PrimaryReceipt_validate_def AuditReceipt_validate_def validateCitations_def demo_audit_targets_def RequiredAuditsV1_def
        validAuditID_def demo_public)
qed

lemma demo_covered:
  assumes v: "newReportValidator H (demo_artifacts H) = Inr v"
  shows "validateStructuredCoverage H read v (demo_plan H) (demo_report H) = Inr ()"
proof -
  have units: "rv_units v = [Public (demo_unit H) \<mapsto> {Public (demo_hunk H)}]"
    using newReportValidator_Inr(1) [OF v]
    by (auto simp: demo_artifacts_def demo_plan_def demo_review_unit_def unit_identity_def demo_identity_def)
  have one: "exactAcknowledgement reason owner item (set xs) xs = Inr ()" if "distinct xs" for reason owner item xs
    using that by (simp add: exactAcknowledgement_Inr)
  have ack: "exactAcknowledgement reason owner item {i} [i] = Inr ()"
    "i \<noteq> j \<Longrightarrow> exactAcknowledgement reason owner item {i, j} [i, j] = Inr ()" for reason owner item i j
    using one [of "[i]"] one [of "[i, j]"] by simp_all
  have unit: "cover_unit H read v {} [Public (demo_unit H) \<mapsto> hd (re_PrimaryReceipts (demo_report H))] (Public (demo_unit H)) = Inr ()"
    by (simp add: cover_unit_def units ack demo_report_def validateReceiptFindingIDs_def validateCitationSet_def no_blocking_def)
  have primary: "index_receipts ''primary_receipt'' ''unit'' pr_UnitID (\<lambda>i. rv_units v i \<noteq> None) Map.empty (re_PrimaryReceipts (demo_report H)) =
      Inr [Public (demo_unit H) \<mapsto> hd (re_PrimaryReceipts (demo_report H))]"
    by (simp add: demo_report_def units)
  have expected: "expected_audits (demo_plan H) = [AuditIntegrationGapV1 \<mapsto> {Public (demo_cohort H)},
      AuditTestMatrixV1 \<mapsto> {Public (demo_unit H), Public (demo_hunk H)}, AuditContractMigrationV1 \<mapsto> {Public (demo_path H)},
      AuditRemovedBehaviorV1 \<mapsto> {Public (demo_hunk H)}]"
    by (simp add: expected_audits_def demo_plan_def demo_audit_targets_def RequiredAuditsV1_def fun_eq_iff)
  let ?r = "\<lambda>aid ts. \<lparr>ar_AuditID = aid, ar_AcknowledgedAuditTargetIDs = map Public ts, ar_ContextCitations = [],
       ar_FindingIDs = [], ar_Uncertainties = [], ar_Reviewer = ''a''\<rparr>"
  let ?m = "[AuditRemovedBehaviorV1 \<mapsto> ?r AuditRemovedBehaviorV1 [demo_hunk H],
      AuditContractMigrationV1 \<mapsto> ?r AuditContractMigrationV1 [demo_path H],
      AuditTestMatrixV1 \<mapsto> ?r AuditTestMatrixV1 [demo_unit H, demo_hunk H],
      AuditIntegrationGapV1 \<mapsto> ?r AuditIntegrationGapV1 [demo_cohort H]]"
  have audits: "index_receipts ''audit_receipt'' ''audit'' ar_AuditID (\<lambda>i. expected_audits (demo_plan H) i \<noteq> None) Map.empty
      (re_AuditReceipts (demo_report H)) = Inr ?m"
    by (simp add: demo_report_def expected demo_audit_targets_def RequiredAuditsV1_def)
  have covered: "cover_audit H read v (demo_plan H) {} ?m aid = Inr ()" if "aid \<in> set RequiredAuditsV1" for aid
    using that
    by (auto simp: RequiredAuditsV1_def cover_audit_def expected ack validateReceiptFindingIDs_def validateCitationSet_def no_blocking_def)
  have names: "map pa_AuditID (pn_RequiredAudits (demo_plan H)) = RequiredAuditsV1"
    "map ru_UnitID (pn_PrimaryUnits (demo_plan H)) = [Public (demo_unit H)]" "set (map fi_ID (re_Findings (demo_report H))) = {}"
    by (simp_all add: demo_plan_def demo_audit_targets_def RequiredAuditsV1_def demo_review_unit_def demo_report_def)
  have all: "allE (cover_audit H read v (demo_plan H) {} ?m) RequiredAuditsV1 = Inr ()"
    by (simp only: allE_eq_Inr) (blast intro: covered)
  show ?thesis
    unfolding validateStructuredCoverage_def Let_def names primary audits bindE_simps all using unit by simp
qed

lemma demo_bounds: "preflightArtifactBounds (demo_artifacts H) = Inr ()" "preflightReportBounds (demo_report H) = Inr ()"
  by (simp_all add: preflightArtifactBounds_def artifact_sizes_def demo_artifacts_def demo_plan_def demo_identity_def demo_records_def
      demo_audit_targets_def RequiredAuditsV1_def demo_review_unit_def charge_plan_def
      preflightReportBounds_def report_sizes_def demo_report_def charge_owner_def charge_report_def)

lemma demo_complete: "check_steps H (demo_env H) (demo_review_id H) (demo_report H) (demo_artifacts H) = Inr ()"
proof -
  have fresh: "checkWorkspaceFreshness H (demo_env H) n (demo_artifacts H) = Inr []" for n
    by (simp add: checkWorkspaceFreshness_def demo_artifacts_def demo_plan_def sample_scope_def)
  obtain v where v: "newReportValidator H (demo_artifacts H) = Inr v" using demo_validator by blast
  have "validateFindings H read v [] = Inr ()" for read by (simp add: validateFindings_def)
  moreover have "validateRecommendationForCheck (demo_report H) = Inr ()"
    by (simp add: validateRecommendationForCheck_def demo_report_def last_id_def)
  moreover have plan: "art_Plan (demo_artifacts H) = demo_plan H" "re_Findings (demo_report H) = []"
    by (simp_all add: demo_artifacts_def demo_report_def)
  ultimately have checks: "report_checks H (ce_read (demo_env H)) (demo_artifacts H) (demo_report H) = Inr ()"
    using demo_covered [OF v] by (simp add: report_checks_def v plan_identity_problem_def problem_def)
  have ids: "pn_ReviewID (demo_plan H) = demo_review_id H" "re_ReviewID (demo_report H) = demo_review_id H"
    "re_PlanDigest (demo_report H) = pn_PlanDigest (demo_plan H)" "re_Base (demo_report H) = sc_Base (pn_Scope (demo_plan H))"
    "re_Head (demo_report H) = sc_Head (pn_Scope (demo_plan H))"
    by (simp_all add: demo_report_def demo_plan_def)
  show ?thesis
    unfolding check_steps_def Let_def
    by (simp add: demo_bounds demo_accepted demo_shape checks fresh plan ids sameSide_def plan_identity_problem_def problem_def fresh_def)
qed

lemma demo_checked:
  "cr_Status (fst (Check H (demo_env H) (demo_review_id H) (demo_report H))) = CheckComplete"
proof -
  have "validReviewID (demo_review_id H)" using Plan_validate_common(1) [OF demo_valid [of H]] by (simp add: demo_plan_def)
  moreover have "check_locked H (demo_env H) (demo_review_id H) (demo_report H) =
      check_loaded H (demo_env H) (demo_review_id H) (demo_report H) (demo_artifacts H)"
    by (simp add: check_locked_def demo_env_def)
  moreover have "TrimSpace (ce_root (demo_env H)) = ''/''" by (simp add: demo_env_def) code_simp
  moreover have "ce_configured (demo_env H)" "ce_acquire (demo_env H) = None" by (simp_all add: demo_env_def)
  ultimately show ?thesis
    by (simp add: Check_def demo_bounds check_loaded_def demo_complete Let_def case_prod_beta)
qed

end
