(* ===== verification/Verified.thy ===== *)
theory Verified
  imports Demo
begin

text \<open>
  What \<open>Service.Check\<close> and the verification of persisted plans guarantee, in terms of the model: the
  properties, each with a concrete instance.
\<close>

section \<open>Complete verdicts\<close>

lemma Check_complete:
  assumes "cr_Status (fst (Check H en reviewID r)) = CheckComplete"
  shows "\<exists>a. ce_load en reviewID = Inr a \<and> check_steps H en reviewID r a = Inr ()"
proof -
  have "cr_Status (fst (check_locked H en reviewID r)) = CheckComplete"
    using assms by (auto simp: Check_def no_result_def bareInvalidResult_def Let_def split: if_splits sum.splits option.splits prod.splits)
  then obtain a where a: "ce_load en reviewID = Inr a" "cr_Status (fst (check_loaded H en reviewID r a)) = CheckComplete"
    by (auto simp: check_locked_def no_result_def split: option.splits sum.splits)
  from check_loaded_complete [OF a(2)] check_steps_issue [of H en reviewID r a]
  have "check_steps H en reviewID r a = Inr ()" by (auto simp: issue_ok_def)
  with a(1) show ?thesis by blast
qed

lemma checked_validator:
  assumes "report_checks H read a r = Inr u"
  obtains v where "newReportValidator H a = Inr v" "validateFindings H read v (re_Findings r) = Inr ()"
    "pn_Mode (art_Plan a) = ModeStructured \<Longrightarrow> validateStructuredCoverage H read v (art_Plan a) r = Inr ()"
    "validateRecommendationForCheck r = Inr ()"
  using assms by (auto simp: report_checks_def split: if_splits)

text \<open>
  A work tree that is fresh: both captures, before and after the checks, are the planned one.  A capture
  that ends with a mismatch error makes the reason of \<open>checkWorkspaceFreshness\<close> the error's text, and an
  empty reason means fresh; \<open>ce_sprint\<close> is any function, so the definition has a case for an empty text,
  which the errors of the code never have.
\<close>

definition unchanged_capture :: "(bytes \<Rightarrow> digest) \<Rightarrow> 'c check_env \<Rightarrow> nat \<Rightarrow> 'c plan_artifacts \<Rightarrow> bool" where
  "unchanged_capture H en n a \<longleftrightarrow> sc_Kind (pn_Scope (art_Plan a)) \<noteq> ScopeWorkspace \<or>
     (case ce_capture en n (pn_Scope (art_Plan a)) of
        Inl e \<Rightarrow> isCaptureMismatch e \<and> ce_sprint en e = []
      | Inr c \<Rightarrow> canonicalCaptureFingerprint H c = art_WorkspaceCaptureFingerprint a \<and>
          hex_encode (side_Value (sc_Head (cp_Scope c))) = art_WorkspaceFingerprint a)"

lemma checkWorkspaceFreshness_Inr:
  "checkWorkspaceFreshness H en n a = Inr [] \<longleftrightarrow> unchanged_capture H en n a"
  by (auto simp: checkWorkspaceFreshness_def unchanged_capture_def split: sum.splits)

text \<open>
  C3: a complete verdict is justified.  The plan was loaded under the requested identifier and passed
  every integrity check; the report names it, its digest and its two sides; each finding is
  supported by the persisted citations and causes; the recommendation follows from the findings;
  and the work tree had not changed, neither before nor after the checks.
\<close>

theorem Check_complete_sound:
  assumes "cr_Status (fst (Check H en reviewID r)) = CheckComplete"
  shows "\<exists>a v. ce_load en reviewID = Inr a \<and> verifyLoadedCheckArtifacts H a = Inr () \<and>
     newReportValidator H a = Inr v \<and>
     pn_ReviewID (art_Plan a) = reviewID \<and> re_ReviewID r = reviewID \<and> re_PlanDigest r = pn_PlanDigest (art_Plan a) \<and>
     re_Base r = sc_Base (pn_Scope (art_Plan a)) \<and> re_Head r = sc_Head (pn_Scope (art_Plan a)) \<and>
     distinct (map fi_ID (re_Findings r)) \<and> (\<forall>f\<in>set (re_Findings r). finding_supported v f) \<and>
     recommendation_follows r \<and> unchanged_capture H en 0 a \<and> unchanged_capture H en 1 a"
proof -
  obtain a where a: "ce_load en reviewID = Inr a" "check_steps H en reviewID r a = Inr ()"
    using Check_complete [OF assms] by blast
  note steps = check_steps_Inr [OF a(2)]
  obtain v where v: "newReportValidator H a = Inr v" "validateFindings H (ce_read en) v (re_Findings r) = Inr ()"
    "validateRecommendationForCheck r = Inr ()"
    using checked_validator [OF steps(10)] by blast
  note shape = validateReportShapeForCheck_Inr [OF steps(7)]
  have "\<forall>f\<in>set (re_Findings r). fi_ID f \<noteq> []" using shape(2) Finding_validate_id by blast
  from validateRecommendationForCheck_Inr [OF this] v(3) have "recommendation_follows r" by simp
  moreover have "unchanged_capture H en 0 a" "unchanged_capture H en 1 a"
    using steps(8,9) unfolding checkWorkspaceFreshness_Inr by blast+
  ultimately show ?thesis
    using a(1) steps(1-6) v(1) shape(1) validateFindings_Inr [OF v(2)] by blast
qed

lemma Check_complete_sound_witness:
  "\<exists>a v. ce_load (demo_env length_hash) (demo_review_id length_hash) = Inr a \<and> newReportValidator length_hash a = Inr v \<and>
     recommendation_follows (demo_report length_hash)"
  using Check_complete_sound [OF demo_checked [of length_hash]] by blast

text \<open>
  C4: a complete verdict on a structured plan covers it.  Every primary unit has exactly one receipt, which acknowledges
  exactly the hunks that the persisted identity lists under the name of the unit; every audit has exactly one
  receipt, which acknowledges exactly its targets; no receipt leaves a blocking uncertainty or refers to an
  unknown finding.  If the unit names in the identity are those of their digests, which is not
  checked when a plan is loaded, the hunks a receipt acknowledges are exactly those of the unit in the plan.
\<close>

theorem Check_complete_covers:
  assumes "cr_Status (fst (Check H en reviewID r)) = CheckComplete" and "ce_load en reviewID = Inr a"
    and "pn_Mode (art_Plan a) = ModeStructured"
  shows "(\<forall>u\<in>set (pn_PrimaryUnits (art_Plan a)).
      unit_covered r (ru_UnitID u) (set (map Public (unit_identity (art_PlanIdentity a) (ru_UnitID u)))) \<and>
      (truthful a \<longrightarrow> unit_covered r (ru_UnitID u) (set (map uh_HunkID (ru_Hunks u))))) \<and>
    (\<forall>x\<in>set (pn_RequiredAudits (art_Plan a)). audit_covered r (pa_AuditID x) (set (pa_TargetIDs x)))"
proof -
  have steps: "check_steps H en reviewID r a = Inr ()" using Check_complete [OF assms(1)] assms(2) by auto
  note ok = check_steps_Inr [OF steps] and b = verified_bound [OF check_steps_Inr(6) [OF steps]]
  obtain v where v: "newReportValidator H a = Inr v"
    and cover: "validateStructuredCoverage H (ce_read en) v (art_Plan a) r = Inr ()"
    using checked_validator [OF ok(10)] assms(3) by blast
  note units = newReportValidator_Inr(1) [OF v]
  have "finite s" if "s \<in> ran (rv_units v)" for s
    using that unfolding units by (auto simp: ran_def split: if_splits)
  then have finite: "\<forall>s\<in>ran (rv_units v). finite s" by blast
  note c = validateStructuredCoverage_Inr [OF cover finite]
  have expected: "(case rv_units v (ru_UnitID u) of None \<Rightarrow> {} | Some s \<Rightarrow> s) =
      set (map Public (unit_identity (art_PlanIdentity a) (ru_UnitID u)))"
    if "u \<in> set (pn_PrimaryUnits (art_Plan a))" for u
    using that unfolding units by simp
  have "unit_covered r (ru_UnitID u) (set (map Public (unit_identity (art_PlanIdentity a) (ru_UnitID u)))) \<and>
      (truthful a \<longrightarrow> unit_covered r (ru_UnitID u) (set (map uh_HunkID (ru_Hunks u))))"
    if u: "u \<in> set (pn_PrimaryUnits (art_Plan a))" for u
  proof
    show "unit_covered r (ru_UnitID u) (set (map Public (unit_identity (art_PlanIdentity a) (ru_UnitID u))))"
      using bspec [OF c(1) u] unfolding expected [OF u] .
    then show "truthful a \<longrightarrow> unit_covered r (ru_UnitID u) (set (map uh_HunkID (ru_Hunks u)))"
      using unit_identity_truthful [OF b(1) _ u] by metis
  qed
  moreover have "(case expected_audits (art_Plan a) (pa_AuditID x) of None \<Rightarrow> {} | Some s \<Rightarrow> s) = set (pa_TargetIDs x)"
    if "x \<in> set (pn_RequiredAudits (art_Plan a))" for x
    using expected_audits_of [OF b(3) assms(3) that] by simp
  ultimately show ?thesis using c by simp
qed

lemma Check_complete_covers_witness:
  "unit_covered (demo_report length_hash) (Public (demo_unit length_hash)) {Public (demo_hunk length_hash)}"
proof -
  have load: "ce_load (demo_env length_hash) (demo_review_id length_hash) = Inr (demo_artifacts length_hash)"
    "pn_Mode (art_Plan (demo_artifacts length_hash)) = ModeStructured"
    by (simp_all add: demo_env_def demo_artifacts_def demo_plan_def)
  have "pn_PrimaryUnits (art_Plan (demo_artifacts length_hash)) = [demo_review_unit length_hash]"
    "ru_UnitID (demo_review_unit length_hash) = Public (demo_unit length_hash)"
    "set (map uh_HunkID (ru_Hunks (demo_review_unit length_hash))) = {Public (demo_hunk length_hash)}"
    by (simp_all add: demo_artifacts_def demo_plan_def demo_review_unit_def)
  with Check_complete_covers [OF demo_checked load] demo_truthful show ?thesis by simp
qed

section \<open>The form of an answer\<close>

text \<open>The \<open>CheckError\<close>s among the errors of a check.\<close>

fun check_errors :: "check_failure \<Rightarrow> check_error list" where
  "check_errors (CheckFailed c) = [c]"
| "check_errors (Failed e) = []"
| "check_errors (Joined fs) = concat (map check_errors fs)"

definition reported :: "check_failure option \<Rightarrow> check_error list" where
  "reported failure = (case failure of None \<Rightarrow> [] | Some f \<Rightarrow> check_errors f)"

text \<open>An answer of the model is well formed: no result and a plain error, or a valid result with the error that belongs to it.\<close>

definition answer_ok :: "check_return \<Rightarrow> bool" where
  "answer_ok answer \<longleftrightarrow> (case answer of (result, failure) \<Rightarrow>
     result = no_result \<and> failure \<noteq> None \<and> reported failure = [] \<or>
     CheckResult_validate result = Inr () \<and>
       (if cr_Status result = CheckComplete then reported failure = []
        else \<exists>c. reported failure = [c] \<and> cx_Status c = cr_Status result \<and> cx_Problems c = cr_Problems result))"

lemma reported_join [simp]: "reported (join_errors e c) = reported e"
  by (cases e; cases c) (simp_all add: join_errors_def reported_def)

lemma join_errors_None [simp]: "join_errors e c = None \<longleftrightarrow> e = None \<and> c = None"
  by (cases e; cases c) (simp_all add: join_errors_def)

lemma answer_ok_join: "answer_ok (result, e) \<Longrightarrow> answer_ok (result, join_errors e c)"
  unfolding answer_ok_def by (auto simp del: not_None_eq)

lemma answer_ok_failed [simp]: "answer_ok (no_result, Some (Failed e))"
  by (simp add: answer_ok_def reported_def)

lemma bareInvalidResult_ok:
  "validReviewID reviewID \<or> validReviewID (re_ReviewID r) \<Longrightarrow> answer_ok (bareInvalidResult sprint reviewID r reason e)"
  unfolding answer_ok_def bareInvalidResult_def Let_def prod.case CheckResult_validate_Inr by (auto simp: reported_def)

lemma nonComplete_ok:
  assumes "validReviewID (pn_ReviewID p)" "pn_Mode p \<in> {ModeDirect, ModeStructured}"
    and "status \<in> {CheckIncomplete, CheckInvalid, CheckStale}"
  shows "answer_ok (nonComplete (baseCheckResult p recommendation) status reason detail)"
  using assms unfolding answer_ok_def nonComplete_def prod.case CheckResult_validate_Inr
  by (auto simp: baseCheckResult_def reported_def)

lemma check_loaded_ok:
  assumes p: "validReviewID (pn_ReviewID (art_Plan a))" "pn_Mode (art_Plan a) \<in> {ModeDirect, ModeStructured}"
  shows "answer_ok (check_loaded H en reviewID r a)"
proof (cases "check_steps H en reviewID r a")
  case (Inl s)
  show ?thesis
  proof (cases s)
    case (Problem i)
    with check_steps_issue [OF Inl [unfolded Problem]] have "is_status i \<in> {CheckIncomplete, CheckInvalid, CheckStale}" by (auto simp: issue_ok_def)
    from nonComplete_ok [OF p this] show ?thesis using Inl Problem by (simp add: check_loaded_def Let_def)
  next
    case (Abort e)
    then show ?thesis using Inl by (simp add: check_loaded_def Let_def)
  qed
next
  case (Inr u)
  note steps = check_steps_Inr [OF Inr]
  obtain v where v: "validateRecommendationForCheck r = Inr ()"
    using checked_validator [OF steps(10)] by blast
  note shape = validateReportShapeForCheck_Inr [OF steps(7)]
  have "\<forall>f\<in>set (re_Findings r). fi_ID f \<noteq> []" using shape(2) Finding_validate_id by blast
  from validateRecommendationForCheck_Inr [OF this] v have "re_Recommendation r \<noteq> RecommendIncomplete"
    by (simp add: recommendation_follows_def)
  then have "CheckResult_validate ((baseCheckResult (art_Plan a) (re_Recommendation r))\<lparr>cr_Status := CheckComplete, cr_Problems := [],
      cr_Coverage := (if pn_Mode (art_Plan a) = ModeStructured then CoverageComplete else CoverageNotRequiredDirect)\<rparr>) = Inr ()"
    using p shape(3) unfolding CheckResult_validate_Inr by (auto simp: baseCheckResult_def Complete_def)
  then show ?thesis
    using Inr by (auto simp: check_loaded_def Let_def answer_ok_def reported_def baseCheckResult_def split: if_splits)
qed

text \<open>The form an answer has in any case, whether or not an identifier is known that makes its result valid.\<close>

definition answer_formed :: "check_return \<Rightarrow> bool" where
  "answer_formed answer \<longleftrightarrow> (case answer of (result, failure) \<Rightarrow>
     result = no_result \<and> failure \<noteq> None \<and> reported failure = [] \<or>
     cr_Status result = CheckComplete \<and> CheckResult_validate result = Inr () \<and> reported failure = [] \<or>
     cr_Status result \<in> {CheckIncomplete, CheckInvalid, CheckStale} \<and> cr_Recommendation result = RecommendIncomplete \<and>
       (\<exists>c problem. reported failure = [c] \<and> cx_Status c = cr_Status result \<and> cx_Problems c = [problem] \<and>
         cr_Problems result = [problem]))"

lemma answer_formed_join: "answer_formed (result, e) \<Longrightarrow> answer_formed (result, join_errors e c)"
  unfolding answer_formed_def by (auto simp del: not_None_eq)

lemma answer_formed_failed [simp]: "answer_formed (no_result, Some (Failed e))"
  by (simp add: answer_formed_def reported_def)

lemma bareInvalidResult_formed: "answer_formed (bareInvalidResult sprint reviewID r reason e)"
  by (simp add: answer_formed_def bareInvalidResult_def Let_def reported_def)

lemma nonComplete_formed:
  "status \<in> {CheckIncomplete, CheckInvalid, CheckStale} \<Longrightarrow> answer_formed (nonComplete result status reason detail)"
  by (auto simp: answer_formed_def nonComplete_def reported_def)

lemma check_loaded_formed: "answer_formed (check_loaded H en reviewID r a)"
proof (cases "check_steps H en reviewID r a")
  case (Inl s)
  show ?thesis
  proof (cases s)
    case (Problem i)
    with check_steps_issue [OF Inl [unfolded Problem]] have "is_status i \<in> {CheckIncomplete, CheckInvalid, CheckStale}"
      by (auto simp: issue_ok_def)
    from nonComplete_formed [OF this] show ?thesis using Inl Problem by (simp add: check_loaded_def Let_def)
  next
    case (Abort e)
    then show ?thesis using Inl by (simp add: check_loaded_def Let_def)
  qed
next
  case (Inr u)
  have "Plan_validate (art_Plan a) = Inr ()" using verified_bound(2) [OF check_steps_Inr(6) [OF Inr]] .
  then have "answer_ok (check_loaded H en reviewID r a)"
    using Plan_validate_common(1,7) by (intro check_loaded_ok) blast+
  moreover have "\<exists>result. check_loaded H en reviewID r a = (result, None) \<and> cr_Status result = CheckComplete"
    using Inr by (simp add: check_loaded_def Let_def)
  ultimately show ?thesis by (auto simp: answer_ok_def answer_formed_def no_result_def)
qed

lemma Check_formed: "answer_formed (Check H en reviewID r)"
proof -
  have "answer_formed (check_locked H en reviewID r)"
    by (auto simp: check_locked_def intro!: check_loaded_formed split: option.splits sum.splits)
  then have "answer_formed (fst (check_locked H en reviewID r), join_errors (snd (check_locked H en reviewID r)) (ce_close en))"
    by (intro answer_formed_join) simp
  then show ?thesis using bareInvalidResult_formed
    by (auto simp: Check_def Let_def case_prod_beta split: sum.splits option.splits)
qed

lemma Check_ok:
  assumes "validReviewID reviewID \<or> validReviewID (re_ReviewID r)"
    and "\<forall>a. ce_load en reviewID = Inr a \<longrightarrow>
      validReviewID (pn_ReviewID (art_Plan a)) \<and> pn_Mode (art_Plan a) \<in> {ModeDirect, ModeStructured}"
  shows "answer_ok (Check H en reviewID r)"
proof -
  have "answer_ok (check_locked H en reviewID r)"
    using assms(2) by (auto simp: check_locked_def intro!: check_loaded_ok split: option.splits sum.splits)
  then have "answer_ok (fst (check_locked H en reviewID r), join_errors (snd (check_locked H en reviewID r)) (ce_close en))"
    by (intro answer_ok_join) simp
  moreover have "answer_ok (bareInvalidResult (ce_sprint en) (re_ReviewID r) r reason e)" if "\<not> validReviewID reviewID" for reason e
    using that assms(1) by (intro bareInvalidResult_ok) blast
  ultimately show ?thesis
    using bareInvalidResult_ok [OF assms(1)]
    by (auto simp: Check_def Let_def case_prod_beta split: sum.splits option.splits)
qed

text \<open>
  C18: every answer of \<open>Check\<close> has one of three forms: no result and an error that is no
  \<open>CheckError\<close>; a result that is incomplete, invalid or stale, recommends nothing and states one problem, with
  exactly one \<open>CheckError\<close> of the same status and problem; or a valid complete result without a \<open>CheckError\<close>.
  A result of the second form is valid too when the requested or the reported identifier is well formed
  and a plan that is loaded has a well-formed identifier and a mode; when both identifiers are
  malformed, no result is valid.
\<close>

theorem Check_answers:
  "answer_formed (Check H en reviewID r) \<and>
   (validReviewID reviewID \<or> validReviewID (re_ReviewID r) \<longrightarrow>
     (\<forall>a. ce_load en reviewID = Inr a \<longrightarrow>
       validReviewID (pn_ReviewID (art_Plan a)) \<and> pn_Mode (art_Plan a) \<in> {ModeDirect, ModeStructured}) \<longrightarrow>
     fst (Check H en reviewID r) = no_result \<or> CheckResult_validate (fst (Check H en reviewID r)) = Inr ()) \<and>
   (\<not> validReviewID reviewID \<and> \<not> validReviewID (re_ReviewID r) \<longrightarrow>
     CheckResult_validate (fst (Check H en reviewID r)) \<noteq> Inr ())"
proof (intro conjI impI Check_formed)
  assume "validReviewID reviewID \<or> validReviewID (re_ReviewID r)"
    and "\<forall>a. ce_load en reviewID = Inr a \<longrightarrow>
      validReviewID (pn_ReviewID (art_Plan a)) \<and> pn_Mode (art_Plan a) \<in> {ModeDirect, ModeStructured}"
  from Check_ok [OF this, of H] show "fst (Check H en reviewID r) = no_result \<or> CheckResult_validate (fst (Check H en reviewID r)) = Inr ()"
    by (auto simp: answer_ok_def split: prod.splits)
next
  assume "\<not> validReviewID reviewID \<and> \<not> validReviewID (re_ReviewID r)"
  then have "\<not> validReviewID (cr_ReviewID (fst (Check H en reviewID r)))"
    by (auto simp: Check_def bareInvalidResult_def Let_def no_result_def validReviewID_def has_prefix_def split: sum.splits)
  then show "CheckResult_validate (fst (Check H en reviewID r)) \<noteq> Inr ()"
    unfolding CheckResult_validate_Inr by blast
qed

lemma Check_answers_witness:
  "CheckResult_validate (fst (Check length_hash (demo_env length_hash) ''bad'' (demo_report length_hash))) = Inr () \<and>
   CheckResult_validate (fst (Check length_hash (demo_env length_hash) ''bad'' (demo_report length_hash\<lparr>re_ReviewID := ''worse''\<rparr>))) \<noteq> Inr ()"
proof -
  have i: "validReviewID (demo_review_id length_hash)"
    using Plan_validate_common(1) [OF demo_valid [of length_hash]] by (simp add: demo_plan_def)
  then have loaded: "\<forall>a. ce_load (demo_env length_hash) j = Inr a \<longrightarrow>
      validReviewID (pn_ReviewID (art_Plan a)) \<and> pn_Mode (art_Plan a) \<in> {ModeDirect, ModeStructured}" for j
    by (auto simp: demo_env_def demo_artifacts_def demo_plan_def split: if_splits)
  have bad: "\<not> validReviewID ''bad''" "\<not> validReviewID ''worse''" by (simp_all add: validReviewID_def)
  let ?r = "demo_report length_hash" and ?q = "demo_report length_hash\<lparr>re_ReviewID := ''worse''\<rparr>"
  have named: "validReviewID (re_ReviewID ?r)" using i by (simp add: demo_report_def)
  have unnamed: "\<not> validReviewID ''bad'' \<and> \<not> validReviewID (re_ReviewID ?q)" using bad by simp
  have "TrimSpace ''/'' \<noteq> []" by code_simp
  then have "fst (Check length_hash (demo_env length_hash) ''bad'' ?r) \<noteq> no_result"
    using bad(1) by (auto simp: Check_def demo_env_def bareInvalidResult_def no_result_def Let_def split: sum.splits)
  then show ?thesis
    using Check_answers [of length_hash "demo_env length_hash" "''bad''" ?r]
      Check_answers [of length_hash "demo_env length_hash" "''bad''" ?q] named unnamed loaded by blast
qed

section \<open>Acknowledgements\<close>

text \<open>
  C31: \<open>exactAcknowledgement\<close> accepts exactly the lists that name each expected element once and nothing
  else; a repeated or foreign element makes the report invalid, and otherwise the first missing element
  in order makes it incomplete.
\<close>

theorem exactAcknowledgement_exact:
  assumes "finite expected"
  shows "case exactAcknowledgement reason owner item expected acknowledged of
      Inr _ \<Rightarrow> distinct acknowledged \<and> set acknowledged = expected
    | Inl i \<Rightarrow>
        if distinct acknowledged \<and> set acknowledged \<subseteq> expected
        then i = incomplete_issue reason ''%s missing %s %s'' [AStr owner, AStr item, AStr (Min (expected - set acknowledged))]
        else is_status i = CheckInvalid \<and> is_reason i = reason"
proof (cases "check_acknowledged reason owner item expected [] acknowledged")
  case (Inl i)
  have "\<not> (distinct acknowledged \<and> set acknowledged \<subseteq> expected)"
  proof
    assume "distinct acknowledged \<and> set acknowledged \<subseteq> expected"
    then have "check_acknowledged reason owner item expected [] acknowledged = Inr ()" by (simp add: check_acknowledged_Inr)
    with Inl show False by simp
  qed
  with Inl check_acknowledged_Inl [OF Inl] show ?thesis by (auto simp: exactAcknowledgement_def)
next
  case (Inr u)
  then have ok: "distinct acknowledged" "set acknowledged \<subseteq> expected" by (auto simp: check_acknowledged_Inr)
  show ?thesis
  proof (cases "set acknowledged = expected")
    case True
    then have "exactAcknowledgement reason owner item expected acknowledged = Inr ()"
      using ok exactAcknowledgement_Inr [OF assms] by blast
    with True ok show ?thesis by simp
  next
    case False
    then have "expected - set acknowledged \<noteq> {}" using ok(2) by blast
    from sorted_list_of_set_nonempty [OF _ this] assms
    have "sorted_list_of_set (expected - set acknowledged) = Min (expected - set acknowledged) #
      sorted_list_of_set (expected - set acknowledged - {Min (expected - set acknowledged)})" by simp
    then show ?thesis using ok Inr by (simp add: exactAcknowledgement_def)
  qed
qed

lemma exactAcknowledgement_exact_witness:
  "exactAcknowledgement ''r'' ''unit u'' ''hunk'' {''h1'', ''h2''} [''h2''] =
     Inl (incomplete_issue ''r'' ''%s missing %s %s'' [AStr ''unit u'', AStr ''hunk'', AStr ''h1''])"
proof -
  have "exactAcknowledgement ''r'' ''unit u'' ''hunk'' {''h1'', ''h2''} [''h2''] \<noteq> Inr ()"
    by (simp add: exactAcknowledgement_Inr)
  moreover have "{''h1'', ''h2''} - set [''h2''] = {''h1''}" by auto
  ultimately show ?thesis
    using exactAcknowledgement_exact [where expected = "{''h1'', ''h2''}" and reason = "''r''" and owner = "''unit u''"
        and item = "''hunk''" and acknowledged = "[''h2'']"]
    by (auto split: sum.splits)
qed

section \<open>Locations\<close>

lemma Location_validate_form:
  assumes "Location_validate l = Inr u"
  shows "lo_Side l \<in> {SideBase, SideHead}" "lo_Path l \<noteq> []" "lo_Kind l \<noteq> LocationPath \<Longrightarrow> lo_Start l \<le> lo_End l"
  using assms
  by (auto simp: Location_validate_def location_content_checks_def location_identity_checks_def split: if_splits option.splits)

text \<open>
  C19: for a valid location and line numbers that fit in 64 bits, \<open>locationInsideDiff\<close>, which searches the
  merged and sorted ranges by bisection, decides membership as it is meant: a path location is
  inside if its path changed on its side, a range location if one of its lines is a line that a hunk of the
  plan changes.
\<close>

theorem locationInsideDiff_exact:
  assumes "newReportValidator H a = Inr v" and "\<forall>h\<in>set (indexed_hunks H a). hunk_fits h" and "Location_validate l = Inr ()"
  shows "locationInsideDiff v l \<longleftrightarrow>
    (if lo_Kind l = LocationPath
     then \<exists>c\<in>set (pn_ChangedPaths (art_Plan a)). lo_Path l = (if lo_Side l = SideBase then pp_OldPath c else pp_NewPath c)
     else \<exists>h\<in>set (indexed_hunks H a). \<exists>x. lo_Start l \<le> x \<and> x \<le> lo_End l \<and> changes_line h (lo_Side l) (lo_Path l) x)"
proof (cases "lo_Kind l = LocationPath")
  case True
  have "rv_changedSides v = rv_changedSides (start_validator a)"
    using newReportValidator_Inr(2) [OF assms(1)] by (simp add: fixed_part_def)
  with True changedSides_iff [OF Location_validate_form(1,2) [OF assms(3)], where a = a] show ?thesis
    by (simp add: locationInsideDiff_def)
next
  case False
  with insideDiff_lines [OF assms(1,2) Location_validate_form(1,2) [OF assms(3)]] Location_validate_form(3) [OF assms(3)]
  show ?thesis by simp
qed

lemma demo_indexed: "indexed_hunks H (demo_artifacts H) = map (\<lambda>u.
    make_checked_hunk (Public (demo_hunk H)) u (Public (demo_path H)) (hash_hex H ''+a'') [] 1 0 ''x'' 1 1) [[], Public (demo_unit H)]"
proof -
  have p: "rv_paths (start_validator (demo_artifacts H)) (Public (demo_path H)) = Some (hd (pn_ChangedPaths (demo_plan H)))"
    by (simp add: start_validator_def demo_artifacts_def demo_plan_def)
  have "record_hunk H (demo_artifacts H) (demo_records H ! 1) =
      [make_checked_hunk (Public (demo_hunk H)) [] (Public (demo_path H)) (hash_hex H ''+a'') [] 1 0 ''x'' 1 1]"
    using demo_hunk_read [OF p] by (simp add: record_hunk_def demo_artifacts_def) (simp add: demo_records_def demo_record_def)
  moreover have "record_hunk H (demo_artifacts H) (demo_records H ! i) = []" if "i \<in> {0, 2, 3, 4}" for i
    using that by (auto simp: record_hunk_def demo_records_def demo_record_def)
  moreover have "art_IDRecords (demo_artifacts H) =
      [demo_records H ! 0, demo_records H ! 1, demo_records H ! 2, demo_records H ! 3, demo_records H ! 4]"
    by (simp add: demo_artifacts_def demo_records_def)
  ultimately have records: "concat (map (record_hunk H (demo_artifacts H)) (art_IDRecords (demo_artifacts H))) =
      [make_checked_hunk (Public (demo_hunk H)) [] (Public (demo_path H)) (hash_hex H ''+a'') [] 1 0 ''x'' 1 1]"
    by simp
  have "unit_hunks_of H (demo_artifacts H) (demo_review_unit H) =
      [make_checked_hunk (Public (demo_hunk H)) (Public (demo_unit H)) (Public (demo_path H)) (hash_hex H ''+a'') [] 1 0 ''x'' 1 1]"
    by (simp add: unit_hunks_of_def unit_identity_def demo_artifacts_def demo_identity_def demo_review_unit_def checkedHunkFrom_def wrapE_def
        del: b64_encode.simps)
  moreover have "pn_PrimaryUnits (art_Plan (demo_artifacts H)) = [demo_review_unit H]"
    by (simp add: demo_artifacts_def demo_plan_def)
  ultimately show ?thesis unfolding indexed_hunks_def records by simp
qed

definition demo_location :: location where
  "demo_location = (hd (fi_Locations sample_finding))\<lparr>lo_Side := SideHead, lo_Path := ''x'', lo_Kind := LocationRange,
     lo_Start := 1, lo_End := 2\<rparr>"

lemma locationInsideDiff_exact_witness:
  "\<exists>v. newReportValidator length_hash (demo_artifacts length_hash) = Inr v \<and>
     locationInsideDiff v demo_location \<and> \<not> locationInsideDiff v (demo_location\<lparr>lo_Start := 2\<rparr>)"
proof -
  obtain v where v: "newReportValidator length_hash (demo_artifacts length_hash) = Inr v" using demo_validator by blast
  have fits: "\<forall>h\<in>set (indexed_hunks length_hash (demo_artifacts length_hash)). hunk_fits h"
    by (simp add: demo_indexed hunk_fits_def make_checked_hunk_def cited_range_def)
  have l: "Location_validate demo_location = Inr ()" "Location_validate (demo_location\<lparr>lo_Start := 2\<rparr>) = Inr ()"
    using sample_location_valid
    by (simp_all add: demo_location_def sample_finding_def Location_validate_def location_content_checks_def)
  have lines: "changes_line h SideHead ''x'' n \<longleftrightarrow> n = 1" if "h \<in> set (indexed_hunks length_hash (demo_artifacts length_hash))" for h n
    using that by (auto simp: demo_indexed changes_line_def make_checked_hunk_def cited_range_def)
  have "indexed_hunks length_hash (demo_artifacts length_hash) \<noteq> []" by (simp add: demo_indexed)
  then show ?thesis
    using v lines locationInsideDiff_exact [OF v fits l(1)] locationInsideDiff_exact [OF v fits l(2)]
    by (intro exI [of _ v]) (auto simp: demo_location_def)
qed

section \<open>What the digest of a plan determines\<close>

text \<open>
  C6: tamper evidence.  If the hash has no collision on the inputs that the checks recompute, then two
  bundles of artifacts that are both accepted under the same plan digest contain the same review: the same
  mode, scope, changed paths, the same units with the same hunks down to the bytes of their patches, the same audits
  with the same targets (compared by the digest of each target, without its two-character kind), and the same cohorts, layers and members in the same order.
\<close>

theorem accepted_plans_agree:
  assumes "verifyLoadedCheckArtifacts H a = Inr ()" and "verifyLoadedCheckArtifacts H b = Inr ()"
    and "pn_PlanDigest (art_Plan a) = pn_PlanDigest (art_Plan b)"
    and "inj_on H (set (hashed_inputs H a) \<union> set (hashed_inputs H b))"
    and "\<forall>x\<in>set (hashed_inputs H a). length x < 2 ^ 64"
  shows "plan_content (art_Plan a) = plan_content (art_Plan b) \<and> pn_Mode (art_Plan a) = pn_Mode (art_Plan b) \<and>
    flat_cohorts (art_Plan a) = flat_cohorts (art_Plan b)"
proof -
  note va = verified_bound [OF assms(1)] and vb = verified_bound [OF assms(2)]
  have "same_identity H a b"
    using va(1,4) vb(1,4) assms(3-5) by (simp add: same_identity_def hash_hex_def)
  note same = same_identity_plan [OF this]
  have audits: "length (pn_RequiredAudits (art_Plan a)) = length (pn_RequiredAudits (art_Plan b))"
    using same(1) by (auto simp: plan_content_def dest: map_eq_imp_length_eq)
  have count: "length (pn_RequiredAudits p) = (if pn_Mode p = ModeStructured then 4 else 0)"
    if "Plan_validate p = Inr ()" "validatePlanAuditManifest p = Inr ()" for p
    using that Plan_validate_common(7) [OF that(1)] Plan_validate_direct(2) [OF that(1)]
    by (auto simp: validatePlanAuditManifest_def RequiredAuditsV1_def)
  have mode: "pn_Mode (art_Plan a) = pn_Mode (art_Plan b)"
    using audits count [OF va(2,3)] count [OF vb(2,3)] Plan_validate_common(7) [OF va(2)] Plan_validate_common(7) [OF vb(2)]
    by (auto split: if_splits)
  have "flat_cohorts p = []" if "Plan_validate p = Inr ()" "pn_Mode p = ModeDirect" for p
    using Plan_validate_direct(1) [OF that] by (simp add: flat_cohorts_def)
  then have "flat_cohorts (art_Plan a) = flat_cohorts (art_Plan b)"
    using same(2) mode va(2) vb(2) by (cases "pn_Mode (art_Plan a) = ModeDirect") auto
  with same(1) mode show ?thesis by blast
qed

text \<open>
  Fields that no check of loaded artifacts reads: the statistics and signals of the plan, the contents of unit
  candidates, and the public names by which the persisted identity refers to its units.
\<close>

definition rename_units :: "(stable_id \<Rightarrow> string) \<Rightarrow> plan_identity \<Rightarrow> plan_identity" where
  "rename_units f pi = pi\<lparr>pi_Units := map (\<lambda>e. e\<lparr>pue_UnitID := (pue_UnitID e)\<lparr>Public := f (pue_UnitID e)\<rparr>\<rparr>) (pi_Units pi)\<rparr>"

lemma ReviewPlanIdentityV1_rename: "ReviewPlanIdentityV1 (rename_units f pi) = ReviewPlanIdentityV1 pi"
  by (simp add: ReviewPlanIdentityV1_def ReviewPlanIdentity_fields_def rename_units_def comp_def unit_item_fields_def)

lemma bind_unit_rename:
  "bind_unit H rs scope (e\<lparr>pue_UnitID := (pue_UnitID e)\<lparr>Public := n\<rparr>\<rparr>, u) = bind_unit H rs scope (e, u)"
  by (simp add: bind_unit_def wantFull_def)

lemma verifyIdentityBinding_rename:
  "verifyIdentityBinding H p rs (rename_units f pi) bytes = verifyIdentityBinding H p rs pi bytes"
proof -
  have "allE (bind_unit H rs scope) (zip (pi_Units (rename_units f pi)) us) = allE (bind_unit H rs scope) (zip (pi_Units pi) us)" for scope us
  proof -
    have "allE (bind_unit H rs scope) (zip (map (\<lambda>e. e\<lparr>pue_UnitID := (pue_UnitID e)\<lparr>Public := f (pue_UnitID e)\<rparr>\<rparr>) es) us) =
        allE (bind_unit H rs scope) (zip es us)" for es
    proof (induction es arbitrary: us)
      case (Cons e es)
      then show ?case by (cases us) (simp_all add: bind_unit_rename)
    qed simp
    then show ?thesis by (simp add: rename_units_def)
  qed
  moreover have "length (pi_Units (rename_units f pi)) = length (pi_Units pi)" by (simp add: rename_units_def)
  moreover have "bind_cohorts p rs (rename_units f pi) = bind_cohorts p rs pi" "bind_digests rs (rename_units f pi) = bind_digests rs pi"
    by (simp_all add: bind_cohorts_def bind_digests_def embedded_digests_def rename_units_def comp_def)
  moreover have "pi_Paths (rename_units f pi) = pi_Paths pi" "pi_Audits (rename_units f pi) = pi_Audits pi"
    "pi_ScopeDigest (rename_units f pi) = pi_ScopeDigest pi" by (simp_all add: rename_units_def)
  ultimately show ?thesis by (simp add: verifyIdentityBinding_def ReviewPlanIdentityV1_rename)
qed

lemma unread_fields:
  "verifyLoadedCheckArtifacts H (a\<lparr>art_Plan := (art_Plan a)\<lparr>pn_Stats := stats, pn_AttentionSignals := signals\<rparr>,
     art_PlanIdentity := rename_units f (art_PlanIdentity a)\<rparr>) = verifyLoadedCheckArtifacts H a"
proof -
  let ?p = "(art_Plan a)\<lparr>pn_Stats := stats, pn_AttentionSignals := signals\<rparr>"
  have "Plan_validate ?p = Plan_validate (art_Plan a)" by (simp add: Plan_validate_def)
  moreover have "validatePlanAuditManifest ?p = validatePlanAuditManifest (art_Plan a)" by (simp add: validatePlanAuditManifest_def)
  moreover have "verifyArtifactIntegrity H ?p rs (rename_units f pi) bytes sig ms = verifyArtifactIntegrity H (art_Plan a) rs pi bytes sig ms"
    for rs pi bytes sig ms
  proof -
    have "pi_HeadIndexSignature (rename_units f pi) = pi_HeadIndexSignature pi" by (simp add: rename_units_def)
    moreover have "verifyIdentityBinding H ?p rs pi bytes = verifyIdentityBinding H (art_Plan a) rs pi bytes"
      by (simp add: verifyIdentityBinding_def bind_cohorts_def flat_cohorts_def)
    moreover have "check_mandatory ?p ms = check_mandatory (art_Plan a) ms"
      by (intro ext) (simp add: check_mandatory_def primary_index_def split: option.split)
    then have "validateMandatoryUnits ?p ms = validateMandatoryUnits (art_Plan a) ms"
      by (simp add: validateMandatoryUnits_def)
    ultimately show ?thesis by (simp add: verifyArtifactIntegrity_def verifyIdentityBinding_rename)
  qed
  moreover have "addPlanToRegistry m H ?p cs us ms rs d = addPlanToRegistry m H (art_Plan a) cs us ms rs d" for m cs us ms rs d
    by (simp add: addPlanToRegistry_def collectPlanIDs_def plan_uses_def)
  ultimately show ?thesis by (simp add: verifyLoadedCheckArtifacts_def Let_def ReviewPlanIdentityV1_rename)
qed

text \<open>The inputs that are hashed for the demonstration plan are told apart by their lengths.\<close>

lemma demo_frame_lengths:
  "length (frame (PathID_fields H s sample_record)) = 711"
  "length (frame (HunkID_fields H s p sample_hunk)) = 402"
  "length (frame (UnitID_fields ''hunks'' [demo_hunk H])) = 82"
  "length (frame (CohortID_fields s ''x'' [demo_unit H])) = 126"
  "length (frame (LayerID_fields c 0 [demo_unit H])) = 136"
  "length (record_frame H sample_record) = 648"
  using sample_id_lengths [where w = "''x''"] sample_id_lengths [where w = "''+a''"] sample_updates
    sample_lengths(2) [where w = "''x''"]
  by (simp_all add: UnitID_fields_def CohortID_fields_def LayerID_fields_def fullDigestList_def codec_simps u64_bytes_def)

lemma demo_hashed:
  "set (hashed_inputs H (demo_artifacts H)) = {ReviewPlanIdentityV1 (demo_identity H),
     ScopeIdentityV1 (sc_ObjectFormat sample_scope) (sc_Base sample_scope) (sc_Head sample_scope) (sc_Kind sample_scope)
       (H (FrameList [record_frame H sample_record])),
     frame (PathID_fields H (demo_digest H) sample_record),
     frame (HunkID_fields H (demo_digest H) (Full (demo_path H)) sample_hunk),
     frame (UnitID_fields ''hunks'' [demo_hunk H]), frame (CohortID_fields (demo_digest H) ''x'' [demo_unit H]),
     frame (LayerID_fields (demo_cohort H) 0 [demo_unit H])}"
proof -
  have "path_rows (demo_artifacts H) = [((''x'', [], ''A''), record_frame H sample_record)]"
    using demo_bound_path [of H] by (simp add: path_rows_def demo_artifacts_def) (simp add: demo_identity_def demo_plan_def)
  then have "scope_input H (pn_Scope (art_Plan (demo_artifacts H))) (path_rows (demo_artifacts H)) =
      ScopeIdentityV1 (sc_ObjectFormat sample_scope) (sc_Base sample_scope) (sc_Head sample_scope) (sc_Kind sample_scope)
       (H (FrameList [record_frame H sample_record]))"
    by (simp add: scope_input_def) (simp add: demo_artifacts_def demo_plan_def)
  moreover have "hunk_input H (demo_records H) (demo_digest H) (hd (ru_Hunks (demo_review_unit H))) =
      frame (HunkID_fields H (demo_digest H) (Full (demo_path H)) sample_hunk)"
    by (simp add: hunk_input_def fullOf_def demo_record_def demo_review_unit_def raw_of_unit_hunk_def sample_hunk_def
        del: b64_encode.simps)
  ultimately show ?thesis
    unfolding hashed_inputs_def Let_def
    by (simp add: demo_artifacts_def) (auto simp: demo_identity_def demo_plan_def demo_records_def demo_record_def demo_review_unit_def)
qed

lemma demo_identity_length: "length (ReviewPlanIdentityV1 (demo_identity H)) = 1670"
  by (simp add: ReviewPlanIdentityV1_def ReviewPlanIdentity_fields_def item_fields_defs demo_identity_def codec_simps
      demo_audit_targets_def RequiredAuditsV1_def fullDigestList_def stringList_def digestList_def u64_bytes_def)

lemma demo_scope_length: "length (ScopeIdentityV1 (sc_ObjectFormat sample_scope) (sc_Base sample_scope) (sc_Head sample_scope)
    (sc_Kind sample_scope) d) = 275"
  by (simp add: ScopeIdentityV1_def ScopeIdentity_fields_def sample_scope_def side_frame_def side_frame_fields_def codec_simps)

lemma demo_collision_free:
  "inj_on length_hash (set (hashed_inputs length_hash (demo_artifacts length_hash)))"
  "\<forall>x\<in>set (hashed_inputs H (demo_artifacts H)). length x < 2 ^ 16"
proof -
  show small: "\<forall>x\<in>set (hashed_inputs H (demo_artifacts H)). length x < 2 ^ 16" for H
    unfolding demo_hashed by (simp add: demo_frame_lengths demo_identity_length demo_scope_length del: length_frame)
  have "x = y" if "x \<in> set (hashed_inputs length_hash (demo_artifacts length_hash))"
      "y \<in> set (hashed_inputs length_hash (demo_artifacts length_hash))" "length x = length y" for x y
    using that unfolding demo_hashed
    by (auto simp: demo_frame_lengths demo_identity_length demo_scope_length simp del: length_frame)
  then show "inj_on length_hash (set (hashed_inputs length_hash (demo_artifacts length_hash)))"
    using small length_hash_inject by (intro inj_onI) blast
qed

text \<open>A bundle that differs in fields that are not bound.\<close>

definition demo_variant :: "(bytes \<Rightarrow> digest) \<Rightarrow> unit plan_artifacts" where
  "demo_variant H = (demo_artifacts H)\<lparr>art_Plan := (art_Plan (demo_artifacts H))\<lparr>
       pn_Stats := (pn_Stats (demo_plan H))\<lparr>ps_RawChurn := 7\<rparr>, pn_AttentionSignals := []\<rparr>,
     art_PlanIdentity := rename_units (\<lambda>_. ''u_0'') (art_PlanIdentity (demo_artifacts H))\<rparr>"

lemma demo_variant_hashed: "hashed_inputs H (demo_variant H) = hashed_inputs H (demo_artifacts H)"
proof -
  have "path_rows (demo_variant H) = path_rows (demo_artifacts H)"
    by (simp add: path_rows_def demo_variant_def rename_units_def)
  then show ?thesis
    by (simp add: hashed_inputs_def Let_def) (simp add: demo_variant_def ReviewPlanIdentityV1_rename, simp add: rename_units_def)
qed

lemma accepted_plans_agree_witness:
  "art_Plan (demo_artifacts length_hash) \<noteq> art_Plan (demo_variant length_hash) \<and>
   plan_content (art_Plan (demo_artifacts length_hash)) = plan_content (art_Plan (demo_variant length_hash))"
proof -
  have "verifyLoadedCheckArtifacts length_hash (demo_variant length_hash) = Inr ()"
    unfolding demo_variant_def unread_fields by (rule demo_accepted)
  moreover have "pn_PlanDigest (art_Plan (demo_artifacts length_hash)) = pn_PlanDigest (art_Plan (demo_variant length_hash))"
    by (simp add: demo_variant_def)
  moreover have "\<forall>x\<in>set (hashed_inputs length_hash (demo_artifacts length_hash)). length x < 2 ^ 64"
    using demo_collision_free(2) by fastforce
  moreover have "ps_RawChurn (pn_Stats (art_Plan (demo_artifacts length_hash))) \<noteq> ps_RawChurn (pn_Stats (art_Plan (demo_variant length_hash)))"
    by (simp add: demo_artifacts_def demo_variant_def demo_plan_def)
  ultimately show ?thesis
    using accepted_plans_agree [OF demo_accepted, of length_hash "demo_variant length_hash"] demo_collision_free(1)
    unfolding demo_variant_hashed Un_absorb by metis
qed

text \<open>
  C40: the public names by which the persisted identity refers to its units are not bound.  Renaming them in an
  accepted bundle, to names that no unit of the plan has, leaves it accepted under the same digest, but the
  validator, which looks up the hunks of a unit under these names, then owes every unit the empty set of
  hunks, so that a receipt that acknowledges nothing covers it.
\<close>

theorem unit_names_unbound:
  assumes "verifyLoadedCheckArtifacts H a = Inr ()"
    and "b = a\<lparr>art_PlanIdentity := rename_units f (art_PlanIdentity a)\<rparr>"
    and "\<forall>i. f i \<notin> set (map ru_UnitID (pn_PrimaryUnits (art_Plan a)))"
  shows "verifyLoadedCheckArtifacts H b = Inr () \<and>
    (\<forall>v. newReportValidator H b = Inr v \<longrightarrow>
       (\<forall>u\<in>set (pn_PrimaryUnits (art_Plan a)). rv_units v (ru_UnitID u) = Some {}))"
proof -
  have same: "b = a\<lparr>art_Plan := (art_Plan a)\<lparr>pn_Stats := pn_Stats (art_Plan a), pn_AttentionSignals := pn_AttentionSignals (art_Plan a)\<rparr>,
      art_PlanIdentity := rename_units f (art_PlanIdentity a)\<rparr>"
    unfolding assms(2) by simp
  have "verifyLoadedCheckArtifacts H b = Inr ()" unfolding same unread_fields by (rule assms(1))
  moreover have "rv_units v (ru_UnitID u) = Some {}"
    if v: "newReportValidator H b = Inr v" and u: "u \<in> set (pn_PrimaryUnits (art_Plan a))" for v u
  proof -
    have "f i \<noteq> ru_UnitID u" for i using assms(3) u by (metis image_eqI set_map)
    then have "ru_UnitID u \<notin> set (map (\<lambda>e. Public (pue_UnitID e)) (pi_Units (art_PlanIdentity b)))"
      by (auto simp: assms(2) rename_units_def dest: sym)
    then have "unit_identity (art_PlanIdentity b) (ru_UnitID u) = []"
      by (simp add: unit_identity_def map_of_eq_None_iff [THEN iffD2] image_image)
    moreover have "art_Plan b = art_Plan a" by (simp add: assms(2))
    ultimately show ?thesis using newReportValidator_Inr(1) [OF v] u by simp
  qed
  ultimately show ?thesis by blast
qed

lemma unit_names_unbound_witness:
  "verifyLoadedCheckArtifacts length_hash
     ((demo_artifacts length_hash)\<lparr>art_PlanIdentity := rename_units (\<lambda>_. ''u_0'') (art_PlanIdentity (demo_artifacts length_hash))\<rparr>) = Inr ()"
proof -
  have "length (Public (demo_unit length_hash)) = 34" by (simp add: demo_public)
  then have "Public (demo_unit length_hash) \<noteq> ''u_0''" by auto
  then have new: "\<forall>i::stable_id. ''u_0'' \<notin> set (map ru_UnitID (pn_PrimaryUnits (art_Plan (demo_artifacts length_hash))))"
    by (simp add: demo_artifacts_def demo_plan_def demo_review_unit_def)
  show ?thesis using unit_names_unbound [OF demo_accepted refl new] by blast
qed

end
