(* ===== verification/Transaction.thy ===== *)
theory Transaction
  imports Demo
begin

text \<open>
  \<open>Service.Plan\<close> of \<open>internal/review/service.go\<close>: the transaction that captures, plans and persists.  A
  committed scope is captured once.  A work tree can change while it is read, so its plan is persisted
  only when a second capture and a second index refresh after planning agree with the first ones; one
  retry is allowed, then the request is stale.

  The functions the service calls (capture, refresh, head view, planner, store) change the world
  around it, so each takes the state of that world and returns the next one.  Views and leases are
  opaque; a view that was opened is not nil and is closed once.  \<open>te_assemble\<close> is the field
  \<open>assemble\<close> of the Go service, and \<open>te_meta\<close> reads \<open>cli_sig\<close> from the store of a view that has one.
\<close>

section \<open>The environment\<close>

record ('s, 'v, 'l, 'c) plan_env =
  te_root :: string
  te_configured :: bool
  te_H :: "bytes \<Rightarrow> digest"
  te_sprint :: "gerror \<Rightarrow> string"
  te_resolve :: "plan_request \<Rightarrow> 's \<Rightarrow> scope result \<times> 's"
  te_capture :: "scope \<Rightarrow> 's \<Rightarrow> capture result \<times> 's"
  te_refresh :: "('s \<Rightarrow> string result \<times> 's) option"
  te_open :: "scope \<Rightarrow> 'l option \<Rightarrow> 's \<Rightarrow> 'v result \<times> 's"
  te_meta :: "'v \<Rightarrow> ('s \<Rightarrow> string result \<times> 's) option"
  te_omissions :: "'v \<Rightarrow> omission list"
  te_close_view :: "'v \<Rightarrow> 's \<Rightarrow> gerror option \<times> 's"
  te_assemble :: "capture \<Rightarrow> 'v \<Rightarrow> string \<Rightarrow> bool \<Rightarrow> 's \<Rightarrow> 'c plan_artifacts result \<times> 's"
  te_acquire :: "'s \<Rightarrow> unit result \<times> 's"
  te_close_store :: "'s \<Rightarrow> gerror option \<times> 's"
  te_lease :: "'s \<Rightarrow> 'l result \<times> 's"
  te_release :: "'l \<Rightarrow> 's \<Rightarrow> gerror option \<times> 's"
  te_save :: "'c plan_artifacts \<Rightarrow> 'l \<Rightarrow> 's \<Rightarrow> gerror option result \<times> 's"

definition ErrReuseUnavailable :: gerror where
  "ErrReuseUnavailable = err ''review: index reuse is not eligible and no head tree-ish is available''"

text \<open>
  What a call returns beside the plan: an error of a callee, \<open>StaleError\<close>, \<open>PruneWarning\<close> (which accompanies
  a plan that was saved), or what \<open>errors.Join\<close> makes of several.
\<close>

datatype plan_failure =
    PlanFailed gerror | PlanStale string | PruneWarning string gerror | PlanJoined "plan_failure list"

definition joinFailures :: "plan_failure option \<Rightarrow> gerror option \<Rightarrow> plan_failure option" where
  "joinFailures e e' = (case (e, e') of
       (None, None) \<Rightarrow> None
     | (Some f, None) \<Rightarrow> Some (PlanJoined [f])
     | (None, Some c) \<Rightarrow> Some (PlanJoined [PlanFailed c])
     | (Some f, Some c) \<Rightarrow> Some (PlanJoined [f, PlanFailed c]))"

text \<open>The zero plan that accompanies an error is \<open>None\<close>.\<close>

type_synonym plan_return = "plan option \<times> plan_failure option"
type_synonym ('s, 'a) step = "'s \<Rightarrow> (plan_failure + 'a) \<times> 's"

definition bindA :: "(gerror + 'a) \<times> 's \<Rightarrow> (gerror \<Rightarrow> 's \<Rightarrow> 'r) \<Rightarrow> ('a \<Rightarrow> 's \<Rightarrow> 'r) \<Rightarrow> 'r" where
  "bindA outcome failed continue = (case outcome of (Inl e, s) \<Rightarrow> failed e s | (Inr x, s) \<Rightarrow> continue x s)"

definition giveUp :: "gerror \<Rightarrow> 's \<Rightarrow> plan_return \<times> 's" where
  "giveUp e s = ((None, Some (PlanFailed e)), s)"

text \<open>\<open>defer func() { err = errors.Join(err, release()) }()\<close> around a body.\<close>

definition deferring :: "('s \<Rightarrow> gerror option \<times> 's) \<Rightarrow> plan_return \<times> 's \<Rightarrow> plan_return \<times> 's" where
  "deferring release returned = (case returned of ((p, e), s) \<Rightarrow>
     (case release s of (e', s') \<Rightarrow> ((p, joinFailures e e'), s')))"

section \<open>Persisting\<close>

definition with_store ::
    "('s, 'v, 'l, 'c) plan_env \<Rightarrow> ('l \<Rightarrow> 's \<Rightarrow> plan_return \<times> 's) \<Rightarrow> 's \<Rightarrow> plan_return \<times> 's" where
  "with_store en body s = bindA (te_acquire en s) giveUp (\<lambda>_ s.
     deferring (te_close_store en) (bindA (te_lease en s) giveUp (\<lambda>l s.
       deferring (te_release en l) (body l s))))"

definition save_plan ::
    "('s, 'v, 'l, 'c) plan_env \<Rightarrow> 'c plan_artifacts \<Rightarrow> 'l \<Rightarrow> 's \<Rightarrow> plan_return \<times> 's" where
  "save_plan en a l s = bindA (te_save en a l s) giveUp (\<lambda>warning s. (case warning of
       None \<Rightarrow> ((Some (art_Plan a), None), s)
     | Some e \<Rightarrow> ((Some (art_Plan a), Some (PruneWarning (pn_ReviewID (art_Plan a)) e)), s)))"

definition persistWorkspace :: "('s, 'v, 'l, 'c) plan_env \<Rightarrow> 'c plan_artifacts \<Rightarrow> 's \<Rightarrow> plan_return \<times> 's" where
  "persistWorkspace en a s = with_store en (save_plan en a) s"

section \<open>Committed scopes\<close>

definition publishedViewSignature :: "('s, 'v, 'l, 'c) plan_env \<Rightarrow> 'v \<Rightarrow> 's \<Rightarrow> string result \<times> 's" where
  "publishedViewSignature en v s = (case te_meta en v of
       None \<Rightarrow> (Inr [], s)
     | Some read \<Rightarrow> bindA (read s)
         (\<lambda>e s. (Inl (Err ''review: read published head index signature: %w'' [AWrap e]), s)) (\<lambda>sig s. (Inr sig, s)))"

definition commit_body ::
    "('s, 'v, 'l, 'c) plan_env \<Rightarrow> bool \<Rightarrow> capture \<Rightarrow> 'l \<Rightarrow> 's \<Rightarrow> plan_return \<times> 's" where
  "commit_body en force cp l s = bindA (te_open en (cp_Scope cp) (Some l) s) giveUp (\<lambda>v s.
     deferring (te_close_view en v)
      (bindA (publishedViewSignature en v s) giveUp (\<lambda>sig s.
       bindA (te_assemble en cp v sig force s) giveUp (\<lambda>a s.
         case validateSnapshotOmissions (art_Plan a) (relevantSnapshotOmissions (art_Plan a) (te_omissions en v)) of
           Inl e \<Rightarrow> giveUp e s
         | Inr _ \<Rightarrow> save_plan en a l s))))"

definition planCommitted :: "('s, 'v, 'l, 'c) plan_env \<Rightarrow> plan_request \<Rightarrow> 's \<Rightarrow> plan_return \<times> 's" where
  "planCommitted en rq s = bindA (te_resolve en rq s) giveUp (\<lambda>sc s.
     bindA (te_capture en sc s) giveUp (\<lambda>cp s.
       with_store en (commit_body en (pr_ForceStructured rq) cp) s))"

section \<open>Work trees\<close>

text \<open>How one round of the loop ends: with a mismatch, a failure, or artifacts to persist.\<close>

datatype 'c attempt = Mismatch string | Failure plan_failure | Accepted "'c plan_artifacts"

definition failAttempt :: "gerror \<Rightarrow> 's \<Rightarrow> 'c attempt \<times> 's" where
  "failAttempt e s = (Failure (PlanFailed e), s)"

definition mismatchIf ::
    "('s, 'v, 'l, 'c) plan_env \<Rightarrow> (gerror \<Rightarrow> bool) \<Rightarrow> gerror \<Rightarrow> 's \<Rightarrow> 'c attempt \<times> 's" where
  "mismatchIf en test e s = (if test e then (Mismatch (te_sprint en e), s) else failAttempt e s)"

text \<open>\<open>return Plan{}, errors.Join(err, closeHeadView(view))\<close>\<close>

definition failClosing :: "('s, 'v, 'l, 'c) plan_env \<Rightarrow> 'v \<Rightarrow> gerror \<Rightarrow> 's \<Rightarrow> 'c attempt \<times> 's" where
  "failClosing en v e s = (case te_close_view en v s of (closing, s) \<Rightarrow>
     (Failure (the (joinFailures (Some (PlanFailed e)) closing)), s))"

definition stamp_workspace :: "('s, 'v, 'l, 'c) plan_env \<Rightarrow> capture \<Rightarrow> 'c plan_artifacts \<Rightarrow> 'c plan_artifacts" where
  "stamp_workspace en cp a = a\<lparr>art_WorkspaceFingerprint := hex_encode (side_Value (sc_Head (cp_Scope cp))),
     art_WorkspaceCaptureFingerprint := canonicalCaptureFingerprint (te_H en) cp\<rparr>"

text \<open>The second half of a round: capture again, refresh again, close the view and compare.\<close>

definition compare_captures ::
    "('s, 'v, 'l, 'c) plan_env \<Rightarrow> capture \<Rightarrow> string \<Rightarrow> 'c plan_artifacts \<Rightarrow> capture result \<Rightarrow> string \<Rightarrow> 'c attempt" where
  "compare_captures en first sig1 a second sig2 = (case second of
       Inl e \<Rightarrow> Mismatch (te_sprint en e)
     | Inr second \<Rightarrow>
         if \<not> sameCapture (te_H en) first second then Mismatch ''capture fingerprints differ''
         else if sig1 \<noteq> sig2 then Mismatch ''published index signatures differ''
         else Accepted (stamp_workspace en second a))"

definition confirm ::
    "('s, 'v, 'l, 'c) plan_env \<Rightarrow> ('s \<Rightarrow> string result \<times> 's) \<Rightarrow> capture \<Rightarrow> 'v \<Rightarrow> string \<Rightarrow> 'c plan_artifacts \<Rightarrow>
     capture result \<Rightarrow> 's \<Rightarrow> 'c attempt \<times> 's" where
  "confirm en refresh first v sig1 a second s =
     (case refresh s of (sig2, s) \<Rightarrow> (case te_close_view en v s of (closing, s) \<Rightarrow>
       (case sig2 of
          Inl e \<Rightarrow> (Failure (the (joinFailures (Some (PlanFailed e)) closing)), s)
        | Inr sig2 \<Rightarrow> (case closing of
            Some e \<Rightarrow> failAttempt e s
          | None \<Rightarrow> (compare_captures en first sig1 a second sig2, s)))))"

definition recapture ::
    "('s, 'v, 'l, 'c) plan_env \<Rightarrow> ('s \<Rightarrow> string result \<times> 's) \<Rightarrow> capture \<Rightarrow> 'v \<Rightarrow> string \<Rightarrow> 'c plan_artifacts \<Rightarrow> 's \<Rightarrow>
     'c attempt \<times> 's" where
  "recapture en refresh first v sig1 a s = (case te_capture en (cp_Scope first) s of (second, s) \<Rightarrow>
     (case second of
        Inl e \<Rightarrow> if isCaptureMismatch e then confirm en refresh first v sig1 a second s else failClosing en v e s
      | Inr _ \<Rightarrow> confirm en refresh first v sig1 a second s))"

text \<open>One round.\<close>

definition plan_attempt ::
    "('s, 'v, 'l, 'c) plan_env \<Rightarrow> ('s \<Rightarrow> string result \<times> 's) \<Rightarrow> plan_request \<Rightarrow> 's \<Rightarrow> 'c attempt \<times> 's" where
  "plan_attempt en refresh rq s =
     bindA (te_resolve en rq s) failAttempt (\<lambda>sc s.
     bindA (te_capture en sc s) (mismatchIf en isCaptureMismatch) (\<lambda>first s.
     bindA (refresh s) failAttempt (\<lambda>sig1 s.
     bindA (te_open en (cp_Scope first) None s) (mismatchIf en (\<lambda>e. errors_is e ErrReuseUnavailable)) (\<lambda>v s.
     bindA (te_assemble en first v sig1 (pr_ForceStructured rq) s) (failClosing en v)
       (recapture en refresh first v sig1)))))"

text \<open>The loop, with the number of rounds left and the last mismatch.\<close>

primrec plan_attempts ::
    "('s, 'v, 'l, 'c) plan_env \<Rightarrow> ('s \<Rightarrow> string result \<times> 's) \<Rightarrow> plan_request \<Rightarrow> nat \<Rightarrow> string \<Rightarrow> 's \<Rightarrow>
     plan_return \<times> 's" where
  "plan_attempts en refresh rq 0 mismatch s = ((None, Some (PlanStale mismatch)), s)"
| "plan_attempts en refresh rq (Suc n) mismatch s = (case plan_attempt en refresh rq s of
       (Mismatch reason, s) \<Rightarrow> plan_attempts en refresh rq n reason s
     | (Failure e, s) \<Rightarrow> ((None, Some e), s)
     | (Accepted a, s) \<Rightarrow> persistWorkspace en a s)"

definition planWorkspace :: "('s, 'v, 'l, 'c) plan_env \<Rightarrow> plan_request \<Rightarrow> 's \<Rightarrow> plan_return \<times> 's" where
  "planWorkspace en rq s = (case te_refresh en of
       None \<Rightarrow> giveUp (err ''review: workspace plan requires Refresh'') s
     | Some refresh \<Rightarrow> plan_attempts en refresh rq 2 [] s)"

section \<open>Plan\<close>

definition readyForPlan :: "('s, 'v, 'l, 'c) plan_env \<Rightarrow> unit result" where
  "readyForPlan en = allOf [
     failIf (TrimSpace (te_root en) = []) (err ''review: service requires Root''),
     failIf (\<not> te_configured en) (err ''review: service is incompletely configured'')]"

definition Plan :: "('s, 'v, 'l, 'c) plan_env \<Rightarrow> plan_request \<Rightarrow> 's \<Rightarrow> plan_return \<times> 's" where
  "Plan en rq s = (case seqE (request_validate rq) (readyForPlan en) of
       Inl e \<Rightarrow> giveUp e s
     | Inr _ \<Rightarrow> if request_kind rq = ScopeWorkspace then planWorkspace en rq s else planCommitted en rq s)"

section \<open>What a round establishes\<close>

text \<open>
  The specification of a round that may be persisted: two captures of the same scope, taken before and
  after planning, are the same; both refreshes publish the same index; the artifacts carry the fingerprints
  of the second capture.
\<close>

definition stable_round ::
    "('s, 'v, 'l, 'c) plan_env \<Rightarrow> plan_request \<Rightarrow> 's \<Rightarrow> 'c plan_artifacts \<Rightarrow> 's \<Rightarrow> bool" where
  "stable_round en rq s a s' \<longleftrightarrow> (\<exists>refresh sc first sig v a0 second s1 s2 s3 s4 s5 s6 s7.
     te_refresh en = Some refresh \<and> te_resolve en rq s = (Inr sc, s1) \<and> te_capture en sc s1 = (Inr first, s2) \<and>
     refresh s2 = (Inr sig, s3) \<and> te_open en (cp_Scope first) None s3 = (Inr v, s4) \<and>
     te_assemble en first v sig (pr_ForceStructured rq) s4 = (Inr a0, s5) \<and>
     te_capture en (cp_Scope first) s5 = (Inr second, s6) \<and> refresh s6 = (Inr sig, s7) \<and>
     te_close_view en v s7 = (None, s') \<and> sameCapture (te_H en) first second \<and> a = stamp_workspace en second a0)"

text \<open>For a committed scope: one capture, and every file the snapshot left out is accounted for in the plan.\<close>

definition committed_round :: "('s, 'v, 'l, 'c) plan_env \<Rightarrow> plan_request \<Rightarrow> 'c plan_artifacts \<Rightarrow> bool" where
  "committed_round en rq a \<longleftrightarrow> (\<exists>sc cp l v sig s1 s2 s3 s4 s5 s6 s7 s8.
     te_resolve en rq s1 = (Inr sc, s2) \<and> te_capture en sc s2 = (Inr cp, s3) \<and> te_lease en s4 = (Inr l, s5) \<and>
     te_open en (cp_Scope cp) (Some l) s5 = (Inr v, s6) \<and> publishedViewSignature en v s6 = (Inr sig, s7) \<and>
     te_assemble en cp v sig (pr_ForceStructured rq) s7 = (Inr a, s8) \<and>
     validateSnapshotOmissions (art_Plan a) (relevantSnapshotOmissions (art_Plan a) (te_omissions en v)) = Inr () \<and>
     te_acquire en s3 = (Inr (), s4))"

definition justified_plan :: "('s, 'v, 'l, 'c) plan_env \<Rightarrow> plan_request \<Rightarrow> 'c plan_artifacts \<Rightarrow> bool" where
  "justified_plan en rq a \<longleftrightarrow> (if request_kind rq = ScopeWorkspace then \<exists>s s'. stable_round en rq s a s'
     else committed_round en rq a)"

lemma bindA_simps [simp]: "bindA (Inl e, s) f g = f e s" "bindA (Inr x, s) f g = g x s"
  by (simp_all add: bindA_def)

lemma bindA_cases:
  obtains e s where "m = (Inl e, s)" "bindA m f g = f e s" | x s where "m = (Inr x, s)" "bindA m f g = g x s"
  by (cases m; cases "fst m") auto

lemma bindA_split: "P (bindA m f g) \<longleftrightarrow> (\<forall>e s. m = (Inl e, s) \<longrightarrow> P (f e s)) \<and> (\<forall>x s. m = (Inr x, s) \<longrightarrow> P (g x s))"
  by (auto simp: bindA_def split: prod.splits sum.splits)

lemma bindA_eq: "bindA m f g = r \<longleftrightarrow> (\<exists>e s. m = (Inl e, s) \<and> f e s = r) \<or> (\<exists>x s. m = (Inr x, s) \<and> g x s = r)"
  by (auto simp: bindA_def split: prod.splits sum.splits)

lemma confirm_Accepted:
  "confirm en refresh first v sig a0 second s = (Accepted a, s') \<longleftrightarrow>
     (\<exists>second' t. second = Inr second' \<and> refresh s = (Inr sig, t) \<and> te_close_view en v t = (None, s') \<and>
       sameCapture (te_H en) first second' \<and> a = stamp_workspace en second' a0)"
  by (auto simp: confirm_def compare_captures_def failAttempt_def split: prod.splits sum.splits option.splits if_splits)

lemma failClosing_not_Accepted [simp]: "failClosing en v e s \<noteq> (Accepted a, s')"
  by (simp add: failClosing_def split: prod.splits)

lemma recapture_Accepted:
  "recapture en refresh first v sig a0 s = (Accepted a, s') \<longleftrightarrow>
     (\<exists>second t. te_capture en (cp_Scope first) s = (Inr second, t) \<and>
        confirm en refresh first v sig a0 (Inr second) t = (Accepted a, s'))"
  by (auto simp: recapture_def confirm_Accepted split: prod.splits sum.splits if_splits)

lemma plan_attempt_Accepted:
  assumes "te_refresh en = Some refresh"
  shows "plan_attempt en refresh rq s = (Accepted a, s') \<longleftrightarrow> stable_round en rq s a s'"
  unfolding plan_attempt_def stable_round_def
  by (auto simp: assms bindA_eq failAttempt_def mismatchIf_def recapture_Accepted confirm_Accepted
      split: prod.splits if_splits)

section \<open>A world to run in\<close>

text \<open>
  A world that counts captures and lists the reviews that were saved.  Its work tree moves under the
  first capture and stands still from then on.
\<close>

definition tx_request :: plan_request where
  "tx_request = \<lparr>pr_Commit = [], pr_Base = [], pr_Head = [], pr_ForceStructured = False\<rparr>"

definition tx_capture :: capture where
  "tx_capture = \<lparr>cp_Scope = sample_scope, cp_Paths = [sample_record], cp_RawAdditions = 1, cp_RawDeletions = 0,
     cp_RawChurn = 1, cp_ReviewableChurn = 1, cp_ChangedPaths = 1, cp_CanonicalPatch = 0\<rparr>"

definition tx_env :: "(nat \<times> string list, unit, unit, unit) plan_env" where
  "tx_env = \<lparr>te_root = ''/r'', te_configured = True, te_H = length_hash, te_sprint = (\<lambda>e. ''moved''),
     te_resolve = (\<lambda>rq s. (Inr sample_scope, s)),
     te_capture = (\<lambda>sc (n, saves). (if n = 0 then Inl ErrHeadMoved else Inr tx_capture, (Suc n, saves))),
     te_refresh = Some (\<lambda>s. (Inr ''sig'', s)), te_open = (\<lambda>sc l s. (Inr (), s)), te_meta = (\<lambda>v. None),
     te_omissions = (\<lambda>v. []), te_close_view = (\<lambda>v s. (None, s)),
     te_assemble = (\<lambda>cp v sig force s. (Inr (demo_artifacts length_hash), s)),
     te_acquire = (\<lambda>s. (Inr (), s)), te_close_store = (\<lambda>s. (None, s)), te_lease = (\<lambda>s. (Inr (), s)),
     te_release = (\<lambda>l s. (None, s)),
     te_save = (\<lambda>a l (n, saves). (Inr None, (n, pn_ReviewID (art_Plan a) # saves)))\<rparr>"

lemma tx_ready: "readyForPlan tx_env = Inr ()" "request_validate tx_request = Inr ()" "request_kind tx_request = ScopeWorkspace"
proof -
  have "TrimSpace (te_root tx_env) = ''/r''" by (simp add: tx_env_def) code_simp
  then show "readyForPlan tx_env = Inr ()" by (simp add: readyForPlan_def tx_env_def)
qed (simp_all add: tx_request_def request_validate_def request_kind_def)

lemma tx_first: "plan_attempt tx_env (\<lambda>s. (Inr ''sig'', s)) tx_request (0, []) = (Mismatch ''moved'', (1, []))"
  by (simp add: plan_attempt_def tx_env_def mismatchIf_def isCaptureMismatch_def)

section \<open>The store is only written by an accepted transaction\<close>

text \<open>A property of the world, for instance what the store holds, that no call but \<open>Save\<close> changes.\<close>

definition quiet :: "('s, 'v, 'l, 'c) plan_env \<Rightarrow> ('s \<Rightarrow> bool) \<Rightarrow> bool" where
  "quiet en P \<longleftrightarrow> (\<forall>s. P s \<longrightarrow>
     (\<forall>rq. P (snd (te_resolve en rq s))) \<and> (\<forall>sc. P (snd (te_capture en sc s))) \<and>
     (\<forall>refresh. te_refresh en = Some refresh \<longrightarrow> P (snd (refresh s))) \<and>
     (\<forall>sc l. P (snd (te_open en sc l s))) \<and> (\<forall>v read. te_meta en v = Some read \<longrightarrow> P (snd (read s))) \<and>
     (\<forall>v. P (snd (te_close_view en v s))) \<and> (\<forall>cp v sig force. P (snd (te_assemble en cp v sig force s))) \<and>
     P (snd (te_acquire en s)) \<and> P (snd (te_close_store en s)) \<and> P (snd (te_lease en s)) \<and>
     (\<forall>l. P (snd (te_release en l s))))"

lemma quietD:
  assumes "quiet en P"
  shows "te_resolve en rq s = (r1, s') \<Longrightarrow> P s \<Longrightarrow> P s'" "te_capture en sc s = (r2, s') \<Longrightarrow> P s \<Longrightarrow> P s'"
    "refresh s = (r3, s') \<Longrightarrow> te_refresh en = Some refresh \<Longrightarrow> P s \<Longrightarrow> P s'" "te_open en sc l s = (r4, s') \<Longrightarrow> P s \<Longrightarrow> P s'"
    "read s = (r3, s') \<Longrightarrow> te_meta en v = Some read \<Longrightarrow> P s \<Longrightarrow> P s'" "te_close_view en v s = (e, s') \<Longrightarrow> P s \<Longrightarrow> P s'"
    "te_assemble en cp v sig force s = (r5, s') \<Longrightarrow> P s \<Longrightarrow> P s'" "te_acquire en s = (r6, s') \<Longrightarrow> P s \<Longrightarrow> P s'"
    "te_close_store en s = (e, s') \<Longrightarrow> P s \<Longrightarrow> P s'" "te_lease en s = (r7, s') \<Longrightarrow> P s \<Longrightarrow> P s'"
    "te_release en l' s = (e, s') \<Longrightarrow> P s \<Longrightarrow> P s'"
  using assms unfolding quiet_def by (metis snd_conv)+

lemma failClosing_quiet: "failClosing en v e s = (at, s') \<Longrightarrow> quiet en P \<Longrightarrow> P s \<Longrightarrow> P s'"
  by (auto simp: failClosing_def split: prod.splits intro: quietD(6))

lemma confirm_quiet:
  assumes q: "quiet en P" "te_refresh en = Some refresh" and "confirm en refresh first v sig a second s = (at, s')" "P s"
  shows "P s'"
  using assms(3,4) by (auto simp: confirm_def failAttempt_def split: prod.splits sum.splits option.splits
      intro: quietD(3) [OF q(1) _ q(2)] quietD(6) [OF q(1)])

lemma recapture_quiet:
  assumes q: "quiet en P" "te_refresh en = Some refresh" and "recapture en refresh first v sig a s = (at, s')" "P s"
  shows "P s'"
  using assms(3,4) by (auto simp: recapture_def split: prod.splits sum.splits if_splits
      intro: confirm_quiet [OF q] failClosing_quiet [OF _ q(1)] quietD(2) [OF q(1)])

lemma bindA_keeps:
  assumes "bindA m f g = (r, s')" and "\<And>x t. m = (x, t) \<Longrightarrow> P t"
    and "\<And>e t. f e t = (r, s') \<Longrightarrow> P t \<Longrightarrow> P s'" and "\<And>x t. g x t = (r, s') \<Longrightarrow> P t \<Longrightarrow> P s'"
  shows "P s'"
  using assms by (auto simp: bindA_eq)

lemma failing_keeps: "failAttempt e s = (at, s') \<Longrightarrow> P s \<Longrightarrow> P s'" "mismatchIf en test e s = (at, s') \<Longrightarrow> P s \<Longrightarrow> P s'"
  by (auto simp: failAttempt_def mismatchIf_def split: if_splits)

lemma plan_attempt_quiet:
  assumes q: "quiet en P" "te_refresh en = Some refresh" and "plan_attempt en refresh rq s = (at, s')" "P s"
  shows "P s'"
  using assms(3,4) unfolding plan_attempt_def
  by (elim bindA_keeps failing_keeps recapture_quiet [OF q] failClosing_quiet [OF _ q(1)])
    (blast dest: quietD(1,2,4,7) [OF q(1)] quietD(3) [OF q(1) _ q(2)])+

lemma publishedViewSignature_quiet:
  "publishedViewSignature en v s = (r, s') \<Longrightarrow> quiet en P \<Longrightarrow> P s \<Longrightarrow> P s'"
  by (auto simp: publishedViewSignature_def bindA_eq split: option.splits intro: quietD(5))

text \<open>A return \<open>hit\<close>s when it has a plan, or when the world lost the property.\<close>

definition hit :: "('s \<Rightarrow> bool) \<Rightarrow> plan_return \<times> 's \<Rightarrow> bool" where
  "hit P r \<longleftrightarrow> fst (fst r) \<noteq> None \<or> \<not> P (snd r)"

lemma giveUp_hit [simp]: "hit P (giveUp e s) \<longleftrightarrow> \<not> P s"
  by (simp add: hit_def giveUp_def)

lemma deferring_hit:
  assumes "\<forall>s e s'. P s \<longrightarrow> release s = (e, s') \<longrightarrow> P s'" and "hit P (deferring release r)"
  shows "hit P r \<and> fst (fst (deferring release r)) = fst (fst r)"
  using assms by (auto simp: hit_def deferring_def split: prod.splits)

lemma with_store_hit:
  assumes q: "quiet en P" and "P s" and h: "hit P (with_store en body s)"
  obtains s1 l s2 where "te_acquire en s = (Inr (), s1)" "te_lease en s1 = (Inr l, s2)" "P s2" "hit P (body l s2)"
    "fst (fst (with_store en body s)) = fst (fst (body l s2))"
proof -
  obtain s1 where acquired: "te_acquire en s = (Inr (), s1)" and "P s1"
    using h \<open>P s\<close> unfolding with_store_def
    by (auto simp: bindA_def split: prod.splits sum.splits intro: quietD(8) [OF q])
  have keeps: "\<forall>s e s'. P s \<longrightarrow> te_close_store en s = (e, s') \<longrightarrow> P s'"
      "\<forall>s e s'. P s \<longrightarrow> te_release en l s = (e, s') \<longrightarrow> P s'" for l
    using quietD(9,11) [OF q] by blast+
  let ?inner = "bindA (te_lease en s1) giveUp (\<lambda>l s. deferring (te_release en l) (body l s))"
  have eq: "with_store en body s = deferring (te_close_store en) ?inner"
    using acquired by (simp add: with_store_def)
  have inner: "hit P ?inner" and same: "fst (fst (with_store en body s)) = fst (fst ?inner)"
    using deferring_hit [OF keeps(1)] h unfolding eq by blast+
  then obtain l s2 where leased: "te_lease en s1 = (Inr l, s2)" and "P s2"
    using \<open>P s1\<close> by (auto simp: bindA_def split: prod.splits sum.splits intro: quietD(10) [OF q])
  have "hit P (deferring (te_release en l) (body l s2))" using inner leased by simp
  then have "hit P (body l s2)" "fst (fst (deferring (te_release en l) (body l s2))) = fst (fst (body l s2))"
    using deferring_hit [OF keeps(2)] by blast+
  then show thesis using acquired leased \<open>P s2\<close> same by (intro that) auto
qed

text \<open>The call of \<open>Save\<close> and the plan that is returned with its outcome.\<close>

definition saved_by ::
    "('s, 'v, 'l, 'c) plan_env \<Rightarrow> ('s \<Rightarrow> bool) \<Rightarrow> 'c plan_artifacts \<Rightarrow> plan option \<Rightarrow> bool" where
  "saved_by en P a p \<longleftrightarrow> (\<exists>l t outcome t'. P t \<and> te_save en a l t = (outcome, t') \<and>
     p = (case outcome of Inl e \<Rightarrow> None | Inr warning \<Rightarrow> Some (art_Plan a)))"

lemma save_plan_saved: "P s \<Longrightarrow> saved_by en P a (fst (fst (save_plan en a l s)))"
  unfolding saved_by_def save_plan_def giveUp_def
  by (auto split: bindA_split option.splits) (metis old.sum.simps(5,6) surj_pair)+

text \<open>A plan that is returned, or a store that changed, comes from a justified round and a call of \<open>Save\<close>.\<close>

lemma commit_body_hit:
  assumes q: "quiet en P" and "P s" and h: "hit P (commit_body en force cp l s)"
  obtains v s1 sig s2 a s3 where "te_open en (cp_Scope cp) (Some l) s = (Inr v, s1)"
    "publishedViewSignature en v s1 = (Inr sig, s2)" "te_assemble en cp v sig force s2 = (Inr a, s3)"
    "validateSnapshotOmissions (art_Plan a) (relevantSnapshotOmissions (art_Plan a) (te_omissions en v)) = Inr ()"
    "saved_by en P a (fst (fst (commit_body en force cp l s)))"
proof -
  obtain v s1 where opened: "te_open en (cp_Scope cp) (Some l) s = (Inr v, s1)" and "P s1"
    using h \<open>P s\<close> unfolding commit_body_def
    by (auto simp: bindA_def split: prod.splits sum.splits intro: quietD(4) [OF q])
  have keeps: "\<forall>s e s'. P s \<longrightarrow> te_close_view en v s = (e, s') \<longrightarrow> P s'"
    using quietD(6) [OF q] by blast
  let ?checked = "\<lambda>a s. case validateSnapshotOmissions (art_Plan a) (relevantSnapshotOmissions (art_Plan a) (te_omissions en v)) of
      Inl e \<Rightarrow> giveUp e s | Inr _ \<Rightarrow> save_plan en a l s"
  let ?inner = "bindA (publishedViewSignature en v s1) giveUp (\<lambda>sig s.
       bindA (te_assemble en cp v sig force s) giveUp ?checked)"
  have eq: "commit_body en force cp l s = deferring (te_close_view en v) ?inner"
    using opened by (simp add: commit_body_def)
  have inner: "hit P ?inner" and same: "fst (fst (commit_body en force cp l s)) = fst (fst ?inner)"
    using deferring_hit [OF keeps, of ?inner] h unfolding eq by blast+
  obtain sig s2 where sig: "publishedViewSignature en v s1 = (Inr sig, s2)" and "P s2"
    using inner \<open>P s1\<close> by (auto simp: bindA_def split: prod.splits sum.splits intro: publishedViewSignature_quiet [OF _ q])
  obtain a s3 where assembled: "te_assemble en cp v sig force s2 = (Inr a, s3)" and "P s3"
    using inner \<open>P s2\<close> sig by (auto simp: bindA_def split: prod.splits sum.splits intro: quietD(7) [OF q])
  have "hit P (?checked a s3)" using inner sig assembled by simp
  then have accounted: "validateSnapshotOmissions (art_Plan a) (relevantSnapshotOmissions (art_Plan a) (te_omissions en v)) = Inr ()"
    using \<open>P s3\<close> by (auto split: sum.splits)
  have "saved_by en P a (fst (fst (commit_body en force cp l s)))"
    using save_plan_saved [of P s3 en a l] \<open>P s3\<close> same sig assembled accounted by simp
  then show thesis using opened sig assembled accounted by (intro that)
qed

lemma planCommitted_hit:
  assumes q: "quiet en P" and "P s" and h: "hit P (planCommitted en rq s)"
  shows "\<exists>a. committed_round en rq a \<and> saved_by en P a (fst (fst (planCommitted en rq s)))"
proof -
  obtain sc s1 where resolved: "te_resolve en rq s = (Inr sc, s1)" and "P s1"
    using h \<open>P s\<close> unfolding planCommitted_def
    by (auto simp: bindA_def split: prod.splits sum.splits intro: quietD(1) [OF q])
  obtain cp s2 where captured: "te_capture en sc s1 = (Inr cp, s2)" and "P s2"
    using h \<open>P s1\<close> resolved unfolding planCommitted_def
    by (auto simp: bindA_def split: prod.splits sum.splits intro: quietD(2) [OF q])
  have eq: "planCommitted en rq s = with_store en (commit_body en (pr_ForceStructured rq) cp) s2"
    using resolved captured by (simp add: planCommitted_def)
  obtain s3 l s4 where stored: "te_acquire en s2 = (Inr (), s3)" "te_lease en s3 = (Inr l, s4)" "P s4"
    and body: "hit P (commit_body en (pr_ForceStructured rq) cp l s4)"
    and same: "fst (fst (planCommitted en rq s)) = fst (fst (commit_body en (pr_ForceStructured rq) cp l s4))"
    using with_store_hit [OF q \<open>P s2\<close>] h unfolding eq by metis
  show ?thesis
  proof (rule commit_body_hit [OF q \<open>P s4\<close> body], intro exI conjI)
    fix v s5 sig s6 a s7
    assume round: "te_open en (cp_Scope cp) (Some l) s4 = (Inr v, s5)" "publishedViewSignature en v s5 = (Inr sig, s6)"
      "te_assemble en cp v sig (pr_ForceStructured rq) s6 = (Inr a, s7)"
      "validateSnapshotOmissions (art_Plan a) (relevantSnapshotOmissions (art_Plan a) (te_omissions en v)) = Inr ()"
      and saved: "saved_by en P a (fst (fst (commit_body en (pr_ForceStructured rq) cp l s4)))"
    show "committed_round en rq a"
      unfolding committed_round_def using resolved captured stored(1,2) round by metis
    show "saved_by en P a (fst (fst (planCommitted en rq s)))" using saved same by simp
  qed
qed

lemma persistWorkspace_hit:
  assumes q: "quiet en P" and "P s" and h: "hit P (persistWorkspace en a s)"
  shows "saved_by en P a (fst (fst (persistWorkspace en a s)))"
  using with_store_hit [OF q \<open>P s\<close>] h save_plan_saved unfolding persistWorkspace_def by metis

lemma plan_attempts_hit:
  assumes q: "quiet en P" "te_refresh en = Some refresh" and "P s" "hit P (plan_attempts en refresh rq n mismatch s)"
  shows "\<exists>a s1 s2. stable_round en rq s1 a s2 \<and> saved_by en P a (fst (fst (plan_attempts en refresh rq n mismatch s)))"
  using assms(3,4)
proof (induction n arbitrary: mismatch s)
  case 0
  then show ?case by (simp add: hit_def)
next
  case (Suc n)
  obtain at s' where at: "plan_attempt en refresh rq s = (at, s')" by fastforce
  then have "P s'" using plan_attempt_quiet [OF q] Suc.prems(1) by blast
  show ?case
  proof (cases at)
    case (Mismatch reason)
    then show ?thesis using Suc.IH [OF \<open>P s'\<close>] Suc.prems(2) at by simp
  next
    case (Failure e)
    then show ?thesis using Suc.prems(2) at \<open>P s'\<close> by (simp add: hit_def)
  next
    case (Accepted a)
    then have "stable_round en rq s a s'" using at plan_attempt_Accepted [OF q(2)] by simp
    moreover have "saved_by en P a (fst (fst (persistWorkspace en a s')))"
      using persistWorkspace_hit [OF q(1) \<open>P s'\<close>] Suc.prems(2) at Accepted by simp
    ultimately show ?thesis using at Accepted by auto
  qed
qed

text \<open>
  C2: Nothing is persisted and no plan is returned except from a justified transaction.  Take anything about
  the world that only \<open>Save\<close> can change, such as the contents of the store.  If \<open>Plan\<close> returns a plan or
  changes it, then \<open>Save\<close> was called while it was still unchanged, on artifacts that come, for a
  work tree, from a round whose two captures are the same and whose two refreshes published the same
  index (and that carry the fingerprints of the second capture), and for a committed scope from one
  capture whose snapshot omissions the plan accounts for; the plan that is returned is the saved one.
\<close>

theorem Plan_persists_justified:
  assumes "quiet en P" and "P s" and "Plan en rq s = ((p, e), s')" and "p \<noteq> None \<or> \<not> P s'"
  shows "\<exists>a. justified_plan en rq a \<and> saved_by en P a p"
proof -
  have h: "hit P (Plan en rq s)" and p: "p = fst (fst (Plan en rq s))" using assms(3,4) by (simp_all add: hit_def)
  have valid: "seqE (request_validate rq) (readyForPlan en) = Inr ()"
    using h \<open>P s\<close> unfolding Plan_def by (auto split: sum.splits)
  show ?thesis
  proof (cases "request_kind rq = ScopeWorkspace")
    case True
    then have eq: "Plan en rq s = planWorkspace en rq s" using valid by (simp add: Plan_def)
    then obtain refresh where r: "te_refresh en = Some refresh" using h \<open>P s\<close> by (auto simp: planWorkspace_def split: option.splits)
    then have "hit P (plan_attempts en refresh rq 2 [] s)" using h eq by (simp add: planWorkspace_def)
    with plan_attempts_hit [OF assms(1) r \<open>P s\<close>] show ?thesis
      using True p eq r by (auto simp: justified_plan_def planWorkspace_def)
  next
    case False
    then have "Plan en rq s = planCommitted en rq s" using valid by (simp add: Plan_def)
    with planCommitted_hit [OF assms(1) \<open>P s\<close>] False show ?thesis using h p by (auto simp: justified_plan_def)
  qed
qed

lemma tx_quiet: "quiet tx_env (\<lambda>w. snd w = [])"
  by (simp add: quiet_def tx_env_def)

lemma tx_saves: "Plan tx_env tx_request (0, []) =
    ((Some (demo_plan length_hash), None), (3, [demo_review_id length_hash]))"
proof -
  have second: "plan_attempt tx_env (\<lambda>s. (Inr ''sig'', s)) tx_request (1, []) =
      (Accepted (stamp_workspace tx_env tx_capture (demo_artifacts length_hash)), (3, []))"
    by (simp add: plan_attempt_def recapture_def confirm_def compare_captures_def tx_env_def sameCapture_def)
  have "persistWorkspace tx_env (stamp_workspace tx_env tx_capture (demo_artifacts length_hash)) (3, []) =
      ((Some (demo_plan length_hash), None), (3, [demo_review_id length_hash]))"
    by (simp add: persistWorkspace_def with_store_def save_plan_def deferring_def joinFailures_def stamp_workspace_def
        tx_env_def demo_artifacts_def demo_plan_def)
  then show ?thesis using tx_ready tx_first second
    by (simp add: Plan_def planWorkspace_def tx_env_def numeral_2_eq_2)
qed

theorem Plan_persists_justified_witness:
  "\<exists>a. justified_plan tx_env tx_request a \<and> saved_by tx_env (\<lambda>w. snd w = []) a (Some (demo_plan length_hash))"
  by (rule Plan_persists_justified [OF tx_quiet _ tx_saves]) simp_all

section \<open>When a request is stale\<close>

lemma persistWorkspace_not_stale: "snd (fst (persistWorkspace en a s)) \<noteq> Some (PlanStale r)"
  unfolding persistWorkspace_def with_store_def
  by (auto simp: deferring_def joinFailures_def giveUp_def split: bindA_split prod.splits option.splits)

lemma confirm_not_stale: "confirm en refresh first v sig a second s \<noteq> (Failure (PlanStale r), s')"
  by (auto simp: confirm_def compare_captures_def failAttempt_def joinFailures_def
      split: prod.splits sum.splits option.splits)

lemma recapture_not_stale: "recapture en refresh first v sig a s \<noteq> (Failure (PlanStale r), s')"
  by (auto simp: recapture_def confirm_not_stale failClosing_def joinFailures_def split: prod.splits sum.splits option.splits)

lemma plan_attempt_not_stale: "plan_attempt en refresh rq s \<noteq> (Failure (PlanStale r), s')"
  unfolding plan_attempt_def
  by (auto simp: bindA_eq failAttempt_def mismatchIf_def failClosing_def joinFailures_def recapture_not_stale
      split: prod.splits option.splits)

text \<open>
  The specification of a round that ends with a mismatch and of the reason it gives, by the calls it made and
  what they answered: the first capture saw the work tree move; no published index fits the capture; the second
  capture, of the scope of the first one, saw the work tree move; it is another capture; or the two
  refreshes published different indexes.  The world after the round is the one the last of these calls left.
\<close>

inductive mismatched_round :: "('s, 'v, 'l, 'c) plan_env \<Rightarrow> plan_request \<Rightarrow> 's \<Rightarrow> string \<Rightarrow> 's \<Rightarrow> bool"
  for en rq s where
  first_moved: "te_resolve en rq s = (Inr sc, s1) \<Longrightarrow> te_capture en sc s1 = (Inl e, s') \<Longrightarrow>
    isCaptureMismatch e \<Longrightarrow> mismatched_round en rq s (te_sprint en e) s'"
| no_index: "te_refresh en = Some refresh \<Longrightarrow> te_resolve en rq s = (Inr sc, s1) \<Longrightarrow>
    te_capture en sc s1 = (Inr first, s2) \<Longrightarrow> refresh s2 = (Inr sig, s3) \<Longrightarrow>
    te_open en (cp_Scope first) None s3 = (Inl e, s') \<Longrightarrow> errors_is e ErrReuseUnavailable \<Longrightarrow>
    mismatched_round en rq s (te_sprint en e) s'"
| recaptured: "te_refresh en = Some refresh \<Longrightarrow> te_resolve en rq s = (Inr sc, s1) \<Longrightarrow>
    te_capture en sc s1 = (Inr first, s2) \<Longrightarrow> refresh s2 = (Inr sig, s3) \<Longrightarrow>
    te_open en (cp_Scope first) None s3 = (Inr v, s4) \<Longrightarrow>
    te_assemble en first v sig (pr_ForceStructured rq) s4 = (Inr a, s5) \<Longrightarrow>
    te_capture en (cp_Scope first) s5 = (second, s6) \<Longrightarrow> refresh s6 = (Inr sig', s7) \<Longrightarrow>
    te_close_view en v s7 = (None, s') \<Longrightarrow>
    (\<exists>e. second = Inl e \<and> isCaptureMismatch e \<and> reason = te_sprint en e) \<or>
    (\<exists>cp. second = Inr cp \<and> \<not> sameCapture (te_H en) first cp \<and> reason = ''capture fingerprints differ'') \<or>
    (\<exists>cp. second = Inr cp \<and> sameCapture (te_H en) first cp \<and> sig \<noteq> sig' \<and>
       reason = ''published index signatures differ'') \<Longrightarrow>
    mismatched_round en rq s reason s'"

lemma confirm_Mismatch:
  "confirm en refresh first v sig a second s = (Mismatch reason, s') \<longleftrightarrow>
     (\<exists>sig' t. refresh s = (Inr sig', t) \<and> te_close_view en v t = (None, s') \<and>
       ((\<exists>e. second = Inl e \<and> reason = te_sprint en e) \<or>
        (\<exists>cp. second = Inr cp \<and> \<not> sameCapture (te_H en) first cp \<and> reason = ''capture fingerprints differ'') \<or>
        (\<exists>cp. second = Inr cp \<and> sameCapture (te_H en) first cp \<and> sig \<noteq> sig' \<and>
           reason = ''published index signatures differ'')))"
  by (auto simp: confirm_def compare_captures_def failAttempt_def
      split: prod.splits sum.splits option.splits if_splits)

lemma recapture_Mismatch:
  "recapture en refresh first v sig a s = (Mismatch reason, s') \<longleftrightarrow>
     (\<exists>second t. te_capture en (cp_Scope first) s = (second, t) \<and> (\<forall>e. second = Inl e \<longrightarrow> isCaptureMismatch e) \<and>
        confirm en refresh first v sig a second t = (Mismatch reason, s'))"
  by (auto simp: recapture_def failClosing_def split: prod.splits sum.splits if_splits)

lemma mismatched_attempt:
  assumes "te_refresh en = Some refresh" and "mismatched_round en rq s reason s'"
  shows "plan_attempt en refresh rq s = (Mismatch reason, s')"
  using assms(2)
proof cases
  case (recaptured refresh' sc s1 first s2 sig s3 v s4 a s5 second s6 sig' s7)
  then have "recapture en refresh first v sig a s5 = (Mismatch reason, s')"
    unfolding recapture_Mismatch confirm_Mismatch using assms(1) by auto
  with recaptured show ?thesis using assms(1) by (simp add: plan_attempt_def)
qed (use assms(1) in \<open>simp_all add: plan_attempt_def mismatchIf_def\<close>)

lemma attempt_mismatched:
  assumes r: "te_refresh en = Some refresh" and at: "plan_attempt en refresh rq s = (Mismatch reason, s')"
  shows "mismatched_round en rq s reason s'"
proof -
  obtain sc s1 where resolved: "te_resolve en rq s = (Inr sc, s1)"
    using at unfolding plan_attempt_def bindA_eq failAttempt_def by blast
  show ?thesis
  proof (cases "te_capture en sc s1")
    case (Pair first s2)
    show ?thesis
    proof (cases first)
      case (Inl e)
      then have "isCaptureMismatch e \<and> reason = te_sprint en e \<and> s' = s2"
        using at resolved Pair by (simp add: plan_attempt_def mismatchIf_def failAttempt_def split: if_splits)
      then show ?thesis using mismatched_round.first_moved [OF resolved] Pair Inl by blast
    next
      case (Inr first')
      then obtain sig s3 where sig: "refresh s2 = (Inr sig, s3)"
        using at resolved Pair unfolding plan_attempt_def by (auto simp: bindA_eq failAttempt_def)
      show ?thesis
      proof (cases "te_open en (cp_Scope first') None s3")
        case opened: (Pair view s4)
        show ?thesis
        proof (cases view)
          case (Inl e)
          then have "errors_is e ErrReuseUnavailable \<and> reason = te_sprint en e \<and> s' = s4"
            using at resolved Pair Inr sig opened
            by (simp add: plan_attempt_def mismatchIf_def failAttempt_def split: if_splits)
          then show ?thesis using mismatched_round.no_index [OF r resolved _ sig] Pair Inr opened Inl by blast
        next
          case v: (Inr v)
          then obtain a s5 where assembled: "te_assemble en first' v sig (pr_ForceStructured rq) s4 = (Inr a, s5)"
            and again: "recapture en refresh first' v sig a s5 = (Mismatch reason, s')"
            using at resolved Pair Inr sig opened unfolding plan_attempt_def
            by (auto simp: bindA_eq failClosing_def split: prod.splits)
          obtain second s6 sig' s7 where steps: "te_capture en (cp_Scope first') s5 = (second, s6)"
            "refresh s6 = (Inr sig', s7)" "te_close_view en v s7 = (None, s')"
            "(\<exists>e. second = Inl e \<and> isCaptureMismatch e \<and> reason = te_sprint en e) \<or>
             (\<exists>cp. second = Inr cp \<and> \<not> sameCapture (te_H en) first' cp \<and> reason = ''capture fingerprints differ'') \<or>
             (\<exists>cp. second = Inr cp \<and> sameCapture (te_H en) first' cp \<and> sig \<noteq> sig' \<and>
               reason = ''published index signatures differ'')"
            using again unfolding recapture_Mismatch confirm_Mismatch by blast
          have "te_capture en sc s1 = (Inr first', s2)" "te_open en (cp_Scope first') None s3 = (Inr v, s4)"
            using Pair Inr opened v by simp_all
          from mismatched_round.recaptured [OF r resolved this(1) sig this(2) assembled steps] show ?thesis .
        qed
      qed
    qed
  qed
qed

lemma plan_attempt_Mismatch:
  "te_refresh en = Some refresh \<Longrightarrow>
     plan_attempt en refresh rq s = (Mismatch reason, s') \<longleftrightarrow> mismatched_round en rq s reason s'"
  using attempt_mismatched mismatched_attempt by metis

text \<open>
  C14: A work-tree request is answered with \<open>StaleError\<close> exactly when the work tree would not stand still: two
  rounds in a row ended with a mismatch, the second one's reason is reported, and the world is the one
  the second round left.  Then there is no plan and nothing was persisted: whatever only \<open>Save\<close> can
  change about the world, such as the contents of the store, is as it was before the request.
\<close>

theorem Plan_stale_exact:
  assumes "te_refresh en \<noteq> None" and "readyForPlan en = Inr ()" and "request_validate rq = Inr ()"
    and "request_kind rq = ScopeWorkspace" and "quiet en P" and "P s"
  shows "Plan en rq s = ((p, Some (PlanStale r)), s') \<longleftrightarrow>
    p = None \<and> P s' \<and> (\<exists>r1 s1. mismatched_round en rq s r1 s1 \<and> mismatched_round en rq s1 r s')"
proof -
  obtain refresh where refresh: "te_refresh en = Some refresh" using assms(1) by blast
  have eq: "Plan en rq s = plan_attempts en refresh rq (Suc (Suc 0)) [] s"
    using assms refresh by (simp add: Plan_def planWorkspace_def numeral_2_eq_2)
  have never: "persistWorkspace en a t \<noteq> ((p, Some (PlanStale r)), t')" for a t p t'
    using persistWorkspace_not_stale [of en a t r] by (metis fst_conv snd_conv)
  have quiet: "P t'" if "P t" "mismatched_round en rq t reason t'" for t reason t'
    using plan_attempt_quiet [OF assms(5) refresh mismatched_attempt [OF refresh that(2)] that(1)] .
  have "Plan en rq s = ((p, Some (PlanStale r)), s') \<longleftrightarrow>
      p = None \<and> (\<exists>r1 s1. plan_attempt en refresh rq s = (Mismatch r1, s1) \<and>
        plan_attempt en refresh rq s1 = (Mismatch r, s'))"
    unfolding eq using never plan_attempt_not_stale [of en refresh rq] by (auto split: prod.splits attempt.splits)
  then show ?thesis unfolding plan_attempt_Mismatch [OF refresh] using quiet \<open>P s\<close> by blast
qed

theorem Plan_stale_exact_witness:
  "Plan (tx_env\<lparr>te_capture := \<lambda>sc s. (Inl ErrHeadMoved, s)\<rparr>) tx_request (7, []) = ((None, Some (PlanStale ''moved'')), (7, []))"
proof -
  let ?en = "tx_env\<lparr>te_capture := \<lambda>sc s. (Inl ErrHeadMoved, s)\<rparr>"
  have "te_refresh ?en \<noteq> None" "readyForPlan ?en = Inr ()" "quiet ?en (\<lambda>w. snd w = [])"
    using tx_ready(1) by (simp_all add: tx_env_def readyForPlan_def quiet_def)
  note stale = Plan_stale_exact [OF this(1,2) tx_ready(2,3) this(3), of "(7, [])" None "''moved''" "(7, [])"]
  have "mismatched_round ?en tx_request (7, []) (te_sprint ?en ErrHeadMoved) (7, [])"
    by (rule mismatched_round.first_moved [of _ _ _ sample_scope "(7, [])"])
      (simp_all add: tx_env_def isCaptureMismatch_def)
  moreover have "te_sprint ?en ErrHeadMoved = ''moved''" by (simp add: tx_env_def)
  ultimately show ?thesis using stale by force
qed

section \<open>A work tree that stands still\<close>

text \<open>
  The world stands still while \<open>I\<close> holds: every call succeeds, captures give \<open>cp\<close>, refreshes give \<open>sig\<close>,
  the planner gives \<open>a\<close>, the store saves without a warning and can be closed afterwards.
\<close>

definition settled ::
    "('s, 'v, 'l, 'c) plan_env \<Rightarrow> plan_request \<Rightarrow> ('s \<Rightarrow> bool) \<Rightarrow> capture \<Rightarrow> string \<Rightarrow> 'c plan_artifacts \<Rightarrow> bool" where
  "settled en rq I cp sig a \<longleftrightarrow> (\<exists>refresh sc v l. te_refresh en = Some refresh \<and> (\<forall>s. I s \<longrightarrow>
     (\<exists>t. te_resolve en rq s = (Inr sc, t) \<and> I t) \<and> (\<exists>t. te_capture en sc s = (Inr cp, t) \<and> I t) \<and>
     (\<exists>t. te_capture en (cp_Scope cp) s = (Inr cp, t) \<and> I t) \<and> (\<exists>t. refresh s = (Inr sig, t) \<and> I t) \<and>
     (\<exists>t. te_open en (cp_Scope cp) None s = (Inr v, t) \<and> I t) \<and> (\<exists>t. te_close_view en v s = (None, t) \<and> I t) \<and>
     (\<exists>t. te_assemble en cp v sig (pr_ForceStructured rq) s = (Inr a, t) \<and> I t) \<and>
     (\<exists>t. te_acquire en s = (Inr (), t) \<and> I t) \<and> (\<exists>t. te_lease en s = (Inr l, t) \<and> I t) \<and>
     (\<exists>t1 t2 t3. te_save en (stamp_workspace en cp a) l s = (Inr None, t1) \<and> te_release en l t1 = (None, t2) \<and>
        te_close_store en t2 = (None, t3))))"

lemma settled_round:
  assumes st: "settled en rq I cp sig a" and "I s"
  shows "\<exists>t. stable_round en rq s (stamp_workspace en cp a) t \<and> I t"
proof -
  have "sameCapture (te_H en) cp cp" by (simp add: sameCapture_def)
  with st \<open>I s\<close> show ?thesis unfolding settled_def stable_round_def by metis
qed

lemma settled_persists:
  assumes "settled en rq I cp sig a" and "I s"
  shows "\<exists>t. persistWorkspace en (stamp_workspace en cp a) s = ((Some (art_Plan a), None), t)"
proof -
  obtain l where l: "\<forall>s. I s \<longrightarrow> (\<exists>t. te_acquire en s = (Inr (), t) \<and> I t) \<and> (\<exists>t. te_lease en s = (Inr l, t) \<and> I t) \<and>
     (\<exists>t1 t2 t3. te_save en (stamp_workspace en cp a) l s = (Inr None, t1) \<and> te_release en l t1 = (None, t2) \<and>
        te_close_store en t2 = (None, t3))"
    using assms(1) unfolding settled_def by blast
  then obtain s1 s2 t1 t2 t3 where "te_acquire en s = (Inr (), s1)" "te_lease en s1 = (Inr l, s2)"
    "te_save en (stamp_workspace en cp a) l s2 = (Inr None, t1)" "te_release en l t1 = (None, t2)" "te_close_store en t2 = (None, t3)"
    using \<open>I s\<close> by metis
  then show ?thesis
    by (simp add: persistWorkspace_def with_store_def save_plan_def deferring_def joinFailures_def stamp_workspace_def)
qed

text \<open>
  C13: A work tree that stands still gets its plan, even when it only starts to stand still after the first
  round has ended with a mismatch: \<open>Plan\<close> returns the planner's plan without an error.
\<close>

theorem Plan_settles:
  assumes "readyForPlan en = Inr ()" and "request_validate rq = Inr ()" and "request_kind rq = ScopeWorkspace"
    and "settled en rq I cp sig a" and "te_refresh en = Some refresh"
    and "I s \<or> (\<exists>r s1. plan_attempt en refresh rq s = (Mismatch r, s1) \<and> I s1)"
  shows "\<exists>s'. Plan en rq s = ((Some (art_Plan a), None), s')"
proof -
  have eq: "Plan en rq s = plan_attempts en refresh rq (Suc (Suc 0)) [] s"
    using assms by (simp add: Plan_def planWorkspace_def numeral_2_eq_2)
  have last: "\<exists>s'. plan_attempts en refresh rq (Suc n) m t = ((Some (art_Plan a), None), s')" if still: "I t" for n m t
  proof -
    obtain t' where "stable_round en rq t (stamp_workspace en cp a) t'" "I t'"
      using settled_round [OF assms(4) still] by blast
    then have "plan_attempt en refresh rq t = (Accepted (stamp_workspace en cp a), t')"
      using plan_attempt_Accepted [OF assms(5)] by simp
    then show ?thesis using settled_persists [OF assms(4) \<open>I t'\<close>] by simp
  qed
  show ?thesis using assms(6)
  proof
    assume "I s"
    then show ?thesis using last unfolding eq by blast
  next
    assume "\<exists>r s1. plan_attempt en refresh rq s = (Mismatch r, s1) \<and> I s1"
    then obtain r s1 where "plan_attempt en refresh rq s = (Mismatch r, s1)" "I s1" by blast
    then show ?thesis using last [of s1 0 r] unfolding eq by (simp only: plan_attempts.simps prod.case attempt.case)
  qed
qed

lemma tx_settled: "settled tx_env tx_request (\<lambda>w. fst w > 0) tx_capture ''sig'' (demo_artifacts length_hash)"
  unfolding settled_def by (simp add: tx_env_def tx_capture_def)

theorem Plan_settles_witness: "\<exists>s'. Plan tx_env tx_request (0, []) = ((Some (demo_plan length_hash), None), s')"
proof -
  have "te_refresh tx_env = Some (\<lambda>s. (Inr ''sig'', s))" by (simp add: tx_env_def)
  moreover have "(\<exists>r s1. plan_attempt tx_env (\<lambda>s. (Inr ''sig'', s)) tx_request (0, []) = (Mismatch r, s1) \<and> fst s1 > 0)"
    using tx_first by simp
  ultimately show ?thesis using Plan_settles [OF tx_ready tx_settled, of _ "(0, [])"]
    by (auto simp: demo_artifacts_def)
qed

end
