(* ===== verification/Ranking.thy ===== *)
theory Ranking
  imports Roles Ranges Complex_Main
begin

text \<open>
  The ranking of context candidates: \<open>model.go\<close>, \<open>rank.go\<close> and \<open>lowsignal.go\<close> of \<open>internal/context\<close>.

  A Go \<open>float64\<close> that is finite is a rational number, and every operation on floats rounds its exact result: the
  rounding is the parameter \<open>rnd\<close> (the laws that are proved hold for any rounding).  Infinities and NaN,
  which need scores beyond \<open>10\<^sup>3\<^sup>0\<^sup>8\<close>, are not modelled, nor is the fusing of a product with a sum.
\<close>

section \<open>Items and candidates\<close>

definition ModeCompact :: string where [simp]: "ModeCompact = ''compact''"
definition ModeStandard :: string where [simp]: "ModeStandard = ''standard''"
definition ModeFull :: string where [simp]: "ModeFull = ''full''"
definition PacketSchemaVersion :: string where "PacketSchemaVersion = ''prowl.context/v1''"

record ctx_citation =
  ct_URI :: string
  ct_Path :: string
  ct_LineStart :: int
  ct_LineEnd :: int
  ct_ContentHash :: string

text \<open>A nil \<open>Audience\<close> is replaced by a default when it is packed; nil and empty need not be told apart elsewhere.\<close>

record ctx_item =
  it_ID :: string
  it_Kind :: string
  it_Title :: string
  it_Summary :: string
  it_Content :: string
  it_WhySelected :: "string list"
  it_Freshness :: string
  it_Confidence :: rat
  it_Audience :: "string list option"
  it_Citations :: "ctx_citation list"
  it_DetailResource :: string
  it_EstimatedTokens :: int

record candidate = ctx_item +
  ca_CompactContent :: string
  ca_StandardContent :: string
  ca_FullContent :: string
  ca_LexicalScore :: rat
  ca_SemanticScore :: rat
  ca_DirectMatch :: bool
  ca_Knowledge :: bool
  ca_GraphDistance :: int
  ca_ChangedRelated :: bool
  ca_LowSignal :: bool
  ca_LowSignalClass :: string
  ca_SymbolMatch :: bool
  ca_PathMatch :: bool

section \<open>Low-signal files\<close>

definition isLockfilePath :: "string \<Rightarrow> bool" where
  "isLockfilePath base \<longleftrightarrow> base \<in> set [''package-lock.json'', ''yarn.lock'', ''pnpm-lock.yaml'', ''npm-shrinkwrap.json'',
     ''go.sum'', ''cargo.lock'', ''gemfile.lock'', ''poetry.lock'', ''composer.lock'', ''pipfile.lock'', ''flake.lock'',
     ''bun.lockb'', ''packages.lock.json'', ''pubspec.lock'', ''mix.lock'', ''gradle.lockfile''] \<or> has_suffix base ''.lock''"

definition isMinifiedPath :: "string \<Rightarrow> bool" where
  "isMinifiedPath base \<longleftrightarrow> list_ex (has_suffix base) [''.min.js'', ''.min.css'', ''.min.mjs'', ''.map'']"

definition isCIPath :: "string \<Rightarrow> string \<Rightarrow> bool" where
  "isCIPath p base \<longleftrightarrow> has_prefix p ''.github/'' \<or> contains p ''/.github/'' \<or>
     has_prefix p ''.circleci/'' \<or> contains p ''/.circleci/'' \<or>
     base \<in> set [''.gitlab-ci.yml'', ''.travis.yml'', ''azure-pipelines.yml'', ''appveyor.yml'', ''jenkinsfile'',
       ''.pre-commit-config.yaml'']"

definition isGeneratedPath :: "string \<Rightarrow> string \<Rightarrow> bool" where
  "isGeneratedPath p base \<longleftrightarrow> has_prefix p ''generated/'' \<or> contains p ''/generated/'' \<or>
     list_ex (has_suffix base) [''.pb.go'', ''.pb.cc'', ''_pb2.py'', ''.gen.go'', ''_gen.go'', ''_generated.go'', ''.g.dart'',
       ''.freezed.dart'']"

definition isLocalePath :: "string \<Rightarrow> string \<Rightarrow> bool" where
  "isLocalePath p base \<longleftrightarrow>
     list_ex (\<lambda>dir. has_prefix p (dir @ ''/'') \<or> contains p (''/'' @ dir @ ''/''))
       [''locale'', ''locales'', ''i18n'', ''l10n'', ''translations'', ''lang'', ''langs''] \<or>
     path_Ext base \<in> set [''.po'', ''.pot'', ''.arb'', ''.xliff'', ''.xlf'']"

definition isDocPath :: "string \<Rightarrow> bool" where
  "isDocPath base \<longleftrightarrow> path_Ext base \<in> set [''.md'', ''.mdx'', ''.markdown'', ''.rst'', ''.adoc'']"

text \<open>\<open>strings.FieldsFunc\<close>: \<open>cur\<close> is the field being read.\<close>

fun FieldsFunc :: "(char \<Rightarrow> bool) \<Rightarrow> string \<Rightarrow> string \<Rightarrow> string list" where
  "FieldsFunc sep cur [] = (if cur = [] then [] else [cur])"
| "FieldsFunc sep cur (c # cs) =
     (if sep c then (if cur = [] then [] else [cur]) @ FieldsFunc sep [] cs else FieldsFunc sep (cur @ [c]) cs)"

definition testTokens :: "string list" where
  "testTokens = [''test'', ''tests'', ''testing'', ''spec'', ''specs'', ''e2e'']"

definition isTestPath :: "string \<Rightarrow> bool" where
  "isTestPath p \<longleftrightarrow> list_ex (\<lambda>seg. list_ex (\<lambda>part. part \<in> set testTokens)
     (FieldsFunc (\<lambda>r. r \<in> set ''-_.'') [] seg)) (split_on slash p)"

definition lowSignalClass :: "string \<Rightarrow> string" where
  "lowSignalClass path = (let p = ToLower path; base = last (split_on slash p) in
     if isLockfilePath base then ''lockfile''
     else if isMinifiedPath base then ''minified''
     else if isGeneratedPath p base then ''generated''
     else if isLocalePath p base then ''locale''
     else if isCIPath p base then ''ci''
     else if isTestPath p then ''test''
     else if isDocPath base then ''docs'' else [])"

definition class_keys :: "(string \<times> string list) list" where
  "class_keys = [
     (''lockfile'', [''lock'', ''lockfile'', ''lockfiles'', ''dependency'', ''dependencies'', ''pinned'']),
     (''locale'', [''locale'', ''locales'', ''i18n'', ''l10n'', ''translation'', ''translations'', ''translate'', ''translated'',
        ''language'', ''languages'', ''lang'']),
     (''generated'', [''generated'', ''generate'', ''codegen'', ''protobuf'', ''proto'', ''grpc'', ''schema'']),
     (''minified'', [''minified'', ''minify'', ''bundle'', ''bundled'', ''sourcemap'']),
     (''ci'', [''ci'', ''cicd'', ''workflow'', ''workflows'', ''action'', ''actions'', ''pipeline'', ''pipelines'', ''release'',
        ''deploy'', ''deployment'']),
     (''docs'', [''docs'', ''doc'', ''documentation'', ''readme'', ''changelog'', ''guide'', ''guides'', ''tutorial'', ''howto'']),
     (''test'', [''test'', ''tests'', ''tested'', ''testing'', ''unit'', ''integration'', ''e2e'', ''fixture'', ''fixtures'', ''mock'',
        ''mocks'', ''spec'', ''specs'', ''coverage''])]"

definition queryWantsClass :: "string list \<Rightarrow> string \<Rightarrow> bool" where
  "queryWantsClass terms class \<longleftrightarrow>
     (case map_of class_keys class of None \<Rightarrow> False | Some keys \<Rightarrow> list_ex (\<lambda>t. t \<in> set keys) terms)"

section \<open>Scores\<close>

definition uniqueStrings :: "string list \<Rightarrow> string list" where
  "uniqueStrings values = rev (remdups (rev (filter (\<lambda>v. v \<noteq> []) values)))"

text \<open>\<open>itoa\<close> of \<open>rank.go\<close>, which is empty for negative numbers.\<close>

definition rank_itoa :: "int \<Rightarrow> string" where
  "rank_itoa value = (if value < 0 then [] else itoa value)"

text \<open>
  \<open>formatScore\<close>: two decimals of a score that is not negative, as \<open>strconv.FormatFloat\<close> rounds the exact value, with
  ties to even.
\<close>

definition hundredths :: "rat \<Rightarrow> int" where
  "hundredths v = (let x = v * 100; n = floor x; r = x - of_int n in
     if r < 1 / 2 \<or> (r = 1 / 2 \<and> even n) then n else n + 1)"

definition formatScore :: "rat \<Rightarrow> string" where
  "formatScore v = (let n = hundredths v in
     itoa (n div 100) @ ''.'' @ itoa (n mod 100 div 10) @ itoa (n mod 10))"

text \<open>
  The scoring of one candidate: a step adds a term to the score or a reason to the list, in the order of the code.
\<close>

type_synonym scoring = "rat \<times> string list"

definition add_score :: "(rat \<Rightarrow> rat) \<Rightarrow> bool \<Rightarrow> rat \<Rightarrow> string \<Rightarrow> scoring \<Rightarrow> scoring" where
  "add_score rnd applies amount reason sc = (if applies then (rnd (fst sc + amount), snd sc @ [reason]) else sc)"

definition dampen :: "(rat \<Rightarrow> rat) \<Rightarrow> candidate \<Rightarrow> scoring \<Rightarrow> scoring" where
  "dampen rnd c sc = (if ca_LowSignal c \<and> \<not> ca_DirectMatch c then
      (rnd (fst sc * (if ca_LowSignalClass c = ''docs'' then 1 / 2 else rnd (35 / 100))),
       snd sc @ [ca_LowSignalClass c @ '' file, low-signal (down-weighted)''])
     else sc)"

definition add_freshness :: "(rat \<Rightarrow> rat) \<Rightarrow> candidate \<Rightarrow> scoring \<Rightarrow> scoring" where
  "add_freshness rnd c sc = (if it_Freshness c = ''current'' then add_score rnd True 10 ''evidence is current'' sc
     else add_score rnd (it_Freshness c = ''stale'') (- 20) ''knowledge evidence is stale'' sc)"

definition score_candidate :: "(rat \<Rightarrow> rat) \<Rightarrow> candidate \<Rightarrow> scoring" where
  "score_candidate rnd c = (let
     sc = (ca_LexicalScore c, it_WhySelected c);
     sc = dampen rnd c sc;
     sc = add_score rnd (ca_SemanticScore c > 0) (rnd (ca_SemanticScore c * 12))
            (''semantic relevance score '' @ formatScore (ca_SemanticScore c)) sc;
     sc = add_score rnd (ca_DirectMatch c) 100 ''direct ID match'' sc;
     sc = add_score rnd (ca_Knowledge c) 15 ''curated knowledge'' sc;
     sc = add_freshness rnd c sc;
     sc = (rnd (fst sc + rnd (it_Confidence c * 5)), snd sc);
     sc = add_score rnd (ca_GraphDistance c > 0) (- rnd (of_int (i64 (ca_GraphDistance c * 2))))
            (''related at graph distance '' @ rank_itoa (ca_GraphDistance c)) sc;
     sc = add_score rnd (ca_ChangedRelated c) 8 ''related to a changed file'' sc;
     sc = add_score rnd (ca_SymbolMatch c \<and> \<not> ca_DirectMatch c \<and> \<not> ca_LowSignal c) 8
            ''defines a symbol matching the query'' sc
     in add_score rnd (ca_PathMatch c \<and> \<not> ca_DirectMatch c \<and> \<not> ca_LowSignal c) 8
            ''file path names the query concept'' sc)"

definition rank_scored :: "(rat \<Rightarrow> rat) \<Rightarrow> candidate list \<Rightarrow> (candidate \<times> rat) list" where
  "rank_scored rnd cs = sort_key (\<lambda>(c, score). (- score, it_ID c))
     (map (\<lambda>c. (c\<lparr>it_WhySelected := uniqueStrings (snd (score_candidate rnd c))\<rparr>, fst (score_candidate rnd c))) cs)"

definition RankCandidates :: "(rat \<Rightarrow> rat) \<Rightarrow> candidate list \<Rightarrow> candidate list" where
  "RankCandidates rnd cs = map fst (rank_scored rnd cs)"

text \<open>
  \<open>applySemanticScores\<close>.  A reranker is a function of the question and the candidates; its Go map of scores is
  a HOL map.
\<close>

definition clamp_score :: "rat \<Rightarrow> rat" where
  "clamp_score s = (if s < 0 then 0 else if s > 1 then 1 else s)"

definition applySemanticScores ::
    "string \<Rightarrow> candidate list \<Rightarrow> (string \<Rightarrow> candidate list \<Rightarrow> (string \<rightharpoonup> rat) result) option \<Rightarrow> candidate list" where
  "applySemanticScores question cs reranker = (case reranker of
       None \<Rightarrow> cs
     | Some rerank \<Rightarrow> if cs = [] then cs else (case rerank question cs of
         Inl e \<Rightarrow> cs
       | Inr scores \<Rightarrow> map (\<lambda>c. case scores (it_ID c) of
           None \<Rightarrow> c | Some s \<Rightarrow> c\<lparr>ca_SemanticScore := clamp_score s\<rparr>) cs))"

section \<open>What ranking keeps\<close>

text \<open>Ranking changes the reasons of a candidate and nothing else.\<close>

definition unexplained :: "candidate \<Rightarrow> candidate" where
  "unexplained c = c\<lparr>it_WhySelected := []\<rparr>"

lemma RankCandidates_perm: "mset (map unexplained (RankCandidates rnd cs)) = mset (map unexplained cs)"
proof -
  have "mset (map unexplained (RankCandidates rnd cs)) = image_mset (unexplained \<circ> fst) (mset (rank_scored rnd cs))"
    by (simp add: RankCandidates_def)
  also have "\<dots> = image_mset unexplained (mset cs)"
    by (simp add: rank_scored_def multiset.map_comp) (simp add: comp_def unexplained_def [abs_def])
  finally show ?thesis by simp
qed

lemma length_RankCandidates [simp]: "length (RankCandidates rnd cs) = length cs"
  by (simp add: RankCandidates_def rank_scored_def)

lemma score_cong:
  "a = a' \<Longrightarrow> x = x' \<Longrightarrow> fst sc = fst sc' \<Longrightarrow> fst (add_score rnd a x r sc) = fst (add_score rnd a' x' r' sc')"
  "fst sc = fst sc' \<Longrightarrow> fst (dampen rnd (c\<lparr>it_WhySelected := rs\<rparr>) sc) = fst (dampen rnd c sc')"
  "fst sc = fst sc' \<Longrightarrow> fst (add_freshness rnd (c\<lparr>it_WhySelected := rs\<rparr>) sc) = fst (add_freshness rnd c sc')"
  "fst sc = fst sc' \<Longrightarrow> x = x' \<Longrightarrow> fst (rnd (fst sc + x), why) = fst (rnd (fst sc' + x'), why')"
  by (simp_all add: add_score_def dampen_def add_freshness_def)

lemma score_ignores_reasons [simp]:
  "fst (score_candidate rnd (c\<lparr>it_WhySelected := rs\<rparr>)) = fst (score_candidate rnd c)"
  unfolding score_candidate_def Let_def by (rule score_cong | (simp; fail))+

lemma rank_scored_score: "(c, score) \<in> set (rank_scored rnd cs) \<Longrightarrow> score = fst (score_candidate rnd c)"
  by (auto simp: rank_scored_def)

text \<open>Candidates are listed by descending score, those of equal score by identifier.\<close>

definition ranks_before :: "(rat \<Rightarrow> rat) \<Rightarrow> candidate \<Rightarrow> candidate \<Rightarrow> bool" where
  "ranks_before rnd a b \<longleftrightarrow> fst (score_candidate rnd a) > fst (score_candidate rnd b) \<or>
     fst (score_candidate rnd a) = fst (score_candidate rnd b) \<and> it_ID a \<le> it_ID b"

lemma RankCandidates_sorted: "sorted_wrt (ranks_before rnd) (RankCandidates rnd cs)"
proof -
  have "sorted_wrt (\<lambda>x y. (- snd x, it_ID (fst x)) \<le> (- snd y, it_ID (fst y))) (rank_scored rnd cs)"
    using sorted_sort_key [of "\<lambda>(c, score). (- score, it_ID c)"] unfolding rank_scored_def sorted_map by (simp only: case_prod_beta)
  moreover have "ranks_before rnd (fst x) (fst y)"
    if "x \<in> set (rank_scored rnd cs)" "y \<in> set (rank_scored rnd cs)" "(- snd x, it_ID (fst x)) \<le> (- snd y, it_ID (fst y))" for x y
    using that rank_scored_score [of "fst x" "snd x"] rank_scored_score [of "fst y" "snd y"]
    by (auto simp: ranks_before_def)
  ultimately have "sorted_wrt (\<lambda>x y. ranks_before rnd (fst x) (fst y)) (rank_scored rnd cs)"
    by (rule sorted_wrt_mono_rel [rotated])
  then show ?thesis by (simp add: RankCandidates_def sorted_wrt_map)
qed

end
