(* ===== verification/Packet.thy ===== *)
theory Packet
  imports Ranking "HOL-Library.Sublist"
begin

text \<open>
  The packing of context: \<open>model.go\<close>, \<open>cost.go\<close> and \<open>pack.go\<close> of \<open>internal/context\<close>.  Ranked candidates are
  taken one after the other as long as their estimated cost fits the budget; one that is too large in the
  requested mode is tried once more in its compact form.

  Costs are lengths of texts, and the budgets bound their sums, so Go's \<open>int\<close> is \<open>int\<close>.  The estimator is a
  parameter; \<open>ByteQuarterEstimator\<close> is the one the program has.
\<close>

section \<open>Requests and packets\<close>

text \<open>The reranker of a request is used before packing; \<open>Filters\<close> and \<open>IDs\<close> are not read here.\<close>

record ctx_request =
  rq_Question :: string
  rq_IDs :: "string list"
  rq_Mode :: string
  rq_BudgetTokens :: int
  rq_BudgetBytes :: int
  rq_Filters :: "(string \<times> string) list"

record budget =
  bg_RequestedTokens :: int
  bg_RequestedBytes :: int
  bg_EstimatedTokens :: int
  bg_EstimatedBytes :: int
  bg_ExactBytes :: int

record packet =
  pk_SchemaVersion :: string
  pk_Question :: string
  pk_Summary :: string
  pk_Items :: "ctx_item list"
  pk_Budget :: budget
  pk_Omitted :: "string \<rightharpoonup> int"
  pk_Next :: "string list"
  pk_TraceID :: string

text \<open>\<open>Validate\<close> also fills in the mode.\<close>

definition Request_validate :: "ctx_request \<Rightarrow> ctx_request result" where
  "Request_validate rq = (let rq = (if rq_Mode rq = [] then rq\<lparr>rq_Mode := ModeCompact\<rparr> else rq) in
     if rq_Mode rq \<notin> set [ModeCompact, ModeStandard, ModeFull] then
       Inl (Err ''unknown context mode %q'' [AStr (rq_Mode rq)])
     else if rq_BudgetTokens rq < 0 \<or> rq_BudgetBytes rq < 0 then Inl (err ''context budgets cannot be negative'')
     else if rq_Mode rq = ModeFull \<and> rq_BudgetTokens rq = 0 \<and> rq_BudgetBytes rq = 0 then
       Inl (err ''full context requires --budget-tokens or --budget-bytes'')
     else Inr rq)"

definition emptyPacket :: "ctx_request \<Rightarrow> packet" where
  "emptyPacket rq = \<lparr>pk_SchemaVersion = PacketSchemaVersion, pk_Question = rq_Question rq, pk_Summary = [], pk_Items = [],
     pk_Budget = \<lparr>bg_RequestedTokens = rq_BudgetTokens rq, bg_RequestedBytes = rq_BudgetBytes rq, bg_EstimatedTokens = 0,
       bg_EstimatedBytes = 0, bg_ExactBytes = 0\<rparr>,
     pk_Omitted = Map.empty, pk_Next = [], pk_TraceID = []\<rparr>"

definition ByteQuarterEstimator :: "string \<Rightarrow> int" where
  "ByteQuarterEstimator text = (if text = [] then 0 else (int (length text) + 3) div 4)"

section \<open>Packing\<close>

definition contentForMode :: "candidate \<Rightarrow> string \<Rightarrow> string \<times> string" where
  "contentForMode c mode =
     (if mode = ModeFull \<and> ca_FullContent c \<noteq> [] then (ca_FullContent c, ModeFull)
      else if (mode = ModeFull \<or> mode = ModeStandard) \<and> ca_StandardContent c \<noteq> [] then (ca_StandardContent c, ModeStandard)
      else (ca_CompactContent c, ModeCompact))"

definition fits :: "budget \<Rightarrow> ctx_request \<Rightarrow> int \<Rightarrow> int \<Rightarrow> bool" where
  "fits current rq tokens bytesCost =
     (if rq_BudgetTokens rq > 0 \<and> bg_EstimatedTokens current + tokens > rq_BudgetTokens rq then False
      else if rq_BudgetBytes rq > 0 \<and> bg_EstimatedBytes current + bytesCost > rq_BudgetBytes rq then False
      else True)"

definition source_of :: "candidate \<Rightarrow> string" where
  "source_of c = (case it_Citations c of [] \<Rightarrow> it_ID c | ct # _ \<Rightarrow> if ct_Path ct \<noteq> [] then ct_Path ct else it_ID c)"

definition diversify_step ::
    "candidate list \<times> candidate list \<times> string list \<Rightarrow> candidate \<Rightarrow> candidate list \<times> candidate list \<times> string list" where
  "diversify_step st c = (case st of (first, repeats, seen) \<Rightarrow>
     if source_of c \<notin> set seen then (first @ [c], repeats, source_of c # seen) else (first, repeats @ [c], seen))"

definition diversify :: "candidate list \<Rightarrow> candidate list" where
  "diversify cs = (case foldl diversify_step ([], [], []) cs of (first, repeats, seen) \<Rightarrow> first @ repeats)"

definition costText :: "candidate \<Rightarrow> string \<Rightarrow> string" where
  "costText c content = it_Title c @ [newline] @ it_Summary c @ [newline] @ content"

definition bump :: "string \<Rightarrow> packet \<Rightarrow> packet" where
  "bump reason pk = pk\<lparr>pk_Omitted := (pk_Omitted pk)(reason \<mapsto>
     (case pk_Omitted pk reason of None \<Rightarrow> 0 | Some n \<Rightarrow> n) + 1)\<rparr>"

definition packed_item :: "candidate \<Rightarrow> string \<Rightarrow> string \<Rightarrow> int \<Rightarrow> ctx_item" where
  "packed_item c content usedMode tokens = (ctx_item.truncate c)\<lparr>it_Content := content, it_EstimatedTokens := tokens,
     it_WhySelected := uniqueStrings (it_WhySelected c @ [''packed as '' @ usedMode]),
     it_Audience := Some (case it_Audience c of None \<Rightarrow> [''assistant'', ''user''] | Some a \<Rightarrow> a)\<rparr>"

text \<open>The content a candidate would be packed with, given what the budget has left.\<close>

definition choose_content ::
    "(string \<Rightarrow> int) \<Rightarrow> ctx_request \<Rightarrow> budget \<Rightarrow> candidate \<Rightarrow> string \<times> string" where
  "choose_content estimate rq current c = (let (content, usedMode) = contentForMode c (rq_Mode rq); text = costText c content in
     if \<not> fits current rq (estimate text) (int (length text)) \<and> rq_Mode rq \<noteq> ModeCompact
     then contentForMode c ModeCompact else (content, usedMode))"

definition pack_step ::
    "(string \<Rightarrow> int) \<Rightarrow> ctx_request \<Rightarrow> packet \<times> string list \<Rightarrow> candidate \<Rightarrow> packet \<times> string list" where
  "pack_step estimate rq st c = (case st of (pk, seen) \<Rightarrow>
     if it_ID c \<in> set seen then (bump ''duplicate'' pk, seen)
     else let (content, usedMode) = choose_content estimate rq (pk_Budget pk) c; text = costText c content;
              tokens = estimate text; bytesCost = int (length text); b = pk_Budget pk in
       if \<not> fits b rq tokens bytesCost then (bump ''budget'' pk, it_ID c # seen)
       else (pk\<lparr>pk_Items := pk_Items pk @ [packed_item c content usedMode tokens],
               pk_Budget := b\<lparr>bg_EstimatedTokens := bg_EstimatedTokens b + tokens,
                 bg_EstimatedBytes := bg_EstimatedBytes b + bytesCost, bg_ExactBytes := bg_ExactBytes b + bytesCost\<rparr>\<rparr>,
             it_ID c # seen))"

definition with_default_budget :: "ctx_request \<Rightarrow> ctx_request" where
  "with_default_budget rq = (if rq_BudgetTokens rq = 0 \<and> rq_BudgetBytes rq = 0 then rq\<lparr>rq_BudgetTokens := 1800\<rparr> else rq)"

definition finish_packet :: "packet \<Rightarrow> packet" where
  "finish_packet pk = pk\<lparr>
     pk_Summary := ''Selected '' @ itoa (int (length (pk_Items pk))) @ '' context item(s) within the requested estimated budget.'',
     pk_Next := pk_Next pk @ (if (case pk_Omitted pk ''budget'' of None \<Rightarrow> False | Some n \<Rightarrow> n > 0)
       then [''Increase the budget or fetch a selected detail_resource directly.''] else [])\<rparr>"

definition Pack :: "(rat \<Rightarrow> rat) \<Rightarrow> ctx_request \<Rightarrow> candidate list \<Rightarrow> (string \<Rightarrow> int) option \<Rightarrow> packet result" where
  "Pack rnd rq cs estimator = bindE (Request_validate rq) (\<lambda>rq. let
       estimate = (case estimator of None \<Rightarrow> ByteQuarterEstimator | Some f \<Rightarrow> f);
       rq = with_default_budget rq;
       (pk, seen) = foldl (pack_step estimate rq) (emptyPacket rq, []) (diversify (RankCandidates rnd cs))
     in Inr (finish_packet pk))"

section \<open>What packing keeps\<close>

lemma diversify_perm: "mset (diversify cs) = mset cs"
proof -
  have "case foldl diversify_step (first, repeats, seen) cs of (first', repeats', seen') \<Rightarrow>
      mset first' + mset repeats' = mset first + mset repeats + mset cs" for first repeats seen
  proof (induction cs arbitrary: first repeats seen)
    case (Cons c cs)
    show ?case using Cons.IH [of "first @ [c]" repeats "source_of c # seen"] Cons.IH [of first "repeats @ [c]" seen]
      by (auto simp: diversify_step_def split: prod.splits)
  qed simp
  from this [of "[]" "[]" "[]"] show ?thesis by (simp add: diversify_def split: prod.splits)
qed

lemma diversify_set [simp]: "set (diversify cs) = set cs"
  using diversify_perm mset_eq_setD by blast

lemma diversify_length [simp]: "length (diversify cs) = length cs"
  using diversify_perm mset_eq_length by blast

text \<open>The measured size of an item and the ways a candidate can be packed.\<close>

definition item_bytes :: "ctx_item \<Rightarrow> int" where
  "item_bytes it = int (length (it_Title it) + 1 + length (it_Summary it) + 1 + length (it_Content it))"

definition packings :: "(string \<Rightarrow> int) \<Rightarrow> ctx_request \<Rightarrow> candidate \<Rightarrow> ctx_item list" where
  "packings estimate rq c = map (\<lambda>(content, usedMode). packed_item c content usedMode (estimate (costText c content)))
     [contentForMode c (rq_Mode rq), contentForMode c ModeCompact]"

lemma choose_content_cases:
  "choose_content estimate rq b c = contentForMode c (rq_Mode rq) \<or> choose_content estimate rq b c = contentForMode c ModeCompact"
  by (auto simp: choose_content_def Let_def split: prod.splits)

lemma packed_item_simps [simp]:
  "it_ID (packed_item c content m n) = it_ID c" "it_EstimatedTokens (packed_item c content m n) = n"
  "it_Title (packed_item c content m n) = it_Title c" "it_Summary (packed_item c content m n) = it_Summary c"
  "it_Content (packed_item c content m n) = content"
  by (simp_all add: packed_item_def ctx_item.defs)

lemma item_bytes_packed [simp]: "item_bytes (packed_item c content m n) = int (length (costText c content))"
  by (simp add: costText_def item_bytes_def)

definition omitted :: "packet \<Rightarrow> string \<Rightarrow> int" where
  "omitted pk reason = (case pk_Omitted pk reason of None \<Rightarrow> 0 | Some n \<Rightarrow> n)"

lemma omitted_bump [simp]: "omitted (bump r pk) r' = omitted pk r' + (if r = r' then 1 else 0)"
  by (auto simp: omitted_def bump_def)

lemma bump_simps [simp]: "pk_Items (bump r pk) = pk_Items pk" "pk_Budget (bump r pk) = pk_Budget pk"
  by (simp_all add: bump_def)

definition in_budget :: "ctx_request \<Rightarrow> budget \<Rightarrow> bool" where
  "in_budget rq b \<longleftrightarrow> (rq_BudgetTokens rq > 0 \<longrightarrow> bg_EstimatedTokens b \<le> rq_BudgetTokens rq) \<and>
     (rq_BudgetBytes rq > 0 \<longrightarrow> bg_EstimatedBytes b \<le> rq_BudgetBytes rq)"

text \<open>The invariant of the packing loop after the candidates \<open>taken\<close>.\<close>

definition packing_inv ::
    "(string \<Rightarrow> int) \<Rightarrow> ctx_request \<Rightarrow> candidate list \<Rightarrow> packet \<times> string list \<Rightarrow> bool" where
  "packing_inv estimate rq taken st \<longleftrightarrow> (case st of (pk, seen) \<Rightarrow> let b = pk_Budget pk; items = pk_Items pk in
     set seen = it_ID ` set taken \<and> it_ID ` set items \<subseteq> set seen \<and> distinct (map it_ID items) \<and>
     subseq (map it_ID items) (map it_ID taken) \<and>
     bg_EstimatedTokens b = sum_list (map it_EstimatedTokens items) \<and>
     bg_EstimatedBytes b = sum_list (map item_bytes items) \<and> bg_ExactBytes b = sum_list (map item_bytes items) \<and>
     bg_RequestedTokens b = rq_BudgetTokens rq \<and> bg_RequestedBytes b = rq_BudgetBytes rq \<and> in_budget rq b \<and>
     (\<forall>it\<in>set items. \<exists>c\<in>set taken. it \<in> set (packings estimate rq c)) \<and>
     int (length items) + omitted pk ''duplicate'' + omitted pk ''budget'' = int (length taken))"

lemma subseq_snoc: "subseq xs ys \<Longrightarrow> subseq xs (ys @ [y])" "subseq xs ys \<Longrightarrow> subseq (xs @ [y]) (ys @ [y])"
  using list_emb_append_mono [of "(=)" xs ys "[]" "[y]"] by simp_all

lemma fits_in_budget:
  "fits b rq t n \<Longrightarrow> in_budget rq (b\<lparr>bg_EstimatedTokens := bg_EstimatedTokens b + t,
     bg_EstimatedBytes := bg_EstimatedBytes b + n, bg_ExactBytes := e\<rparr>)"
  by (auto simp: fits_def in_budget_def split: if_splits)

lemma packings_forms:
  assumes "it \<in> set (packings estimate rq c)"
  shows "it_ID it = it_ID c" "it_Title it = it_Title c" "it_Summary it = it_Summary c"
    "\<exists>mode. it_Content it = fst (contentForMode c mode)"
  using assms by (auto simp: packings_def case_prod_beta)

lemma packing_inv_step:
  assumes inv: "packing_inv estimate rq taken (pk, seen)"
  shows "packing_inv estimate rq (taken @ [c]) (pack_step estimate rq (pk, seen) c)"
proof (cases "it_ID c \<in> set seen")
  case True
  then show ?thesis using inv by (auto simp: packing_inv_def pack_step_def Let_def intro: subseq_snoc)
next
  case new: False
  obtain content usedMode where chosen: "choose_content estimate rq (pk_Budget pk) c = (content, usedMode)" by fastforce
  let ?it = "packed_item c content usedMode (estimate (costText c content))"
  show ?thesis
  proof (cases "fits (pk_Budget pk) rq (estimate (costText c content)) (int (length (costText c content)))")
    case False
    then show ?thesis using inv new chosen
      by (auto simp: packing_inv_def pack_step_def Let_def intro: subseq_snoc)
  next
    case True
    have "?it \<in> set (packings estimate rq c)"
      using choose_content_cases [of estimate rq "pk_Budget pk" c] by (auto simp: chosen packings_def split: prod.splits)
    moreover note fits_in_budget [OF True, of "bg_ExactBytes (pk_Budget pk) + int (length (costText c content))"]
    moreover have "pack_step estimate rq (pk, seen) c = (pk\<lparr>pk_Items := pk_Items pk @ [?it],
        pk_Budget := (pk_Budget pk)\<lparr>bg_EstimatedTokens := bg_EstimatedTokens (pk_Budget pk) + estimate (costText c content),
          bg_EstimatedBytes := bg_EstimatedBytes (pk_Budget pk) + int (length (costText c content)),
          bg_ExactBytes := bg_ExactBytes (pk_Budget pk) + int (length (costText c content))\<rparr>\<rparr>, it_ID c # seen)"
      using True new chosen by (simp add: pack_step_def Let_def)
    ultimately show ?thesis using inv new unfolding packing_inv_def Let_def
      by (elim conjE case_prodE, intro case_prodI2 conjI) (auto simp: subseq_snoc omitted_def image_subset_iff)
  qed
qed

lemma packing_inv_run:
  "packing_inv estimate rq taken st \<Longrightarrow> packing_inv estimate rq (taken @ cs) (foldl (pack_step estimate rq) st cs)"
proof (induction cs arbitrary: taken st)
  case (Cons c cs)
  then show ?case using packing_inv_step [of estimate rq taken "fst st" "snd st" c] Cons.IH [of "taken @ [c]"] by simp
qed simp

lemma finish_packet_simps [simp]:
  "pk_Items (finish_packet pk) = pk_Items pk" "pk_Budget (finish_packet pk) = pk_Budget pk"
  "omitted (finish_packet pk) = omitted pk"
  by (simp_all add: finish_packet_def omitted_def [abs_def])

lemma Pack_run:
  assumes "Pack rnd rq cs estimator = Inr pk"
  obtains rq' pk' seen where "Request_validate rq = Inr rq'" "pk = finish_packet pk'"
    "foldl (pack_step (case estimator of None \<Rightarrow> ByteQuarterEstimator | Some f \<Rightarrow> f) (with_default_budget rq'))
       (emptyPacket (with_default_budget rq'), []) (diversify (RankCandidates rnd cs)) = (pk', seen)"
proof -
  let ?run = "\<lambda>rq'. foldl (pack_step (case estimator of None \<Rightarrow> ByteQuarterEstimator | Some f \<Rightarrow> f) (with_default_budget rq'))
       (emptyPacket (with_default_budget rq'), []) (diversify (RankCandidates rnd cs))"
  obtain rq' where "Request_validate rq = Inr rq'" "finish_packet (fst (?run rq')) = pk"
    using assms by (auto simp: Pack_def Let_def case_prod_beta)
  then show thesis using that [of rq' "fst (?run rq')" "snd (?run rq')"] by simp
qed

lemma Request_validate_budgets:
  assumes "Request_validate rq = Inr rq'"
  shows "rq_BudgetTokens rq' = rq_BudgetTokens rq" "rq_BudgetBytes rq' = rq_BudgetBytes rq"
    "rq_BudgetTokens rq \<ge> 0" "rq_BudgetBytes rq \<ge> 0" "rq_Mode rq' = (if rq_Mode rq = [] then ModeCompact else rq_Mode rq)"
  using assms by (auto simp: Request_validate_def Let_def split: if_splits)

text \<open>The candidate a packed candidate was ranked from: only the reasons differ.\<close>

lemma ranked_from:
  assumes "c \<in> set (RankCandidates rnd cs)"
  obtains c0 where "c0 \<in> set cs" "unexplained c = unexplained c0"
proof -
  have "unexplained c \<in> set (map unexplained cs)"
    using assms RankCandidates_perm [of rnd cs] by (metis image_eqI list.set_map mset_eq_setD)
  then show thesis using that by auto
qed

lemma unexplained_fields:
  assumes "unexplained c = unexplained c0"
  shows "it_ID c = it_ID c0" "contentForMode c = contentForMode c0" "costText c = costText c0"
    "it_Citations c = it_Citations c0" "it_Title c = it_Title c0" "it_Summary c = it_Summary c0"
proof -
  have fields: "it_ID (unexplained x) = it_ID x" "contentForMode (unexplained x) = contentForMode x"
    "costText (unexplained x) = costText x" "it_Citations (unexplained x) = it_Citations x"
    "it_Title (unexplained x) = it_Title x" "it_Summary (unexplained x) = it_Summary x" for x
    by (simp_all add: unexplained_def fun_eq_iff contentForMode_def costText_def)
  show "it_ID c = it_ID c0" "contentForMode c = contentForMode c0" "costText c = costText c0"
    "it_Citations c = it_Citations c0" "it_Title c = it_Title c0" "it_Summary c = it_Summary c0"
    using fields [of c] fields [of c0] assms by simp_all
qed

text \<open>Four candidates for fourteen bytes: one packed whole, one compact, one too large, one duplicate.\<close>

definition sample_candidate :: "string \<Rightarrow> rat \<Rightarrow> string \<Rightarrow> string \<Rightarrow> candidate" where
  "sample_candidate i score short long = \<lparr>it_ID = i, it_Kind = ''source'', it_Title = i, it_Summary = [], it_Content = [],
     it_WhySelected = [''match''], it_Freshness = ''current'', it_Confidence = 1, it_Audience = None, it_Citations = [],
     it_DetailResource = [], it_EstimatedTokens = 0, ca_CompactContent = short, ca_StandardContent = long,
     ca_FullContent = [], ca_LexicalScore = score, ca_SemanticScore = 0, ca_DirectMatch = False, ca_Knowledge = False,
     ca_GraphDistance = 0, ca_ChangedRelated = False, ca_LowSignal = False, ca_LowSignalClass = [], ca_SymbolMatch = False,
     ca_PathMatch = False\<rparr>"

definition sample_candidates :: "candidate list" where
  "sample_candidates = [sample_candidate ''b'' 5 ''bb'' ''bbbbbbbbbbbbbbbbbb'', sample_candidate ''c'' 4 ''cccccccc'' ''c'',
     sample_candidate ''a'' 10 ''aa'' ''aaaa'', sample_candidate ''a'' 1 ''aa'' ''aaaa'']"

definition sample_request :: ctx_request where
  "sample_request = \<lparr>rq_Question = ''q'', rq_IDs = [], rq_Mode = ModeStandard, rq_BudgetTokens = 0, rq_BudgetBytes = 14, rq_Filters = []\<rparr>"


lemma sample_score: "score_candidate id (sample_candidate i score short long) = (score + 15, [''match'', ''evidence is current''])"
  by (simp add: score_candidate_def sample_candidate_def dampen_def add_score_def add_freshness_def)

definition explained :: "candidate \<Rightarrow> candidate" where
  "explained c = c\<lparr>it_WhySelected := [''match'', ''evidence is current'']\<rparr>"

lemma sample_ID: "it_ID (sample_candidate i score short long) = i"
  by (simp add: sample_candidate_def)

lemma sample_ranked: "RankCandidates id sample_candidates = map explained
   [sample_candidate ''a'' 10 ''aa'' ''aaaa'', sample_candidate ''b'' 5 ''bb'' ''bbbbbbbbbbbbbbbbbb'',
    sample_candidate ''c'' 4 ''cccccccc'' ''c'', sample_candidate ''a'' 1 ''aa'' ''aaaa'']"
  by (simp add: RankCandidates_def rank_scored_def sample_candidates_def sample_score sample_ID uniqueStrings_def explained_def)

lemma sample_packed:
  "\<exists>pk. Pack id sample_request sample_candidates None = Inr pk \<and> map it_ID (pk_Items pk) = [''a'', ''b''] \<and>
     bg_ExactBytes (pk_Budget pk) = 12 \<and> bg_RequestedBytes (pk_Budget pk) = 14 \<and> bg_RequestedTokens (pk_Budget pk) = 0"
  by (simp add: Pack_def sample_request_def Request_validate_def sample_ranked diversify_def diversify_step_def source_of_def
      explained_def sample_candidate_def with_default_budget_def emptyPacket_def finish_packet_def pack_step_def
      choose_content_def contentForMode_def costText_def fits_def packed_item_def ctx_item.defs bump_def ByteQuarterEstimator_def)

lemma packed_inv:
  assumes v: "Request_validate rq = Inr rq'"
    and run: "foldl (pack_step estimate (with_default_budget rq')) (emptyPacket (with_default_budget rq'), []) cs = (pk, seen)"
  shows "packing_inv estimate (with_default_budget rq') cs (pk, seen)"
proof -
  have "packing_inv estimate (with_default_budget rq') [] (emptyPacket (with_default_budget rq'), [])"
    using Request_validate_budgets [OF v]
    by (simp add: packing_inv_def emptyPacket_def omitted_def in_budget_def with_default_budget_def)
  then have "packing_inv estimate (with_default_budget rq') ([] @ cs) (pk, seen)"
    unfolding run [symmetric] by (rule packing_inv_run)
  then show ?thesis by simp
qed

lemma packed_within_budget:
  assumes "Pack rnd rq cs estimator = Inr pk"
  shows "bg_RequestedTokens (pk_Budget pk) > 0 \<or> bg_RequestedBytes (pk_Budget pk) > 0"
    and "bg_RequestedTokens (pk_Budget pk) > 0 \<Longrightarrow> bg_EstimatedTokens (pk_Budget pk) \<le> bg_RequestedTokens (pk_Budget pk)"
    and "bg_RequestedBytes (pk_Budget pk) > 0 \<Longrightarrow> bg_ExactBytes (pk_Budget pk) \<le> bg_RequestedBytes (pk_Budget pk)"
    and "bg_EstimatedTokens (pk_Budget pk) = sum_list (map it_EstimatedTokens (pk_Items pk))"
    and "bg_ExactBytes (pk_Budget pk) = sum_list (map item_bytes (pk_Items pk))"
    and "distinct (map it_ID (pk_Items pk))"
    and "subseq (map it_ID (pk_Items pk)) (map it_ID (diversify (RankCandidates rnd cs)))"
    and "\<forall>it\<in>set (pk_Items pk). \<exists>c\<in>set cs. it_ID it = it_ID c \<and> it_Title it = it_Title c \<and> it_Summary it = it_Summary c \<and>
           (\<exists>mode. it_Content it = fst (contentForMode c mode))"
    and "int (length (pk_Items pk)) + omitted pk ''duplicate'' + omitted pk ''budget'' = int (length cs)"
proof -
  obtain rq' pk' seen where v: "Request_validate rq = Inr rq'" and pk: "pk = finish_packet pk'" and run:
    "foldl (pack_step (case estimator of None \<Rightarrow> ByteQuarterEstimator | Some f \<Rightarrow> f) (with_default_budget rq'))
       (emptyPacket (with_default_budget rq'), []) (diversify (RankCandidates rnd cs)) = (pk', seen)"
    by (rule Pack_run [OF assms])
  let ?rq = "with_default_budget rq'" and ?est = "case estimator of None \<Rightarrow> ByteQuarterEstimator | Some f \<Rightarrow> f"
  note budgets = Request_validate_budgets [OF v] and inv = packed_inv [OF v run]
  show "distinct (map it_ID (pk_Items pk))" "subseq (map it_ID (pk_Items pk)) (map it_ID (diversify (RankCandidates rnd cs)))"
    "bg_EstimatedTokens (pk_Budget pk) = sum_list (map it_EstimatedTokens (pk_Items pk))"
    "bg_ExactBytes (pk_Budget pk) = sum_list (map item_bytes (pk_Items pk))"
    "int (length (pk_Items pk)) + omitted pk ''duplicate'' + omitted pk ''budget'' = int (length cs)"
    using inv by (simp_all add: packing_inv_def pk Let_def)
  show "bg_RequestedTokens (pk_Budget pk) > 0 \<or> bg_RequestedBytes (pk_Budget pk) > 0"
    using inv budgets by (auto simp: packing_inv_def pk Let_def with_default_budget_def)
  show "bg_RequestedTokens (pk_Budget pk) > 0 \<Longrightarrow> bg_EstimatedTokens (pk_Budget pk) \<le> bg_RequestedTokens (pk_Budget pk)"
    "bg_RequestedBytes (pk_Budget pk) > 0 \<Longrightarrow> bg_ExactBytes (pk_Budget pk) \<le> bg_RequestedBytes (pk_Budget pk)"
    using inv by (simp_all add: packing_inv_def pk Let_def in_budget_def)
  show "\<forall>it\<in>set (pk_Items pk). \<exists>c\<in>set cs. it_ID it = it_ID c \<and> it_Title it = it_Title c \<and> it_Summary it = it_Summary c \<and>
           (\<exists>mode. it_Content it = fst (contentForMode c mode))"
  proof
    fix it assume "it \<in> set (pk_Items pk)"
    then obtain c where c: "c \<in> set (RankCandidates rnd cs)" "it \<in> set (packings ?est ?rq c)"
      using inv by (auto simp: packing_inv_def pk Let_def)
    obtain c0 where c0: "c0 \<in> set cs" "unexplained c = unexplained c0" by (rule ranked_from [OF c(1)])
    show "\<exists>c\<in>set cs. it_ID it = it_ID c \<and> it_Title it = it_Title c \<and> it_Summary it = it_Summary c \<and>
           (\<exists>mode. it_Content it = fst (contentForMode c mode))"
      using packings_forms [OF c(2)] unexplained_fields [OF c0(2)] c0(1) by auto
  qed
qed

text \<open>
  C12: A packet stays within its budget.  At least one limit is positive, and neither is exceeded by the
  estimates, which are exactly the sums over the items; identifiers are not repeated and come in the order
  of the ranking; every item is a candidate in one of its forms; and every candidate is either
  packed or counted as a duplicate or as too large.
\<close>

theorem Pack_within_budget:
  assumes "Pack rnd rq cs estimator = Inr pk"
  shows "(bg_RequestedTokens (pk_Budget pk) > 0 \<or> bg_RequestedBytes (pk_Budget pk) > 0) \<and>
    (bg_RequestedTokens (pk_Budget pk) > 0 \<longrightarrow> bg_EstimatedTokens (pk_Budget pk) \<le> bg_RequestedTokens (pk_Budget pk)) \<and>
    (bg_RequestedBytes (pk_Budget pk) > 0 \<longrightarrow> bg_ExactBytes (pk_Budget pk) \<le> bg_RequestedBytes (pk_Budget pk)) \<and>
    bg_EstimatedTokens (pk_Budget pk) = sum_list (map it_EstimatedTokens (pk_Items pk)) \<and>
    bg_ExactBytes (pk_Budget pk) = sum_list (map item_bytes (pk_Items pk)) \<and>
    distinct (map it_ID (pk_Items pk)) \<and> subseq (map it_ID (pk_Items pk)) (map it_ID (diversify (RankCandidates rnd cs))) \<and>
    (\<forall>it\<in>set (pk_Items pk). \<exists>c\<in>set cs. it_ID it = it_ID c \<and> it_Title it = it_Title c \<and> it_Summary it = it_Summary c \<and>
      (\<exists>mode. it_Content it = fst (contentForMode c mode))) \<and>
    int (length (pk_Items pk)) + omitted pk ''duplicate'' + omitted pk ''budget'' = int (length cs)"
  by (intro conjI impI packed_within_budget [OF assms])

theorem Pack_within_budget_witness:
  "\<exists>pk. Pack id sample_request sample_candidates None = Inr pk \<and> bg_ExactBytes (pk_Budget pk) \<le> 14 \<and>
     int (length (pk_Items pk)) + omitted pk ''duplicate'' + omitted pk ''budget'' = 4"
proof -
  obtain pk where pk: "Pack id sample_request sample_candidates None = Inr pk" "bg_RequestedBytes (pk_Budget pk) = 14"
    using sample_packed by (elim exE conjE)
  then show ?thesis using Pack_within_budget [OF pk(1)]
    by (auto simp: sample_candidates_def)
qed

section \<open>Nothing that fits is left out\<close>

definition fits_compact :: "(string \<Rightarrow> int) \<Rightarrow> ctx_request \<Rightarrow> budget \<Rightarrow> candidate \<Rightarrow> bool" where
  "fits_compact estimate rq b c = (let text = costText c (ca_CompactContent c) in fits b rq (estimate text) (int (length text)))"

lemma chosen_too_large:
  assumes "choose_content estimate rq b c = (content, usedMode)"
    and "\<not> fits b rq (estimate (costText c content)) (int (length (costText c content)))"
  shows "\<not> fits_compact estimate rq b c"
  using assms by (auto simp: choose_content_def contentForMode_def fits_compact_def Let_def split: if_splits)

definition grows :: "budget \<Rightarrow> budget \<Rightarrow> bool" where
  "grows b b' \<longleftrightarrow> bg_EstimatedTokens b \<le> bg_EstimatedTokens b' \<and> bg_EstimatedBytes b \<le> bg_EstimatedBytes b'"

lemma fits_antimono: "grows b b' \<Longrightarrow> fits_compact estimate rq b' c \<Longrightarrow> fits_compact estimate rq b c"
  by (auto simp: grows_def fits_compact_def fits_def Let_def split: if_splits)

text \<open>Each candidate tried so far, the first of its identifier, is packed or does not fit.\<close>

definition maximal_inv ::
    "(string \<Rightarrow> int) \<Rightarrow> ctx_request \<Rightarrow> candidate list \<Rightarrow> packet \<times> string list \<Rightarrow> bool" where
  "maximal_inv estimate rq taken st \<longleftrightarrow> set (snd st) = it_ID ` set taken \<and>
     (\<forall>earlier c later. taken = earlier @ c # later \<longrightarrow> it_ID c \<notin> it_ID ` set earlier \<longrightarrow>
        it_ID c \<in> it_ID ` set (pk_Items (fst st)) \<or> \<not> fits_compact estimate rq (pk_Budget (fst st)) c)"

lemma maximal_invD:
  "maximal_inv estimate rq taken st \<Longrightarrow> taken = earlier @ c # later \<Longrightarrow> it_ID c \<notin> it_ID ` set earlier \<Longrightarrow>
     it_ID c \<in> it_ID ` set (pk_Items (fst st)) \<or> \<not> fits_compact estimate rq (pk_Budget (fst st)) c"
  unfolding maximal_inv_def by blast

lemma maximal_inv_snoc:
  assumes inv: "maximal_inv estimate rq taken (pk, seen)" and seen: "set seen' = it_ID ` set (taken @ [c])"
    and items: "it_ID ` set (pk_Items pk) \<subseteq> it_ID ` set (pk_Items pk')"
    and larger: "\<And>d. \<not> fits_compact estimate rq (pk_Budget pk) d \<Longrightarrow> \<not> fits_compact estimate rq (pk_Budget pk') d"
    and this_one: "it_ID c \<in> it_ID ` set taken \<or> it_ID c \<in> it_ID ` set (pk_Items pk') \<or> \<not> fits_compact estimate rq (pk_Budget pk') c"
  shows "maximal_inv estimate rq (taken @ [c]) (pk', seen')"
  unfolding maximal_inv_def fst_conv snd_conv
proof (intro conjI seen allI impI)
  fix earlier d later assume split: "taken @ [c] = earlier @ d # later" and new: "it_ID d \<notin> it_ID ` set earlier"
  show "it_ID d \<in> it_ID ` set (pk_Items pk') \<or> \<not> fits_compact estimate rq (pk_Budget pk') d"
  proof (cases later rule: rev_cases)
    case Nil
    then show ?thesis using split new this_one by auto
  next
    case (snoc rest last)
    then have "taken = earlier @ d # rest" using split by simp
    then have "it_ID d \<in> it_ID ` set (pk_Items pk) \<or> \<not> fits_compact estimate rq (pk_Budget pk) d"
      using maximal_invD [OF inv _ new] by simp
    then show ?thesis using items larger [of d] by (elim disjE) (rule disjI1, erule subsetD, simp_all)
  qed
qed

lemma maximal_inv_step:
  assumes nonneg: "\<forall>t. 0 \<le> estimate t" and inv: "maximal_inv estimate rq taken (pk, seen)"
  shows "maximal_inv estimate rq (taken @ [c]) (pack_step estimate rq (pk, seen) c)"
proof -
  obtain content usedMode where chosen: "choose_content estimate rq (pk_Budget pk) c = (content, usedMode)" by fastforce
  let ?text = "costText c content" and ?b = "pk_Budget pk"
  let ?b' = "?b\<lparr>bg_EstimatedTokens := bg_EstimatedTokens ?b + estimate ?text,
     bg_EstimatedBytes := bg_EstimatedBytes ?b + int (length ?text), bg_ExactBytes := bg_ExactBytes ?b + int (length ?text)\<rparr>"
  have larger: "\<not> fits_compact estimate rq ?b d \<Longrightarrow> \<not> fits_compact estimate rq ?b' d" for d
    using fits_antimono [of ?b ?b'] nonneg by (auto simp: grows_def)
  have seen: "set seen = it_ID ` set taken" using inv by (simp add: maximal_inv_def)
  consider (old) "it_ID c \<in> set seen" | (large) "it_ID c \<notin> set seen" "\<not> fits ?b rq (estimate ?text) (int (length ?text))"
    | (fits) "it_ID c \<notin> set seen" "fits ?b rq (estimate ?text) (int (length ?text))" by blast
  then show ?thesis
  proof cases
    case old
    then have "pack_step estimate rq (pk, seen) c = (bump ''duplicate'' pk, seen)" by (simp add: pack_step_def)
    then show ?thesis using old seen by (auto simp: bump_def intro!: maximal_inv_snoc [OF inv])
  next
    case large
    then have "pack_step estimate rq (pk, seen) c = (bump ''budget'' pk, it_ID c # seen)"
      using chosen by (simp add: pack_step_def Let_def)
    then show ?thesis using seen chosen_too_large [OF chosen large(2)]
      by (auto simp: bump_def intro!: maximal_inv_snoc [OF inv])
  next
    case fits
    then have "pack_step estimate rq (pk, seen) c = (pk\<lparr>pk_Items := pk_Items pk @ [packed_item c content usedMode (estimate ?text)],
        pk_Budget := ?b'\<rparr>, it_ID c # seen)"
      using chosen by (simp add: pack_step_def Let_def)
    then show ?thesis using seen larger by (auto intro!: maximal_inv_snoc [OF inv])
  qed
qed

lemma maximal_inv_run:
  "\<forall>t. 0 \<le> estimate t \<Longrightarrow> maximal_inv estimate rq taken st \<Longrightarrow>
     maximal_inv estimate rq (taken @ cs) (foldl (pack_step estimate rq) st cs)"
proof (induction cs arbitrary: taken st)
  case (Cons c cs)
  then show ?case using maximal_inv_step [of estimate rq taken "fst st" "snd st" c] Cons.IH [of "taken @ [c]"] by simp
qed simp

text \<open>
  C20: Packing leaves nothing out that fits.  Candidates are tried in the order of the ranking, diversified by
  source, and only the first of an identifier is tried.  If its identifier is not among the items of the
  packet, then adding its compact form would exceed the requested tokens or the requested bytes of the finished
  packet.  The estimator must not be negative, as \<open>ByteQuarterEstimator\<close> is not; it prices the
  title, the summary and the content, a line each.
\<close>

theorem Pack_maximal:
  assumes "Pack rnd rq cs estimator = Inr pk" and "estimate = (case estimator of None \<Rightarrow> ByteQuarterEstimator | Some f \<Rightarrow> f)"
    and "\<forall>t. 0 \<le> estimate t" and "diversify (RankCandidates rnd cs) = earlier @ c # later"
    and "it_ID c \<notin> it_ID ` set earlier" and "it_ID c \<notin> it_ID ` set (pk_Items pk)"
    and "text = it_Title c @ [newline] @ it_Summary c @ [newline] @ ca_CompactContent c"
  shows "bg_RequestedTokens (pk_Budget pk) > 0 \<and>
      bg_EstimatedTokens (pk_Budget pk) + estimate text > bg_RequestedTokens (pk_Budget pk) \<or>
    bg_RequestedBytes (pk_Budget pk) > 0 \<and>
      bg_EstimatedBytes (pk_Budget pk) + int (length text) > bg_RequestedBytes (pk_Budget pk)"
proof -
  obtain rq' pk' seen where v: "Request_validate rq = Inr rq'" and pk: "pk = finish_packet pk'" and run:
    "foldl (pack_step estimate (with_default_budget rq')) (emptyPacket (with_default_budget rq'), [])
       (diversify (RankCandidates rnd cs)) = (pk', seen)"
    unfolding assms(2) by (rule Pack_run [OF assms(1)])
  let ?rq = "with_default_budget rq'"
  have "maximal_inv estimate ?rq [] (emptyPacket ?rq, [])" by (simp add: maximal_inv_def)
  then have "maximal_inv estimate ?rq ([] @ diversify (RankCandidates rnd cs)) (pk', seen)"
    unfolding run [symmetric] by (rule maximal_inv_run [OF assms(3)])
  then have "maximal_inv estimate ?rq (earlier @ c # later) (pk', seen)" by (simp add: assms(4))
  from maximal_invD [OF this refl assms(5)] have "\<not> fits_compact estimate ?rq (pk_Budget pk) c"
    using assms(6) by (simp add: pk)
  moreover have "bg_RequestedTokens (pk_Budget pk) = rq_BudgetTokens ?rq \<and> bg_RequestedBytes (pk_Budget pk) = rq_BudgetBytes ?rq"
    using packed_inv [OF v run] by (simp add: packing_inv_def pk Let_def)
  ultimately show ?thesis
    by (auto simp: fits_compact_def fits_def costText_def assms(7) split: if_splits)
qed

theorem Pack_maximal_witness:
  "\<exists>pk. Pack id sample_request sample_candidates None = Inr pk \<and> map it_ID (pk_Items pk) = [''a'', ''b''] \<and>
     bg_EstimatedBytes (pk_Budget pk) + int (length ([CHR ''c''] @ [newline] @ [] @ [newline] @ ''cccccccc'')) >
       bg_RequestedBytes (pk_Budget pk)"
proof -
  let ?c = "explained (sample_candidate ''c'' 4 ''cccccccc'' ''c'')"
  obtain pk where pk: "Pack id sample_request sample_candidates None = Inr pk" "map it_ID (pk_Items pk) = [''a'', ''b'']"
    "bg_RequestedTokens (pk_Budget pk) = 0"
    using sample_packed by (elim exE conjE)
  have nonneg: "\<forall>t. 0 \<le> ByteQuarterEstimator t" by (simp add: ByteQuarterEstimator_def pos_imp_zdiv_nonneg_iff)
  have order: "diversify (RankCandidates id sample_candidates) =
      [explained (sample_candidate ''a'' 10 ''aa'' ''aaaa''), explained (sample_candidate ''b'' 5 ''bb'' ''bbbbbbbbbbbbbbbbbb'')] @
      ?c # [explained (sample_candidate ''a'' 1 ''aa'' ''aaaa'')]"
    by (simp add: sample_ranked diversify_def diversify_step_def source_of_def explained_def sample_candidate_def)
  have left_out: "it_ID ?c \<notin> it_ID ` set (pk_Items pk)"
    using arg_cong [OF pk(2), of set] by (simp add: explained_def sample_ID)
  have priced: "[CHR ''c''] @ [newline] @ [] @ [newline] @ ''cccccccc'' =
      it_Title ?c @ [newline] @ it_Summary ?c @ [newline] @ ca_CompactContent ?c"
    by (simp add: explained_def sample_candidate_def)
  have "bg_RequestedTokens (pk_Budget pk) > 0 \<and> bg_EstimatedTokens (pk_Budget pk) +
        ByteQuarterEstimator ([CHR ''c''] @ [newline] @ [] @ [newline] @ ''cccccccc'') > bg_RequestedTokens (pk_Budget pk) \<or>
      bg_RequestedBytes (pk_Budget pk) > 0 \<and>
        bg_EstimatedBytes (pk_Budget pk) + int (length ([CHR ''c''] @ [newline] @ [] @ [newline] @ ''cccccccc'')) >
          bg_RequestedBytes (pk_Budget pk)"
    by (rule Pack_maximal [OF pk(1) _ nonneg order _ left_out priced]) (simp_all add: explained_def sample_ID)
  then show ?thesis using pk by auto
qed

end
