(* ===== verification/Replay.thy ===== *)
theory Replay
  imports Demo "HOL-Library.AList"
begin

text \<open>
  \<open>internal/review/unit.go\<close>: how the service turns a finished plan into the artifacts it persists.
  \<open>replayArtifacts\<close> derives the identifiers of the plan a second time, with the canonical bytes
  behind each of them, rebuilds the identity and refuses the plan when its digest differs; then it
  collects the mandatory units, the identity records and the proofs by which evidence can be cited.

  The service plans with the zero symbol mapper, the one \<open>replayArtifacts\<close> uses, and its memoized
  graph answers a repeated query as it did the first time, so the graph of the planner stands for both.
  Go ranges over the map of paths only to collect sets that it sorts afterwards.
\<close>

section \<open>Citation proofs\<close>

definition zeros64 :: string where "zeros64 = replicate 64 (CHR ''0'')"

definition proof_of_range :: "string \<Rightarrow> string \<Rightarrow> string \<times> string \<times> int \<times> int \<Rightarrow> citation_proof" where
  "proof_of_range i hash cited = (case cited of (side, path, start, stop) \<Rightarrow>
     \<lparr>cpr_ID = i, cpr_Side = side, cpr_Path = path, cpr_ContentHash = hash, cpr_Start = start, cpr_End = stop\<rparr>)"

definition raw_hunk_proof :: "(bytes \<Rightarrow> digest) \<Rightarrow> raw_path_record \<Rightarrow> raw_hunk \<Rightarrow> citation_proof" where
  "raw_hunk_proof H r h = proof_of_range [] (hash_hex H (rh_Payload h))
     (cited_range (rp_OldPath r) (sint (rh_OldStart h)) (sint (rh_OldLines h))
        (rp_NewPath r) (sint (rh_NewStart h)) (sint (rh_NewLines h)))"

text \<open>The first hunk of the first record that has one.\<close>

definition defaultCitationProof :: "(bytes \<Rightarrow> digest) \<Rightarrow> raw_path_record list \<Rightarrow> citation_proof" where
  "defaultCitationProof H paths =
     (case concat (map (\<lambda>r. map (raw_hunk_proof H r) (rp_Hunks r)) (sortedPathRecords paths)) of
        p # _ \<Rightarrow> p
      | [] \<Rightarrow> \<lparr>cpr_ID = [], cpr_Side = SideHead, cpr_Path = [], cpr_ContentHash = zeros64, cpr_Start = 1, cpr_End = 1\<rparr>)"

definition citationProofForUnitHunk :: "(bytes \<Rightarrow> digest) \<Rightarrow> string \<Rightarrow> unit_hunk \<Rightarrow> bytes \<Rightarrow> citation_proof" where
  "citationProofForUnitHunk H i h payload = proof_of_range i (hash_hex H payload)
     (cited_range (uh_OldPath h) (uh_OldStart h) (uh_OldCount h) (uh_NewPath h) (uh_NewStart h) (uh_NewCount h))"

definition citationProofForUnit :: "(bytes \<Rightarrow> digest) \<Rightarrow> review_unit \<Rightarrow> citation_proof result" where
  "citationProofForUnit H u =
     (case sort_key (\<lambda>h. (uh_PathID h, uh_Ordinal h, uh_NewPath h, uh_OldPath h)) (ru_Hunks u) of
        [] \<Rightarrow> Inl (Err ''review: unit %s has no owned hunk citation'' [AStr (ru_UnitID u)])
      | h # _ \<Rightarrow> bindE (wrapE (\<lambda>e. Err ''review: decode unit %s citation patch: %w'' [AStr (ru_UnitID u), AWrap e])
            (b64_decode (uh_PatchBase64 h))) (\<lambda>payload. Inr (citationProofForUnitHunk H (ru_UnitID u) h payload)))"

text \<open>A Go map written key by key: a later write replaces an earlier one.\<close>

abbreviation put :: "string \<Rightarrow> 'a \<Rightarrow> (string \<times> 'a) list \<Rightarrow> (string \<times> 'a) list" where
  "put \<equiv> AList.update"

definition put_all :: "(string \<times> 'a) list \<Rightarrow> (string \<times> 'a) list \<Rightarrow> (string \<times> 'a) list" where
  "put_all m entries = foldl (\<lambda>m e. put (fst e) (snd e) m) m entries"

lemma map_of_put_all: "map_of (put_all m es) = map_of m ++ map_of (rev es)"
proof (induction es arbitrary: m)
  case (Cons e es)
  have "map_of (put_all m (e # es)) = map_of (put (fst e) (snd e) m) ++ map_of (rev es)"
    using Cons.IH by (simp add: put_all_def)
  also have "\<dots> = map_of m ++ (map_of (rev es) ++ [fst e \<mapsto> snd e]) ++ map_of (rev es)"
    by (auto simp: update_conv' fun_eq_iff map_add_def split: option.splits)
  finally show ?case by (auto simp: fun_eq_iff map_add_def split: option.splits)
qed (simp add: put_all_def)

lemma put_all_distinct: "distinct (map fst m) \<Longrightarrow> distinct (map fst (put_all m es))"
  unfolding put_all_def by (induction es arbitrary: m) (simp_all add: distinct_update)

text \<open>The proofs that are persisted: one per identity record, then one per unit.\<close>

definition record_citations :: "citation_proof \<Rightarrow> id_record list \<Rightarrow> (string \<times> citation_proof) list" where
  "record_citations p records = map (\<lambda>r. (ir_Public r, p\<lparr>cpr_ID := ir_Public r\<rparr>)) records"

definition plan_citations ::
    "(bytes \<Rightarrow> digest) \<Rightarrow> raw_path_record list \<Rightarrow> id_record list \<Rightarrow> review_unit list \<Rightarrow> (string \<times> citation_proof) list result" where
  "plan_citations H paths records units =
     bindE (mapE (\<lambda>u. bindE (citationProofForUnit H u) (\<lambda>p. Inr (ru_UnitID u, p))) units) (\<lambda>unitProofs.
     Inr (put_all (put_all [] (record_citations (defaultCitationProof H paths) records)) unitProofs))"

section \<open>The state of a replay\<close>

record replay_path =
  rpp_record :: raw_path_record
  rpp_id :: stable_id
  rpp_mappings :: "hunk_mapping list"
  rpp_semantic :: "semantic_target list"
  rpp_signals :: "attention_signal list"
  rpp_facts :: file_facts

text \<open>\<open>stable\<close> and \<open>canonical\<close> have the same keys, so they are one map here.\<close>

record replay_state =
  rps_paths :: "(string \<times> replay_path) list"
  rps_ids :: "(string \<times> stable_id \<times> bytes) list"
  rps_hunkByKey :: "string \<rightharpoonup> stable_id"

definition addReplayID :: "stable_id \<Rightarrow> bytes \<Rightarrow> replay_state \<Rightarrow> replay_state" where
  "addReplayID i canonical st = st\<lparr>rps_ids := put (Public i) (i, canonical) (rps_ids st)\<rparr>"

definition hunk_key :: "string \<Rightarrow> int \<Rightarrow> string" where
  "hunk_key pathID ordinal = pathID @ '':'' @ itoa ordinal"

definition rawHunkForUnit :: "(bytes \<Rightarrow> digest) \<Rightarrow> capture \<Rightarrow> unit_hunk \<Rightarrow> stable_id option" where
  "rawHunkForUnit H cp u = (case concat (map (\<lambda>r. let pid = PathID H (sc_Digest (cp_Scope cp)) r in
       if Public pid \<noteq> uh_PathID u then []
       else map (HunkID H (sc_Digest (cp_Scope cp)) (Full pid)) (filter (\<lambda>h. sint (rh_Ordinal h) = uh_Ordinal u) (rp_Hunks r)))
     (cp_Paths cp)) of
     [] \<Rightarrow> None | i # _ \<Rightarrow> Some i)"

definition semantic_fields :: "(bytes \<Rightarrow> digest) \<Rightarrow> semantic_target \<Rightarrow> digest \<Rightarrow> field list" where
  "semantic_fields H t pathID = (let s = tg_Symbol t;
       content = (if sr_Signature s = [] then sr_Kind s @ [CHR 0x00] @ sr_Parent s @ [CHR 0x00] @ sr_Name s else sr_Signature s) in
     [(''kind'', tg_Kind t), (''path'', digest_bytes pathID), (''side'', tg_Side t), (''symbol_kind'', sr_Kind s),
      (''symbol_name'', sr_Name s), (''start'', u64_bytes (word_of_int (sr_StartLine s))),
      (''end'', u64_bytes (word_of_int (sr_EndLine s))), (''signature'', digest_bytes (H content))])"

definition semanticCanonical :: "(bytes \<Rightarrow> digest) \<Rightarrow> semantic_target \<Rightarrow> digest \<Rightarrow> bytes" where
  "semanticCanonical H t pathID = frame (semantic_fields H t pathID)"

definition anyPathIn :: "string list \<Rightarrow> string list \<Rightarrow> bool" where
  "anyPathIn paths members \<longleftrightarrow> list_ex (\<lambda>p. p \<in> set members) paths"

section \<open>Replaying one record\<close>

text \<open>The plan's entry of a path, with Go's zero value for a missing one.\<close>

definition plan_entry :: "plan \<Rightarrow> string \<Rightarrow> plan_path" where
  "plan_entry p pathID = (case map_of (rev (map (\<lambda>c. (pp_PathID c, c)) (pn_ChangedPaths p))) pathID of
     None \<Rightarrow> no_path | Some c \<Rightarrow> c)"

definition owned_hunks :: "(bytes \<Rightarrow> digest) \<Rightarrow> capture \<Rightarrow> plan \<Rightarrow> string set" where
  "owned_hunks H cp p = Public ` set (concat (map (\<lambda>u. List.map_filter (rawHunkForUnit H cp) (ru_Hunks u)) (pn_PrimaryUnits p)))"

text \<open>\<open>en\<close> holds what stays fixed: planner, view, scope and the enrichment of the paths.\<close>

definition replay_signals ::
    "build_env \<Rightarrow> plan_path \<Rightarrow> raw_path_record \<Rightarrow> semantic_target list \<Rightarrow> symbol_omission list \<Rightarrow> attention_signal list" where
  "replay_signals en pp r semantic omissions = (let H = be_H en; path = recordPath r;
       fromGraph = canonicalSignals (ff_Signals (factsOf (be_enrichment en) path) @
         map (omission_signal H) (owned_omissions (be_enrichment en) path));
       fromContent = contentSignals H path semantic (rp_Hunks r) (pp_ReviewClass pp) (pp_Reason pp)
     in canonicalSignals (fromGraph @ fromContent @ map (symbol_omission_signal H) omissions))"

text \<open>The loop over the hunks of a record: the state, the signals so far and the identity entries.\<close>

definition large_hunk_signal :: "build_env \<Rightarrow> raw_path_record \<Rightarrow> raw_hunk \<Rightarrow> attention_signal" where
  "large_hunk_signal en r h = newAttentionSignal (be_H en) ''unreviewable_large_text'' (recordPath r)
     (''hunk '' @ itoa (uint (rh_Ordinal h)) @ '' mandatory JSON exceeds '' @ itoa (mandatoryCap (be_planner en)) @ '' bytes'')"

definition replay_hunk ::
    "build_env \<Rightarrow> string set \<Rightarrow> raw_path_record \<Rightarrow> stable_id \<Rightarrow> replay_state \<times> attention_signal list \<times> plan_hunk_entry list \<Rightarrow>
     raw_hunk \<Rightarrow> replay_state \<times> attention_signal list \<times> plan_hunk_entry list" where
  "replay_hunk en owned r pid acc h = (case acc of (st, signals, entries) \<Rightarrow> let
       hid = HunkID (be_H en) (sc_Digest (be_scope en)) (Full pid) h;
       st = addReplayID hid (frame (HunkID_fields (be_H en) (sc_Digest (be_scope en)) (Full pid) h)) st;
       st = st\<lparr>rps_hunkByKey := (rps_hunkByKey st)(hunk_key (Public pid) (uint (rh_Ordinal h)) \<mapsto> hid)\<rparr>
     in if Public hid \<in> owned
        then (st, signals, entries @ [\<lparr>phe_HunkID = hid, phe_Reviewability = HunkReviewable, phe_Reason = []\<rparr>])
        else (st, canonicalSignals (signals @ [large_hunk_signal en r h]),
          entries @ [\<lparr>phe_HunkID = hid, phe_Reviewability = HunkUnreviewableLargeText, phe_Reason = HunkUnreviewableLargeText\<rparr>]))"

record replay_acc =
  rac_state :: replay_state
  rac_paths :: "plan_path_entry list"
  rac_hunks :: "plan_hunk_entry list"

definition replayed ::
    "build_env \<Rightarrow> plan \<Rightarrow> string set \<Rightarrow> replay_acc \<Rightarrow> raw_path_record \<Rightarrow> hunk_mapping list \<times> symbol_omission list \<Rightarrow> replay_acc" where
  "replayed en p owned acc r mapped = (let
       H = be_H en; digest = sc_Digest (be_scope en); pid = PathID H digest r; pp = plan_entry p (Public pid);
       st = addReplayID pid (frame (PathID_fields H digest r)) (rac_state acc);
       semantic = semanticTargets H pid (fst mapped);
       (st, signals, entries) =
         foldl (replay_hunk en owned r pid) (st, replay_signals en pp r semantic (snd mapped), []) (rp_Hunks r);
       rp = \<lparr>rpp_record = r, rpp_id = pid, rpp_mappings = fst mapped, rpp_semantic = semantic, rpp_signals = signals,
             rpp_facts = factsOf (be_enrichment en) (recordPath r)\<rparr>;
       st = st\<lparr>rps_paths := put (recordPath r) rp (rps_paths st)\<rparr>;
       st = (if pn_Mode p = ModeStructured
             then foldl (\<lambda>st t. addReplayID (tg_ID t) (semanticCanonical H t (Full pid)) st) st semantic else st)
     in \<lparr>rac_state = st,
          rac_paths = rac_paths acc @ [\<lparr>ppe_PathID = pid, ppe_ReviewClass = pp_ReviewClass pp, ppe_Coverage = pp_Coverage pp,
            ppe_Reason = pp_Reason pp, ppe_RoleIDs = pp_Roles pp\<rparr>],
          rac_hunks = rac_hunks acc @ entries\<rparr>)"

definition replay_record :: "build_env \<Rightarrow> plan \<Rightarrow> string set \<Rightarrow> replay_acc \<Rightarrow> raw_path_record \<Rightarrow> replay_acc result" where
  "replay_record en p owned acc r =
     bindE (if rp_TextClass r = TextClassText \<and> rp_Hunks r \<noteq> [] then readPlanningSources (be_view en) r else Inr ([], []))
       (\<lambda>(base, head). Inr (replayed en p owned acc r (SymbolMapper_Map (py_SymbolMapper (be_planner en)) r base head)))"

section \<open>Units, cohorts and audits\<close>

record unit_replay =
  ur_stable :: stable_id
  ur_kind :: string
  ur_hunks :: "stable_id list"
  ur_paths :: "string list"
  ur_signals :: "string list"

definition replay_unit_hunk :: "replay_state \<Rightarrow> string \<Rightarrow> unit_hunk \<Rightarrow> stable_id result" where
  "replay_unit_hunk st unitID h = (let hid = (case rps_hunkByKey st (hunk_key (uh_PathID h) (uh_Ordinal h)) of
       None \<Rightarrow> zero_id | Some i \<Rightarrow> i) in
     if Public hid = [] then Inl (Err ''review: unit %s references unknown hunk'' [AStr unitID])
     else if Public hid \<noteq> uh_HunkID h then
       Inl (Err ''review: unit %s hunk_id %s does not match %s'' [AStr unitID, AStr (uh_HunkID h), AStr (Public hid)])
     else Inr hid)"

definition replay_unit :: "(bytes \<Rightarrow> digest) \<Rightarrow> replay_state \<Rightarrow> review_unit \<Rightarrow> (replay_state \<times> unit_replay) result" where
  "replay_unit H st u = bindE (mapE (replay_unit_hunk st (ru_UnitID u)) (ru_Hunks u)) (\<lambda>hunks. let
       kind = (if Public (UnitID H UnitKindNormal hunks) = ru_UnitID u then UnitKindNormal else UnitKindOversizedAtomic);
       uid = UnitID H kind hunks;
       members = filter (\<lambda>rp. Public (rpp_id rp) \<in> set (map uh_PathID (ru_Hunks u))) (map snd (rps_paths st))
     in if Public uid \<noteq> ru_UnitID u then Inl (Err ''review: cannot reconstruct unit identity %s'' [AStr (ru_UnitID u)])
        else Inr (addReplayID uid (frame (UnitID_fields kind hunks)) st,
          \<lparr>ur_stable = uid, ur_kind = kind, ur_hunks = hunks, ur_paths = sort (map (recordPath \<circ> rpp_record) members),
           ur_signals = sortedUniqueStrings (concat (map (map as_ID \<circ> rpp_signals) members))\<rparr>))"

definition units_in :: "unit_replay list \<Rightarrow> string list \<Rightarrow> stable_id list" where
  "units_in us files = map ur_stable (filter (\<lambda>u. anyPathIn (ur_paths u) files) us)"

definition replay_layer ::
    "(bytes \<Rightarrow> digest) \<Rightarrow> unit_replay list \<Rightarrow> stable_id \<Rightarrow> replay_state \<times> plan_cohort_entry list \<Rightarrow> file_layer \<Rightarrow>
     replay_state \<times> plan_cohort_entry list" where
  "replay_layer H us cid acc l = (case acc of (st, entries) \<Rightarrow> let
       layerUnits = units_in us (fl_Paths l); lid = LayerID H cid (of_nat (fl_Ordinal l)) layerUnits
     in (addReplayID lid (frame (LayerID_fields cid (of_nat (fl_Ordinal l)) layerUnits)) st,
         entries @ [\<lparr>pce_CohortID = cid, pce_LayerID = lid, pce_UnitIDs = layerUnits\<rparr>]))"

definition replay_cohort ::
    "(bytes \<Rightarrow> digest) \<Rightarrow> digest \<Rightarrow> unit_replay list \<Rightarrow> replay_state \<times> plan_cohort_entry list \<Rightarrow> file_cohort \<Rightarrow>
     replay_state \<times> plan_cohort_entry list" where
  "replay_cohort H digest us acc c = (case acc of (st, entries) \<Rightarrow> let
       members = units_in us (fc_Files c); cid = CohortID H digest (fc_Key c) members;
       st = addReplayID cid (frame (CohortID_fields digest (fc_Key c) members)) st
     in foldl (replay_layer H us cid) (st, entries) (fc_Layers c))"

definition replay_audit :: "replay_state \<Rightarrow> plan_audit \<Rightarrow> plan_audit_entry result" where
  "replay_audit st a = bindE (mapE (\<lambda>public. case map_of (rps_ids st) public of
       None \<Rightarrow> Inl (Err ''review: audit references unknown target %s'' [AStr public])
     | Some (i, _) \<Rightarrow> Inr i) (pa_TargetIDs a)) (\<lambda>ids. Inr \<lparr>pae_AuditID = pa_AuditID a, pae_TargetIDs = ids\<rparr>)"

section \<open>The artifacts\<close>

definition replay_identity ::
    "build_env \<Rightarrow> evidence \<Rightarrow> replay_acc \<Rightarrow> unit_replay list \<Rightarrow> plan_cohort_entry list \<Rightarrow> plan_audit_entry list \<Rightarrow> plan_identity" where
  "replay_identity en ev acc us cohorts audits = \<lparr>
     pi_PlannerVersion = planner_version (be_planner en), pi_ScopeDigest = sc_Digest (be_scope en),
     pi_IndexSchema = ee_IndexSchema ev, pi_IndexVersion = ee_IndexVersion ev,
     pi_HeadIndexSignature = ee_HeadIndexSignature ev,
     pi_Paths = rac_paths acc, pi_Hunks = rac_hunks acc,
     pi_Units = map (\<lambda>u. \<lparr>pue_UnitID = ur_stable u, pue_Kind = ur_kind u, pue_HunkIDs = ur_hunks u,
       pue_AttentionSignalIDs = ur_signals u\<rparr>) us,
     pi_Cohorts = cohorts, pi_Audits = audits,
     pi_TrustedEvidence = ee_TrustedLocal ev, pi_UntrustedEvidence = ee_UntrustedPolicy ev,
     pi_Constants = \<lparr>pc_StructuredThreshold = word_of_int StructuredThresholdV1,
       pc_UnitLineCap = word_of_int (lineCap (be_planner en)), pc_MandatoryJSONCap = word_of_int (mandatoryCap (be_planner en)),
       pc_TextClassifierVersion = ''text.v1'', pc_ContextRankerVersion = ''rank.v1''\<rparr>\<rparr>"

definition kind_of_public :: "string \<Rightarrow> string" where
  "kind_of_public public = takeWhile (\<lambda>c. c \<noteq> CHR ''_'') public @ ''_''"

definition replay_records :: "replay_state \<Rightarrow> id_record list" where
  "replay_records st = sort_key ir_Public (map (\<lambda>(public, i, canonical).
     \<lparr>ir_Kind = kind_of_public public, ir_Public = public, ir_Full = Full i, ir_Canonical = canonical\<rparr>) (rps_ids st))"

definition replay_mandatory :: "build_env \<Rightarrow> review_unit \<Rightarrow> (string \<times> bytes) result" where
  "replay_mandatory en u = (let data = CanonicalMandatoryJSON u in
     if int (length data) > mandatoryCap (be_planner en)
     then Inl (Err ''%w: %d'' [AWrap (err ''review: mandatory unit exceeds its byte cap''), AInt (int (length data))])
     else Inr (ru_UnitID u, data))"

definition replay_environment :: "(bytes \<Rightarrow> digest) \<Rightarrow> planner \<Rightarrow> capture \<Rightarrow> head_view \<Rightarrow> build_env" where
  "replay_environment H py cp view = \<lparr>be_H = H, be_planner = py, be_view = Some view, be_scope = cp_Scope cp,
     be_enrichment = EnrichGraph H (\<lambda>_. None) (map recordPath (sortedPathRecords (cp_Paths cp))) (py_Graph py)\<rparr>"

definition replay_finish ::
    "build_env \<Rightarrow> capture \<Rightarrow> plan \<Rightarrow> replay_state \<Rightarrow> plan_identity \<Rightarrow> 'c plan_artifacts result" where
  "replay_finish en cp p st identity = (let H = be_H en; identityBytes = ReviewPlanIdentityV1 identity; records = replay_records st in
     if hash_hex H identityBytes \<noteq> pn_PlanDigest p \<or> Public (ReviewID H identity) \<noteq> pn_ReviewID p
     then Inl (err ''review: replayed planner identity does not match finalized plan'')
     else bindE (mapE (replay_mandatory en) (pn_PrimaryUnits p)) (\<lambda>mandatory.
          bindE (plan_citations H (cp_Paths cp) records (pn_PrimaryUnits p)) (\<lambda>citations.
          Inr \<lparr>art_Plan = p, art_UnitCandidates = [], art_MandatoryUnits = put_all [] mandatory, art_Citations = citations,
            art_PublishedIndexSignature = [], art_PlanIdentityBytes = identityBytes, art_PlanIdentity = identity,
            art_IDRecords = records, art_WorkspaceFingerprint = [], art_WorkspaceCaptureFingerprint = []\<rparr>)))"

definition replay_plan ::
    "(bytes \<Rightarrow> digest) \<Rightarrow> planner \<Rightarrow> capture \<Rightarrow> head_view \<Rightarrow> evidence \<Rightarrow> plan \<Rightarrow> (replay_state \<times> plan_identity) result" where
  "replay_plan H py cp view ev p = (let
       records = sortedPathRecords (cp_Paths cp); paths = map recordPath records;
       en = replay_environment H py cp view; owned = owned_hunks H cp p;
       start = \<lparr>rac_state = \<lparr>rps_paths = [], rps_ids = [], rps_hunkByKey = Map.empty\<rparr>, rac_paths = [], rac_hunks = []\<rparr>
     in bindE (foldE (replay_record en p owned) start records) (\<lambda>acc.
        bindE (mapS (replay_unit H) (rac_state acc) (pn_PrimaryUnits p)) (\<lambda>(st, us).
        let (st, cohorts) = foldl (replay_cohort H (sc_Digest (cp_Scope cp)) us) (st, []) (planner_cohorts en paths) in
        bindE (mapE (replay_audit st) (pn_RequiredAudits p)) (\<lambda>audits.
        Inr (st, replay_identity en ev acc us cohorts audits)))))"

definition replayArtifacts ::
    "(bytes \<Rightarrow> digest) \<Rightarrow> planner \<Rightarrow> capture \<Rightarrow> head_view \<Rightarrow> evidence \<Rightarrow> plan \<Rightarrow> 'c plan_artifacts result" where
  "replayArtifacts H py cp view ev p = bindE (replay_plan H py cp view ev p) (\<lambda>(st, identity).
     replay_finish (replay_environment H py cp view) cp p st identity)"

section \<open>Every identifier is the hash of its canonical bytes\<close>

definition grounded :: "(bytes \<Rightarrow> digest) \<Rightarrow> string \<times> stable_id \<times> bytes \<Rightarrow> bool" where
  "grounded H e \<longleftrightarrow> (case e of (public, i, canonical) \<Rightarrow> public = Public i \<and>
     (\<exists>kind\<in>set contentIDKinds. i = public_id kind (H canonical) PublicIDContentBytesV1))"

definition ids_ok :: "(bytes \<Rightarrow> digest) \<Rightarrow> replay_state \<Rightarrow> bool" where
  "ids_ok H st \<longleftrightarrow> distinct (map fst (rps_ids st)) \<and> (\<forall>e\<in>set (rps_ids st). grounded H e)"

lemma set_put: "set (put k v m) \<subseteq> insert (k, v) (set m)"
  by (induction m) auto

lemma addReplayID_ok:
  assumes "ids_ok H st" and "kind \<in> set contentIDKinds" and "i = public_id kind (H canonical) PublicIDContentBytesV1"
  shows "ids_ok H (addReplayID i canonical st)"
  using assms set_put [of "Public i" "(i, canonical)" "rps_ids st"]
  by (auto simp: ids_ok_def addReplayID_def grounded_def distinct_update)

lemma dedupeSemanticTargets_set: "set (dedupeSemanticTargets ts) \<subseteq> set ts"
  by (induction ts rule: dedupeSemanticTargets.induct) auto

lemma semantic_target_id:
  assumes "t \<in> set (semanticTargets H pid ms)"
  shows "tg_ID t = public_id TargetIDPrefixV1 (H (semanticCanonical H t (Full pid))) PublicIDContentBytesV1"
proof -
  have made: "tg_ID t = public_id TargetIDPrefixV1 (H (semanticCanonical H t (Full pid))) PublicIDContentBytesV1"
    if "t = makeSemanticTarget H kind side pid symbol" for t kind side symbol
    using that by (simp add: makeSemanticTarget_def TargetID_def TargetID_fields_def semanticCanonical_def semantic_fields_def
        symbolKey_def optDigest_def Let_def)
  show ?thesis
  proof (cases "filter hm_SemanticAvailable ms")
    case Nil
    then show ?thesis using assms by (simp add: semanticTargets_def)
  next
    case (Cons m rest)
    have "t \<in> set (concat (map (mapping_targets H pid (hm_BaseDeclarations m) (hm_HeadDeclarations m)) (m # rest)))"
      using subsetD [OF dedupeSemanticTargets_set, OF assms [unfolded semanticTargets_def Cons list.case]] unfolding set_sort .
    then obtain kind side symbol where "t = makeSemanticTarget H kind side pid symbol"
      by (auto simp: mapping_targets_def base_targets_def head_targets_def Let_def split: if_splits)
    then show ?thesis by (rule made)
  qed
qed

lemma replay_hunk_ids:
  "ids_ok H (fst acc) \<Longrightarrow> be_H en = H \<Longrightarrow> ids_ok H (fst (replay_hunk en owned r pid acc h))"
  using addReplayID_ok [where kind = HunkIDPrefixV1]
  by (auto simp: replay_hunk_def ids_ok_def addReplayID_def HunkID_def contentIDKinds_def Let_def split: prod.splits)

lemma foldl_keeps: "(\<And>s x. x \<in> set xs \<Longrightarrow> P s \<Longrightarrow> P (f s x)) \<Longrightarrow> P s \<Longrightarrow> P (foldl f s xs)"
  by (induction xs arbitrary: s) auto

lemma replayed_ids:
  assumes "ids_ok (be_H en) (rac_state acc)"
  shows "ids_ok (be_H en) (rac_state (replayed en p owned acc r mapped))"
proof -
  let ?H = "be_H en"
  let ?pid = "PathID ?H (sc_Digest (be_scope en)) r"
  let ?st = "addReplayID ?pid (frame (PathID_fields ?H (sc_Digest (be_scope en)) r)) (rac_state acc)"
  let ?semantic = "semanticTargets ?H ?pid (fst mapped)"
  let ?first = "(?st, replay_signals en (plan_entry p (Public ?pid)) r ?semantic (snd mapped), [])"
  obtain st signals entries where hunks: "foldl (replay_hunk en owned r ?pid) ?first (rp_Hunks r) = (st, signals, entries)"
    using prod_cases3 by blast
  have "ids_ok ?H ?st"
    by (rule addReplayID_ok [OF assms, of PathIDPrefixV1]) (simp_all add: contentIDKinds_def PathID_def)
  then have "ids_ok ?H (fst (foldl (replay_hunk en owned r ?pid) ?first (rp_Hunks r)))"
    by (intro foldl_keeps [where P = "\<lambda>acc. ids_ok ?H (fst acc)"]) (simp_all add: replay_hunk_ids)
  then have ok: "ids_ok ?H (st\<lparr>rps_paths := paths\<rparr>)" for paths by (simp add: hunks ids_ok_def)
  have "ids_ok ?H (foldl (\<lambda>st t. addReplayID (tg_ID t) (semanticCanonical ?H t (Full ?pid)) st) st' ?semantic)"
    if "ids_ok ?H st'" for st'
  proof (rule foldl_keeps [where P = "ids_ok ?H", OF _ that])
    fix st t assume "t \<in> set ?semantic" "ids_ok ?H st"
    then show "ids_ok ?H (addReplayID (tg_ID t) (semanticCanonical ?H t (Full ?pid)) st)"
      by (intro addReplayID_ok [OF _ _ semantic_target_id]) (simp_all add: contentIDKinds_def)
  qed
  then show ?thesis using ok by (simp add: replayed_def hunks Let_def)
qed

lemma replay_record_ids:
  "replay_record en p owned acc r = Inr acc' \<Longrightarrow> ids_ok (be_H en) (rac_state acc) \<Longrightarrow> ids_ok (be_H en) (rac_state acc')"
  unfolding replay_record_def bindE_eq_Inr case_prod_beta using replayed_ids by blast

lemma replay_unit_ids:
  assumes "replay_unit H st u = Inr (st', ur)" and "ids_ok H st"
  shows "ids_ok H st'"
  using assms addReplayID_ok [OF assms(2), of UnitIDPrefixV1]
  by (auto simp: replay_unit_def UnitID_def contentIDKinds_def Let_def split: if_splits)

lemma replay_cohort_ids:
  assumes "ids_ok H (fst acc)"
  shows "ids_ok H (fst (replay_cohort H digest us acc c))"
proof -
  have layer: "ids_ok H (fst (replay_layer H us cid acc l))" if "ids_ok H (fst acc)" for cid acc l
    using addReplayID_ok [OF that, of LayerIDPrefixV1]
    by (auto simp: replay_layer_def LayerID_def contentIDKinds_def Let_def split: prod.splits)
  show ?thesis
    using addReplayID_ok [OF assms, of CohortIDPrefixV1] unfolding replay_cohort_def Let_def
    by (auto simp: CohortID_def contentIDKinds_def split: prod.splits
        intro!: foldl_keeps [where P = "\<lambda>acc. ids_ok H (fst acc)"] layer)
qed

lemma mapS_keeps:
  assumes "mapS f s xs = Inr (s', ys)" and "P s" and "\<And>s x s' y. x \<in> set xs \<Longrightarrow> f s x = Inr (s', y) \<Longrightarrow> P s \<Longrightarrow> P s'"
  shows "P s'"
  using assms
proof (induction xs arbitrary: s ys)
  case (Cons x xs)
  then obtain s1 y ys' where "f s x = Inr (s1, y)" "mapS f s1 xs = Inr (s', ys')" by auto
  with Cons show ?case by (metis list.set_intros)
qed simp

lemma kind_of_public_id:
  "kind \<in> set contentIDKinds \<Longrightarrow> kind_of_public (Public (public_id kind full n)) = kind"
  by (auto simp: kind_of_public_def public_id_def contentIDKinds_def)

lemma distinct_map_sorted: "distinct (map f (sort_key g xs)) \<longleftrightarrow> distinct (map f xs)"
  by (simp add: distinct_map distinct_sort)

lemma replay_records_verified:
  assumes "ids_ok H st"
  shows "verifyRecords H (replay_records st) = Inr (map (\<lambda>r. (ir_Public r, ir_Full r)) (replay_records st))"
    "sorted (map ir_Public (replay_records st))"
proof -
  have "map ir_Public (map (\<lambda>(public, i, canonical). \<lparr>ir_Kind = kind_of_public public, ir_Public = public, ir_Full = Full i,
      ir_Canonical = canonical\<rparr>) (rps_ids st)) = map fst (rps_ids st)"
    by (simp add: case_prod_beta)
  then have "distinct (map ir_Public (replay_records st))"
    using assms unfolding ids_ok_def replay_records_def distinct_map_sorted by (simp only:)
  moreover have "record_sound H r" if "r \<in> set (replay_records st)" for r
    using that assms kind_of_public_id
    by (fastforce simp: replay_records_def ids_ok_def grounded_def record_sound_def)
  ultimately show "verifyRecords H (replay_records st) = Inr (map (\<lambda>r. (ir_Public r, ir_Full r)) (replay_records st))"
    by (simp add: verifyRecords_Inr list_all_iff)
  show "sorted (map ir_Public (replay_records st))" by (simp add: replay_records_def)
qed

section \<open>What is persisted passes the checks of what is loaded\<close>

lemma set_put_all: "set (put_all m es) \<subseteq> set m \<union> set es"
proof (induction es arbitrary: m)
  case (Cons e es)
  have "set (put_all m (e # es)) \<subseteq> set (put (fst e) (snd e) m) \<union> set es"
    using Cons.IH by (simp add: put_all_def)
  then show ?case using set_put [of "fst e" "snd e" m] by auto
qed (simp add: put_all_def)

lemma put_all_fst: "fst ` set (put_all m es) = fst ` set m \<union> fst ` set es"
proof (induction es arbitrary: m)
  case (Cons e es)
  then show ?case by (simp add: put_all_def dom_update)
qed (simp add: put_all_def)

lemma replay_mandatory_all:
  "mapE (replay_mandatory en) us = Inr ms \<Longrightarrow> ms = map (\<lambda>u. (ru_UnitID u, CanonicalMandatoryJSON u)) us"
  by (induction us arbitrary: ms) (auto simp: replay_mandatory_def Let_def split: if_splits)

lemma map_of_value: "map_of (map (\<lambda>u. (k u, f u)) us) i = map_option f (map_of (map (\<lambda>u. (k u, u)) us) i)"
  by (induction us) simp_all

lemma put_all_mandatory:
  "validateMandatoryUnits p (put_all [] (map (\<lambda>u. (ru_UnitID u, CanonicalMandatoryJSON u)) (pn_PrimaryUnits p))) = Inr ()"
proof -
  let ?ms = "map (\<lambda>u. (ru_UnitID u, CanonicalMandatoryJSON u)) (pn_PrimaryUnits p)"
  have look: "map_of (put_all [] ?ms) i = map_option CanonicalMandatoryJSON (primary_index p i)" for i
    by (simp add: map_of_put_all primary_index_def rev_map map_of_value [of ru_UnitID CanonicalMandatoryJSON])
  have "set (map fst (put_all [] ?ms)) = set (map ru_UnitID (pn_PrimaryUnits p))"
    using put_all_fst [of "[]" ?ms] by (simp add: image_image)
  moreover have "distinct (map fst (put_all [] ?ms))" by (rule put_all_distinct) simp
  ultimately have "length (put_all [] ?ms) = length (remdups (map ru_UnitID (pn_PrimaryUnits p)))"
    by (metis distinct_card length_map length_remdups_card_conv)
  moreover have "check_mandatory p (put_all [] ?ms) i = Inr ()" if "i \<in> set (map ru_UnitID (pn_PrimaryUnits p))" for i
  proof -
    have "primary_index p i \<noteq> None"
      using that by (auto simp: primary_index_def map_of_eq_None_iff image_image)
    then show ?thesis by (auto simp: check_mandatory_def look)
  qed
  ultimately show ?thesis by (simp add: validateMandatoryUnits_def Let_def)
qed

lemma proof_of_range_id [simp]: "cpr_ID (proof_of_range i hash cited) = i"
  by (simp add: proof_of_range_def split: prod.splits)

lemma citationProofForUnit_id: "citationProofForUnit H u = Inr c \<Longrightarrow> cpr_ID c = ru_UnitID u"
  by (auto simp: citationProofForUnit_def citationProofForUnitHunk_def split: list.splits)

lemma plan_citations_keys:
  assumes "plan_citations H paths records us = Inr cs" and "(i, c) \<in> set cs"
  shows "cpr_ID c = i"
proof -
  obtain proofs where proofs: "mapE (\<lambda>u. bindE (citationProofForUnit H u) (\<lambda>p. Inr (ru_UnitID u, p))) us = Inr proofs"
    and cs: "cs = put_all (put_all [] (record_citations (defaultCitationProof H paths) records)) proofs"
    using assms(1) by (auto simp: plan_citations_def)
  have "(i, c) \<in> set (record_citations (defaultCitationProof H paths) records) \<union> set proofs"
    using assms(2) set_put_all [of "put_all [] (record_citations (defaultCitationProof H paths) records)" proofs]
      set_put_all [of "[]" "record_citations (defaultCitationProof H paths) records"] unfolding cs by auto
  moreover have "cpr_ID c = i" if "(i, c) \<in> set proofs" for i c
    using proofs that by (induction us arbitrary: proofs) (auto dest: citationProofForUnit_id)
  ultimately show ?thesis by (auto simp: record_citations_def)
qed

lemma replay_plan_ids:
  assumes "replay_plan H py cp view ev p = Inr (st, identity)"
  shows "ids_ok H st"
proof -
  let ?en = "replay_environment H py cp view"
  let ?start = "\<lparr>rac_state = \<lparr>rps_paths = [], rps_ids = [], rps_hunkByKey = Map.empty\<rparr>, rac_paths = [], rac_hunks = []\<rparr>"
  let ?cohorts = "planner_cohorts ?en (map recordPath (sortedPathRecords (cp_Paths cp)))"
  let ?fold = "\<lambda>us st. foldl (replay_cohort H (sc_Digest (cp_Scope cp)) us) (st, []) ?cohorts"
  obtain acc su where acc: "foldE (replay_record ?en p (owned_hunks H cp p)) ?start (sortedPathRecords (cp_Paths cp)) = Inr acc"
    and units: "mapS (replay_unit H) (rac_state acc) (pn_PrimaryUnits p) = Inr (fst su, snd su)"
    and st: "st = fst (?fold (snd su) (fst su))"
    using assms unfolding replay_plan_def Let_def case_prod_beta bindE_eq_Inr prod.collapse sum.inject prod.inject by blast
  have H: "be_H ?en = H" by (simp add: replay_environment_def)
  have "ids_ok H (rac_state acc)"
    using acc
  proof (rule foldE_invariant [where P = "\<lambda>acc. ids_ok H (rac_state acc)"])
    fix acc r acc' assume "ids_ok H (rac_state acc)" "replay_record ?en p (owned_hunks H cp p) acc r = Inr acc'"
    then show "ids_ok H (rac_state acc')" using replay_record_ids [of ?en] by (simp only: H)
  qed (simp add: ids_ok_def)
  then have "ids_ok H (fst su)" by (rule mapS_keeps [OF units]) (rule replay_unit_ids)
  then show ?thesis unfolding st
    by (intro foldl_keeps [where P = "\<lambda>acc. ids_ok H (fst acc)"]) (simp_all add: replay_cohort_ids)
qed

lemma replayed_artifacts:
  assumes "replayArtifacts H py cp view ev p = Inr a"
  shows "art_Plan a = p" and "art_PlanIdentityBytes a = ReviewPlanIdentityV1 (art_PlanIdentity a)"
    and "verifyPlanIdentity H p (art_PlanIdentityBytes a) = Inr (H (art_PlanIdentityBytes a))"
    and "\<exists>byPublic. verifyRecords H (art_IDRecords a) = Inr byPublic" and "sorted (map ir_Public (art_IDRecords a))"
    and "validateMandatoryUnits p (art_MandatoryUnits a) = Inr ()"
    and "\<forall>(i, c)\<in>set (art_Citations a). cpr_ID c = i"
proof -
  let ?en = "replay_environment H py cp view"
  obtain st pi where plan: "replay_plan H py cp view ev p = Inr (st, pi)" and fin: "replay_finish ?en cp p st pi = Inr a"
    using assms by (auto simp: replayArtifacts_def)
  have ok: "ids_ok H st" by (rule replay_plan_ids [OF plan])
  have H: "be_H ?en = H" by (simp add: replay_environment_def)
  obtain ms cs where ms: "mapE (replay_mandatory ?en) (pn_PrimaryUnits p) = Inr ms"
    and cs: "plan_citations H (cp_Paths cp) (replay_records st) (pn_PrimaryUnits p) = Inr cs"
    and same: "hash_hex H (ReviewPlanIdentityV1 pi) = pn_PlanDigest p" "Public (ReviewID H pi) = pn_ReviewID p"
    and a: "a = \<lparr>art_Plan = p, art_UnitCandidates = [], art_MandatoryUnits = put_all [] ms, art_Citations = cs,
            art_PublishedIndexSignature = [], art_PlanIdentityBytes = ReviewPlanIdentityV1 pi, art_PlanIdentity = pi,
            art_IDRecords = replay_records st, art_WorkspaceFingerprint = [], art_WorkspaceCaptureFingerprint = []\<rparr>"
    using fin by (auto simp: replay_finish_def H Let_def split: if_splits)
  show "art_Plan a = p" "art_PlanIdentityBytes a = ReviewPlanIdentityV1 (art_PlanIdentity a)" by (simp_all add: a)
  have "length (ReviewPlanIdentityV1 pi) > 0"
    by (simp add: ReviewPlanIdentityV1_def length_frame ReviewPlanIdentity_fields_def)
  then show "verifyPlanIdentity H p (art_PlanIdentityBytes a) = Inr (H (art_PlanIdentityBytes a))"
    using same by (simp add: a verifyPlanIdentity_def hash_hex_def ReviewID_def ReviewPlanDigest_def)
  show "\<exists>byPublic. verifyRecords H (art_IDRecords a) = Inr byPublic" "sorted (map ir_Public (art_IDRecords a))"
    using replay_records_verified [OF ok] by (simp_all add: a)
  show "validateMandatoryUnits p (art_MandatoryUnits a) = Inr ()"
    using put_all_mandatory [of p] replay_mandatory_all [OF ms] by (simp add: a)
  show "\<forall>(i, c)\<in>set (art_Citations a). cpr_ID c = i" using plan_citations_keys [OF cs] by (auto simp: a)
qed

text \<open>
  C7: What the service is about to persist passes what loading checks: the identity bytes encode the identity
  and hash to the digest and the review identifier of the plan, every identity record hashes to its identifier and is of a
  known kind, the records are sorted and distinct, the mandatory units are the canonical forms of the
  plan's units, and every citation proof is filed under its own identifier.
\<close>

theorem replayArtifacts_sound:
  assumes "replayArtifacts H py cp view ev p = Inr a"
  shows "art_Plan a = p \<and> art_PlanIdentityBytes a = ReviewPlanIdentityV1 (art_PlanIdentity a) \<and>
    verifyPlanIdentity H p (art_PlanIdentityBytes a) = Inr (H (art_PlanIdentityBytes a)) \<and>
    (\<exists>byPublic. verifyRecords H (art_IDRecords a) = Inr byPublic) \<and> sorted (map ir_Public (art_IDRecords a)) \<and>
    validateMandatoryUnits p (art_MandatoryUnits a) = Inr () \<and> (\<forall>(i, c)\<in>set (art_Citations a). cpr_ID c = i)"
  using replayed_artifacts [OF assms] by blast

text \<open>A plan to replay: one new file with one hunk, in one unit, for any hash.\<close>

definition re_hunk :: "(bytes \<Rightarrow> digest) \<Rightarrow> stable_id" where
  "re_hunk H = HunkID H 0 (Full (PathID H 0 sample_record)) sample_hunk"

definition re_unit :: "(bytes \<Rightarrow> digest) \<Rightarrow> review_unit" where
  "re_unit H = (demo_review_unit H)\<lparr>ru_UnitID := Public (UnitID H UnitKindNormal [re_hunk H]),
     ru_Hunks := [\<lparr>uh_HunkID = Public (re_hunk H), uh_PathID = Public (PathID H 0 sample_record), uh_OldPath = [], uh_NewPath = ''x'',
       uh_Status = ''A'', uh_Ordinal = 0, uh_OldStart = 1, uh_OldCount = 0, uh_NewStart = 1, uh_NewCount = 1,
       uh_NoFinalNewlineOld = False, uh_NoFinalNewlineNew = False, uh_PatchBase64 = b64_encode ''+a''\<rparr>]\<rparr>"

definition re_capture :: capture where
  "re_capture = \<lparr>cp_Scope = sample_scope, cp_Paths = [sample_record], cp_RawAdditions = 1, cp_RawDeletions = 0,
     cp_RawChurn = 1, cp_ReviewableChurn = 1, cp_ChangedPaths = 1, cp_CanonicalPatch = 0\<rparr>"

definition re_view :: head_view where
  "re_view = \<lparr>hv_Query = \<lparr>Clusters = Inr [], FileRelations = (\<lambda>p. Inr (zero_relations p)),
     BlastSummarize = (\<lambda>p. Inr (zero_blast p)), EntrypointsFor = (\<lambda>p. Inr (zero_entrypoints p)),
     TestsFor = (\<lambda>p. Inr (zero_tests p))\<rparr>, hv_Sources = Some (\<lambda>_ _. Inr (True, []))\<rparr>"

definition re_planner :: "(bytes \<Rightarrow> digest) \<Rightarrow> planner" where
  "re_planner H = \<lparr>py_Graph = Some (hv_Query re_view), py_SymbolMapper = sample_mapper, py_ForceStructured = False,
     py_PlannerVersion = [], py_MaxChangedLines = 0, py_MaxMandatoryBytes = int (length (CanonicalMandatoryJSON (re_unit H))),
     py_IDCollisionProbe = None\<rparr>"

definition re_evidence :: evidence where
  "re_evidence = \<lparr>ee_IndexSchema = ''index.v1'', ee_IndexVersion = ''1'', ee_HeadIndexSignature = [], ee_TrustedLocal = [],
     ee_UntrustedPolicy = [], ee_ForceStructured = False\<rparr>"

definition re_base :: "(bytes \<Rightarrow> digest) \<Rightarrow> plan" where
  "re_base H = (demo_plan H)\<lparr>pn_Mode := ModeDirect, pn_ChangedPaths := [], pn_PrimaryUnits := [re_unit H], pn_RequiredAudits := []\<rparr>"

lemma addReplayID_simps [simp]: "rps_hunkByKey (addReplayID i c st) = rps_hunkByKey st" "rps_paths (addReplayID i c st) = rps_paths st"
  by (simp_all add: addReplayID_def)

lemma add_targets_simps [simp]:
  "rps_hunkByKey (foldl (\<lambda>st t. addReplayID (f t) (g t) st) st ts) = rps_hunkByKey st"
  "rps_paths (foldl (\<lambda>st t. addReplayID (f t) (g t) st) st ts) = rps_paths st"
  by (induction ts arbitrary: st) simp_all

lemma replay_hunks_keys:
  "rps_hunkByKey (fst (foldl (replay_hunk en owned r pid) acc hs)) =
     foldl (\<lambda>m h. m(hunk_key (Public pid) (uint (rh_Ordinal h)) \<mapsto> HunkID (be_H en) (sc_Digest (be_scope en)) (Full pid) h))
       (rps_hunkByKey (fst acc)) hs"
  by (induction hs arbitrary: acc) (auto simp: replay_hunk_def Let_def split: prod.splits)

lemma replayed_keys:
  "rps_hunkByKey (rac_state (replayed en p owned acc r mapped)) =
     (let pid = PathID (be_H en) (sc_Digest (be_scope en)) r in
      foldl (\<lambda>m h. m(hunk_key (Public pid) (uint (rh_Ordinal h)) \<mapsto> HunkID (be_H en) (sc_Digest (be_scope en)) (Full pid) h))
       (rps_hunkByKey (rac_state acc)) (rp_Hunks r))"
proof -
  let ?pid = "PathID (be_H en) (sc_Digest (be_scope en)) r"
  let ?first = "(addReplayID ?pid (frame (PathID_fields (be_H en) (sc_Digest (be_scope en)) r)) (rac_state acc),
    replay_signals en (plan_entry p (Public ?pid)) r (semanticTargets (be_H en) ?pid (fst mapped)) (snd mapped), [])"
  obtain st signals entries where hunks: "foldl (replay_hunk en owned r ?pid) ?first (rp_Hunks r) = (st, signals, entries)"
    using prod_cases3 by blast
  have "rps_hunkByKey (rac_state (replayed en p owned acc r mapped)) = rps_hunkByKey st"
    unfolding replayed_def Let_def hunks by simp
  also have "\<dots> = rps_hunkByKey (fst (foldl (replay_hunk en owned r ?pid) ?first (rp_Hunks r)))" by (simp add: hunks)
  finally show ?thesis unfolding replay_hunks_keys Let_def by simp
qed

lemma re_unit_replayed:
  assumes "rps_hunkByKey st = [hunk_key (Public (PathID H 0 sample_record)) 0 \<mapsto> re_hunk H]"
  shows "\<exists>st' u. replay_unit H st (re_unit H) = Inr (st', u)"
  using assms by (simp add: replay_unit_def replay_unit_hunk_def re_unit_def Let_def re_hunk_def HunkID_def)

lemma re_replayed: "\<exists>st pi. replay_plan H (re_planner H) re_capture re_view re_evidence (re_base H) = Inr (st, pi)"
proof -
  let ?en = "replay_environment H (re_planner H) re_capture re_view"
  let ?start = "\<lparr>rac_state = \<lparr>rps_paths = [], rps_ids = [], rps_hunkByKey = Map.empty\<rparr>, rac_paths = [], rac_hunks = []\<rparr>"
  let ?owned = "owned_hunks H re_capture (re_base H)"
  obtain mapped where acc: "replay_record ?en (re_base H) ?owned ?start sample_record =
      Inr (replayed ?en (re_base H) ?owned ?start sample_record mapped)"
    by (simp add: replay_record_def replay_environment_def re_view_def readPlanningSources_def read_source_def sample_record_def)
  let ?st = "rac_state (replayed ?en (re_base H) ?owned ?start sample_record mapped)"
  have "rps_hunkByKey ?st = [hunk_key (Public (PathID H 0 sample_record)) 0 \<mapsto> re_hunk H]"
    by (simp add: replayed_keys Let_def replay_environment_def re_capture_def sample_scope_def re_hunk_def)
      (simp add: sample_record_def sample_hunk_def)
  then obtain st u where unit: "replay_unit H ?st (re_unit H) = Inr (st, u)" using re_unit_replayed by blast
  have base: "pn_PrimaryUnits (re_base H) = [re_unit H]" "pn_RequiredAudits (re_base H) = []" by (simp_all add: re_base_def)
  have records: "sortedPathRecords (cp_Paths re_capture) = [sample_record]" by (simp add: re_capture_def sortedPathRecords_def)
  show ?thesis unfolding replay_plan_def Let_def records base by (simp add: acc unit case_prod_beta)
qed

text \<open>The digest and the review identifier of the plan do not enter its identity.\<close>

definition re_plan :: "(bytes \<Rightarrow> digest) \<Rightarrow> plan \<Rightarrow> plan_identity \<Rightarrow> plan" where
  "re_plan H p pi = p\<lparr>pn_PlanDigest := hash_hex H (ReviewPlanIdentityV1 pi), pn_ReviewID := Public (ReviewID H pi)\<rparr>"

lemma re_plan_replayed: "replay_plan H py cp view ev (re_plan H p pi) = replay_plan H py cp view ev p"
proof -
  have "replay_record en (re_plan H p pi) = replay_record en p" for en
    by (simp add: fun_eq_iff replay_record_def replayed_def plan_entry_def re_plan_def)
  then show ?thesis by (simp add: replay_plan_def owned_hunks_def Let_def re_plan_def)
qed

lemma mapE_succeeds: "(\<And>x. x \<in> set xs \<Longrightarrow> \<exists>y. f x = Inr y) \<Longrightarrow> \<exists>ys. mapE f xs = Inr ys"
  by (induction xs) fastforce+

lemma re_plan_succeeds:
  assumes plan: "replay_plan H py cp view ev p = Inr (st, pi)"
    and mandatory: "\<And>u. u \<in> set (pn_PrimaryUnits p) \<Longrightarrow> \<exists>m. replay_mandatory (replay_environment H py cp view) u = Inr m"
    and cited: "\<And>u. u \<in> set (pn_PrimaryUnits p) \<Longrightarrow> \<exists>c. citationProofForUnit H u = Inr c"
  shows "\<exists>a :: unit plan_artifacts. replayArtifacts H py cp view ev (re_plan H p pi) = Inr a"
proof -
  let ?en = "replay_environment H py cp view"
  obtain ms where "mapE (replay_mandatory ?en) (pn_PrimaryUnits p) = Inr ms" using mapE_succeeds mandatory by metis
  moreover have "\<exists>c. bindE (citationProofForUnit H u) (\<lambda>c. Inr (ru_UnitID u, c)) = Inr c" if "u \<in> set (pn_PrimaryUnits p)" for u
    using cited [OF that] by auto
  then obtain proofs where "mapE (\<lambda>u. bindE (citationProofForUnit H u) (\<lambda>c. Inr (ru_UnitID u, c))) (pn_PrimaryUnits p) = Inr proofs"
    by (metis (no_types, lifting) mapE_succeeds)
  then obtain cs where "plan_citations H (cp_Paths cp) (replay_records st) (pn_PrimaryUnits p) = Inr cs"
    by (simp add: plan_citations_def)
  moreover have "be_H ?en = H" by (simp add: replay_environment_def)
  ultimately have "\<exists>a :: unit plan_artifacts. replay_finish ?en cp (re_plan H p pi) st pi = Inr a"
    by (simp add: replay_finish_def Let_def re_plan_def)
  then show ?thesis by (simp add: replayArtifacts_def re_plan_replayed plan)
qed

lemma re_replay_succeeds:
  "\<exists>p (a :: unit plan_artifacts). replayArtifacts length_hash (re_planner length_hash) re_capture re_view re_evidence p = Inr a \<and>
     pn_PrimaryUnits p = [re_unit length_hash]"
proof -
  let ?H = length_hash
  let ?en = "replay_environment ?H (re_planner ?H) re_capture re_view"
  obtain st pi where base: "replay_plan ?H (re_planner ?H) re_capture re_view re_evidence (re_base ?H) = Inr (st, pi)"
    using re_replayed by blast
  have units: "set (pn_PrimaryUnits (re_base ?H)) = {re_unit ?H}" by (simp add: re_base_def)
  have "replay_mandatory ?en (re_unit ?H) = Inr (ru_UnitID (re_unit ?H), CanonicalMandatoryJSON (re_unit ?H))"
    by (simp add: replay_mandatory_def replay_environment_def re_planner_def mandatoryCap_def Let_def)
  moreover have "\<exists>c. citationProofForUnit ?H (re_unit ?H) = Inr c"
    by (simp add: citationProofForUnit_def re_unit_def del: b64_encode.simps)
  ultimately obtain a :: "unit plan_artifacts" where
    "replayArtifacts ?H (re_planner ?H) re_capture re_view re_evidence (re_plan ?H (re_base ?H) pi) = Inr a"
    using re_plan_succeeds [OF base] unfolding units by blast
  moreover have "pn_PrimaryUnits (re_plan ?H (re_base ?H) pi) = [re_unit ?H]" by (simp add: re_plan_def re_base_def)
  ultimately show ?thesis by blast
qed

theorem replayArtifacts_sound_witness:
  "\<exists>p (a :: unit plan_artifacts). replayArtifacts length_hash (re_planner length_hash) re_capture re_view re_evidence p = Inr a \<and>
     validateMandatoryUnits p (art_MandatoryUnits a) = Inr () \<and>
     (\<exists>byPublic. verifyRecords length_hash (art_IDRecords a) = Inr byPublic) \<and> pn_PrimaryUnits p = [re_unit length_hash]"
  using re_replay_succeeds replayArtifacts_sound by blast

end
