(* ===== verification/Citable.thy ===== *)
theory Citable
  imports Replay
begin

text \<open>
  What the citation proofs that \<open>replayArtifacts\<close> (\<open>internal/review/unit.go\<close>) persists mean for the reports that
  \<open>Check\<close> reads back: only the first hunk of a plan can be cited by its identifier, and a plan without
  hunks admits no finding at all.  The first statement is shown at work on a plan with two hunks.
\<close>

section \<open>Which hunks can be cited\<close>










section \<open>A plan with two hunks\<close>

text \<open>Two hunks of one file, in one unit.\<close>

definition second_hunk :: raw_hunk where
  "second_hunk = sample_hunk\<lparr>rh_Ordinal := 1, rh_NewStart := 5, rh_Payload := ''+bc''\<rparr>"

definition pair_record :: raw_path_record where
  "pair_record = sample_record\<lparr>rp_Additions := 2, rp_Hunks := [sample_hunk, second_hunk]\<rparr>"

definition pair_path :: "(bytes \<Rightarrow> digest) \<Rightarrow> stable_id" where
  "pair_path H = PathID H 0 pair_record"

definition pair_hunk :: "(bytes \<Rightarrow> digest) \<Rightarrow> raw_hunk \<Rightarrow> stable_id" where
  "pair_hunk H k = HunkID H 0 (Full (pair_path H)) k"
















text \<open>A hash with short public identifiers that differ for inputs of different lengths.\<close>

definition wide_hash :: "bytes \<Rightarrow> digest" where
  "wide_hash b = push_bit 192 (of_nat (length b))"

lemma pair_lengths:
  "length (hunk_frame H second_hunk) = 271" "length (record_frame H pair_record) = 927"
  "length (frame (HunkID_fields H s p sample_hunk)) = 402" "length (frame (HunkID_fields H s p second_hunk)) = 403"
  "length (frame (PathID_fields H s pair_record)) = 990"
proof -
  have h: "length (hunk_frame H sample_hunk) = 270" using sample_lengths(1) [of H "''+a''"] sample_updates by simp
  show k: "length (hunk_frame H second_hunk) = 271"
    by (simp add: hunk_frame_def hunk_fields_def second_hunk_def sample_hunk_def codec_simps boolByte_def u64_bytes_def)
  show r: "length (record_frame H pair_record) = 927"
    using h k by (simp add: record_frame_def record_fields_def pair_record_def sample_record_def codec_simps u64_bytes_def u32_bytes_def
        optDigest_def side_frame_def side_frame_fields_def AbsentSide_def)
  show "length (frame (HunkID_fields H s p sample_hunk)) = 402" "length (frame (HunkID_fields H s p second_hunk)) = 403"
    "length (frame (PathID_fields H s pair_record)) = 990"
    by (simp_all add: PathID_fields_def HunkID_fields_def codec_simps h k r u64_bytes_def)
qed


lemma pair_different: "Public (pair_hunk wide_hash sample_hunk) \<noteq> Public (pair_hunk wide_hash second_hunk)"
proof -
  have "take 16 (digest_bytes (push_bit 192 402)) \<noteq> take 16 (digest_bytes (push_bit 192 403))" by code_simp
  then show ?thesis by (simp add: pair_hunk_def HunkID_def wide_hash_def pair_lengths)
qed













section \<open>Plans without hunks\<close>





end
