(* ===== verification/Matching.thy ===== *)
theory Matching
  imports Prelude "HOL-Library.AList"
begin

text \<open>
  Matching reported findings with known defects: \<open>matching.go\<close> of \<open>internal/revieweval\<close>.  An adjudicated edge says
  that a finding describes a defect.  \<open>Match\<close> picks a matching of the accepted findings and the defects
  of largest size, and among those the first in the order of the pairs; \<open>maximumCardinality\<close> finds the
  size by searching augmenting paths from one finding after the other.

  The Go closure \<open>augment\<close> calls itself along the matched pairs.  Its recursion has as fuel the number of
  matched defects, of which each call visits a new one, so the fuel is never used up
  (\<open>search_fails\<close>).  The maps \<open>matched\<close> and \<open>seen\<close> are an association list and a list; nothing ranges over them.
\<close>

section \<open>Findings, defects and edges\<close>

record eval_location =
  el_Path :: string
  el_StartLine :: int
  el_EndLine :: int

record eval_finding =
  ef_ID :: string
  ef_HostID :: string
  ef_Condition :: string
  ef_Category :: string
  ef_Severity :: string
  ef_Confidence :: string
  ef_Summary :: string
  ef_Scenario :: string
  ef_Locations :: "eval_location list"
  ef_VerifierDisposition :: string
  ef_VerifierEvidence :: string

record truth_provenance =
  tv_SourceID :: string
  tv_SourceRecordID :: string
  tv_SourceDigest :: string
  tv_EvidenceRefs :: "string list"

record ground_truth =
  gt_ID :: string
  gt_DefectClass :: string
  gt_Severity :: string
  gt_Summary :: string
  gt_Scenario :: string
  gt_Verifier :: string
  gt_Provenance :: "truth_provenance option"
  gt_CanonicalDigest :: string
  gt_Critical :: bool
  gt_CrossFile :: bool
  gt_Deletion :: bool
  gt_Locations :: "eval_location list"

text \<open>An edge and a pair are a finding and a defect; pairs are ordered as \<open>sortPairs\<close> does.\<close>

type_synonym match_pair = "string \<times> string"

record match_result =
  mr_Pairs :: "match_pair list"
  mr_TP :: int
  mr_FP :: int
  mr_FN :: int

definition acceptedDisposition :: "string \<Rightarrow> bool" where
  "acceptedDisposition value \<longleftrightarrow> value = ''confirmed'' \<or> value = ''plausible''"

section \<open>Augmenting paths\<close>

text \<open>
  The body of \<open>augment\<close>: \<open>ts\<close> are the defects of the finding \<open>f\<close> that are still to be tried.  The state is what
  has been seen in this search and whom each defect is matched with.
\<close>

type_synonym matching = "(string \<times> string) list"

fun augment ::
    "(string \<Rightarrow> string list) \<Rightarrow> nat \<Rightarrow> string \<Rightarrow> string list \<Rightarrow> string list \<times> matching \<Rightarrow> bool \<times> string list \<times> matching" where
  "augment adj fuel f [] (seen, m) = (False, seen, m)"
| "augment adj fuel f (t # ts) (seen, m) =
     (if t \<in> set seen then augment adj fuel f ts (seen, m)
      else case map_of m t of
        None \<Rightarrow> (True, t # seen, AList.update t f m)
      | Some prior \<Rightarrow> (case fuel of
          0 \<Rightarrow> (False, t # seen, m)
        | Suc n \<Rightarrow> (case augment adj n prior (adj prior) (t # seen, m) of (found, seen', m') \<Rightarrow>
            if found then (True, seen', AList.update t f m') else augment adj fuel f ts (seen', m'))))"

definition search_from :: "(string \<Rightarrow> string list) \<Rightarrow> matching \<Rightarrow> string \<Rightarrow> matching" where
  "search_from adj m f = (case augment adj (length m) f (adj f) ([], m) of (_, _, m') \<Rightarrow> m')"

definition adjacency :: "match_pair list \<Rightarrow> string \<Rightarrow> string list" where
  "adjacency pairs f = sort (map snd (filter (\<lambda>p. fst p = f) pairs))"

definition unblocked :: "string list \<Rightarrow> string list \<Rightarrow> match_pair list \<Rightarrow> match_pair list" where
  "unblocked blockedFindings blockedTruth = filter (\<lambda>(f, t). \<not> (f \<in> set blockedFindings \<or> t \<in> set blockedTruth))"

definition maximumCardinality :: "match_pair list \<Rightarrow> string list \<Rightarrow> string list \<Rightarrow> nat" where
  "maximumCardinality pairs blockedFindings blockedTruth = (let
       open_pairs = unblocked blockedFindings blockedTruth pairs;
       findings = sort (remdups (map fst open_pairs))
     in length (foldl (search_from (adjacency open_pairs)) [] findings))"

section \<open>The matching\<close>

text \<open>
  The loop over the sorted pairs.  \<open>usedFindings\<close> and \<open>usedTruth\<close> are the two sides of the pairs chosen so far: a pair
  that is not chosen is taken out of them again.  \<open>cardinality\<close> is the size that the loop asks for.
\<close>

fun choose_pairs ::
    "(match_pair list \<Rightarrow> string list \<Rightarrow> string list \<Rightarrow> nat) \<Rightarrow> nat \<Rightarrow> match_pair list \<Rightarrow> match_pair list \<Rightarrow> match_pair list" where
  "choose_pairs cardinality target chosen [] = chosen"
| "choose_pairs cardinality target chosen (p # ps) =
     (if fst p \<in> fst ` set chosen \<or> snd p \<in> snd ` set chosen then choose_pairs cardinality target chosen ps
      else let remaining = cardinality ps (map fst (chosen @ [p])) (map snd (chosen @ [p]));
               chosen = (if length chosen + 1 + remaining \<ge> target then chosen @ [p] else chosen)
           in if length chosen = target then chosen else choose_pairs cardinality target chosen ps)"

definition acceptedIDs :: "eval_finding list \<Rightarrow> string list" where
  "acceptedIDs findings = remdups (map ef_ID (filter (\<lambda>f. acceptedDisposition (ef_VerifierDisposition f)) findings))"

definition eligible_pairs :: "eval_finding list \<Rightarrow> ground_truth list \<Rightarrow> match_pair list \<Rightarrow> match_pair list" where
  "eligible_pairs findings truth edges =
     sort (remdups (filter (\<lambda>(f, t). f \<in> set (acceptedIDs findings) \<and> t \<in> set (map gt_ID truth)) edges))"

definition Match :: "eval_finding list \<Rightarrow> ground_truth list \<Rightarrow> match_pair list \<Rightarrow> match_result" where
  "Match findings truth edges = (let
       pairs = eligible_pairs findings truth edges;
       target = maximumCardinality pairs [] [];
       chosen = choose_pairs maximumCardinality target [] pairs
     in \<lparr>mr_Pairs = chosen, mr_TP = int (length chosen),
         mr_FP = int (length (acceptedIDs findings)) - int (length chosen),
         mr_FN = int (length truth) - int (length chosen)\<rparr>)"

section \<open>What a search does\<close>

text \<open>
  A set of defects is closed when each is matched and the search from any of them stays inside.
\<close>

definition closed_in :: "(string \<Rightarrow> string list) \<Rightarrow> matching \<Rightarrow> string set \<Rightarrow> bool" where
  "closed_in adj m C \<longleftrightarrow> (\<forall>t\<in>C. \<exists>f. map_of m t = Some f \<and> set (adj f) \<subseteq> C)"

lemma augment_seen: "augment adj fuel f ts (S, m) = (b, S', m') \<Longrightarrow> set S \<subseteq> set S'"
proof (induction adj fuel f ts "(S, m)" arbitrary: S m b S' m' rule: augment.induct)
  case (2 adj fuel f t ts seen m)
  then show ?case by (fastforce split: if_splits option.splits nat.splits prod.splits)
qed simp

lemma augment_failed: "augment adj fuel f ts (S, m) = (False, S', m') \<Longrightarrow> m' = m"
proof (induction adj fuel f ts "(S, m)" arbitrary: S m S' m' rule: augment.induct)
  case (2 adj fuel f t ts seen m)
  then show ?case by (fastforce split: if_splits option.splits nat.splits prod.splits)
qed simp

text \<open>The ways a search can go, as an induction rule over its runs.\<close>

lemma augment_run [consumes 1, case_names nil seen free out found dead]:
  assumes "augment adj fuel f ts (S, m) = (b, S', m')"
    and nil: "\<And>fuel f S m. P fuel f [] S m False S m"
    and seen: "\<And>fuel f t ts S m b S' m'. t \<in> set S \<Longrightarrow> P fuel f ts S m b S' m' \<Longrightarrow> P fuel f (t # ts) S m b S' m'"
    and free: "\<And>fuel f t ts S m. t \<notin> set S \<Longrightarrow> map_of m t = None \<Longrightarrow> P fuel f (t # ts) S m True (t # S) (AList.update t f m)"
    and out: "\<And>f t ts S m prior. t \<notin> set S \<Longrightarrow> map_of m t = Some prior \<Longrightarrow> P 0 f (t # ts) S m False (t # S) m"
    and found: "\<And>n f t ts S m prior S' m'. t \<notin> set S \<Longrightarrow> map_of m t = Some prior \<Longrightarrow>
      augment adj n prior (adj prior) (t # S, m) = (True, S', m') \<Longrightarrow>
      P n prior (adj prior) (t # S) m True S' m' \<Longrightarrow> P (Suc n) f (t # ts) S m True S' (AList.update t f m')"
    and dead: "\<And>n f t ts S m prior S1 b S' m'. t \<notin> set S \<Longrightarrow> map_of m t = Some prior \<Longrightarrow> set (t # S) \<subseteq> set S1 \<Longrightarrow>
      P n prior (adj prior) (t # S) m False S1 m \<Longrightarrow> P (Suc n) f ts S1 m b S' m' \<Longrightarrow> P (Suc n) f (t # ts) S m b S' m'"
  shows "P fuel f ts S m b S' m'"
  using assms(1)
proof (induction fuel arbitrary: f ts S m b S' m')
  case 0
  then show ?case
  proof (induction ts arbitrary: S m b S' m')
    case (Cons t ts)
    then show ?case using seen free out by (auto split: if_splits option.splits)
  qed (use nil in simp)
next
  case (Suc n)
  note nested = Suc.IH
  show ?case using Suc.prems
  proof (induction ts arbitrary: S m b S' m')
    case Nil
    then show ?case using nil by simp
  next
    case (Cons t ts)
    show ?case
    proof (cases "t \<in> set S \<or> map_of m t = None")
      case True
      then show ?thesis using Cons seen free by (auto split: if_splits)
    next
      case False
      then obtain prior where new: "t \<notin> set S" and prior: "map_of m t = Some prior" by auto
      obtain b1 S1 m1 where run: "augment adj n prior (adj prior) (t # S, m) = (b1, S1, m1)" by (metis prod_cases3)
      note inner = nested [OF run]
      show ?thesis
      proof (cases b1)
        case True
        then show ?thesis using Cons.prems new prior run found inner by auto
      next
        case False
        then have "m1 = m" using augment_failed [of adj n prior "adj prior" "t # S" m S1 m1] run by simp
        moreover from this have "augment adj (Suc n) f ts (S1, m) = (b, S', m')" using Cons.prems new prior run False by simp
        ultimately show ?thesis using dead [OF new prior augment_seen [OF run]] inner False Cons.IH by simp
      qed
    qed
  qed
qed

text \<open>Inside a closed set there is nothing to be found, and a search that succeeds leaves it alone.\<close>

lemma closed_search_fails:
  assumes "augment adj fuel f ts (S, m) = (b, S', m')" and "closed_in adj m C" and "set ts \<subseteq> C"
  shows "\<not> b"
  using assms by (induction rule: augment_run) (auto simp: closed_in_def)

lemma search_keeps_closed:
  assumes "augment adj fuel f ts (S, m) = (b, S', m')" and "closed_in adj m C"
  shows "\<forall>t\<in>C. map_of m' t = map_of m t"
  using assms
proof (induction rule: augment_run)
  case (found n f t ts S m prior S' m')
  have "t \<notin> C" using closed_search_fails [OF found(3,5)] found(2,5) by (auto simp: closed_in_def)
  then show ?case using found(4,5) by (auto simp: update_conv')
qed (auto simp: closed_in_def update_conv')

text \<open>A search that fails has closed what it saw; it needs one unit of fuel per matched defect it has not seen.\<close>

lemma search_fails:
  assumes "augment adj fuel f ts (S, m) = (b, S', m')" and "\<not> b" and "card (fst ` set m - set S) \<le> fuel"
  shows "set ts \<subseteq> set S' \<and> set S \<subseteq> set S' \<and> (\<forall>t\<in>set S' - set S. \<exists>f. map_of m t = Some f \<and> set (adj f) \<subseteq> set S')"
  using assms
proof (induction rule: augment_run)
  case (out f t ts S m prior)
  then have "t \<in> fst ` set m - set S" by (metis DiffI fst_conv image_eqI map_of_SomeD)
  then show ?case using out(4) card_gt_0_iff [of "fst ` set m - set S"] by auto
next
  case (dead n f t ts S m prior S1 b S' m')
  have t: "t \<in> fst ` set m - set S" using dead(1,2) by (metis DiffI fst_conv image_eqI map_of_SomeD)
  have "card (fst ` set m - set (t # S)) < card (fst ` set m - set S)" using t by (intro psubset_card_mono) auto
  then have n: "card (fst ` set m - set (t # S)) \<le> n" using dead(7) by simp
  have "card (fst ` set m - set S1) \<le> card (fst ` set m - set S)" using dead(3) by (intro card_mono) auto
  then have rest: "set ts \<subseteq> set S'" "set S1 \<subseteq> set S'"
    "\<forall>t\<in>set S' - set S1. \<exists>f. map_of m t = Some f \<and> set (adj f) \<subseteq> set S'"
    using dead(5) [OF dead(6)] dead(7) by auto
  have inner: "set (adj prior) \<subseteq> set S1" "\<forall>t'\<in>set S1 - set (t # S). \<exists>f. map_of m t' = Some f \<and> set (adj f) \<subseteq> set S1"
    using dead(4) [OF _ n] by auto
  have "\<exists>f. map_of m t' = Some f \<and> set (adj f) \<subseteq> set S'" if "t' \<in> set S' - set S" for t'
  proof (cases "t' \<in> set S1 - {t}")
    case True
    then show ?thesis using inner(2) rest(2) that by fastforce
  next
    case False
    then show ?thesis using inner(1) rest(2,3) dead(2) that by (cases "t' = t") auto
  qed
  then show ?case using rest dead(3) by auto
qed auto

text \<open>
  A search that succeeds matches its finding in addition to those that were matched.  \<open>P\<close> holds the defects on the
  path from the first finding: each is about to be given away, so its present partner counts as free.
\<close>

lemma search_succeeds:
  assumes "augment adj fuel f ts (S, m) = (b, S', m')" and "b" and "P \<subseteq> set S"
    and "inj_on (map_of m) (dom (map_of m) - P)" and "Some f \<notin> map_of m ` (dom (map_of m) - P)"
  shows "(\<forall>t\<in>set S. map_of m' t = map_of m t) \<and> inj_on (map_of m') (dom (map_of m') - P) \<and>
    map_of m' ` (dom (map_of m') - P) = insert (Some f) (map_of m ` (dom (map_of m) - P)) \<and>
    (\<exists>t. t \<notin> set S \<and> map_of m t = None \<and> dom (map_of m') = insert t (dom (map_of m)))"
  using assms
proof (induction arbitrary: P rule: augment_run)
  case (free fuel f t ts S m)
  let ?new = "map_of (AList.update t f m)"
  have dom: "dom ?new - P = insert t (dom (map_of m) - P)" "t \<notin> dom (map_of m)"
    using free by (auto simp: update_conv')
  have image: "?new ` (dom (map_of m) - P) = map_of m ` (dom (map_of m) - P)"
    using free(2) by (intro image_cong) (auto simp: update_conv')
  have "inj_on ?new (dom (map_of m) - P)"
    using free(2,5) by (subst inj_on_cong [where g = "map_of m"]) (auto simp: update_conv')
  moreover have t: "?new t = Some f" by (simp add: update_conv')
  ultimately have "inj_on ?new (dom ?new - P)" unfolding dom using free(6) image by auto
  moreover have "?new ` (dom ?new - P) = insert (Some f) (map_of m ` (dom (map_of m) - P))"
    unfolding dom using image t by simp
  moreover have "\<forall>s\<in>set S. ?new s = map_of m s" "dom ?new = insert t (dom (map_of m))"
    using free(1) by (auto simp: update_conv')
  ultimately show ?case using free(1,2) by blast
next
  case (found n f t ts S m prior S' m')
  have t: "t \<in> dom (map_of m) - P" using found(1,2,6) by auto
  have split: "dom (map_of m) - P = insert t (dom (map_of m) - insert t P)" using t by auto
  have prior: "Some prior \<notin> map_of m ` (dom (map_of m) - insert t P)"
  proof
    assume "Some prior \<in> map_of m ` (dom (map_of m) - insert t P)"
    then obtain y where "map_of m y = Some prior" "y \<in> dom (map_of m) - insert t P" by fastforce
    then show False using inj_onD [OF found(7) _ _ t, of y] found(2) by auto
  qed
  have inj: "inj_on (map_of m) (dom (map_of m) - insert t P)"
    using found(7) by (rule inj_on_subset) auto
  have P: "insert t P \<subseteq> set (t # S)" using found(6) by auto
  note ih = found(4) [OF TrueI P inj prior]
  let ?new = "map_of (AList.update t f m')"
  have image: "map_of m' ` (dom (map_of m') - insert t P) = map_of m ` (dom (map_of m) - P)"
    using ih by (subst split) (simp add: found(2))
  have dom: "dom ?new - P = insert t (dom (map_of m') - insert t P)" using t by (auto simp: update_conv')
  have same: "?new ` (dom (map_of m') - insert t P) = map_of m' ` (dom (map_of m') - insert t P)"
    by (intro image_cong) (auto simp: update_conv')
  have "inj_on ?new (dom (map_of m') - insert t P)"
    using ih by (subst inj_on_cong [where g = "map_of m'"]) (auto simp: update_conv')
  moreover have "?new t = Some f" by (simp add: update_conv')
  ultimately have "inj_on ?new (dom ?new - P)" unfolding dom using found(8) same image by auto
  moreover have "?new ` (dom ?new - P) = insert (Some f) (map_of m ` (dom (map_of m) - P))"
    unfolding dom using same image \<open>?new t = Some f\<close> by simp
  moreover have "\<forall>s\<in>set S. ?new s = map_of m s" using ih found(1) by (auto simp: update_conv')
  moreover obtain t' where t': "t' \<notin> set (t # S)" "map_of m t' = None" "dom (map_of m') = insert t' (dom (map_of m))"
    using ih by blast
  moreover have "dom ?new = insert t' (dom (map_of m))" using t'(3) found(2) by (auto simp: update_conv')
  ultimately show ?case by (metis list.set_intros(2))
next
  case (dead n f t ts S m prior S1 b S' m')
  have "P \<subseteq> set S1" using dead(3,7) by auto
  from dead(5) [OF dead(6) this dead(8,9)] show ?case using dead(3) by (meson list.set_intros(2) subsetD)
qed auto

lemma search_edges:
  assumes "augment adj fuel f ts (S, m) = (b, S', m')" and "set ts \<subseteq> set (adj f)"
    and "\<forall>t f. map_of m t = Some f \<longrightarrow> t \<in> set (adj f)"
  shows "\<forall>t f. map_of m' t = Some f \<longrightarrow> t \<in> set (adj f)"
  using assms by (induction rule: augment_run) (auto simp: update_conv')

lemma search_distinct:
  assumes "augment adj fuel f ts (S, m) = (b, S', m')" and "distinct (map fst m)"
  shows "distinct (map fst m')"
  using assms by (induction rule: augment_run) (auto simp: distinct_update)

section \<open>The size of a largest matching\<close>

text \<open>A matching as a set of pairs; the matching that has been built is the converse of an association list.\<close>

definition is_matching :: "match_pair set \<Rightarrow> bool" where
  "is_matching M \<longleftrightarrow> inj_on fst M \<and> inj_on snd M"

definition largest :: "match_pair set \<Rightarrow> nat \<Rightarrow> bool" where
  "largest E n \<longleftrightarrow> (\<exists>M\<subseteq>E. is_matching M \<and> card M = n) \<and> (\<forall>M\<subseteq>E. is_matching M \<longrightarrow> card M \<le> n)"

text \<open>What holds after the findings \<open>done\<close> have been searched from: who is not matched has all his defects in a closed set.\<close>

definition search_inv :: "(string \<Rightarrow> string list) \<Rightarrow> string set \<Rightarrow> matching \<Rightarrow> bool" where
  "search_inv adj searched m \<longleftrightarrow> distinct (map fst m) \<and> inj_on (map_of m) (dom (map_of m)) \<and>
     map_of m ` dom (map_of m) \<subseteq> Some ` searched \<and> (\<forall>t f. map_of m t = Some f \<longrightarrow> t \<in> set (adj f)) \<and>
     (\<exists>C. closed_in adj m C \<and> (\<forall>f\<in>searched. Some f \<in> map_of m ` dom (map_of m) \<or> set (adj f) \<subseteq> C))"

lemma search_from_inv:
  assumes inv: "search_inv adj searched m" and f: "f \<notin> searched"
  shows "search_inv adj (insert f searched) (search_from adj m f)"
proof -
  obtain b S' m' where run: "augment adj (length m) f (adj f) ([], m) = (b, S', m')" by (metis prod_cases3)
  then have m': "search_from adj m f = m'" by (simp add: search_from_def)
  obtain C where C: "closed_in adj m C" "\<forall>f\<in>searched. Some f \<in> map_of m ` dom (map_of m) \<or> set (adj f) \<subseteq> C"
    using inv by (auto simp: search_inv_def)
  have keys: "distinct (map fst m')" "\<forall>t f. map_of m' t = Some f \<longrightarrow> t \<in> set (adj f)"
    using search_distinct [OF run] search_edges [OF run] inv by (simp_all add: search_inv_def)
  show ?thesis
  proof (cases b)
    case True
    have "Some f \<notin> map_of m ` (dom (map_of m) - {})" using inv f by (auto simp: search_inv_def)
    then have found: "inj_on (map_of m') (dom (map_of m'))"
      "map_of m' ` dom (map_of m') = insert (Some f) (map_of m ` dom (map_of m))"
      using search_succeeds [OF run True, of "{}"] inv by (simp_all add: search_inv_def)
    have "closed_in adj m' C" using search_keeps_closed [OF run C(1)] C(1) by (auto simp: closed_in_def)
    moreover have "\<forall>f'\<in>insert f searched. Some f' \<in> map_of m' ` dom (map_of m') \<or> set (adj f') \<subseteq> C"
      unfolding found(2) using C(2) by auto
    moreover have "map_of m' ` dom (map_of m') \<subseteq> Some ` insert f searched"
      unfolding found(2) using inv by (auto simp: search_inv_def)
    ultimately show ?thesis unfolding m' search_inv_def using keys found(1) by blast
  next
    case False
    then have same: "m' = m" using augment_failed [of adj "length m" f "adj f" "[]" m S' m'] run by simp
    have "card (fst ` set m - set []) \<le> length m" using card_image_le [of "set m" fst] card_length [of m] by simp
    from search_fails [OF run False this] have seen: "set (adj f) \<subseteq> set S'" "closed_in adj m (set S')"
      by (auto simp: closed_in_def)
    have "closed_in adj m (C \<union> set S')" unfolding closed_in_def
    proof
      fix t assume "t \<in> C \<union> set S'"
      then show "\<exists>f. map_of m t = Some f \<and> set (adj f) \<subseteq> C \<union> set S'"
        using C(1) seen(2) unfolding closed_in_def by (meson Un_iff le_supI1 le_supI2)
    qed
    moreover have "\<forall>f'\<in>insert f searched. Some f' \<in> map_of m ` dom (map_of m) \<or> set (adj f') \<subseteq> C \<union> set S'"
      using C(2) seen(1) by auto
    moreover have "map_of m ` dom (map_of m) \<subseteq> Some ` insert f searched" using inv by (auto simp: search_inv_def)
    moreover have "inj_on (map_of m) (dom (map_of m))" using inv by (simp add: search_inv_def)
    ultimately show ?thesis unfolding m' search_inv_def same using keys [unfolded same] by blast
  qed
qed

lemma search_all_inv:
  "search_inv adj searched m \<Longrightarrow> distinct fs \<Longrightarrow> set fs \<inter> searched = {} \<Longrightarrow>
   search_inv adj (searched \<union> set fs) (foldl (search_from adj) m fs)"
proof (induction fs arbitrary: searched m)
  case (Cons f fs)
  then show ?case using Cons.IH [OF search_from_inv [OF Cons.prems(1), of f]] by auto
qed simp

lemma set_adjacency [simp]: "set (adjacency pairs f) = {t. (f, t) \<in> set pairs}"
  by (force simp: adjacency_def)

lemma set_unblocked: "set (unblocked F T pairs) = {p \<in> set pairs. fst p \<notin> set F \<and> snd p \<notin> set T}"
  by (auto simp: unblocked_def)

text \<open>A matching has at most as many pairs as there are findings and defects that meet every edge.\<close>

lemma covered_matching:
  assumes "is_matching M" and "finite C" "finite F" and "\<forall>(f, t)\<in>M. t \<in> C \<or> f \<in> F"
  shows "card M \<le> card C + card F"
proof -
  let ?one = "\<lambda>p. if snd p \<in> C then Inl (snd p) else Inr (fst p)"
  have "inj_on ?one M" using assms(1) by (auto simp: is_matching_def inj_on_def split: if_splits)
  moreover have "?one ` M \<subseteq> C <+> F" using assms(4) by auto
  ultimately have "card M \<le> card (C <+> F)" using assms(2,3) by (intro card_inj_on_le [of ?one]) auto
  then show ?thesis using assms(2,3) by (simp add: card_Plus)
qed

lemma built_matching:
  assumes "search_inv (adjacency pairs) searched m"
  shows "(\<lambda>(t, f). (f, t)) ` set m \<subseteq> set pairs" "is_matching ((\<lambda>(t, f). (f, t)) ` set m)"
    "card ((\<lambda>(t, f). (f, t)) ` set m) = length m"
proof -
  have keys: "distinct (map fst m)" and inj: "inj_on (map_of m) (dom (map_of m))"
    and edges: "\<forall>t f. map_of m t = Some f \<longrightarrow> (f, t) \<in> set pairs" using assms by (auto simp: search_inv_def)
  show "(\<lambda>(t, f). (f, t)) ` set m \<subseteq> set pairs" using edges keys by auto
  have "t = t'" if "(t, f) \<in> set m" "(t', f) \<in> set m" for t t' f
    using inj_onD [OF inj, of t t'] that keys by (auto simp: domIff)
  moreover have "f = f'" if "(t, f) \<in> set m" "(t, f') \<in> set m" for t f f'
    using that keys by (metis eq_key_imp_eq_value)
  ultimately show "is_matching ((\<lambda>(t, f). (f, t)) ` set m)" by (auto simp: is_matching_def inj_on_def)
  have "distinct m" using keys by (simp add: distinct_map)
  then show "card ((\<lambda>(t, f). (f, t)) ` set m) = length m"
    by (subst card_image) (auto simp: inj_on_def distinct_card)
qed

lemma searched_is_largest:
  assumes inv: "search_inv (adjacency pairs) (fst ` set pairs) m"
  shows "largest (set pairs) (length m)"
proof -
  obtain C where C: "closed_in (adjacency pairs) m C"
    "\<forall>f\<in>fst ` set pairs. Some f \<in> map_of m ` dom (map_of m) \<or> {t. (f, t) \<in> set pairs} \<subseteq> C"
    using inv by (auto simp: search_inv_def)
  let ?F = "(\<lambda>t. the (map_of m t)) ` (dom (map_of m) - C)"
  have sub: "C \<subseteq> dom (map_of m)" using C(1) by (auto simp: closed_in_def)
  have fin: "finite (dom (map_of m))" by (rule finite_dom_map_of)
  have "card M \<le> length m" if M: "M \<subseteq> set pairs" "is_matching M" for M
  proof -
    have "t \<in> C \<or> f \<in> ?F" if p: "(f, t) \<in> M" for f t
    proof (cases "{t. (f, t) \<in> set pairs} \<subseteq> C")
      case True
      then show ?thesis using p M(1) by auto
    next
      case False
      then obtain t0 where t0: "map_of m t0 = Some f" using C(2) p M(1) by fastforce
      then have "t0 \<notin> C" using C(1) False by (fastforce simp: closed_in_def)
      then show ?thesis using t0 by (force simp: image_iff domIff)
    qed
    then have "card M \<le> card C + card ?F"
      using covered_matching [OF M(2), of C ?F] finite_subset [OF sub fin] fin by auto
    also have "\<dots> \<le> card C + card (dom (map_of m) - C)" using fin by (simp add: card_image_le)
    also have "\<dots> = card (dom (map_of m))"
      using card_mono [OF fin sub] by (simp add: card_Diff_subset [OF finite_subset [OF sub fin] sub])
    also have "\<dots> \<le> length m" using card_image_le [of "set m" fst] card_length [of m] by (simp add: dom_map_of_conv_image_fst)
    finally show ?thesis .
  qed
  then show ?thesis using built_matching [OF inv] by (auto simp: largest_def)
qed

lemma maximumCardinality_largest:
  "largest {p \<in> set pairs. fst p \<notin> set F \<and> snd p \<notin> set T} (maximumCardinality pairs F T)"
proof -
  let ?open = "unblocked F T pairs" and ?fs = "sort (remdups (map fst (unblocked F T pairs)))"
  have start: "search_inv (adjacency ?open) {} []" by (auto simp: search_inv_def closed_in_def)
  have "search_inv (adjacency ?open) ({} \<union> set ?fs) (foldl (search_from (adjacency ?open)) [] ?fs)"
    by (rule search_all_inv [OF start]) simp_all
  then have "largest (set ?open) (length (foldl (search_from (adjacency ?open)) [] ?fs))"
    by (intro searched_is_largest) simp
  then show ?thesis by (simp add: maximumCardinality_def Let_def set_unblocked)
qed

section \<open>The first largest matching\<close>

text \<open>The pairs that can still be chosen, and when one matching comes before another of its size.\<close>

definition available :: "match_pair list \<Rightarrow> match_pair list \<Rightarrow> match_pair set" where
  "available chosen ps = {p \<in> set ps. fst p \<notin> fst ` set chosen \<and> snd p \<notin> snd ` set chosen}"

definition comes_first :: "match_pair set \<Rightarrow> match_pair set \<Rightarrow> bool" where
  "comes_first R N \<longleftrightarrow> N = R \<or> (\<exists>p\<in>R - N. \<forall>q\<in>N - R. p < q)"

definition first_largest :: "match_pair set \<Rightarrow> nat \<Rightarrow> match_pair list \<Rightarrow> bool" where
  "first_largest E n R \<longleftrightarrow> set R \<subseteq> E \<and> is_matching (set R) \<and> distinct R \<and> length R = n \<and>
     (\<forall>N\<subseteq>E. is_matching N \<longrightarrow> card N = n \<longrightarrow> comes_first (set R) N)"

lemma is_matching_subset: "is_matching M \<Longrightarrow> N \<subseteq> M \<Longrightarrow> is_matching N"
  unfolding is_matching_def using inj_on_subset by blast

lemma is_matching_iff: "is_matching M \<longleftrightarrow> (\<forall>p\<in>M. \<forall>q\<in>M. fst p = fst q \<or> snd p = snd q \<longrightarrow> p = q)"
  unfolding is_matching_def inj_on_def by blast

lemma is_matching_insert:
  "is_matching (insert p N) \<longleftrightarrow> is_matching N \<and> (\<forall>q\<in>N - {p}. fst q \<noteq> fst p \<and> snd q \<noteq> snd p)"
proof (intro iffI conjI ballI)
  assume "is_matching (insert p N)"
  then have same: "a = b" if "a \<in> insert p N" "b \<in> insert p N" "fst a = fst b \<or> snd a = snd b" for a b
    using that unfolding is_matching_iff by blast
  then show "is_matching N" unfolding is_matching_iff by blast
  show "fst q \<noteq> fst p" "snd q \<noteq> snd p" if "q \<in> N - {p}" for q using same [of q p] that by auto
next
  assume N: "is_matching N \<and> (\<forall>q\<in>N - {p}. fst q \<noteq> fst p \<and> snd q \<noteq> snd p)"
  show "is_matching (insert p N)" unfolding is_matching_iff
  proof (intro ballI impI)
    fix a b assume ab: "a \<in> insert p N" "b \<in> insert p N" "fst a = fst b \<or> snd a = snd b"
    show "a = b"
    proof (cases "a = p \<or> b = p")
      case True
      then show ?thesis using ab N by (metis DiffI insertE singletonD)
    next
      case False
      then show ?thesis using ab N unfolding is_matching_iff by blast
    qed
  qed
qed

lemma available_Cons:
  "available chosen (p # ps) = (if fst p \<in> fst ` set chosen \<or> snd p \<in> snd ` set chosen then available chosen ps
     else insert p (available chosen ps))"
  by (auto simp: available_def)

lemma available_snoc:
  "available (chosen @ [p]) ps = {q \<in> available chosen ps. fst q \<noteq> fst p \<and> snd q \<noteq> snd p}"
  by (auto simp: available_def)

text \<open>Taking the first pair: what is left must hold one pair less; and leaving it, when no largest matching has it.\<close>

lemma take_pair:
  assumes big: "largest (insert p A) k" and rest: "largest {q \<in> A. fst q \<noteq> fst p \<and> snd q \<noteq> snd p} r"
    and p: "p \<notin> A" and fin: "finite A"
  shows "r + 1 \<le> k" "r + 1 < k \<Longrightarrow> largest A k" "r + 1 < k \<Longrightarrow> N \<subseteq> insert p A \<Longrightarrow> is_matching N \<Longrightarrow> card N = k \<Longrightarrow> p \<notin> N"
proof -
  let ?A = "{q \<in> A. fst q \<noteq> fst p \<and> snd q \<noteq> snd p}"
  obtain M where M: "M \<subseteq> ?A" "is_matching M" "card M = r" using rest by (auto simp: largest_def)
  have "finite M" using M(1) fin finite_subset [of M A] by auto
  moreover have "is_matching (insert p M)" using M by (auto simp: is_matching_insert)
  moreover have "insert p M \<subseteq> insert p A" "p \<notin> M" using M(1) p by auto
  moreover from calculation have "card (insert p M) \<le> k" using big unfolding largest_def by blast
  ultimately show "r + 1 \<le> k" using M(3) by simp
  have without: "p \<notin> N" if "r + 1 < k" "N \<subseteq> insert p A" "is_matching N" "card N = k" for N
  proof
    assume "p \<in> N"
    then have "N - {p} \<subseteq> ?A" using that(2,3) is_matching_insert [of p "N - {p}"] by (auto simp: insert_absorb)
    moreover have "is_matching (N - {p})" using that(3) by (rule is_matching_subset) auto
    ultimately have "card (N - {p}) \<le> r" using rest by (auto simp: largest_def)
    then show False using that(1,4) \<open>p \<in> N\<close> by simp
  qed
  then show "r + 1 < k \<Longrightarrow> N \<subseteq> insert p A \<Longrightarrow> is_matching N \<Longrightarrow> card N = k \<Longrightarrow> p \<notin> N" .
  show "largest A k" if "r + 1 < k"
  proof -
    obtain N where N: "N \<subseteq> insert p A" "is_matching N" "card N = k" using big by (auto simp: largest_def)
    then have "N \<subseteq> A" using without [OF that] by auto
    then show ?thesis using N(2,3) big by (auto simp: largest_def)
  qed
qed

lemma first_with:
  assumes R: "first_largest {q \<in> A. fst q \<noteq> fst p \<and> snd q \<noteq> snd p} r R" and p: "p \<notin> A" and later: "\<And>q. q \<in> A \<Longrightarrow> p < q"
    and k: "r + 1 = k"
  shows "first_largest (insert p A) k (p # R)"
proof -
  have sub: "set R \<subseteq> {q \<in> A. fst q \<noteq> fst p \<and> snd q \<noteq> snd p}" using R by (simp add: first_largest_def)
  have "comes_first (insert p (set R)) N" if N: "N \<subseteq> insert p A" "is_matching N" "card N = k" for N
  proof (cases "p \<in> N")
    case False
    then have "p \<in> insert p (set R) - N" "\<forall>q\<in>N - insert p (set R). p < q" using later N(1) by auto
    then show ?thesis unfolding comes_first_def by blast
  next
    case True
    then have "N - {p} \<subseteq> {q \<in> A. fst q \<noteq> fst p \<and> snd q \<noteq> snd p}"
      using N(1,2) is_matching_insert [of p "N - {p}"] by (auto simp: insert_absorb)
    moreover have "is_matching (N - {p})" using N(2) by (rule is_matching_subset) auto
    moreover have "card (N - {p}) = r" using N(3) True k by simp
    ultimately have "comes_first (set R) (N - {p})" using R by (simp add: first_largest_def)
    then show ?thesis
    proof (unfold comes_first_def, elim disjE bexE)
      assume "N - {p} = set R"
      then show "N = insert p (set R) \<or> (\<exists>q\<in>insert p (set R) - N. \<forall>q'\<in>N - insert p (set R). q < q')" using True by auto
    next
      fix q assume "q \<in> set R - (N - {p})" "\<forall>q'\<in>N - {p} - set R. q < q'"
      then have "q \<in> insert p (set R) - N" "\<forall>q'\<in>N - insert p (set R). q < q'" using sub p by auto
      then show "N = insert p (set R) \<or> (\<exists>q\<in>insert p (set R) - N. \<forall>q'\<in>N - insert p (set R). q < q')" by blast
    qed
  qed
  moreover have "is_matching (insert p (set R))" using R sub by (auto simp: is_matching_insert first_largest_def)
  ultimately show ?thesis using R sub p k by (auto simp: first_largest_def)
qed

text \<open>What the loop relies on: the size of a largest matching of the pairs that are not blocked.\<close>

locale largest_size =
  fixes cardinality :: "match_pair list \<Rightarrow> string list \<Rightarrow> string list \<Rightarrow> nat"
  assumes cardinality: "largest {p \<in> set ps. fst p \<notin> set F \<and> snd p \<notin> set T} (cardinality ps F T)"
begin

lemma cardinality_available: "largest (available chosen ps) (cardinality ps (map fst chosen) (map snd chosen))"
  using cardinality [of ps "map fst chosen" "map snd chosen"] by (simp add: available_def)

lemma choose_first:
  assumes "sorted ps" "distinct ps" "largest (available chosen ps) k" "target = length chosen + k"
  shows "\<exists>R. choose_pairs cardinality target chosen ps = chosen @ R \<and> first_largest (available chosen ps) k R"
  using assms
proof (induction ps arbitrary: chosen k)
  case Nil
  then show ?case by (auto simp: available_def largest_def first_largest_def is_matching_def comes_first_def)
next
  case (Cons p ps)
  show ?case
  proof (cases "fst p \<in> fst ` set chosen \<or> snd p \<in> snd ` set chosen")
    case True
    then show ?thesis using Cons by (simp add: available_Cons)
  next
    case False
    let ?A = "available chosen ps" and ?r = "cardinality ps (map fst (chosen @ [p])) (map snd (chosen @ [p]))"
    have A: "available chosen (p # ps) = insert p ?A" using False by (simp add: available_Cons)
    have later: "p < q" if "q \<in> ?A" for q using that Cons.prems(1,2) by (auto simp: available_def order_less_le)
    have big: "largest (insert p ?A) k" using Cons.prems(3) unfolding A .
    have rest: "largest {q \<in> ?A. fst q \<noteq> fst p \<and> snd q \<noteq> snd p} ?r"
      using cardinality_available [of "chosen @ [p]" ps] unfolding available_snoc .
    have p: "p \<notin> ?A" "finite ?A" using later [of p] by (auto simp: available_def)
    note take = take_pair [OF big rest p]
    show ?thesis
    proof (cases "?r + 1 = k")
      case True
      let ?B = "available (chosen @ [p]) ps"
      obtain R where R: "choose_pairs cardinality target chosen (p # ps) = (chosen @ [p]) @ R" "first_largest ?B ?r R"
      proof (cases "?r = 0")
        case none: True
        have "first_largest ?B 0 []"
          using finite_subset [of _ ?B] by (auto simp: first_largest_def is_matching_def comes_first_def available_def)
        moreover have "choose_pairs cardinality target chosen (p # ps) = (chosen @ [p]) @ []"
          using \<open>\<not> (fst p \<in> _ \<or> _)\<close> Cons.prems(4) True none by simp
        ultimately show ?thesis using that none by metis
      next
        case some: False
        have "target = length (chosen @ [p]) + ?r" using Cons.prems(4) True by simp
        with Cons.IH [OF _ _ cardinality_available [of "chosen @ [p]" ps] this] Cons.prems(1,2)
        obtain R where "choose_pairs cardinality target (chosen @ [p]) ps = (chosen @ [p]) @ R" "first_largest ?B ?r R"
          by auto
        then show ?thesis using that \<open>\<not> (fst p \<in> _ \<or> _)\<close> Cons.prems(4) True some by simp
      qed
      have "first_largest (available chosen (p # ps)) k (p # R)"
        unfolding A by (rule first_with [OF _ p(1) later]) (use R(2) True in \<open>simp_all add: available_snoc\<close>)
      then show ?thesis using R(1) by auto
    next
      case False
      then have less: "?r + 1 < k" using take(1) by simp
      from Cons.IH [OF _ _ take(2) [OF less] Cons.prems(4)] Cons.prems(1,2)
      obtain R where R: "choose_pairs cardinality target chosen ps = chosen @ R" "first_largest ?A k R" by auto
      have "first_largest (insert p ?A) k R"
        using R(2) take(3) [OF less] unfolding first_largest_def by (metis subset_insert subset_insertI2)
      moreover have "choose_pairs cardinality target chosen (p # ps) = chosen @ R"
        using R(1) \<open>\<not> (fst p \<in> _ \<or> _)\<close> Cons.prems(4) less by simp
      ultimately show ?thesis unfolding A by blast
    qed
  qed
qed

end

interpretation kuhn: largest_size maximumCardinality
  by unfold_locales (rule maximumCardinality_largest)

lemma set_eligible_pairs: "set (eligible_pairs fs ts es) = {p \<in> set es. fst p \<in> set (acceptedIDs fs) \<and> snd p \<in> gt_ID ` set ts}"
  by (auto simp: eligible_pairs_def)

text \<open>The pairs that \<open>Match\<close> returns, as the specification has them.\<close>

lemma Match_pairs:
  shows "first_largest (set (eligible_pairs fs ts es)) (length (mr_Pairs (Match fs ts es))) (mr_Pairs (Match fs ts es))"
    and "largest (set (eligible_pairs fs ts es)) (length (mr_Pairs (Match fs ts es)))"
proof -
  let ?ps = "eligible_pairs fs ts es" and ?n = "maximumCardinality (eligible_pairs fs ts es) [] []"
  have all: "available [] ?ps = set ?ps" by (simp add: available_def)
  have big: "largest (set ?ps) ?n" using maximumCardinality_largest [of ?ps "[]" "[]"] by simp
  obtain R where R: "choose_pairs maximumCardinality ?n [] ?ps = [] @ R" "first_largest (set ?ps) ?n R"
    using kuhn.choose_first [of ?ps "[]" ?n ?n] big unfolding all by (auto simp: eligible_pairs_def)
  then have "mr_Pairs (Match fs ts es) = R" by (simp add: Match_def Let_def)
  moreover have "length R = ?n" using R(2) by (simp add: first_largest_def)
  ultimately show "first_largest (set ?ps) (length (mr_Pairs (Match fs ts es))) (mr_Pairs (Match fs ts es))"
    "largest (set ?ps) (length (mr_Pairs (Match fs ts es)))" using R(2) big by simp_all
qed

lemma Match_counts:
  "mr_TP (Match fs ts es) = int (length (mr_Pairs (Match fs ts es)))"
  "mr_TP (Match fs ts es) + mr_FP (Match fs ts es) = int (length (acceptedIDs fs))"
  "mr_TP (Match fs ts es) + mr_FN (Match fs ts es) = int (length ts)"
  "0 \<le> mr_FP (Match fs ts es)" "0 \<le> mr_FN (Match fs ts es)"
proof -
  let ?R = "mr_Pairs (Match fs ts es)"
  show "mr_TP (Match fs ts es) = int (length ?R)" "mr_TP (Match fs ts es) + mr_FP (Match fs ts es) = int (length (acceptedIDs fs))"
    "mr_TP (Match fs ts es) + mr_FN (Match fs ts es) = int (length ts)" by (simp_all add: Match_def Let_def)
  have R: "is_matching (set ?R)" "distinct ?R" "set ?R \<subseteq> set (eligible_pairs fs ts es)"
    using Match_pairs(1) [of fs ts es] by (simp_all add: first_largest_def)
  have "length ?R = card (fst ` set ?R)" "length ?R = card (snd ` set ?R)"
    using R(1,2) by (simp_all add: is_matching_def card_image distinct_card)
  moreover have "card (fst ` set ?R) \<le> card (set (acceptedIDs fs))" "card (snd ` set ?R) \<le> card (gt_ID ` set ts)"
    using R(3) by (auto intro!: card_mono simp: set_eligible_pairs)
  moreover have "card (gt_ID ` set ts) \<le> length ts" "card (set (acceptedIDs fs)) \<le> length (acceptedIDs fs)"
    using card_image_le [of "set ts" gt_ID] card_length [of ts] card_length by auto
  ultimately show "0 \<le> mr_FP (Match fs ts es)" "0 \<le> mr_FN (Match fs ts es)" by (simp_all add: Match_def Let_def)
qed

text \<open>
  C8: \<open>Match\<close> is an optimal assignment.  Of the adjudicated edges between accepted findings and known defects it
  chooses pairs that share no finding and no defect, as many as any such choice can have, and among the largest
  choices the first one in the order of the pairs; the true and false positives add up to the accepted findings,
  the true positives and false negatives to the defects.
\<close>

theorem Match_optimal:
  "first_largest {p \<in> set es. fst p \<in> set (acceptedIDs fs) \<and> snd p \<in> gt_ID ` set ts}
     (length (mr_Pairs (Match fs ts es))) (mr_Pairs (Match fs ts es)) \<and>
   largest {p \<in> set es. fst p \<in> set (acceptedIDs fs) \<and> snd p \<in> gt_ID ` set ts} (length (mr_Pairs (Match fs ts es))) \<and>
   mr_TP (Match fs ts es) = int (length (mr_Pairs (Match fs ts es))) \<and>
   mr_TP (Match fs ts es) + mr_FP (Match fs ts es) = int (length (acceptedIDs fs)) \<and>
   mr_TP (Match fs ts es) + mr_FN (Match fs ts es) = int (length ts) \<and>
   0 \<le> mr_FP (Match fs ts es) \<and> 0 \<le> mr_FN (Match fs ts es)"
  using Match_pairs [of fs ts es] Match_counts [of fs ts es] unfolding set_eligible_pairs by blast

text \<open>
  A run in which the first finding has to give its first defect to the second one.
\<close>

definition sample_eval_finding :: "string \<Rightarrow> eval_finding" where
  "sample_eval_finding i = \<lparr>ef_ID = i, ef_HostID = [], ef_Condition = [], ef_Category = [], ef_Severity = [], ef_Confidence = [],
     ef_Summary = [], ef_Scenario = [], ef_Locations = [], ef_VerifierDisposition = ''confirmed'', ef_VerifierEvidence = []\<rparr>"

definition sample_truth :: "string \<Rightarrow> ground_truth" where
  "sample_truth i = \<lparr>gt_ID = i, gt_DefectClass = ''local_logic'', gt_Severity = [], gt_Summary = [], gt_Scenario = [], gt_Verifier = [],
     gt_Provenance = None, gt_CanonicalDigest = [], gt_Critical = True, gt_CrossFile = False, gt_Deletion = False, gt_Locations = []\<rparr>"

lemma sample_match:
  "mr_Pairs (Match [sample_eval_finding ''a'', sample_eval_finding ''b''] [sample_truth ''1'', sample_truth ''2'']
     [(''a'', ''1''), (''a'', ''2''), (''b'', ''1'')]) = [(''a'', ''2''), (''b'', ''1'')]"
  by code_simp

end
