(* ===== verification/Scoring.thy ===== *)
theory Scoring
  imports Matching Complex_Main
begin

text \<open>
  Scoring of review trials: \<open>score.go\<close>, \<open>bootstrap.go\<close>, \<open>metamorphic.go\<close> and the adjudication of \<open>matching.go\<close>, in
  \<open>internal/revieweval\<close>.  A trial is scored against the known defects of its case, scores are aggregated per
  condition, client and defect class, and the gates decide whether the treatment ships.

  A \<open>float64\<close> is a rational number; \<open>rnd\<close> rounds the exact result of each operation.  Counts are lengths of lists and numbers
  that a checker reports, their sums stay far below \<open>2^63\<close>, so Go's \<open>int\<close> and \<open>int64\<close> are \<open>int\<close>.
  A Go map that is ranged over is a list of entries in one order; the groups of \<open>repetitionVariance\<close> come in the order
  of their first score, where Go adds them in an unspecified one.
\<close>

section \<open>Trials\<close>

definition ConditionControl :: string where [simp]: "ConditionControl = ''control''"
definition ConditionTreatment :: string where [simp]: "ConditionTreatment = ''treatment''"
definition StatusCompleted :: string where [simp]: "StatusCompleted = ''completed''"
definition AdjudicationSchema :: string where "AdjudicationSchema = ''review.eval-adjudication.v1''"
definition BlindAdjudicationSchema :: string where "BlindAdjudicationSchema = ''review.eval-adjudication-input.v1''"
definition ProductionBootstrapReplicates :: int where "ProductionBootstrapReplicates = 10000"

record usage =
  us_InputTokens :: int
  us_OutputTokens :: int
  us_ModelTokens :: int
  us_ToolCalls :: int
  us_Subagents :: int

record checker_artifacts =
  cf_ReviewID :: string
  cf_PlanPath :: string
  cf_ReportPath :: string
  cf_CheckPath :: string

record checker_evidence =
  cv_Status :: string
  cv_ReviewID :: string
  cv_PlanDigest :: string
  cv_Recommendation :: string
  cv_PrimaryRangesCovered :: int
  cv_PrimaryRangesTotal :: int
  cv_AuditTargetsCovered :: int
  cv_AuditTargetsTotal :: int
  cv_Stale :: bool
  cv_Incomplete :: bool
  cv_Invalid :: bool

record eval_output =
  eo_Schema :: string
  eo_Status :: string
  eo_Recommendation :: string
  eo_Findings :: "eval_finding list"
  eo_Usage :: usage
  eo_Checker :: "checker_artifacts option"

record trial_record =
  tr_Ordinal :: int
  tr_CaseID :: string
  tr_Client :: string
  tr_Condition :: string
  tr_Repetition :: int
  tr_Status :: string
  tr_Recommendation :: string
  tr_Output :: "eval_output option"
  tr_RawStdout :: string
  tr_RawStderr :: string
  tr_ProwlPlan :: bytes
  tr_ProwlReport :: bytes
  tr_CheckResult :: bytes
  tr_Checker :: "checker_evidence option"
  tr_ResolvedLocations :: int
  tr_Usage :: usage
  tr_ElapsedMS :: int
  tr_ClientVersion :: string
  tr_ModelVersion :: string
  tr_ProwlVersion :: string
  tr_Error :: string

record eval_case =
  ec_ID :: string
  ec_Repository :: string
  ec_BaseSHA :: string
  ec_HeadSHA :: string
  ec_RawAdditions :: int
  ec_RawDeletions :: int
  ec_DefectClass :: string
  ec_Prompt :: string
  ec_GroundTruth :: "ground_truth list"
  ec_Metamorphic :: bool

record trial_score =
  ts_CaseID :: string
  ts_Client :: string
  ts_Condition :: string
  ts_Repetition :: int
  ts_DefectClass :: string
  ts_Metamorphic :: bool
  ts_TP :: int
  ts_FP :: int
  ts_FN :: int
  ts_CriticalTP :: int
  ts_CriticalTotal :: int
  ts_CrossFileTP :: int
  ts_CrossFileTotal :: int
  ts_DeletionTP :: int
  ts_DeletionTotal :: int
  ts_SemanticTP :: int
  ts_LocationRecords :: int
  ts_ResolvedLocations :: int
  ts_PrimaryRangesCovered :: int
  ts_PrimaryRangesTotal :: int
  ts_AuditTargetsCovered :: int
  ts_AuditTargetsTotal :: int
  ts_IncompleteApproval :: bool
  ts_StaleApproval :: bool
  ts_Completed :: bool
  ts_Failure :: bool
  ts_ElapsedMS :: int
  ts_Usage :: usage
  ts_MatchedGroundTruth :: "string list"

section \<open>Adjudication\<close>

definition groundTruthKey :: "string \<Rightarrow> string \<Rightarrow> string" where
  "groundTruthKey caseID groundTruthID = caseID @ '':'' @ groundTruthID"

record blind_input =
  bi_Schema :: string
  bi_Findings :: "eval_finding list"
  bi_GroundTruth :: "ground_truth list"
  bi_FindingCases :: "string \<rightharpoonup> string list"
  bi_GroundTruthCases :: "string \<rightharpoonup> string list"

definition sortedKeys :: "string list \<Rightarrow> string list" where
  "sortedKeys values = sort (remdups values)"

text \<open>The accepted findings of all trials, blinded, each with the case of its trial.\<close>

definition blinded :: "trial_record list \<Rightarrow> (string \<times> eval_finding \<times> string) list" where
  "blinded records = concat (map (\<lambda>r. case tr_Output r of
       None \<Rightarrow> []
     | Some out \<Rightarrow> map (\<lambda>f. (ef_ID f, f\<lparr>ef_HostID := [], ef_Condition := []\<rparr>, tr_CaseID r))
         (filter (\<lambda>f. acceptedDisposition (ef_VerifierDisposition f)) (eo_Findings out))) records)"

definition qualified_truth :: "eval_case list \<Rightarrow> (string \<times> ground_truth \<times> string) list" where
  "qualified_truth cases = concat (map (\<lambda>c. map (\<lambda>t. let key = groundTruthKey (ec_ID c) (gt_ID t) in
     (key, t\<lparr>gt_ID := key\<rparr>, ec_ID c)) (ec_GroundTruth c)) cases)"

text \<open>A map that is written entry by entry and read in the order of its keys.\<close>

definition last_entries :: "(string \<times> 'a \<times> string) list \<Rightarrow> 'a list" where
  "last_entries es = map (\<lambda>k. fst (the (map_of (rev es) k))) (sortedKeys (map fst es))"

definition BuildBlindAdjudicationInput :: "trial_record list \<Rightarrow> eval_case list \<Rightarrow> blind_input" where
  "BuildBlindAdjudicationInput records cases = (let found = blinded records; truth = qualified_truth cases in
     \<lparr>bi_Schema = BlindAdjudicationSchema, bi_Findings = last_entries found, bi_GroundTruth = last_entries truth,
      bi_FindingCases = (\<lambda>k. if k \<in> set (map fst found)
        then Some (sortedKeys (map (snd \<circ> snd) (filter (\<lambda>e. fst e = k) found))) else None),
      bi_GroundTruthCases = (\<lambda>k. map_option (\<lambda>(_, caseID). [caseID]) (map_of (rev truth) k))\<rparr>)"

record adjudication =
  aj_Schema :: string
  aj_CandidateDigest :: string
  aj_Edges :: "match_pair list"
  aj_Frozen :: bool

text \<open>A missing entry of a Go map reads as the empty list.\<close>

definition cases_of :: "(string \<rightharpoonup> string list) \<Rightarrow> string \<Rightarrow> string list" where
  "cases_of m k = (case m k of None \<Rightarrow> [] | Some cs \<Rightarrow> cs)"

definition check_edge :: "blind_input \<Rightarrow> match_pair list \<Rightarrow> match_pair \<Rightarrow> match_pair list result" where
  "check_edge input seen edge = (case edge of (f, t) \<Rightarrow>
     if f \<notin> set (map ef_ID (bi_Findings input)) \<or> t \<notin> set (map gt_ID (bi_GroundTruth input)) then
       Inl (Err ''adjudication edge references unknown finding or ground truth: %s/%s'' [AStr f, AStr t])
     else if \<not> list_ex (\<lambda>c. c \<in> set (cases_of (bi_GroundTruthCases input) t)) (cases_of (bi_FindingCases input) f) then
       Inl (Err ''adjudication edge crosses unrelated cases: %s/%s'' [AStr f, AStr t])
     else if edge \<in> set seen then Inl (err ''adjudication matrix contains a duplicate edge'')
     else Inr (edge # seen))"

definition ValidateAdjudication :: "(blind_input \<Rightarrow> string result) \<Rightarrow> adjudication \<Rightarrow> blind_input \<Rightarrow> unit result" where
  "ValidateAdjudication jsonDigest a input =
     (if aj_Schema a \<noteq> AdjudicationSchema \<or> \<not> aj_Frozen a then Inl (err ''adjudication matrix is not frozen'')
      else bindE (jsonDigest input) (\<lambda>candidateDigest.
        if aj_CandidateDigest a \<noteq> candidateDigest then Inl (err ''adjudication matrix candidate digest mismatch'')
        else bindE (foldE (check_edge input) [] (aj_Edges a)) (\<lambda>_. Inr ())))"

section \<open>One trial\<close>

definition count_if :: "('a \<Rightarrow> bool) \<Rightarrow> 'a list \<Rightarrow> int" where
  "count_if P xs = int (length (filter P xs))"

definition no_usage :: "usage \<Rightarrow> bool" where
  "no_usage u \<longleftrightarrow> us_InputTokens u = 0 \<and> us_OutputTokens u = 0 \<and> us_ModelTokens u = 0 \<and> us_ToolCalls u = 0 \<and> us_Subagents u = 0"

definition failed_check :: "checker_evidence \<Rightarrow> bool" where
  "failed_check c \<longleftrightarrow> cv_Incomplete c \<or> cv_Invalid c \<or> cv_Status c \<noteq> ''complete'' \<or>
     cv_PrimaryRangesCovered c \<noteq> cv_PrimaryRangesTotal c \<or> cv_AuditTargetsCovered c \<noteq> cv_AuditTargetsTotal c"

definition trial_recommendation :: "trial_record \<Rightarrow> string" where
  "trial_recommendation r = (case tr_Output r of
       None \<Rightarrow> tr_Recommendation r
     | Some out \<Rightarrow> if tr_Recommendation r = [] then eo_Recommendation out else tr_Recommendation r)"

definition trial_usage :: "trial_record \<Rightarrow> usage" where
  "trial_usage r = (case tr_Output r of
       None \<Rightarrow> tr_Usage r | Some out \<Rightarrow> if no_usage (tr_Usage r) then eo_Usage out else tr_Usage r)"

text \<open>The part of a score that every trial gets, completed or not.\<close>

definition start_score :: "trial_record \<Rightarrow> ground_truth list \<Rightarrow> trial_score" where
  "start_score r truth = (let approves = trial_recommendation r = ''approve'' \<and> tr_Condition r = ConditionTreatment in
     \<lparr>ts_CaseID = tr_CaseID r, ts_Client = tr_Client r, ts_Condition = tr_Condition r, ts_Repetition = tr_Repetition r,
      ts_DefectClass = (case truth of [] \<Rightarrow> [] | t # _ \<Rightarrow> gt_DefectClass t), ts_Metamorphic = False,
      ts_TP = 0, ts_FP = 0, ts_FN = 0,
      ts_CriticalTP = 0, ts_CriticalTotal = count_if gt_Critical truth,
      ts_CrossFileTP = 0, ts_CrossFileTotal = count_if gt_CrossFile truth,
      ts_DeletionTP = 0, ts_DeletionTotal = count_if gt_Deletion truth,
      ts_SemanticTP = 0, ts_LocationRecords = 0, ts_ResolvedLocations = 0,
      ts_PrimaryRangesCovered = 0, ts_PrimaryRangesTotal = 0, ts_AuditTargetsCovered = 0, ts_AuditTargetsTotal = 0,
      ts_IncompleteApproval = approves \<and> (case tr_Checker r of None \<Rightarrow> True | Some c \<Rightarrow> failed_check c),
      ts_StaleApproval = approves \<and> (case tr_Checker r of None \<Rightarrow> False | Some c \<Rightarrow> cv_Stale c),
      ts_Completed = False, ts_Failure = True, ts_ElapsedMS = tr_ElapsedMS r, ts_Usage = trial_usage r,
      ts_MatchedGroundTruth = []\<rparr>)"

definition add_checker :: "checker_evidence option \<Rightarrow> trial_score \<Rightarrow> trial_score" where
  "add_checker checker s = (case checker of
       None \<Rightarrow> s
     | Some c \<Rightarrow> s\<lparr>ts_PrimaryRangesCovered := cv_PrimaryRangesCovered c, ts_PrimaryRangesTotal := cv_PrimaryRangesTotal c,
         ts_AuditTargetsCovered := cv_AuditTargetsCovered c, ts_AuditTargetsTotal := cv_AuditTargetsTotal c\<rparr>)"

definition completed_score ::
    "trial_record \<Rightarrow> eval_finding list \<Rightarrow> ground_truth list \<Rightarrow> match_pair list \<Rightarrow> trial_score \<Rightarrow> trial_score" where
  "completed_score r findings truth edges s = (let
       key = (\<lambda>t. groundTruthKey (tr_CaseID r) (gt_ID t));
       m = Match findings (map (\<lambda>t. t\<lparr>gt_ID := key t\<rparr>) truth) edges;
       matched = map snd (mr_Pairs m); hit = (\<lambda>t. key t \<in> set matched);
       locations = sum_list (map (\<lambda>f. int (length (ef_Locations f)))
         (filter (\<lambda>f. acceptedDisposition (ef_VerifierDisposition f)) findings))
     in add_checker (tr_Checker r) (s\<lparr>ts_Completed := True, ts_Failure := False,
       ts_TP := mr_TP m, ts_FP := mr_FP m, ts_FN := mr_FN m, ts_SemanticTP := mr_TP m,
       ts_MatchedGroundTruth := sort matched,
       ts_CriticalTP := count_if (\<lambda>t. hit t \<and> gt_Critical t) truth,
       ts_CrossFileTP := count_if (\<lambda>t. hit t \<and> gt_CrossFile t) truth,
       ts_DeletionTP := count_if (\<lambda>t. hit t \<and> gt_Deletion t) truth,
       ts_LocationRecords := locations,
       ts_ResolvedLocations := (if tr_ResolvedLocations r > locations then locations else tr_ResolvedLocations r)\<rparr>))"

definition ScoreTrial :: "trial_record \<Rightarrow> ground_truth list \<Rightarrow> match_pair list \<Rightarrow> trial_score" where
  "ScoreTrial r truth edges = (let s = start_score r truth in
     case tr_Output r of
       None \<Rightarrow> s\<lparr>ts_FN := int (length truth)\<rparr>
     | Some out \<Rightarrow> if tr_Status r \<noteq> StatusCompleted \<or> eo_Status out \<noteq> StatusCompleted
         then s\<lparr>ts_FN := int (length truth)\<rparr> else completed_score r (eo_Findings out) truth edges s)"

section \<open>What an accepted adjudication says\<close>

definition edge_ok :: "blind_input \<Rightarrow> match_pair \<Rightarrow> bool" where
  "edge_ok input e \<longleftrightarrow> snd e \<in> gt_ID ` set (bi_GroundTruth input) \<and> fst e \<in> ef_ID ` set (bi_Findings input) \<and>
     (\<exists>c. c \<in> set (cases_of (bi_GroundTruthCases input) (snd e)) \<and> c \<in> set (cases_of (bi_FindingCases input) (fst e)))"

lemma check_edge_Inr: "check_edge input seen e = Inr s' \<longleftrightarrow> edge_ok input e \<and> e \<notin> set seen \<and> s' = e # seen"
  by (cases e) (auto simp: check_edge_def edge_ok_def list_ex_iff)

lemma check_edges_Inr:
  "foldE (check_edge input) seen es = Inr s' \<Longrightarrow> distinct es \<and> set es \<inter> set seen = {} \<and> (\<forall>e\<in>set es. edge_ok input e)"
proof (induction es arbitrary: seen)
  case (Cons e es)
  then have "edge_ok input e" "e \<notin> set seen" "foldE (check_edge input) (e # seen) es = Inr s'"
    by (simp_all add: bindE_eq_Inr check_edge_Inr)
  then show ?case using Cons.IH [of "e # seen"] by auto
qed simp

lemma set_blinded:
  "(k, b, c) \<in> set (blinded records) \<longleftrightarrow> (\<exists>r\<in>set records. \<exists>out f. tr_Output r = Some out \<and> f \<in> set (eo_Findings out) \<and>
     acceptedDisposition (ef_VerifierDisposition f) \<and> k = ef_ID f \<and> b = f\<lparr>ef_HostID := [], ef_Condition := []\<rparr> \<and> c = tr_CaseID r)"
  by (force simp: blinded_def split: option.splits)

lemma set_qualified_truth:
  "(k, g, c) \<in> set (qualified_truth cases) \<longleftrightarrow> (\<exists>ca\<in>set cases. \<exists>t\<in>set (ec_GroundTruth ca). k = groundTruthKey (ec_ID ca) (gt_ID t) \<and>
     g = t\<lparr>gt_ID := k\<rparr> \<and> c = ec_ID ca)"
  by (force simp: qualified_truth_def Let_def)

lemma last_entries_set: "x \<in> set (last_entries es) \<Longrightarrow> \<exists>k c. (k, x, c) \<in> set es"
proof -
  assume "x \<in> set (last_entries es)"
  then obtain k where k: "k \<in> fst ` set es" "x = fst (the (map_of (rev es) k))"
    by (auto simp: last_entries_def sortedKeys_def)
  then obtain v where "map_of (rev es) k = Some v" by (cases "map_of (rev es) k") (auto simp: map_of_eq_None_iff)
  then show ?thesis using k(2) map_of_SomeD by (cases v) fastforce
qed

text \<open>
  C21: An accepted adjudication is frozen, repeats no edge, was made from blinded findings, and each of its edges
  joins an accepted finding of some trial with a known defect of the case of that very trial.
\<close>

theorem adjudication_within_cases:
  assumes "ValidateAdjudication jsonDigest a (BuildBlindAdjudicationInput records cases) = Inr ()"
  shows "aj_Frozen a \<and> distinct (aj_Edges a) \<and>
    jsonDigest (BuildBlindAdjudicationInput records cases) = Inr (aj_CandidateDigest a) \<and>
    (\<forall>f\<in>set (bi_Findings (BuildBlindAdjudicationInput records cases)). ef_HostID f = [] \<and> ef_Condition f = []) \<and>
    (\<forall>(i, k)\<in>set (aj_Edges a). \<exists>r\<in>set records. \<exists>ca\<in>set cases. \<exists>out f t. tr_CaseID r = ec_ID ca \<and>
       tr_Output r = Some out \<and> f \<in> set (eo_Findings out) \<and> acceptedDisposition (ef_VerifierDisposition f) \<and> ef_ID f = i \<and>
       t \<in> set (ec_GroundTruth ca) \<and> groundTruthKey (ec_ID ca) (gt_ID t) = k)"
proof -
  let ?in = "BuildBlindAdjudicationInput records cases"
  have ok: "aj_Frozen a" "jsonDigest ?in = Inr (aj_CandidateDigest a)" and "\<exists>s. foldE (check_edge ?in) [] (aj_Edges a) = Inr s"
    using assms unfolding ValidateAdjudication_def by (auto split: if_splits)
  then obtain s where "foldE (check_edge ?in) [] (aj_Edges a) = Inr s" by blast
  note edges = check_edges_Inr [OF this]
  have "ef_HostID f = [] \<and> ef_Condition f = []" if "f \<in> set (bi_Findings ?in)" for f
  proof -
    have "f \<in> set (last_entries (blinded records))" using that by (simp add: BuildBlindAdjudicationInput_def Let_def)
    then obtain k c where "(k, f, c) \<in> set (blinded records)" using last_entries_set [of f "blinded records"] by auto
    then show ?thesis by (auto simp: set_blinded)
  qed
  moreover have "\<exists>r\<in>set records. \<exists>ca\<in>set cases. \<exists>out f t. tr_CaseID r = ec_ID ca \<and>
       tr_Output r = Some out \<and> f \<in> set (eo_Findings out) \<and> acceptedDisposition (ef_VerifierDisposition f) \<and> ef_ID f = i \<and>
       t \<in> set (ec_GroundTruth ca) \<and> groundTruthKey (ec_ID ca) (gt_ID t) = k" if edge: "(i, k) \<in> set (aj_Edges a)" for i k
  proof -
    obtain c where c: "c \<in> set (cases_of (bi_GroundTruthCases ?in) k)" "c \<in> set (cases_of (bi_FindingCases ?in) i)"
      using edges edge unfolding edge_ok_def by fastforce
    then obtain g where "map_of (rev (qualified_truth cases)) k = Some (g, c)"
      by (cases "map_of (rev (qualified_truth cases)) k") (auto simp: BuildBlindAdjudicationInput_def cases_of_def Let_def)
    then have "(k, g, c) \<in> set (qualified_truth cases)" using map_of_SomeD by fastforce
    moreover have "\<exists>b. (i, b, c) \<in> set (blinded records)"
      using c(2) by (auto simp: BuildBlindAdjudicationInput_def cases_of_def sortedKeys_def Let_def split: if_splits)
    ultimately show ?thesis unfolding set_blinded set_qualified_truth by metis
  qed
  ultimately show ?thesis using ok(1,2) edges by auto
qed

section \<open>What a score says\<close>

text \<open>A score that is consistent in itself and with the number of known defects.\<close>

definition score_ok :: "nat \<Rightarrow> trial_score \<Rightarrow> bool" where
  "score_ok defects s \<longleftrightarrow> 0 \<le> ts_TP s \<and> 0 \<le> ts_FP s \<and> 0 \<le> ts_FN s \<and> ts_TP s + ts_FN s = int defects \<and>
     0 \<le> ts_CriticalTP s \<and> ts_CriticalTP s \<le> ts_CriticalTotal s \<and>
     0 \<le> ts_CrossFileTP s \<and> ts_CrossFileTP s \<le> ts_CrossFileTotal s \<and>
     0 \<le> ts_DeletionTP s \<and> ts_DeletionTP s \<le> ts_DeletionTotal s \<and> ts_SemanticTP s = ts_TP s \<and>
     ts_ResolvedLocations s \<le> ts_LocationRecords s \<and> ts_Failure s = (\<not> ts_Completed s) \<and>
     (\<not> ts_Completed s \<longrightarrow> ts_TP s = 0 \<and> ts_FP s = 0) \<and> int (length (ts_MatchedGroundTruth s)) = ts_TP s \<and>
     distinct (ts_MatchedGroundTruth s)"

lemma count_if_both [simp]: "count_if (\<lambda>x. P x \<and> Q x) xs \<le> count_if Q xs"
  by (induction xs) (auto simp: count_if_def)

lemma count_if_nonneg [simp]: "0 \<le> count_if P xs"
  by (simp add: count_if_def)

lemma add_checker_simps [simp]:
  "ts_TP (add_checker c s) = ts_TP s" "ts_FP (add_checker c s) = ts_FP s" "ts_FN (add_checker c s) = ts_FN s"
  "ts_CriticalTP (add_checker c s) = ts_CriticalTP s" "ts_CriticalTotal (add_checker c s) = ts_CriticalTotal s"
  "ts_CrossFileTP (add_checker c s) = ts_CrossFileTP s" "ts_CrossFileTotal (add_checker c s) = ts_CrossFileTotal s"
  "ts_DeletionTP (add_checker c s) = ts_DeletionTP s" "ts_DeletionTotal (add_checker c s) = ts_DeletionTotal s"
  "ts_SemanticTP (add_checker c s) = ts_SemanticTP s" "ts_LocationRecords (add_checker c s) = ts_LocationRecords s"
  "ts_ResolvedLocations (add_checker c s) = ts_ResolvedLocations s" "ts_Failure (add_checker c s) = ts_Failure s"
  "ts_Completed (add_checker c s) = ts_Completed s" "ts_MatchedGroundTruth (add_checker c s) = ts_MatchedGroundTruth s"
  "ts_IncompleteApproval (add_checker c s) = ts_IncompleteApproval s" "ts_StaleApproval (add_checker c s) = ts_StaleApproval s"
  "ts_Condition (add_checker c s) = ts_Condition s" "ts_CaseID (add_checker c s) = ts_CaseID s"
  "ts_Client (add_checker c s) = ts_Client s"
  by (simp_all add: add_checker_def split: option.splits)

lemma matched_distinct: "distinct (map snd (mr_Pairs (Match fs ts es)))"
  using Match_pairs(1) [of fs ts es] by (auto simp: first_largest_def is_matching_def distinct_map)

lemma ScoreTrial_facts:
  "score_ok (length truth) (ScoreTrial r truth edges) \<and>
   (ts_Completed (ScoreTrial r truth edges) \<longleftrightarrow> tr_Status r = StatusCompleted \<and>
      (\<exists>out. tr_Output r = Some out \<and> eo_Status out = StatusCompleted)) \<and>
   (ts_IncompleteApproval (ScoreTrial r truth edges) \<longleftrightarrow> tr_Condition r = ConditionTreatment \<and>
      trial_recommendation r = ''approve'' \<and> (\<nexists>c. tr_Checker r = Some c \<and> \<not> failed_check c))"
proof -
  have "0 \<le> mr_TP (Match fs ts es)" for fs ts es using Match_counts(1) [of fs ts es] by simp
  note counts = this Match_counts(1-2,4-5) matched_distinct
  have sum: "mr_TP (Match fs (map f truth) es) + mr_FN (Match fs (map f truth) es) = int (length truth)" for fs f es
    using Match_counts(3) [of fs "map f truth" es] by simp
  have "score_ok (length truth) (completed_score r fs truth edges (start_score r truth))" for fs
    unfolding score_ok_def completed_score_def Let_def
    using counts sum by (simp add: start_score_def Let_def)
  then show ?thesis
    by (auto simp: ScoreTrial_def completed_score_def start_score_def score_ok_def Let_def split: option.splits)
qed

lemma ScoreTrial_score_ok: "score_ok (length truth) (ScoreTrial r truth edges)"
  using ScoreTrial_facts by blast

text \<open>
  C27: Every score is consistent, whatever the trial reports: the known defects are either found or missed, the special
  kinds never count more hits than there are defects of the kind, each matched defect is counted once, and a trial
  that did not complete scores nothing and misses everything.  An approval under the treatment condition is flagged
  exactly when no checker reported complete coverage of all ranges and targets; approvals under the control
  condition are never flagged.
\<close>

theorem ScoreTrial_consistent:
  "score_ok (length truth) (ScoreTrial r truth edges) \<and>
   (ts_Completed (ScoreTrial r truth edges) \<longleftrightarrow> tr_Status r = StatusCompleted \<and>
      (\<exists>out. tr_Output r = Some out \<and> eo_Status out = StatusCompleted)) \<and>
   (ts_IncompleteApproval (ScoreTrial r truth edges) \<longleftrightarrow> tr_Condition r = ConditionTreatment \<and>
      trial_recommendation r = ''approve'' \<and> (\<nexists>c. tr_Checker r = Some c \<and> \<not> failed_check c))"
  by (rule ScoreTrial_facts)

section \<open>A small evaluation\<close>

text \<open>One defect; the treatment finds it and has its review checked, the control reports nothing.\<close>

definition sample_usage :: usage where
  "sample_usage = \<lparr>us_InputTokens = 1, us_OutputTokens = 1, us_ModelTokens = 2, us_ToolCalls = 0, us_Subagents = 0\<rparr>"

definition sample_checker :: checker_evidence where
  "sample_checker = \<lparr>cv_Status = ''complete'', cv_ReviewID = [], cv_PlanDigest = [],
     cv_Recommendation = ''approve'', cv_PrimaryRangesCovered = 1, cv_PrimaryRangesTotal = 1, cv_AuditTargetsCovered = 0,
     cv_AuditTargetsTotal = 0, cv_Stale = False, cv_Incomplete = False, cv_Invalid = False\<rparr>"

definition sample_trial :: "string \<Rightarrow> eval_finding list \<Rightarrow> trial_record" where
  "sample_trial condition findings = \<lparr>tr_Ordinal = 1, tr_CaseID = ''c'', tr_Client = ''omp'', tr_Condition = condition, tr_Repetition = 1,
     tr_Status = ''completed'', tr_Recommendation = ''approve'',
     tr_Output = Some \<lparr>eo_Schema = [], eo_Status = ''completed'', eo_Recommendation = [], eo_Findings = findings, eo_Usage = sample_usage,
       eo_Checker = None\<rparr>,
     tr_RawStdout = [], tr_RawStderr = [], tr_ProwlPlan = [], tr_ProwlReport = [], tr_CheckResult = [],
     tr_Checker = Some sample_checker, tr_ResolvedLocations = 0, tr_Usage = sample_usage, tr_ElapsedMS = 5,
     tr_ClientVersion = [], tr_ModelVersion = [], tr_ProwlVersion = [], tr_Error = []\<rparr>"

definition sample_trials :: "trial_record list" where
  "sample_trials = [sample_trial ''control'' [], sample_trial ''treatment'' [sample_eval_finding ''a'']]"

definition sample_cases :: "eval_case list" where
  "sample_cases = [\<lparr>ec_ID = ''c'', ec_Repository = ''r'', ec_BaseSHA = [], ec_HeadSHA = [], ec_RawAdditions = 301, ec_RawDeletions = 0,
     ec_DefectClass = ''local_logic'', ec_Prompt = [], ec_GroundTruth = [sample_truth ''1''], ec_Metamorphic = False\<rparr>]"

definition sample_adjudication :: adjudication where
  "sample_adjudication = \<lparr>aj_Schema = AdjudicationSchema, aj_CandidateDigest = ''d'', aj_Edges = [(''a'', ''c:1'')], aj_Frozen = True\<rparr>"

lemma sample_adjudicated:
  "ValidateAdjudication (\<lambda>_. Inr ''d'') sample_adjudication (BuildBlindAdjudicationInput sample_trials sample_cases) = Inr ()"
  by code_simp

theorem adjudication_within_cases_witness:
  "aj_Edges sample_adjudication = [(''a'', ''c:1'')] \<and>
   (\<exists>r\<in>set sample_trials. \<exists>out f. tr_CaseID r = ''c'' \<and> tr_Output r = Some out \<and> f \<in> set (eo_Findings out) \<and> ef_ID f = ''a'')"
  using adjudication_within_cases [OF sample_adjudicated] by (auto simp: sample_adjudication_def sample_cases_def)

end
