(* ===== verification/Gates.thy ===== *)
theory Gates
  imports Scoring
begin

text \<open>
  Aggregation and shipping gates: \<open>score.go\<close>, \<open>bootstrap.go\<close>, \<open>metamorphic.go\<close> and the scoring loop of \<open>run.go\<close>, in
  \<open>internal/revieweval\<close>.  \<open>rnd\<close> rounds the exact result of a floating-point operation.  The pseudo-random
  numbers of the bootstrap are a parameter: \<open>draw k n\<close> is what the call with number \<open>k\<close> of \<open>rng.IntN(n)\<close> returns.
\<close>

section \<open>Metrics\<close>

type_synonym rounding = "rat \<Rightarrow> rat"

record metric =
  mt_Trials :: int
  mt_TP :: int
  mt_FP :: int
  mt_FN :: int
  mt_Precision :: rat
  mt_Recall :: rat
  mt_F1 :: rat
  mt_KeyBugInclusion :: rat
  mt_SemanticLocalization :: rat
  mt_CrossFileRecall :: rat
  mt_DeletionRecall :: rat
  mt_ReceiptCoverage :: rat
  mt_LocationCoverage :: rat
  mt_LocationRecords :: int
  mt_ResolvedLocations :: int
  mt_IncompleteApprovals :: int
  mt_StaleApprovals :: int
  mt_CompletionRate :: rat
  mt_Failures :: int
  mt_ElapsedMS :: int
  mt_ModelTokens :: int
  mt_ToolCalls :: int
  mt_Subagents :: int
  mt_RepetitionVariance :: rat

definition ratio :: "rounding \<Rightarrow> int \<Rightarrow> int \<Rightarrow> rat" where
  "ratio rnd numerator denominator = (if denominator = 0 then 0 else rnd (of_int numerator / of_int denominator))"

definition f1 :: "rounding \<Rightarrow> int \<Rightarrow> int \<Rightarrow> int \<Rightarrow> rat" where
  "f1 rnd tp fp fn = (let denominator = 2 * tp + fp + fn in
     if denominator = 0 then 0 else rnd (of_int (2 * tp) / of_int denominator))"

definition filterScores :: "trial_score list \<Rightarrow> string \<Rightarrow> string \<Rightarrow> string \<Rightarrow> trial_score list" where
  "filterScores scores client condition cls = filter (\<lambda>s. \<not> (client \<noteq> [] \<and> ts_Client s \<noteq> client \<or>
     condition \<noteq> [] \<and> ts_Condition s \<noteq> condition \<or> cls \<noteq> [] \<and> ts_DefectClass s \<noteq> cls)) scores"

text \<open>The groups of the scores of one case, client and condition, in the order of their first score.\<close>

definition repetition_key :: "trial_score \<Rightarrow> string" where
  "repetition_key s = ts_CaseID s @ [CHR 0x00] @ ts_Client s @ [CHR 0x00] @ ts_Condition s"

definition repetition_groups :: "rounding \<Rightarrow> trial_score list \<Rightarrow> rat list list" where
  "repetition_groups rnd scores = map (\<lambda>k. map (\<lambda>s. f1 rnd (ts_TP s) (ts_FP s) (ts_FN s)) (filter (\<lambda>s. repetition_key s = k) scores))
     (rev (remdups (rev (map repetition_key scores))))"

definition mean :: "rounding \<Rightarrow> rat list \<Rightarrow> rat" where
  "mean rnd values = rnd (foldl (\<lambda>t v. rnd (t + v)) 0 values / of_nat (length values))"

definition add_variance :: "rounding \<Rightarrow> rat \<Rightarrow> rat list \<Rightarrow> rat" where
  "add_variance rnd start values = foldl (\<lambda>t v. let difference = rnd (v - mean rnd values) in
     rnd (t + rnd (rnd (difference * difference) / of_nat (length values)))) start values"

definition repetitionVariance :: "rounding \<Rightarrow> trial_score list \<Rightarrow> rat" where
  "repetitionVariance rnd scores = (let groups = repetition_groups rnd scores in
     if groups = [] then 0 else rnd (foldl (add_variance rnd) 0 groups / of_nat (length groups)))"

definition total_of :: "(trial_score \<Rightarrow> int) \<Rightarrow> trial_score list \<Rightarrow> int" where
  "total_of f scores = sum_list (map f scores)"

definition aggregateMetric :: "rounding \<Rightarrow> trial_score list \<Rightarrow> metric" where
  "aggregateMetric rnd scores = (let t = (\<lambda>f. total_of f scores); tp = t ts_TP; fp = t ts_FP; fn = t ts_FN; trials = int (length scores) in
     \<lparr>mt_Trials = trials, mt_TP = tp, mt_FP = fp, mt_FN = fn,
      mt_Precision = ratio rnd tp (tp + fp), mt_Recall = ratio rnd tp (tp + fn), mt_F1 = f1 rnd tp fp fn,
      mt_KeyBugInclusion = ratio rnd (t ts_CriticalTP) (t ts_CriticalTotal),
      mt_SemanticLocalization = ratio rnd (t ts_SemanticTP) (tp + fp),
      mt_CrossFileRecall = ratio rnd (t ts_CrossFileTP) (t ts_CrossFileTotal),
      mt_DeletionRecall = ratio rnd (t ts_DeletionTP) (t ts_DeletionTotal),
      mt_ReceiptCoverage = ratio rnd (t ts_PrimaryRangesCovered + t ts_AuditTargetsCovered)
        (t ts_PrimaryRangesTotal + t ts_AuditTargetsTotal),
      mt_LocationCoverage = ratio rnd (t ts_ResolvedLocations) (t ts_LocationRecords),
      mt_LocationRecords = t ts_LocationRecords, mt_ResolvedLocations = t ts_ResolvedLocations,
      mt_IncompleteApprovals = count_if ts_IncompleteApproval scores, mt_StaleApprovals = count_if ts_StaleApproval scores,
      mt_CompletionRate = (if trials > 0 then rnd (of_int (count_if ts_Completed scores) / of_int trials)
        else of_int (count_if ts_Completed scores)),
      mt_Failures = count_if ts_Failure scores, mt_ElapsedMS = t ts_ElapsedMS,
      mt_ModelTokens = t (\<lambda>s. us_ModelTokens (ts_Usage s)), mt_ToolCalls = t (\<lambda>s. us_ToolCalls (ts_Usage s)),
      mt_Subagents = t (\<lambda>s. us_Subagents (ts_Usage s)), mt_RepetitionVariance = repetitionVariance rnd scores\<rparr>)"

record by_condition =
  bc_Control :: metric
  bc_Treatment :: metric

record aggregate_report =
  ag_Conditions :: by_condition
  ag_ByClient :: "(string \<times> by_condition) list"
  ag_ByDefectClass :: "(string \<times> by_condition) list"

text \<open>A map with the two conditions as its keys.\<close>

definition per_condition :: "rounding \<Rightarrow> trial_score list \<Rightarrow> string \<Rightarrow> string \<Rightarrow> by_condition" where
  "per_condition rnd base client cls =
     \<lparr>bc_Control = aggregateMetric rnd (filterScores base client ConditionControl cls),
      bc_Treatment = aggregateMetric rnd (filterScores base client ConditionTreatment cls)\<rparr>"

definition Aggregate :: "rounding \<Rightarrow> trial_score list \<Rightarrow> aggregate_report" where
  "Aggregate rnd scores = (let base = filter (\<lambda>s. \<not> ts_Metamorphic s) scores in
     \<lparr>ag_Conditions = per_condition rnd base [] [],
      ag_ByClient = map (\<lambda>c. (c, per_condition rnd base c [])) (remdups (map ts_Client base)),
      ag_ByDefectClass = map (\<lambda>c. (c, per_condition rnd base [] c)) (remdups (map ts_DefectClass base))\<rparr>)"

section \<open>Bootstrap\<close>

record bootstrap_interval =
  bs_Lower :: rat
  bs_Upper :: rat
  bs_Replicates :: int
  bs_Seed :: u64

definition percentile :: "rounding \<Rightarrow> rat list \<Rightarrow> rat \<Rightarrow> rat" where
  "percentile rnd sorted_values probability =
     (if sorted_values = [] then 0
      else let n = int (length sorted_values); index = ceiling (rnd (probability * of_int n)) - 1;
               index = (if index < 0 then 0 else index); index = (if index \<ge> n then n - 1 else index)
           in sorted_values ! nat index)"

definition condition_counts :: "string \<Rightarrow> trial_score list \<Rightarrow> int \<times> int \<times> int" where
  "condition_counts condition scores = (let chosen = filter (\<lambda>s. ts_Condition s = condition) scores in
     (total_of ts_TP chosen, total_of ts_FP chosen, total_of ts_FN chosen))"

definition replicate_delta :: "rounding \<Rightarrow> (nat \<Rightarrow> nat \<Rightarrow> nat) \<Rightarrow> trial_score list \<Rightarrow> string list \<Rightarrow> nat \<Rightarrow> rat" where
  "replicate_delta rnd draw base caseIDs r = (let n = length caseIDs;
       sample = concat (map (\<lambda>j. filter (\<lambda>s. ts_CaseID s = caseIDs ! draw (r * n + j) n) base) [0..<n]);
       (ctp, cfp, cfn) = condition_counts ConditionControl sample;
       (ttp, tfp, tfn) = condition_counts ConditionTreatment sample
     in rnd (f1 rnd ttp tfp tfn - f1 rnd ctp cfp cfn))"

definition Bootstrap ::
    "rounding \<Rightarrow> (u64 \<Rightarrow> nat \<Rightarrow> nat \<Rightarrow> nat) \<Rightarrow> trial_score list \<Rightarrow> u64 \<Rightarrow> int \<Rightarrow> bool \<Rightarrow> bootstrap_interval result" where
  "Bootstrap rnd draw scores seed replicates production =
     (if production \<and> replicates \<noteq> ProductionBootstrapReplicates then
        Inl (Err ''production bootstrap requires exactly %d replicates'' [AInt ProductionBootstrapReplicates])
      else if replicates < 1 then Inl (err ''bootstrap replicates must be positive'')
      else let base = filter (\<lambda>s. \<not> ts_Metamorphic s) scores; caseIDs = sortedKeys (map ts_CaseID base) in
        if caseIDs = [] then Inl (err ''bootstrap requires base cases'')
        else let deltas = sort (map (replicate_delta rnd (draw seed) base caseIDs) [0..<nat replicates]) in
          Inr \<lparr>bs_Lower = percentile rnd deltas (rnd (25 / 1000)), bs_Upper = percentile rnd deltas (rnd (975 / 1000)),
               bs_Replicates = replicates, bs_Seed = seed\<rparr>)"

section \<open>Positions\<close>

record metamorphic_triple =
  mp_ID :: string
  mp_GroundTruthID :: string
  mp_BeginningCaseID :: string
  mp_MiddleCaseID :: string
  mp_EndCaseID :: string

record metamorphic_metric =
  mm_Beginning :: rat
  mm_Middle :: rat
  mm_End :: rat
  mm_Sensitivity :: rat
  mm_Triples :: int

definition metamorphicHitRate :: "rounding \<Rightarrow> trial_score list \<Rightarrow> string \<Rightarrow> string \<Rightarrow> string \<Rightarrow> rat" where
  "metamorphicHitRate rnd scores condition caseID truthID = (let
       trials = filter (\<lambda>s. \<not> (ts_Condition s \<noteq> condition \<or> ts_CaseID s \<noteq> caseID)) scores
     in ratio rnd (count_if (\<lambda>s. ts_Completed s \<and> truthID \<in> set (ts_MatchedGroundTruth s)) trials) (int (length trials)))"

definition position_rate :: "rounding \<Rightarrow> trial_score list \<Rightarrow> string \<Rightarrow> metamorphic_triple \<Rightarrow> string \<Rightarrow> rat" where
  "position_rate rnd scores condition t caseID =
     metamorphicHitRate rnd scores condition caseID (groundTruthKey caseID (mp_GroundTruthID t))"

definition add_triple ::
    "rounding \<Rightarrow> trial_score list \<Rightarrow> string \<Rightarrow> metamorphic_metric \<Rightarrow> metamorphic_triple \<Rightarrow> metamorphic_metric" where
  "add_triple rnd scores condition m t = (let
       b = position_rate rnd scores condition t (mp_BeginningCaseID t);
       mid = position_rate rnd scores condition t (mp_MiddleCaseID t);
       e = position_rate rnd scores condition t (mp_EndCaseID t)
     in m\<lparr>mm_Beginning := rnd (mm_Beginning m + b), mm_Middle := rnd (mm_Middle m + mid), mm_End := rnd (mm_End m + e),
          mm_Sensitivity := rnd (mm_Sensitivity m + rnd (max b (max mid e) - min b (min mid e)))\<rparr>)"

definition score_condition :: "rounding \<Rightarrow> trial_score list \<Rightarrow> metamorphic_triple list \<Rightarrow> string \<Rightarrow> metamorphic_metric" where
  "score_condition rnd scores triples condition = (let
       n = int (length triples); zero = \<lparr>mm_Beginning = 0, mm_Middle = 0, mm_End = 0, mm_Sensitivity = 0, mm_Triples = n\<rparr>
     in if triples = [] then zero
        else let m = foldl (add_triple rnd scores condition) zero triples in
          m\<lparr>mm_Beginning := rnd (mm_Beginning m / of_int n), mm_Middle := rnd (mm_Middle m / of_int n),
            mm_End := rnd (mm_End m / of_int n), mm_Sensitivity := rnd (mm_Sensitivity m / of_int n)\<rparr>)"

definition ScoreMetamorphic :: "rounding \<Rightarrow> trial_score list \<Rightarrow> metamorphic_triple list \<Rightarrow> metamorphic_metric \<times> metamorphic_metric" where
  "ScoreMetamorphic rnd scores triples =
     (score_condition rnd scores triples ConditionControl, score_condition rnd scores triples ConditionTreatment)"

section \<open>The gates\<close>

text \<open>What scoring reads of the configuration.\<close>

record scoring_config =
  sg_Seed :: u64
  sg_BootstrapReplicates :: int
  sg_MinimumF1Delta :: rat
  sg_MaximumPrecisionDrop :: rat
  sg_MaximumPositionalSensitivity :: rat
  sg_MaximumTokenRatio :: rat

record shipping_gates =
  ga_TreatmentCompletion :: bool
  ga_TreatmentReceiptCoverage :: bool
  ga_F1Improvement :: bool
  ga_BootstrapPositive :: bool
  ga_RecallImprovement :: bool
  ga_CrossFileNonRegression :: bool
  ga_DeletionNonRegression :: bool
  ga_PrecisionNonRegression :: bool
  ga_PositionalSensitivity :: bool
  ga_LocationCoverage :: bool
  ga_NoInvalidApprovals :: bool
  ga_TokenBudget :: bool
  ga_EveryClientImproves :: bool
  ga_Passed :: bool

definition or_default :: "rat \<Rightarrow> rat \<Rightarrow> rat" where
  "or_default value fallback = (if value = 0 then fallback else value)"

definition all_gates :: "shipping_gates \<Rightarrow> bool" where
  "all_gates g \<longleftrightarrow> ga_TreatmentCompletion g \<and> ga_TreatmentReceiptCoverage g \<and> ga_F1Improvement g \<and> ga_BootstrapPositive g \<and>
     ga_RecallImprovement g \<and> ga_CrossFileNonRegression g \<and> ga_DeletionNonRegression g \<and> ga_PrecisionNonRegression g \<and>
     ga_PositionalSensitivity g \<and> ga_LocationCoverage g \<and> ga_NoInvalidApprovals g \<and> ga_TokenBudget g \<and> ga_EveryClientImproves g"

definition token_budget :: "rounding \<Rightarrow> int \<Rightarrow> int \<Rightarrow> rat \<Rightarrow> bool" where
  "token_budget rnd controlTokens treatmentTokens maxRatio =
     (if controlTokens = 0 then treatmentTokens = 0 else of_int treatmentTokens \<le> rnd (of_int controlTokens * maxRatio))"

definition EvaluateShippingGates ::
    "rounding \<Rightarrow> aggregate_report \<Rightarrow> trial_score list \<Rightarrow> metamorphic_metric \<times> metamorphic_metric \<Rightarrow> bootstrap_interval \<Rightarrow>
     scoring_config \<Rightarrow> shipping_gates" where
  "EvaluateShippingGates rnd report scores positional interval cfg = (let
       control = bc_Control (ag_Conditions report); treatment = bc_Treatment (ag_Conditions report);
       minDelta = or_default (sg_MinimumF1Delta cfg) (rnd (10 / 100));
       maxPrecisionDrop = or_default (sg_MaximumPrecisionDrop cfg) (rnd (5 / 100));
       maxSensitivity = or_default (sg_MaximumPositionalSensitivity cfg) (rnd (10 / 100));
       maxTokenRatio = or_default (sg_MaximumTokenRatio cfg) (rnd (105 / 100));
       treated = filter (\<lambda>s. ts_Condition s = ConditionTreatment) scores;
       controls = filter (\<lambda>s. ts_Condition s = ConditionControl) scores;
       covered = total_of (\<lambda>s. ts_PrimaryRangesCovered s + ts_AuditTargetsCovered s) treated;
       coverable = total_of (\<lambda>s. ts_PrimaryRangesTotal s + ts_AuditTargetsTotal s) treated;
       tokens = total_of (\<lambda>s. us_ModelTokens (ts_Usage s));
       gates = \<lparr>
         ga_TreatmentCompletion = (treated \<noteq> [] \<and> list_all ts_Completed treated),
         ga_TreatmentReceiptCoverage = (coverable > 0 \<and> covered = coverable),
         ga_F1Improvement = (rnd (mt_F1 treatment - mt_F1 control) \<ge> minDelta),
         ga_BootstrapPositive = (bs_Lower interval > 0),
         ga_RecallImprovement = (mt_Recall treatment > mt_Recall control),
         ga_CrossFileNonRegression = (mt_CrossFileRecall treatment \<ge> mt_CrossFileRecall control),
         ga_DeletionNonRegression = (mt_DeletionRecall treatment \<ge> mt_DeletionRecall control),
         ga_PrecisionNonRegression = (mt_Precision treatment \<ge> rnd (mt_Precision control - maxPrecisionDrop)),
         ga_PositionalSensitivity = (mm_Sensitivity (snd positional) \<le> mm_Sensitivity (fst positional) \<and>
           mm_Sensitivity (snd positional) \<le> maxSensitivity),
         ga_LocationCoverage = (total_of ts_LocationRecords treated = 0 \<or>
           total_of ts_ResolvedLocations treated = total_of ts_LocationRecords treated),
         ga_NoInvalidApprovals = (count_if (\<lambda>s. ts_IncompleteApproval s \<or> ts_StaleApproval s) treated = 0),
         ga_TokenBudget = token_budget rnd (tokens controls) (tokens treated) maxTokenRatio,
         ga_EveryClientImproves = (ag_ByClient report \<noteq> [] \<and>
           list_all (\<lambda>(_, m). \<not> (mt_F1 (bc_Treatment m) \<le> mt_F1 (bc_Control m))) (ag_ByClient report)),
         ga_Passed = False\<rparr>
     in gates\<lparr>ga_Passed := all_gates gates\<rparr>)"

text \<open>The scoring loop of \<open>ScoreCollection\<close>.  The maps of the cases are filled in order, a missing case reads as the zero case.\<close>

definition case_of :: "eval_case list \<Rightarrow> string \<Rightarrow> eval_case" where
  "case_of cases i = (case map_of (rev (map (\<lambda>c. (ec_ID c, c)) cases)) i of
     None \<Rightarrow> \<lparr>ec_ID = [], ec_Repository = [], ec_BaseSHA = [], ec_HeadSHA = [], ec_RawAdditions = 0, ec_RawDeletions = 0,
       ec_DefectClass = [], ec_Prompt = [], ec_GroundTruth = [], ec_Metamorphic = False\<rparr> | Some c \<Rightarrow> c)"

definition collection_score :: "eval_case list \<Rightarrow> match_pair list \<Rightarrow> trial_record \<Rightarrow> trial_score" where
  "collection_score cases edges r = (let c = case_of cases (tr_CaseID r) in
     (ScoreTrial r (ec_GroundTruth c) edges)\<lparr>ts_Metamorphic := ec_Metamorphic c, ts_DefectClass := ec_DefectClass c\<rparr>)"

definition score_collection ::
    "rounding \<Rightarrow> (u64 \<Rightarrow> nat \<Rightarrow> nat \<Rightarrow> nat) \<Rightarrow> eval_case list \<Rightarrow> metamorphic_triple list \<Rightarrow> scoring_config \<Rightarrow> bool \<Rightarrow>
     trial_record list \<Rightarrow> match_pair list \<Rightarrow> (trial_score list \<times> shipping_gates) result" where
  "score_collection rnd draw cases triples cfg production records edges = (let
       scores = map (collection_score cases edges) records; metrics = Aggregate rnd scores
     in bindE (Bootstrap rnd draw scores (sg_Seed cfg) (sg_BootstrapReplicates cfg) production) (\<lambda>interval.
        Inr (scores, EvaluateShippingGates rnd metrics scores (ScoreMetamorphic rnd scores triples) interval cfg)))"

section \<open>The bootstrap interval\<close>

text \<open>What IEEE rounding to nearest guarantees: it is monotonic and keeps the numbers that are floats.\<close>

definition rounding_ok :: "rounding \<Rightarrow> bool" where
  "rounding_ok rnd \<longleftrightarrow> (\<forall>x y. x \<le> y \<longrightarrow> rnd x \<le> rnd y) \<and> rnd 0 = 0 \<and> rnd 1 = 1 \<and> rnd (- 1) = - 1"

definition counts_ok :: "trial_score \<Rightarrow> bool" where
  "counts_ok s \<longleftrightarrow> 0 \<le> ts_TP s \<and> 0 \<le> ts_FP s \<and> 0 \<le> ts_FN s"

lemma rounded_between:
  assumes "rounding_ok rnd"
  shows "x \<le> y \<Longrightarrow> rnd x \<le> rnd y" "0 \<le> x \<Longrightarrow> 0 \<le> rnd x" "x \<le> 1 \<Longrightarrow> rnd x \<le> 1" "- 1 \<le> x \<Longrightarrow> - 1 \<le> rnd x"
  using assms unfolding rounding_ok_def by metis+

lemma ratio_between: "rounding_ok rnd \<Longrightarrow> 0 \<le> n \<Longrightarrow> n \<le> d \<Longrightarrow> 0 \<le> ratio rnd n d \<and> ratio rnd n d \<le> 1"
proof (cases "d = 0")
  case False
  assume "rounding_ok rnd" "0 \<le> n" "n \<le> d"
  then have "0 \<le> rat_of_int n / of_int d" "rat_of_int n / of_int d \<le> 1" using False by (simp_all add: divide_le_eq)
  then show ?thesis using rounded_between(2,3) [OF \<open>rounding_ok rnd\<close>] False by (simp add: ratio_def)
qed (simp add: ratio_def)

lemma f1_ratio: "f1 rnd tp fp fn = ratio rnd (2 * tp) (2 * tp + fp + fn)"
  by (simp only: f1_def ratio_def Let_def)

lemma f1_between: "rounding_ok rnd \<Longrightarrow> 0 \<le> tp \<Longrightarrow> 0 \<le> fp \<Longrightarrow> 0 \<le> fn \<Longrightarrow> 0 \<le> f1 rnd tp fp fn \<and> f1 rnd tp fp fn \<le> 1"
  unfolding f1_ratio by (rule ratio_between) simp_all

lemma total_of_nonneg: "(\<And>s. s \<in> set scores \<Longrightarrow> 0 \<le> f s) \<Longrightarrow> 0 \<le> total_of f scores"
  by (induction scores) (simp_all add: total_of_def)

lemma replicate_delta_between:
  assumes "rounding_ok rnd" and "\<forall>s\<in>set base. counts_ok s"
  shows "- 1 \<le> replicate_delta rnd draw base ids r \<and> replicate_delta rnd draw base ids r \<le> 1"
proof -
  let ?sample = "concat (map (\<lambda>j. filter (\<lambda>s. ts_CaseID s = ids ! draw (r * length ids + j) (length ids)) base) [0..<length ids])"
  have f1: "0 \<le> f1 rnd a b c \<and> f1 rnd a b c \<le> 1" if "condition_counts cond ?sample = (a, b, c)" for cond a b c
  proof (rule f1_between [OF assms(1)])
    have "\<forall>s\<in>set ?sample. counts_ok s" using assms(2) by auto
    then show "0 \<le> a" "0 \<le> b" "0 \<le> c"
      using that by (auto simp: condition_counts_def counts_ok_def Let_def intro!: total_of_nonneg)
  qed
  obtain a b c where control: "condition_counts ConditionControl ?sample = (a, b, c)" by (metis prod_cases3)
  obtain a' b' c' where treatment: "condition_counts ConditionTreatment ?sample = (a', b', c')" by (metis prod_cases3)
  have "- 1 \<le> f1 rnd a' b' c' - f1 rnd a b c" "f1 rnd a' b' c' - f1 rnd a b c \<le> 1"
    using f1 [OF control] f1 [OF treatment] by linarith+
  then show ?thesis unfolding replicate_delta_def Let_def control treatment
    using rounded_between [OF assms(1)] by simp
qed

lemma clamped:
  fixes n c :: int
  assumes "1 \<le> n"
  shows "(if (if c < 0 then 0 else c) \<ge> n then n - 1 else if c < 0 then 0 else c) = max 0 (min (n - 1) c)"
  using assms by auto

lemma percentile_index:
  assumes "sorted_values \<noteq> []"
  obtains i where "percentile rnd sorted_values p = sorted_values ! i" "i < length sorted_values"
    "i = nat (max 0 (min (int (length sorted_values) - 1) (ceiling (rnd (p * of_int (int (length sorted_values)))) - 1)))"
proof -
  let ?n = "int (length sorted_values)" let ?c = "ceiling (rnd (p * of_int ?n)) - 1"
  have "percentile rnd sorted_values p = sorted_values ! nat (max 0 (min (?n - 1) ?c))"
  proof -
    have "(if (if ?c < 0 then 0 else ?c) \<ge> ?n then ?n - 1 else if ?c < 0 then 0 else ?c) = max 0 (min (?n - 1) ?c)"
      using clamped [of ?n ?c] assms by (cases sorted_values) simp_all
    then show ?thesis using assms unfolding percentile_def Let_def by (simp only: if_False)
  qed
  moreover have "nat (max 0 (min (?n - 1) ?c)) < length sorted_values" using assms by (cases sorted_values) auto
  ultimately show thesis using that by blast
qed

text \<open>
  C23: The bootstrap interval is an interval of differences of F1 scores: the lower end is not above the upper one, and both
  are between -1 and 1, for every rounding that is monotonic and every sequence of random numbers.
\<close>

theorem Bootstrap_interval:
  assumes "Bootstrap rnd draw scores seed replicates production = Inr iv" and "rounding_ok rnd"
    and "\<forall>s\<in>set scores. counts_ok s"
  shows "- 1 \<le> bs_Lower iv \<and> bs_Lower iv \<le> bs_Upper iv \<and> bs_Upper iv \<le> 1 \<and> 1 \<le> bs_Replicates iv"
proof -
  let ?base = "filter (\<lambda>s. \<not> ts_Metamorphic s) scores"
  let ?deltas = "sort (map (replicate_delta rnd (draw seed) ?base (sortedKeys (map ts_CaseID ?base))) [0..<nat replicates])"
  have iv: "replicates \<ge> 1" "iv = \<lparr>bs_Lower = percentile rnd ?deltas (rnd (25 / 1000)), bs_Upper = percentile rnd ?deltas (rnd (975 / 1000)),
      bs_Replicates = replicates, bs_Seed = seed\<rparr>"
    using assms(1) by (auto simp: Bootstrap_def Let_def split: if_splits)
  have "length ?deltas = nat replicates" by simp
  then have "length ?deltas \<noteq> 0" using iv(1) by linarith
  then have ne: "?deltas \<noteq> []" by (rule contrapos_nn) (simp only: list.size)
  have range: "- 1 \<le> d \<and> d \<le> 1" if "d \<in> set ?deltas" for d
    using that replicate_delta_between [OF assms(2), of ?base] assms(3) by auto
  let ?n = "int (length ?deltas)"
  have "rnd (rnd (25 / 1000) * of_int ?n) \<le> rnd (rnd (975 / 1000) * of_int ?n)"
    by (intro rounded_between [OF assms(2)] mult_right_mono) simp_all
  then have mono: "ceiling (rnd (rnd (25 / 1000) * of_int ?n)) \<le> ceiling (rnd (rnd (975 / 1000) * of_int ?n))"
    by (rule ceiling_mono)
  obtain i where i: "bs_Lower iv = ?deltas ! i" "i < length ?deltas"
    "i = nat (max 0 (min (?n - 1) (ceiling (rnd (rnd (25 / 1000) * of_int ?n)) - 1)))"
    using percentile_index [OF ne, of rnd "rnd (25 / 1000)"] iv(2) by auto
  obtain j where j: "bs_Upper iv = ?deltas ! j" "j < length ?deltas"
    "j = nat (max 0 (min (?n - 1) (ceiling (rnd (rnd (975 / 1000) * of_int ?n)) - 1)))"
    using percentile_index [OF ne, of rnd "rnd (975 / 1000)"] iv(2) by auto
  have "i \<le> j" unfolding i(3) j(3) using mono by (intro nat_mono max.mono min.mono) simp_all
  then have "bs_Lower iv \<le> bs_Upper iv" unfolding i(1) j(1) using j(2) by (intro sorted_nth_mono) simp_all
  then show ?thesis using range [of "?deltas ! i"] range [of "?deltas ! j"] i(1,2) j(1,2) iv by (metis bootstrap_interval.select_convs(3) nth_mem)
qed

section \<open>What passing the gates means\<close>

text \<open>The F1 score of one client under one condition, over the cases that are not metamorphic.\<close>

definition client_f1 :: "rounding \<Rightarrow> trial_score list \<Rightarrow> string \<Rightarrow> string \<Rightarrow> rat" where
  "client_f1 rnd scores client condition = (let
       chosen = filter (\<lambda>s. \<not> ts_Metamorphic s \<and> ts_Client s = client \<and> ts_Condition s = condition) scores
     in f1 rnd (total_of ts_TP chosen) (total_of ts_FP chosen) (total_of ts_FN chosen))"

definition sound_approval :: "trial_record \<Rightarrow> bool" where
  "sound_approval r \<longleftrightarrow> (trial_recommendation r = ''approve'' \<longrightarrow>
     (\<exists>c. tr_Checker r = Some c \<and> \<not> failed_check c \<and> \<not> cv_Stale c))"

lemma ScoreTrial_fields [simp]:
  "ts_Condition (ScoreTrial r truth edges) = tr_Condition r" "ts_Client (ScoreTrial r truth edges) = tr_Client r"
  "ts_CaseID (ScoreTrial r truth edges) = tr_CaseID r"
  by (simp_all add: ScoreTrial_def completed_score_def start_score_def Let_def split: option.splits)

lemma completed_iff: "ts_Completed (ScoreTrial r truth edges) \<longleftrightarrow> tr_Status r = StatusCompleted \<and>
    (\<exists>out. tr_Output r = Some out \<and> eo_Status out = StatusCompleted)"
  by (auto simp: ScoreTrial_def completed_score_def start_score_def Let_def split: option.splits)

lemma ScoreTrial_approval:
  assumes "tr_Condition r = ConditionTreatment"
  shows "\<not> (ts_IncompleteApproval (ScoreTrial r truth edges) \<or> ts_StaleApproval (ScoreTrial r truth edges)) \<longleftrightarrow> sound_approval r"
  using assms by (auto simp: ScoreTrial_def completed_score_def start_score_def sound_approval_def Let_def split: option.splits)

lemma collection_score_fields [simp]:
  "ts_Condition (collection_score cases edges r) = tr_Condition r" "ts_Client (collection_score cases edges r) = tr_Client r"
  by (simp_all add: collection_score_def Let_def)

lemma client_metric:
  assumes "client \<noteq> []" and "condition \<noteq> []"
  shows "mt_F1 (aggregateMetric rnd (filterScores (filter (\<lambda>s. \<not> ts_Metamorphic s) scores) client condition [])) =
    client_f1 rnd scores client condition"
  using assms by (simp add: aggregateMetric_def client_f1_def filterScores_def Let_def conj_commute conj_left_commute)

lemma count_if_0: "count_if P xs = 0 \<longleftrightarrow> (\<forall>x\<in>set xs. \<not> P x)"
  by (simp add: count_if_def filter_empty_conv)

lemma gates_passed:
  assumes "ga_Passed (EvaluateShippingGates rnd (Aggregate rnd scores) scores positional interval cfg)"
  shows "\<exists>s\<in>set scores. ts_Condition s = ConditionTreatment"
    and "\<forall>s\<in>set scores. ts_Condition s = ConditionTreatment \<longrightarrow> ts_Completed s \<and> \<not> (ts_IncompleteApproval s \<or> ts_StaleApproval s)"
    and "0 < bs_Lower interval"
    and "\<forall>s\<in>set scores. \<not> ts_Metamorphic s \<longrightarrow> ts_Client s \<noteq> [] \<longrightarrow>
      client_f1 rnd scores (ts_Client s) ConditionControl < client_f1 rnd scores (ts_Client s) ConditionTreatment"
    and "(let treated = filter (\<lambda>s. ts_Condition s = ConditionTreatment) scores in
      0 < total_of (\<lambda>s. ts_PrimaryRangesTotal s + ts_AuditTargetsTotal s) treated \<and>
      total_of (\<lambda>s. ts_PrimaryRangesCovered s + ts_AuditTargetsCovered s) treated =
        total_of (\<lambda>s. ts_PrimaryRangesTotal s + ts_AuditTargetsTotal s) treated)"
proof -
  note gates = assms [unfolded EvaluateShippingGates_def Let_def all_gates_def, simplified]
  show "\<exists>s\<in>set scores. ts_Condition s = ConditionTreatment"
    using gates by (auto simp: filter_empty_conv)
  show "\<forall>s\<in>set scores. ts_Condition s = ConditionTreatment \<longrightarrow> ts_Completed s \<and> \<not> (ts_IncompleteApproval s \<or> ts_StaleApproval s)"
    using gates by (auto simp: count_if_0 list_all_iff)
  show "0 < bs_Lower interval" using gates by simp
  show "(let treated = filter (\<lambda>s. ts_Condition s = ConditionTreatment) scores in
      0 < total_of (\<lambda>s. ts_PrimaryRangesTotal s + ts_AuditTargetsTotal s) treated \<and>
      total_of (\<lambda>s. ts_PrimaryRangesCovered s + ts_AuditTargetsCovered s) treated =
        total_of (\<lambda>s. ts_PrimaryRangesTotal s + ts_AuditTargetsTotal s) treated)"
    using gates by simp
  have "list_all (\<lambda>(_, m). \<not> mt_F1 (bc_Treatment m) \<le> mt_F1 (bc_Control m)) (ag_ByClient (Aggregate rnd scores))"
    using gates by simp
  then show "\<forall>s\<in>set scores. \<not> ts_Metamorphic s \<longrightarrow> ts_Client s \<noteq> [] \<longrightarrow>
      client_f1 rnd scores (ts_Client s) ConditionControl < client_f1 rnd scores (ts_Client s) ConditionTreatment"
    by (fastforce simp: Aggregate_def per_condition_def list_all_iff Let_def client_metric not_le)
qed

text \<open>
  C9: What it takes to ship.  If the gates pass, there was a treatment trial; each of them completed, and none of them
  approved unless a checker had reported the review complete, with every range and every audit target
  covered, and not stale; the lower end of the bootstrap interval is positive; all ranges and targets of the
  treatment trials were covered in sum; and every named client found more under treatment than under control.
\<close>

theorem gates_passed_safe:
  assumes "score_collection rnd draw cases triples cfg production records edges = Inr (scores, gates)" and "ga_Passed gates"
  shows "(\<exists>r\<in>set records. tr_Condition r = ConditionTreatment) \<and>
    (\<forall>r\<in>set records. tr_Condition r = ConditionTreatment \<longrightarrow> tr_Status r = StatusCompleted \<and>
       (\<exists>out. tr_Output r = Some out \<and> eo_Status out = StatusCompleted) \<and> sound_approval r) \<and>
    (\<exists>iv. Bootstrap rnd draw scores (sg_Seed cfg) (sg_BootstrapReplicates cfg) production = Inr iv \<and> 0 < bs_Lower iv) \<and>
    (\<forall>s\<in>set scores. \<not> ts_Metamorphic s \<longrightarrow> ts_Client s \<noteq> [] \<longrightarrow>
       client_f1 rnd scores (ts_Client s) ConditionControl < client_f1 rnd scores (ts_Client s) ConditionTreatment) \<and>
    (let treated = filter (\<lambda>s. ts_Condition s = ConditionTreatment) scores in
      0 < total_of (\<lambda>s. ts_PrimaryRangesTotal s + ts_AuditTargetsTotal s) treated \<and>
      total_of (\<lambda>s. ts_PrimaryRangesCovered s + ts_AuditTargetsCovered s) treated =
        total_of (\<lambda>s. ts_PrimaryRangesTotal s + ts_AuditTargetsTotal s) treated)"
proof -
  obtain iv where iv: "Bootstrap rnd draw scores (sg_Seed cfg) (sg_BootstrapReplicates cfg) production = Inr iv"
    and scores: "scores = map (collection_score cases edges) records"
    and "gates = EvaluateShippingGates rnd (Aggregate rnd scores) scores (ScoreMetamorphic rnd scores triples) iv cfg"
    using assms(1) by (auto simp: score_collection_def Let_def bindE_eq_Inr)
  with assms(2) have "ga_Passed (EvaluateShippingGates rnd (Aggregate rnd scores) scores (ScoreMetamorphic rnd scores triples) iv cfg)"
    by simp
  note passed = gates_passed [OF this]
  have "tr_Status r = StatusCompleted \<and> (\<exists>out. tr_Output r = Some out \<and> eo_Status out = StatusCompleted) \<and> sound_approval r"
    if r: "r \<in> set records" "tr_Condition r = ConditionTreatment" for r
  proof -
    let ?truth = "ec_GroundTruth (case_of cases (tr_CaseID r))"
    have "ts_Completed (ScoreTrial r ?truth edges)"
      "\<not> (ts_IncompleteApproval (ScoreTrial r ?truth edges) \<or> ts_StaleApproval (ScoreTrial r ?truth edges))"
      using bspec [OF passed(2), of "collection_score cases edges r"] r by (simp_all add: scores collection_score_def Let_def)
    then show ?thesis using ScoreTrial_approval [OF r(2)] completed_iff [of r ?truth edges] by simp
  qed
  moreover have "\<exists>r\<in>set records. tr_Condition r = ConditionTreatment" using passed(1) by (auto simp: scores)
  ultimately show ?thesis using iv passed(3,4,5) by blast
qed

section \<open>The small evaluation passes\<close>

definition sample_config :: scoring_config where
  "sample_config = \<lparr>sg_Seed = 7, sg_BootstrapReplicates = 2, sg_MinimumF1Delta = 0, sg_MaximumPrecisionDrop = 0,
     sg_MaximumPositionalSensitivity = 0, sg_MaximumTokenRatio = 0\<rparr>"

lemma sample_passes:
  "case score_collection id (\<lambda>_ _ _. 0) sample_cases [] sample_config False sample_trials (aj_Edges sample_adjudication) of
     Inl e \<Rightarrow> False | Inr (scores, gates) \<Rightarrow> ga_Passed gates"
  by code_simp

theorem gates_passed_safe_witness:
  "\<exists>scores gates. score_collection id (\<lambda>_ _ _. 0) sample_cases [] sample_config False sample_trials (aj_Edges sample_adjudication) =
     Inr (scores, gates) \<and> ga_Passed gates \<and> sound_approval (sample_trial ''treatment'' [sample_eval_finding ''a''])"
proof -
  obtain scores gates where run: "score_collection id (\<lambda>_ _ _. 0) sample_cases [] sample_config False sample_trials
      (aj_Edges sample_adjudication) = Inr (scores, gates)" and passed: "ga_Passed gates"
    using sample_passes by (auto split: sum.splits)
  have "sample_trial ''treatment'' [sample_eval_finding ''a''] \<in> set sample_trials"
    "tr_Condition (sample_trial ''treatment'' [sample_eval_finding ''a'']) = ConditionTreatment"
    by (simp_all add: sample_trials_def sample_trial_def)
  then have "sound_approval (sample_trial ''treatment'' [sample_eval_finding ''a''])"
    using gates_passed_safe [OF run passed] by blast
  then show ?thesis using run passed by blast
qed

lemma sample_bootstrap:
  "case Bootstrap id (\<lambda>_ _ _. 0) (map (collection_score sample_cases [(''a'', ''c:1'')]) sample_trials) 7 2 False of
     Inl e \<Rightarrow> False | Inr iv \<Rightarrow> bs_Lower iv = 1"
  by code_simp

theorem Bootstrap_interval_witness:
  "\<exists>iv. Bootstrap id (\<lambda>_ _ _. 0) (map (collection_score sample_cases [(''a'', ''c:1'')]) sample_trials) 7 2 False = Inr iv \<and>
     bs_Lower iv = 1 \<and> bs_Upper iv = 1"
proof -
  let ?scores = "map (collection_score sample_cases [(''a'', ''c:1'')]) sample_trials"
  obtain iv where iv: "Bootstrap id (\<lambda>_ _ _. 0) ?scores 7 2 False = Inr iv" "bs_Lower iv = 1"
    using sample_bootstrap by (auto split: sum.splits)
  have "counts_ok (collection_score sample_cases es r)" for es r
    using ScoreTrial_score_ok [of "ec_GroundTruth (case_of sample_cases (tr_CaseID r))" r es]
    by (simp add: collection_score_def counts_ok_def score_ok_def Let_def)
  then have "bs_Lower iv \<le> bs_Upper iv \<and> bs_Upper iv \<le> 1"
    using Bootstrap_interval [OF iv(1)] by (auto simp: rounding_ok_def)
  then show ?thesis using iv by auto
qed

end
